(* ===== verification/Prelude.thy ===== *)
theory Prelude
  imports Main "HOL-Library.Word" "HOL-Library.Sublist"
begin

text \<open>
  Shared vocabulary of the development: the widths of the Go integers the sources use, names
  for the octets the protocol grammars mention, conversion of string literals to octets, and the
  generic facts about lists and words that the component proofs share.
\<close>

unbundle bit_operations_syntax

subsection \<open>Types and octets\<close>

type_synonym byte = "8 word"
type_synonym u8 = "8 word"
type_synonym u16 = "16 word"
type_synonym u32 = "32 word"
type_synonym u64 = "64 word"
type_synonym bytes = "byte list"

abbreviation bHT :: byte where "bHT \<equiv> 0x09"
abbreviation bLF :: byte where "bLF \<equiv> 0x0A"
abbreviation bCR :: byte where "bCR \<equiv> 0x0D"
abbreviation bSP :: byte where "bSP \<equiv> 0x20"
abbreviation bDQUOTE :: byte where "bDQUOTE \<equiv> 0x22"
abbreviation bPERCENT :: byte where "bPERCENT \<equiv> 0x25"
abbreviation bSTAR :: byte where "bSTAR \<equiv> 0x2A"
abbreviation bCOMMA :: byte where "bCOMMA \<equiv> 0x2C"
abbreviation bDOT :: byte where "bDOT \<equiv> 0x2E"
abbreviation bSLASH :: byte where "bSLASH \<equiv> 0x2F"
abbreviation b0 :: byte where "b0 \<equiv> 0x30"
abbreviation b9 :: byte where "b9 \<equiv> 0x39"
abbreviation bCOLON :: byte where "bCOLON \<equiv> 0x3A"
abbreviation bSEMI :: byte where "bSEMI \<equiv> 0x3B"
abbreviation bEQ :: byte where "bEQ \<equiv> 0x3D"
abbreviation bQUESTION :: byte where "bQUESTION \<equiv> 0x3F"
abbreviation bAT :: byte where "bAT \<equiv> 0x40"
abbreviation bA :: byte where "bA \<equiv> 0x41"
abbreviation bZ :: byte where "bZ \<equiv> 0x5A"
abbreviation bLBRACK :: byte where "bLBRACK \<equiv> 0x5B"
abbreviation bBACKSLASH :: byte where "bBACKSLASH \<equiv> 0x5C"
abbreviation bRBRACK :: byte where "bRBRACK \<equiv> 0x5D"
abbreviation ba :: byte where "ba \<equiv> 0x61"
abbreviation bz :: byte where "bz \<equiv> 0x7A"

text \<open>The octets of a Go string literal.\<close>

definition lit :: "string \<Rightarrow> bytes" where
  "lit s = map of_char s"

lemma lit_simps [simp]:
  "lit [] = []" "lit (c # cs) = of_char c # lit cs"
  by (simp_all add: lit_def)

lemma length_lit [simp]: "length (lit s) = length s"
  by (simp add: lit_def)

subsection \<open>Words\<close>

named_theorems word_facts \<open>bounds on words that saturating counters need\<close>

lemma word_step_le [word_facts]:
  fixes x y :: "'a::len word"
  assumes "x \<le> y" "x \<noteq> y"
  shows "x + 1 \<le> y"
  using assms by (simp add: inc_le)

lemma word_step_unat [word_facts]:
  fixes x y :: "'a::len word"
  assumes "x \<le> y" "x \<noteq> y"
  shows "unat (x + 1) = unat x + 1"
proof -
  from assms have "x < y" by simp
  then have "unat x < unat y" by (simp add: word_less_nat_alt)
  moreover have "unat y < 2 ^ LENGTH('a)" by (rule unsigned_less)
  ultimately have "unat x + 1 < 2 ^ LENGTH('a)" by linarith
  then show ?thesis by (simp add: unat_word_ariths)
qed

lemma unat_plus_of_nat [word_facts]:
  fixes a :: "'a::len word"
  assumes "unat a + k < 2 ^ LENGTH('a)"
  shows "unat (a + of_nat k) = unat a + k"
proof -
  have "unat (of_nat k :: 'a word) = k" using assms by (simp add: unat_of_nat take_bit_nat_eq_self)
  then show ?thesis using assms by (simp add: unat_word_ariths)
qed

lemma unat_minus_le [word_facts]:
  fixes a b :: "'a::len word"
  assumes "unat b \<le> unat a"
  shows "unat (a - b) = unat a - unat b"
  using assms by (simp add: unat_sub word_le_nat_alt)

end
