(* ===== verification/Http1_Types.thy ===== *)
theory Http1_Types
  imports Prelude
begin

text \<open>
  The data of the HTTP/1 parser (src/http/parser.go, lines 9 to 511): message kinds, limits,
  result codes, methods, message snapshots, the callback table and the parser structure itself,
  one record field per structure field, each at the width the source gives it.

  A callback is caller code. It cannot reach the parser's fields; what it can do to the parser
  is to call one of its methods again, and every such call ends in
  \<open>p.fail(CodeReentrantCall)\<close> because \<open>p.parsing\<close> is set (lemma
  \<open>reentrant_calls_fail\<close> of the parser theory). A callback is therefore modelled by the
  function that says, from the history of all callback invocations so far (the present one
  included, with its arguments, as the last), whether this invocation re-enters the parser.
  Operations that call callbacks take the history and return it extended.
\<close>

subsection \<open>Kinds, codes, methods\<close>

datatype message_kind = Request | Response | KindOther u8

datatype result_code =
    CodeNone | CodeUpgrade | CodeReentrantCall | CodeInvalidKind | CodeInvalidStartLine
  | CodeInvalidMethod | CodeInvalidTarget | CodeInvalidVersion | CodeInvalidStatus
  | CodeInvalidHeaderName | CodeInvalidHeaderValue | CodeInvalidLineEnding
  | CodeStartLineTooLarge | CodeHeadersTooLarge | CodeHeaderNameTooLarge
  | CodeChunkLineTooLarge | CodeChunkMetadataTooLarge | CodeTooManyChunks
  | CodeTooManyHeaders | CodeInvalidContentLength | CodeContentLengthConflict
  | CodeInvalidTransferEncoding | CodeMissingHost | CodeDuplicateHost | CodeBodyTooLarge
  | CodeInvalidChunkSize | CodeInvalidChunkExtension | CodeUnexpectedEOF

fun code_String :: "result_code \<Rightarrow> string" where
  "code_String CodeNone = ''ok''"
| "code_String CodeUpgrade = ''protocol upgrade''"
| "code_String CodeReentrantCall = ''reentrant parser call''"
| "code_String CodeInvalidKind = ''invalid parser kind''"
| "code_String CodeInvalidStartLine = ''invalid start line''"
| "code_String CodeInvalidMethod = ''invalid method''"
| "code_String CodeInvalidTarget = ''invalid request target''"
| "code_String CodeInvalidVersion = ''invalid HTTP version''"
| "code_String CodeInvalidStatus = ''invalid response status''"
| "code_String CodeInvalidHeaderName = ''invalid header name''"
| "code_String CodeInvalidHeaderValue = ''invalid header value''"
| "code_String CodeInvalidLineEnding = ''invalid line ending''"
| "code_String CodeStartLineTooLarge = ''start line too large''"
| "code_String CodeHeadersTooLarge = ''headers too large''"
| "code_String CodeHeaderNameTooLarge = ''header name too large''"
| "code_String CodeChunkLineTooLarge = ''chunk line too large''"
| "code_String CodeChunkMetadataTooLarge = ''chunk metadata too large''"
| "code_String CodeTooManyChunks = ''too many chunks''"
| "code_String CodeTooManyHeaders = ''too many headers''"
| "code_String CodeInvalidContentLength = ''invalid Content-Length''"
| "code_String CodeContentLengthConflict = ''conflicting message framing''"
| "code_String CodeInvalidTransferEncoding = ''invalid Transfer-Encoding''"
| "code_String CodeMissingHost = ''missing Host header''"
| "code_String CodeDuplicateHost = ''duplicate Host header''"
| "code_String CodeBodyTooLarge = ''body too large''"
| "code_String CodeInvalidChunkSize = ''invalid chunk size''"
| "code_String CodeInvalidChunkExtension = ''invalid chunk extension''"
| "code_String CodeUnexpectedEOF = ''unexpected EOF''"

datatype method_id =
    MethodOther | MethodGET | MethodHEAD | MethodPOST | MethodPUT | MethodDELETE
  | MethodCONNECT | MethodOPTIONS | MethodTRACE | MethodPATCH

text \<open>The methods in the order of their constants, and their table of names; the entry of
  \<open>MethodOther\<close> is the empty string, as in the Go array literal.\<close>

definition methods :: "method_id list" where
  "methods = [MethodOther, MethodGET, MethodHEAD, MethodPOST, MethodPUT, MethodDELETE,
     MethodCONNECT, MethodOPTIONS, MethodTRACE, MethodPATCH]"

definition methodNames :: "bytes list" where
  "methodNames = [[], lit ''GET'', lit ''HEAD'', lit ''POST'', lit ''PUT'', lit ''DELETE'',
     lit ''CONNECT'', lit ''OPTIONS'', lit ''TRACE'', lit ''PATCH'']"

fun method_String :: "method_id \<Rightarrow> bytes" where
  "method_String MethodOther = lit ''OTHER''"
| "method_String MethodGET = methodNames ! 1"
| "method_String MethodHEAD = methodNames ! 2"
| "method_String MethodPOST = methodNames ! 3"
| "method_String MethodPUT = methodNames ! 4"
| "method_String MethodDELETE = methodNames ! 5"
| "method_String MethodCONNECT = methodNames ! 6"
| "method_String MethodOPTIONS = methodNames ! 7"
| "method_String MethodTRACE = methodNames ! 8"
| "method_String MethodPATCH = methodNames ! 9"

subsection \<open>Limits\<close>

record limits_t =
  MaxStartLineBytes :: u32
  MaxHeaderBytes :: u32
  MaxChunkLineBytes :: u32
  MaxChunks :: u32
  MaxChunkMetadataBytes :: u64
  MaxHeaderNameBytes :: u16
  MaxHeaders :: u16
  MaxBodyBytes :: u64

text \<open>Zero selects the default: \<open>8 << 10\<close>, \<open>32 << 10\<close>, \<open>8 << 10\<close>,
  \<open>1 << 16\<close>, \<open>1 << 20\<close>, \<open>256\<close>, \<open>100\<close> and \<open>64 << 20\<close>.\<close>

definition normalized :: "limits_t \<Rightarrow> limits_t" where
  "normalized l =
     \<lparr>MaxStartLineBytes = (if MaxStartLineBytes l = 0 then 8192 else MaxStartLineBytes l),
      MaxHeaderBytes = (if MaxHeaderBytes l = 0 then 32768 else MaxHeaderBytes l),
      MaxChunkLineBytes = (if MaxChunkLineBytes l = 0 then 8192 else MaxChunkLineBytes l),
      MaxChunks = (if MaxChunks l = 0 then 65536 else MaxChunks l),
      MaxChunkMetadataBytes =
        (if MaxChunkMetadataBytes l = 0 then 1048576 else MaxChunkMetadataBytes l),
      MaxHeaderNameBytes = (if MaxHeaderNameBytes l = 0 then 256 else MaxHeaderNameBytes l),
      MaxHeaders = (if MaxHeaders l = 0 then 100 else MaxHeaders l),
      MaxBodyBytes = (if MaxBodyBytes l = 0 then 67108864 else MaxBodyBytes l)\<rparr>"

subsection \<open>Messages and callbacks\<close>

record message_t =
  msgKind :: message_kind
  msgMethod :: method_id
  msgStatus :: u16
  msgMajor :: u16
  msgMinor :: u16
  msgContentLength :: u64
  msgHasContentLength :: bool
  msgKeepAlive :: bool
  msgMessageNumber :: u64
  msgExchangeNumber :: u64
  msgUpgradeRequested :: bool
  msgConnectRequested :: bool

text \<open>One constructor per callback of the table, with the arguments it is called with.\<close>

datatype event =
    EvResponseContext u64 | EvMessageBegin | EvMethod bytes | EvTarget bytes | EvReason bytes
  | EvStartLine message_t | EvHeaderName bytes | EvHeaderValue bytes | EvHeaderEnd bool
  | EvHeadersComplete message_t | EvChunkHeader u64 | EvBody bytes | EvChunkComplete
  | EvMessageComplete message_t

type_synonym history = "event list"
type_synonym callback = "history \<Rightarrow> bool"

text \<open>\<open>None\<close> is a nil function. \<open>ResponseContext\<close> also returns the pair
  \<open>(head, connect)\<close>.\<close>

record callback_table =
  cbResponseContext :: "((history \<Rightarrow> bool \<times> bool) \<times> callback) option"
  cbMessageBegin :: "callback option"
  cbMethod :: "callback option"
  cbTarget :: "callback option"
  cbReason :: "callback option"
  cbStartLine :: "callback option"
  cbHeaderName :: "callback option"
  cbHeaderValue :: "callback option"
  cbHeaderEnd :: "callback option"
  cbHeadersComplete :: "callback option"
  cbChunkHeader :: "callback option"
  cbBody :: "callback option"
  cbChunkComplete :: "callback option"
  cbMessageComplete :: "callback option"

subsection \<open>Automaton states\<close>

datatype target_form =
  targetUnknown | targetOrigin | targetAsterisk | targetScheme | targetAbsolute | targetAuthority

datatype parser_state =
    stateStart | stateLeadingLF | stateReqMethod | stateReqTarget | stateReqHTTP
  | stateVersionMajor | stateVersionDot | stateVersionMinor | stateReqLineCR | stateReqLineLF
  | stateResHTTP | stateResSpaceBeforeStatus | stateResStatus | stateResReasonStart
  | stateResReason | stateResLineLF | stateHeaderStart | stateHeaderName
  | stateHeaderValueStart | stateHeaderValue | stateHeaderValueLF | stateHeadersLF
  | stateFixedBody | stateCloseBody | stateChunkSizeStart | stateChunkSize | stateChunkExt
  | stateChunkSizeLF | stateChunkBody | stateChunkBodyCR | stateChunkBodyLF | stateUpgrade
  | stateDead

datatype field_kind =
    fieldOther | fieldContentLength | fieldTransferEncoding | fieldConnection | fieldUpgrade
  | fieldHost | fieldTrailer

definition fieldKinds :: "field_kind list" where
  "fieldKinds = [fieldOther, fieldContentLength, fieldTransferEncoding, fieldConnection,
     fieldUpgrade, fieldHost, fieldTrailer]"

definition fieldNames :: "bytes list" where
  "fieldNames = [[], lit ''content-length'', lit ''transfer-encoding'', lit ''connection'',
     lit ''upgrade'', lit ''host'', lit ''trailer'']"

datatype transfer_state =
    transferBeforeToken | transferToken | transferAfterToken | transferParamBeforeName
  | transferParamName | transferParamAfterName | transferParamBeforeValue
  | transferParamTokenValue | transferParamQuoted | transferParamQuotedEscape
  | transferParamAfterValue

datatype connection_state = connectionBeforeToken | connectionToken | connectionAfterToken

datatype host_state =
    hostStart | hostRegName | hostPercentFirst | hostPercentSecond | hostIPLiteral
  | hostAfterLiteral | hostPortStart | hostPort | hostTrailing

datatype upgrade_state =
    upgradeBeforeProtocol | upgradeName | upgradeAfterName | upgradeVersionStart
  | upgradeVersion | upgradeAfterProtocol

datatype chunk_ext_state =
    chunkExtBeforeName | chunkExtName | chunkExtAfterName | chunkExtBeforeValue
  | chunkExtTokenValue | chunkExtQuotedValue | chunkExtQuotedEscape | chunkExtAfterValue

subsection \<open>The parser structure\<close>

record parser =
  callbacks :: "callback_table option"
  limits :: limits_t
  kind :: message_kind
  state :: parser_state
  code :: result_code
  major :: u16
  minor :: u16
  status :: u16
  meth :: method_id
  messageNum :: u64
  exchangeNum :: u64
  startBytes :: u32
  prefixBytes :: u32
  headerBytes :: u32
  chunkLineBytes :: u32
  chunkCount :: u32
  chunkMetadataBytes :: u64
  headerCount :: u16
  headerNameBytes :: u16
  bodyBytes :: u64
  remaining :: u64
  chunkSize :: u64
  literalPos :: u8
  statusDigits :: u8
  methodPos :: u8
  methodMask :: u16
  targetBytes :: u32
  targetPercent :: u8
  targetForm :: target_form
  targetAuthorityBracket :: bool
  targetAuthorityClosed :: bool
  targetAuthorityColon :: bool
  targetAuthorityPort :: bool
  ipLiteral :: bytes
  ipLiteralLen :: u16
  fieldPos :: u16
  fieldMask :: u16
  field :: field_kind
  messageActive :: bool
  trailers :: bool
  hasContentLength :: bool
  hasTransferEncoding :: bool
  hasHost :: bool
  hostNonEmpty :: bool
  hostLiteralNonEmpty :: bool
  hostState :: host_state
  hasUpgrade :: bool
  upgradeState :: upgrade_state
  upgradeSawProtocol :: bool
  connectionClose :: bool
  connectionUpgrade :: bool
  connectionKeepAlive :: bool
  responseToHEAD :: bool
  responseToCONNECT :: bool
  parsing :: bool
  pauseAfterMessage :: bool
  paused :: bool
  contentLengthDigits :: bool
  contentLengthTrailing :: bool
  transferState :: transfer_state
  transferTokenPos :: u8
  transferChunked :: bool
  transferCurrentChunked :: bool
  transferSawToken :: bool
  transferSawChunked :: bool
  connectionState :: connection_state
  connectionTokenPos :: u8
  connectionCloseMatch :: bool
  connectionUpgradeMatch :: bool
  connectionKeepAliveMatch :: bool
  chunkDigits :: bool
  chunkExtState :: chunk_ext_state

text \<open>\<open>Parser{kind: k, callbacks: cb, limits: l, state: stateStart}\<close>: every field not
  named has its zero value; \<open>maxIPLiteralBytes\<close> is 64.\<close>

definition maxIPLiteralBytes :: nat where
  "maxIPLiteralBytes = 64"

definition zero_parser :: "message_kind \<Rightarrow> callback_table option \<Rightarrow> limits_t \<Rightarrow> parser" where
  "zero_parser k cb l =
     \<lparr>callbacks = cb, limits = l, kind = k, state = stateStart, code = CodeNone,
      major = 0, minor = 0, status = 0, meth = MethodOther, messageNum = 0, exchangeNum = 0,
      startBytes = 0, prefixBytes = 0, headerBytes = 0, chunkLineBytes = 0, chunkCount = 0,
      chunkMetadataBytes = 0, headerCount = 0, headerNameBytes = 0, bodyBytes = 0,
      remaining = 0, chunkSize = 0, literalPos = 0, statusDigits = 0, methodPos = 0,
      methodMask = 0, targetBytes = 0, targetPercent = 0, targetForm = targetUnknown,
      targetAuthorityBracket = False, targetAuthorityClosed = False,
      targetAuthorityColon = False, targetAuthorityPort = False,
      ipLiteral = replicate maxIPLiteralBytes 0, ipLiteralLen = 0, fieldPos = 0, fieldMask = 0,
      field = fieldOther, messageActive = False, trailers = False, hasContentLength = False,
      hasTransferEncoding = False, hasHost = False, hostNonEmpty = False,
      hostLiteralNonEmpty = False, hostState = hostStart, hasUpgrade = False,
      upgradeState = upgradeBeforeProtocol, upgradeSawProtocol = False,
      connectionClose = False, connectionUpgrade = False, connectionKeepAlive = False,
      responseToHEAD = False, responseToCONNECT = False, parsing = False,
      pauseAfterMessage = False, paused = False, contentLengthDigits = False,
      contentLengthTrailing = False, transferState = transferBeforeToken,
      transferTokenPos = 0, transferChunked = False, transferCurrentChunked = False,
      transferSawToken = False, transferSawChunked = False,
      connectionState = connectionBeforeToken, connectionTokenPos = 0,
      connectionCloseMatch = False, connectionUpgradeMatch = False,
      connectionKeepAliveMatch = False, chunkDigits = False,
      chunkExtState = chunkExtBeforeName\<rparr>"

end
