(* ===== verification/Http1_Lexical.thy ===== *)
theory Http1_Lexical
  imports Prelude
begin

text \<open>
  Octet classes of the HTTP/1 grammars and the bracketed IP literal of a Host field or a CONNECT
  target (src/http/parser.go, lines 2398 to 2527). \<open>validIPLiteral\<close> hands the decoded text
  to \<open>netip.ParseAddr\<close> of the Go standard library and keeps the IPv6 results;
  \<open>netip_ParseAddr_Is6\<close> models that: whether the library accepts the text as an IPv6
  address.
\<close>

subsection \<open>Octet classes\<close>

definition isDigit :: "byte \<Rightarrow> bool" where
  "isDigit b \<longleftrightarrow> b0 \<le> b \<and> b \<le> b9"

definition isUpper :: "byte \<Rightarrow> bool" where
  "isUpper b \<longleftrightarrow> bA \<le> b \<and> b \<le> bZ"

definition isLower :: "byte \<Rightarrow> bool" where
  "isLower b \<longleftrightarrow> ba \<le> b \<and> b \<le> bz"

definition isOWS :: "byte \<Rightarrow> bool" where
  "isOWS b \<longleftrightarrow> b = bSP \<or> b = bHT"

definition isSchemeChar :: "byte \<Rightarrow> bool" where
  "isSchemeChar b \<longleftrightarrow> isDigit b \<or> isUpper b \<or> isLower b \<or> b \<in> set (lit ''+-.'')"

definition validTargetByte :: "byte \<Rightarrow> bool" where
  "validTargetByte b \<longleftrightarrow> isDigit b \<or> isUpper b \<or> isLower b \<or>
     b \<in> set ([0x21, 0x24, 0x25, 0x26, 0x27] @ lit ''()*+,-./:;=?@[]_~'')"

definition isQDText :: "byte \<Rightarrow> bool" where
  "isQDText b \<longleftrightarrow> b = bHT \<or> b = bSP \<or> b = 0x21 \<or> 0x23 \<le> b \<and> b \<le> 0x5b \<or>
     0x5d \<le> b \<and> b \<le> 0x7e \<or> 0x80 \<le> b"

definition isQuotedPairByte :: "byte \<Rightarrow> bool" where
  "isQuotedPairByte b \<longleftrightarrow> b = bHT \<or> b = bSP \<or> 0x21 \<le> b \<and> b \<le> 0x7e \<or> 0x80 \<le> b"

definition validReasonByte :: "byte \<Rightarrow> bool" where
  "validReasonByte b \<longleftrightarrow> b = bHT \<or> 0x20 \<le> b \<and> b \<noteq> 0x7f"

definition validFieldValueByte :: "byte \<Rightarrow> bool" where
  "validFieldValueByte b \<longleftrightarrow> b = bHT \<or> 0x20 \<le> b \<and> b \<noteq> 0x7f"

definition asciiLower :: "byte \<Rightarrow> byte" where
  "asciiLower b = (if bA \<le> b \<and> b \<le> bZ then b + (ba - bA) else b)"

definition isTChar :: "byte \<Rightarrow> bool" where
  "isTChar b \<longleftrightarrow> isDigit b \<or> isUpper b \<or> isLower b \<or>
     b \<in> set ([0x21, 0x23, 0x24, 0x25, 0x26, 0x27] @ lit ''*+-.^_`|~'')"

definition isRegNameChar :: "byte \<Rightarrow> bool" where
  "isRegNameChar b \<longleftrightarrow> isDigit b \<or> isUpper b \<or> isLower b \<or>
     b \<in> set ([0x21, 0x24, 0x26, 0x27] @ lit ''()*+-.;=_~'')"

definition isHexByte :: "byte \<Rightarrow> bool" where
  "isHexByte b \<longleftrightarrow> isDigit b \<or> ba \<le> b \<and> b \<le> 0x66 \<or> bA \<le> b \<and> b \<le> 0x46"

text \<open>\<open>None\<close> is the result \<open>(0, false)\<close>.\<close>

definition hexValue :: "byte \<Rightarrow> byte option" where
  "hexValue b =
     (if isDigit b then Some (b - b0)
      else if ba \<le> b \<and> b \<le> 0x66 then Some (b - ba + 10)
      else if bA \<le> b \<and> b \<le> 0x46 then Some (b - bA + 10)
      else None)"

definition validHTTPVersion :: "u16 \<Rightarrow> u16 \<Rightarrow> bool" where
  "validHTTPVersion maj mnr \<longleftrightarrow> maj = 1 \<and> (mnr = 0 \<or> mnr = 1)"

subsection \<open>The standard library's IPv6 parser\<close>

text \<open>\<open>parseIPv4Fields\<close>: the previous octet (\<open>None\<close> at the start), the value, the
  number of digits and the number of finished fields are its loop variables.\<close>

fun parseIPv4Fields :: "byte option \<Rightarrow> nat \<Rightarrow> nat \<Rightarrow> nat \<Rightarrow> bytes \<Rightarrow> bool" where
  "parseIPv4Fields prev val digLen pos [] \<longleftrightarrow> \<not> pos < 3"
| "parseIPv4Fields prev val digLen pos (c # s) \<longleftrightarrow>
     (if isDigit c then
        (if digLen = 1 \<and> val = 0 then False
         else let val' = val * 10 + unat (c - b0) in
           if val' > 255 then False
           else parseIPv4Fields (Some c) val' (digLen + 1) pos s)
      else if c = bDOT then
        (if prev = None \<or> s = [] \<or> prev = Some bDOT then False
         else if pos = 3 then False
         else parseIPv4Fields (Some c) 0 0 (pos + 1) s)
      else False)"

text \<open>One hexadecimal group: the accumulator and the offset when the digits end, or
  \<open>None\<close> for more than four digits (the accumulator then cannot pass \<open>0xffff\<close>
  before the digit count does).\<close>

fun hexGroup :: "nat \<Rightarrow> nat \<Rightarrow> bytes \<Rightarrow> (nat \<times> bytes) option" where
  "hexGroup off acc [] = Some (off, [])"
| "hexGroup off acc (c # s) =
     (case hexValue c of
        None \<Rightarrow> Some (off, c # s)
      | Some d \<Rightarrow>
          let acc' = acc * 16 + unat d in
          if off > 3 then None else if acc' > 65535 then None
          else hexGroup (off + 1) acc' s)"

text \<open>The group loop of \<open>parseIPv6\<close>: \<open>i\<close> octets of the address are written,
  \<open>ell\<close> tells whether the ellipsis was seen. The result is the number of octets written,
  whether the ellipsis was seen and the unread text; \<open>None\<close> is a returned error. At most
  eight groups fit, and each iteration writes two octets or stops, so the number of groups left
  bounds the recursion.\<close>

fun ipv6Groups :: "nat \<Rightarrow> nat \<Rightarrow> bool \<Rightarrow> bytes \<Rightarrow> (nat \<times> bool \<times> bytes) option" where
  "ipv6Groups 0 i ell s = Some (i, ell, s)"
| "ipv6Groups (Suc groups) i ell s =
     (case hexGroup 0 0 s of
        None \<Rightarrow> None
      | Some (off, t) \<Rightarrow>
          if off = 0 then None
          else if t \<noteq> [] \<and> hd t = bDOT then
            (if \<not> ell \<and> i \<noteq> 12 then None
             else if i + 4 > 16 then None
             else if \<not> parseIPv4Fields None 0 0 0 s then None
             else Some (i + 4, ell, []))
          else if t = [] then Some (i + 2, ell, [])
          else if hd t \<noteq> bCOLON then None
          else if tl t = [] then None
          else if hd (tl t) = bCOLON then
            (if ell then None
             else if tl (tl t) = [] then Some (i + 2, True, [])
             else ipv6Groups groups (i + 2) True (tl (tl t)))
          else ipv6Groups groups (i + 2) ell (tl t))"

definition parseIPv6 :: "bytes \<Rightarrow> bool" where
  "parseIPv6 inp =
     (let s = takeWhile (\<lambda>c. c \<noteq> bPERCENT) inp in
      if bPERCENT \<in> set inp \<and> drop (length s + 1) inp = [] then False
      else
        let lead = (length s \<ge> 2 \<and> s ! 0 = bCOLON \<and> s ! 1 = bCOLON);
            s' = (if lead then drop 2 s else s) in
        if lead \<and> s' = [] then True
        else case ipv6Groups 8 0 lead s' of
            None \<Rightarrow> False
          | Some (i, ell, rest) \<Rightarrow> rest = [] \<and> (if i < 16 then ell else \<not> ell))"

text \<open>\<open>ParseAddr\<close> chooses the grammar by the first \<open>'.'\<close>, \<open>':'\<close> or
  \<open>'%'\<close>; only the IPv6 grammar yields an address with \<open>Is6\<close>.\<close>

fun netip_ParseAddr_Is6_at :: "bytes \<Rightarrow> bytes \<Rightarrow> bool" where
  "netip_ParseAddr_Is6_at s [] \<longleftrightarrow> False"
| "netip_ParseAddr_Is6_at s (c # cs) \<longleftrightarrow>
     (if c = bDOT then False
      else if c = bCOLON then parseIPv6 s
      else if c = bPERCENT then False
      else netip_ParseAddr_Is6_at s cs)"

definition netip_ParseAddr_Is6 :: "bytes \<Rightarrow> bool" where
  "netip_ParseAddr_Is6 s = netip_ParseAddr_Is6_at s s"

subsection \<open>IP literals\<close>

text \<open>The decoding loop of \<open>validIPLiteral\<close>; the accumulator is
  \<open>decoded[:written]\<close>.\<close>

fun decodeIPLiteral :: "bytes \<Rightarrow> bytes \<Rightarrow> bytes option" where
  "decodeIPLiteral acc [] = Some acc"
| "decodeIPLiteral acc (b # rest) =
     (if b = bPERCENT then
        (case rest of
           h # l # rest' \<Rightarrow>
             (case (hexValue h, hexValue l) of
                (Some high, Some low) \<Rightarrow>
                  (let c = push_bit 4 high OR low in
                   if c = 0 \<or> length acc = 64 then None
                   else decodeIPLiteral (acc @ [c]) rest')
              | _ \<Rightarrow> None)
         | _ \<Rightarrow> None)
      else if b = 0 \<or> length acc = 64 then None
      else decodeIPLiteral (acc @ [b]) rest)"

definition validIPLiteral :: "bytes \<Rightarrow> bool" where
  "validIPLiteral raw =
     (if raw = [] \<or> length raw > 64 then False
      else case decodeIPLiteral [] raw of
          None \<Rightarrow> False
        | Some decoded \<Rightarrow> netip_ParseAddr_Is6 decoded)"

subsection \<open>Facts\<close>

named_theorems byte_class \<open>definitions of the octet classes\<close>

lemmas byte_class_defs [byte_class] =
  isDigit_def isUpper_def isLower_def isOWS_def isSchemeChar_def validTargetByte_def
  isQDText_def isQuotedPairByte_def validReasonByte_def validFieldValueByte_def isTChar_def
  isRegNameChar_def isHexByte_def

text \<open>Two ways to test for a hexadecimal digit agree.\<close>

lemma hexValue_None_iff: "hexValue b = None \<longleftrightarrow> \<not> isHexByte b"
  by (auto simp: hexValue_def isHexByte_def)

lemma hexValue_lt_16: "hexValue b = Some d \<Longrightarrow> unat d < 16"
  by (auto simp: hexValue_def isDigit_def word_le_nat_alt unat_sub_if_size word_size
        unat_word_ariths split: if_splits)

text \<open>A token octet is a field value octet, and never a separator.\<close>

lemma isTChar_fieldValue: "isTChar b \<Longrightarrow> validFieldValueByte b"
  by (auto simp: byte_class word_le_nat_alt)

lemma isTChar_not_separator:
  "isTChar b \<Longrightarrow> b \<noteq> bSP \<and> b \<noteq> bHT \<and> b \<noteq> bCR \<and> b \<noteq> bLF \<and> b \<noteq> bCOLON \<and> b \<noteq> bCOMMA \<and> b \<noteq> bSEMI"
  by (auto simp: byte_class)

end
