(* ===== verification/Http1_Core.thy ===== *)
theory Http1_Core
  imports Http1_Types Http1_Lexical
begin

text \<open>
  The small operations of the HTTP/1 parser that every state of the main loop uses
  (src/http/parser.go): recording a failure, calling a callback, the byte budgets, message
  snapshots and message boundaries, construction and reset. A method that returns a Boolean
  returns the pair of the new parser and that Boolean; \<open>return p.fail(c)\<close> is
  \<open>fail c\<close>, whose result's \<open>code\<close> is what the source returns.
\<close>

subsection \<open>Failure and callbacks\<close>

definition fail :: "result_code \<Rightarrow> parser \<Rightarrow> parser" where
  "fail c p = (if code p = CodeNone then p\<lparr>code := c, state := stateDead\<rparr> else p)"

text \<open>\<open>if p.callbacks != nil && p.callbacks.F != nil { p.callbacks.F(...) }\<close>: the call is
  appended to the history, and if it re-enters the parser, the parser has failed with
  \<open>CodeReentrantCall\<close> when the call returns.\<close>

definition invoke ::
  "(callback_table \<Rightarrow> callback option) \<Rightarrow> event \<Rightarrow> parser \<Rightarrow> history \<Rightarrow> parser \<times> history" where
  "invoke sel ev p h =
     (case callbacks p of
        None \<Rightarrow> (p, h)
      | Some cb \<Rightarrow>
          (case sel cb of
             None \<Rightarrow> (p, h)
           | Some reenters \<Rightarrow>
               (if reenters (h @ [ev]) then fail CodeReentrantCall p else p, h @ [ev])))"

subsection \<open>Budgets\<close>

definition takeStartByte :: "parser \<Rightarrow> parser \<times> bool" where
  "takeStartByte p =
     (if startBytes p = MaxStartLineBytes (limits p)
      then (fail CodeStartLineTooLarge p, False)
      else (p\<lparr>startBytes := startBytes p + 1\<rparr>, True))"

definition takePrefixByte :: "parser \<Rightarrow> parser \<times> bool" where
  "takePrefixByte p =
     (if prefixBytes p = MaxStartLineBytes (limits p)
      then (fail CodeStartLineTooLarge p, False)
      else (p\<lparr>prefixBytes := prefixBytes p + 1\<rparr>, True))"

definition takeHeaderByte :: "parser \<Rightarrow> parser \<times> bool" where
  "takeHeaderByte p =
     (if headerBytes p = MaxHeaderBytes (limits p)
      then (fail CodeHeadersTooLarge p, False)
      else (p\<lparr>headerBytes := headerBytes p + 1\<rparr>, True))"

definition takeChunkLineByte :: "parser \<Rightarrow> parser \<times> bool" where
  "takeChunkLineByte p =
     (if chunkLineBytes p = MaxChunkLineBytes (limits p)
      then (fail CodeChunkLineTooLarge p, False)
      else if MaxChunkMetadataBytes (limits p) \<le> chunkMetadataBytes p
      then (fail CodeChunkMetadataTooLarge p, False)
      else (p\<lparr>chunkLineBytes := chunkLineBytes p + 1,
              chunkMetadataBytes := chunkMetadataBytes p + 1\<rparr>, True))"

definition addBody :: "u64 \<Rightarrow> parser \<Rightarrow> parser \<times> bool" where
  "addBody n p =
     (if MaxBodyBytes (limits p) - bodyBytes p < n
      then (fail CodeBodyTooLarge p, False)
      else (p\<lparr>bodyBytes := bodyBytes p + n\<rparr>, True))"

subsection \<open>Snapshots\<close>

definition noBody :: "parser \<Rightarrow> bool" where
  "noBody p \<longleftrightarrow> responseToHEAD p \<or> 100 \<le> status p \<and> status p < 200 \<or> status p = 204 \<or>
     status p = 304 \<or> responseToCONNECT p \<and> 200 \<le> status p \<and> status p < 300"

definition KeepAlive :: "parser \<Rightarrow> bool" where
  "KeepAlive p =
     (if connectionClose p \<or> connectionUpgrade p \<and> hasUpgrade p \<or>
         kind p = Request \<and> meth p = MethodCONNECT
      then False
      else if kind p = Response \<and> \<not> noBody p \<and>
         (\<not> hasContentLength p \<and> \<not> hasTransferEncoding p \<or>
          hasTransferEncoding p \<and> \<not> transferChunked p)
      then False
      else if 1 < major p \<or> major p = 1 \<and> 1 \<le> minor p
      then True
      else connectionKeepAlive p)"

definition message :: "parser \<Rightarrow> message_t" where
  "message p =
     \<lparr>msgKind = kind p, msgMethod = meth p, msgStatus = status p,
      msgMajor = major p, msgMinor = minor p,
      msgContentLength = (if hasContentLength p then remaining p + bodyBytes p else 0),
      msgHasContentLength = hasContentLength p,
      msgKeepAlive = KeepAlive p, msgMessageNumber = messageNum p,
      msgExchangeNumber = exchangeNum p,
      msgUpgradeRequested = (kind p = Request \<and> connectionUpgrade p \<and> hasUpgrade p),
      msgConnectRequested = (kind p = Request \<and> meth p = MethodCONNECT)\<rparr>"

definition ContentLength :: "parser \<Rightarrow> u64 \<times> bool" where
  "ContentLength p = (remaining p + bodyBytes p, hasContentLength p)"

definition Upgraded :: "parser \<Rightarrow> bool" where
  "Upgraded p \<longleftrightarrow> state p = stateUpgrade"

subsection \<open>Message boundaries\<close>

text \<open>\<open>beginMessage\<close> first asks for the response context; the fields are then cleared and
  \<open>MessageBegin\<close> is called. \<open>(1 << 9) - 1\<close> is 511.\<close>

definition askResponseContext :: "parser \<Rightarrow> history \<Rightarrow> parser \<times> history" where
  "askResponseContext p h =
     (if kind p \<noteq> Response then (p, h)
      else case callbacks p of
          None \<Rightarrow> (p, h)
        | Some cb \<Rightarrow>
            (case cbResponseContext cb of
               None \<Rightarrow> (p, h)
             | Some (ctx, reenters) \<Rightarrow>
                 let h' = h @ [EvResponseContext (exchangeNum p)];
                     q = (if reenters h' then fail CodeReentrantCall p else p)
                 in (q\<lparr>responseToHEAD := fst (ctx h'), responseToCONNECT := snd (ctx h')\<rparr>, h')))"

definition clearMessage :: "parser \<Rightarrow> parser" where
  "clearMessage p = p\<lparr>
     major := 0, minor := 0, status := 0, meth := MethodOther, startBytes := 0,
     prefixBytes := 0, headerBytes := 0, chunkLineBytes := 0, chunkCount := 0,
     chunkMetadataBytes := 0, headerCount := 0, bodyBytes := 0, remaining := 0,
     chunkSize := 0, literalPos := 0, statusDigits := 0, methodPos := 0, methodMask := 511,
     targetBytes := 0, targetPercent := 0, targetForm := targetUnknown,
     targetAuthorityBracket := False, targetAuthorityClosed := False,
     targetAuthorityColon := False, targetAuthorityPort := False, ipLiteralLen := 0,
     hasContentLength := False, hasTransferEncoding := False, hasHost := False,
     hostNonEmpty := False, hostLiteralNonEmpty := False, hostState := hostStart,
     hasUpgrade := False, upgradeState := upgradeBeforeProtocol, upgradeSawProtocol := False,
     connectionClose := False, connectionUpgrade := False, connectionKeepAlive := False,
     trailers := False, messageActive := True\<rparr>"

definition beginMessage :: "parser \<Rightarrow> history \<Rightarrow> parser \<times> history" where
  "beginMessage p h =
     (let (q, h1) = askResponseContext p h in
      if code q \<noteq> CodeNone then (q, h1)
      else invoke cbMessageBegin EvMessageBegin (clearMessage q) h1)"

definition startLineComplete :: "parser \<Rightarrow> history \<Rightarrow> parser \<times> history" where
  "startLineComplete p h =
     (let (q, h1) = invoke cbStartLine (EvStartLine (message p)) p h in
      if code q \<noteq> CodeNone then (q, h1) else (q\<lparr>state := stateHeaderStart\<rparr>, h1))"

text \<open>\<open>(1 << 6) - 1\<close> is 63.\<close>

definition beginHeader :: "parser \<Rightarrow> parser" where
  "beginHeader p =
     (if MaxHeaders (limits p) \<le> headerCount p then fail CodeTooManyHeaders p
      else p\<lparr>headerCount := headerCount p + 1, headerNameBytes := 0, fieldPos := 0,
              fieldMask := 63, field := fieldOther\<rparr>)"

definition completeMessage :: "parser \<Rightarrow> history \<Rightarrow> parser \<times> history" where
  "completeMessage p h =
     (let (q, h1) = invoke cbMessageComplete (EvMessageComplete (message p)) p h in
      if code q \<noteq> CodeNone then (q, h1)
      else (q\<lparr>messageNum := messageNum q + 1,
               exchangeNum := (if kind q = Response \<and> (status q = 101 \<or> 200 \<le> status q)
                               then exchangeNum q + 1 else exchangeNum q),
               messageActive := False, trailers := False, state := stateStart,
               paused := pauseAfterMessage q\<rparr>, h1))"

subsection \<open>Construction, reset, response context\<close>

definition Init :: "message_kind \<Rightarrow> callback_table option \<Rightarrow> limits_t \<Rightarrow> parser \<Rightarrow> parser" where
  "Init k cb l p =
     (if parsing p then fail CodeReentrantCall p
      else let q = zero_parser k cb (normalized l) in
           if k \<noteq> Request \<and> k \<noteq> Response then fail CodeInvalidKind q else q)"

text \<open>\<open>var p Parser\<close> is the zero structure: kind 0, nil callbacks, zero limits.\<close>

definition zero_limits :: limits_t where
  "zero_limits = \<lparr>MaxStartLineBytes = 0, MaxHeaderBytes = 0, MaxChunkLineBytes = 0,
     MaxChunks = 0, MaxChunkMetadataBytes = 0, MaxHeaderNameBytes = 0, MaxHeaders = 0,
     MaxBodyBytes = 0\<rparr>"

definition NewParser :: "message_kind \<Rightarrow> callback_table option \<Rightarrow> limits_t \<Rightarrow> parser" where
  "NewParser k cb l = Init k cb l (zero_parser (KindOther 0) None zero_limits)"

definition Reset :: "parser \<Rightarrow> parser" where
  "Reset p =
     (if parsing p then fail CodeReentrantCall p
      else Init (kind p) (callbacks p) (limits p) p)"

definition SetResponseContext :: "bool \<Rightarrow> bool \<Rightarrow> parser \<Rightarrow> parser" where
  "SetResponseContext head connect p =
     (if parsing p then fail CodeReentrantCall p
      else p\<lparr>responseToHEAD := head, responseToCONNECT := connect\<rparr>)"

end
