(* ===== verification/Http1_Match.thy ===== *)
theory Http1_Match
  imports Http1_Core
begin

text \<open>
  Recognition of method names and of the framing-relevant field names by candidate bit masks
  (src/http/parser.go, lines 1542 to 1695 and 1299 to 1308). Bit \<open>i\<close> of a mask stands for
  entry \<open>i + 1\<close> of the name table. \<open>Http1_Names\<close> shows that the masks compute an exact
  (case-insensitive, for fields) comparison with the table.
\<close>

subsection \<open>Definitions\<close>

text \<open>\<open>bits.TrailingZeros16\<close>.\<close>

definition TrailingZeros16 :: "u16 \<Rightarrow> nat" where
  "TrailingZeros16 m = length (takeWhile (\<lambda>i. \<not> bit m i) [0..<16])"

text \<open>\<open>int(pos) >= len(name) || b != name[pos]\<close>.\<close>

definition mismatch :: "bytes \<Rightarrow> nat \<Rightarrow> byte \<Rightarrow> bool" where
  "mismatch name pos b \<longleftrightarrow> length name \<le> pos \<or> b \<noteq> name ! pos"

definition getBit :: u16 where "getBit = 1"
definition headBit :: u16 where "headBit = 2"
definition postBit :: u16 where "postBit = 4"
definition putBit :: u16 where "putBit = 8"
definition deleteBit :: u16 where "deleteBit = 16"
definition connectBit :: u16 where "connectBit = 32"
definition optionsBit :: u16 where "optionsBit = 64"
definition traceBit :: u16 where "traceBit = 128"
definition patchBit :: u16 where "patchBit = 256"

text \<open>The mask after one more octet, from the position, the old mask and the octet.\<close>

definition firstMethodMask :: "byte \<Rightarrow> u16" where
  "firstMethodMask b =
     (if b = 0x47 then getBit
      else if b = 0x48 then headBit
      else if b = 0x50 then postBit OR putBit OR patchBit
      else if b = 0x44 then deleteBit
      else if b = 0x43 then connectBit
      else if b = 0x4F then optionsBit
      else if b = 0x54 then traceBit
      else 0)"

definition nextMethodMask :: "nat \<Rightarrow> u16 \<Rightarrow> byte \<Rightarrow> u16" where
  "nextMethodMask pos msk b =
     (if msk AND (msk - 1) = 0 \<and> msk \<noteq> 0 then
        (if mismatch (methodNames ! (TrailingZeros16 msk + 1)) pos b then 0 else msk)
      else if msk \<noteq> 0 then
        (let m1 = (if msk AND postBit \<noteq> 0 \<and> mismatch (lit ''POST'') pos b
                   then msk AND NOT postBit else msk);
             m2 = (if msk AND putBit \<noteq> 0 \<and> mismatch (lit ''PUT'') pos b
                   then m1 AND NOT putBit else m1)
         in if msk AND patchBit \<noteq> 0 \<and> mismatch (lit ''PATCH'') pos b
            then m2 AND NOT patchBit else m2)
      else msk)"

definition matchMethod :: "byte \<Rightarrow> parser \<Rightarrow> parser" where
  "matchMethod b p =
     (let q = (if methodPos p = 0 then p\<lparr>methodMask := firstMethodMask b\<rparr>
               else p\<lparr>methodMask := nextMethodMask (unat (methodPos p)) (methodMask p) b\<rparr>)
      in if methodPos q \<noteq> 255 then q\<lparr>methodPos := methodPos q + 1\<rparr> else q)"

text \<open>The first table entry whose bit is set and whose length is the position.\<close>

definition selectName :: "bytes list \<Rightarrow> 'a list \<Rightarrow> u16 \<Rightarrow> nat \<Rightarrow> 'a" where
  "selectName names values msk pos =
     (case find (\<lambda>i. bit msk (i - 1) \<and> pos = length (names ! i)) [1..<length names] of
        Some i \<Rightarrow> values ! i
      | None \<Rightarrow> values ! 0)"

definition finishMethod :: "parser \<Rightarrow> parser" where
  "finishMethod p =
     p\<lparr>meth := selectName methodNames methods (methodMask p) (unat (methodPos p))\<rparr>"

definition contentLengthBit :: u16 where "contentLengthBit = 1"
definition transferEncodingBit :: u16 where "transferEncodingBit = 2"
definition connectionBit :: u16 where "connectionBit = 4"
definition upgradeBit :: u16 where "upgradeBit = 8"
definition hostBit :: u16 where "hostBit = 16"
definition trailerBit :: u16 where "trailerBit = 32"

definition firstFieldMask :: "byte \<Rightarrow> u16" where
  "firstFieldMask lower =
     (if lower = 0x63 then contentLengthBit OR connectionBit
      else if lower = 0x74 then transferEncodingBit OR trailerBit
      else if lower = 0x75 then upgradeBit
      else if lower = 0x68 then hostBit
      else 0)"

definition nextFieldMask :: "nat \<Rightarrow> u16 \<Rightarrow> byte \<Rightarrow> u16" where
  "nextFieldMask pos msk lower =
     (if msk = contentLengthBit then
        (if mismatch (lit ''content-length'') pos lower then 0 else msk)
      else if msk = transferEncodingBit then
        (if mismatch (lit ''transfer-encoding'') pos lower then 0 else msk)
      else if msk = connectionBit then
        (if mismatch (lit ''connection'') pos lower then 0 else msk)
      else if msk = upgradeBit then
        (if mismatch (lit ''upgrade'') pos lower then 0 else msk)
      else if msk = hostBit then
        (if mismatch (lit ''host'') pos lower then 0 else msk)
      else if msk = trailerBit then
        (if mismatch (lit ''trailer'') pos lower then 0 else msk)
      else if msk = contentLengthBit OR connectionBit then
        (let m = (if mismatch (lit ''content-length'') pos lower
                  then msk AND NOT contentLengthBit else msk)
         in if mismatch (lit ''connection'') pos lower then m AND NOT connectionBit else m)
      else if msk = transferEncodingBit OR trailerBit then
        (let m = (if mismatch (lit ''transfer-encoding'') pos lower
                  then msk AND NOT transferEncodingBit else msk)
         in if mismatch (lit ''trailer'') pos lower then m AND NOT trailerBit else m)
      else msk)"

definition matchField :: "byte \<Rightarrow> parser \<Rightarrow> parser" where
  "matchField b p =
     (let lower = asciiLower b;
          m = (if fieldPos p = 0 then firstFieldMask lower
               else nextFieldMask (unat (fieldPos p)) (fieldMask p) lower)
      in p\<lparr>fieldMask := m, fieldPos := fieldPos p + 1\<rparr>)"

text \<open>The candidate loop at the start of \<open>finishFieldName\<close>.\<close>

definition selectField :: "parser \<Rightarrow> field_kind" where
  "selectField p = selectName fieldNames fieldKinds (fieldMask p) (unat (fieldPos p))"

end
