(* ===== verification/Http1_Fields.thy ===== *)
theory Http1_Fields
  imports Http1_Match
begin

text \<open>
  The field value automata of the HTTP/1 parser (src/http/parser.go, lines 1310 to 1383 and 1697
  to 2178): Content-Length, Transfer-Encoding, Connection, Host and Upgrade, and the operations
  that start and finish a field. Each \<open>consume\<close> operation takes one octet of the value.
\<close>

subsection \<open>Field name\<close>

definition finishFieldName :: "parser \<Rightarrow> parser" where
  "finishFieldName p0 =
     (let p1 = p0\<lparr>field := selectField p0\<rparr>;
          p = (if kind p1 = Response \<and> \<not> trailers p1 \<and> field p1 = fieldHost
               then p1\<lparr>field := fieldOther\<rparr> else p1)
      in if trailers p \<and> (field p = fieldContentLength \<or> field p = fieldTransferEncoding \<or>
            field p = fieldConnection \<or> field p = fieldUpgrade \<or> field p = fieldHost \<or>
            field p = fieldTrailer)
         then fail CodeInvalidHeaderName p
         else case field p of
             fieldContentLength \<Rightarrow>
               (if hasContentLength p then fail CodeInvalidContentLength p
                else if hasTransferEncoding p then fail CodeContentLengthConflict p
                else p\<lparr>hasContentLength := True, contentLengthDigits := False,
                       contentLengthTrailing := False, remaining := 0\<rparr>)
           | fieldTransferEncoding \<Rightarrow>
               (if hasTransferEncoding p then fail CodeInvalidTransferEncoding p
                else if hasContentLength p then fail CodeContentLengthConflict p
                else p\<lparr>hasTransferEncoding := True, transferState := transferBeforeToken,
                       transferSawToken := False, transferSawChunked := False,
                       transferCurrentChunked := False, transferChunked := False\<rparr>)
           | fieldConnection \<Rightarrow> p\<lparr>connectionState := connectionBeforeToken\<rparr>
           | fieldHost \<Rightarrow>
               (if hasHost p then fail CodeDuplicateHost p
                else p\<lparr>hasHost := True, hostNonEmpty := False, hostLiteralNonEmpty := False,
                       hostState := hostStart\<rparr>)
           | fieldUpgrade \<Rightarrow>
               p\<lparr>upgradeState := upgradeBeforeProtocol, upgradeSawProtocol := False\<rparr>
           | _ \<Rightarrow> p)"

subsection \<open>Content-Length\<close>

definition consumeContentLength :: "byte \<Rightarrow> parser \<Rightarrow> parser \<times> bool" where
  "consumeContentLength b p =
     (if isOWS b then
        (if contentLengthDigits p then (p\<lparr>contentLengthTrailing := True\<rparr>, True) else (p, True))
      else if \<not> isDigit b \<or> contentLengthTrailing p then (fail CodeInvalidContentLength p, False)
      else
        let q = p\<lparr>contentLengthDigits := True\<rparr>; digit = ucast (b - b0) :: u64 in
        if (0xFFFFFFFFFFFFFFFF - digit) div 10 < remaining q
        then (fail CodeInvalidContentLength q, False)
        else (q\<lparr>remaining := remaining q * 10 + digit\<rparr>, True))"

subsection \<open>Transfer-Encoding\<close>

definition finishTransferToken :: "parser \<Rightarrow> parser" where
  "finishTransferToken p =
     (let cur = (transferCurrentChunked p \<and> transferTokenPos p = 7);
          q = p\<lparr>transferSawToken := True, transferCurrentChunked := cur, transferChunked := cur\<rparr>
      in if cur then
           (if transferSawChunked q then fail CodeInvalidTransferEncoding q
            else q\<lparr>transferSawChunked := True\<rparr>)
         else q)"

definition rejectTransfer :: "parser \<Rightarrow> parser \<times> bool" where
  "rejectTransfer p = (fail CodeInvalidTransferEncoding p, False)"

text \<open>Entering \<open>transferToken\<close> re-examines the same octet; the recursive call of the
  source is one level deep, so the token case is a definition of its own.\<close>

definition transferTokenByte :: "byte \<Rightarrow> parser \<Rightarrow> parser \<times> bool" where
  "transferTokenByte b p =
     (if isTChar b then
        (let q = (if mismatch (lit ''chunked'') (unat (transferTokenPos p)) (asciiLower b)
                  then p\<lparr>transferCurrentChunked := False\<rparr> else p)
         in (if transferTokenPos q \<noteq> 255
             then q\<lparr>transferTokenPos := transferTokenPos q + 1\<rparr> else q, True))
      else if transferTokenPos p = 0 then rejectTransfer p
      else
        let q = finishTransferToken p in
        if code q \<noteq> CodeNone then (q, False)
        else if isOWS b then (q\<lparr>transferState := transferAfterToken\<rparr>, True)
        else if b = bSEMI then
          (if transferChunked q then rejectTransfer q
           else (q\<lparr>transferState := transferParamBeforeName\<rparr>, True))
        else if b = bCOMMA then (q\<lparr>transferState := transferBeforeToken\<rparr>, True)
        else rejectTransfer q)"

definition consumeTransferValue :: "byte \<Rightarrow> parser \<Rightarrow> parser \<times> bool" where
  "consumeTransferValue b p =
     (case transferState p of
        transferBeforeToken \<Rightarrow>
          (if isOWS b then (p, True)
           else if \<not> isTChar b \<or> transferSawChunked p \<and> kind p = Request then rejectTransfer p
           else transferTokenByte b
             (p\<lparr>transferState := transferToken, transferTokenPos := 0,
                transferCurrentChunked := True\<rparr>))
      | transferToken \<Rightarrow> transferTokenByte b p
      | transferAfterToken \<Rightarrow>
          (if isOWS b then (p, True)
           else if b = bSEMI then
             (if transferChunked p then rejectTransfer p
              else (p\<lparr>transferState := transferParamBeforeName\<rparr>, True))
           else if b = bCOMMA then (p\<lparr>transferState := transferBeforeToken\<rparr>, True)
           else rejectTransfer p)
      | transferParamBeforeName \<Rightarrow>
          (if isOWS b then (p, True)
           else if \<not> isTChar b then rejectTransfer p
           else (p\<lparr>transferState := transferParamName\<rparr>, True))
      | transferParamName \<Rightarrow>
          (if isTChar b then (p, True)
           else if isOWS b then (p\<lparr>transferState := transferParamAfterName\<rparr>, True)
           else if b = bEQ then (p\<lparr>transferState := transferParamBeforeValue\<rparr>, True)
           else rejectTransfer p)
      | transferParamAfterName \<Rightarrow>
          (if isOWS b then (p, True)
           else if b = bEQ then (p\<lparr>transferState := transferParamBeforeValue\<rparr>, True)
           else rejectTransfer p)
      | transferParamBeforeValue \<Rightarrow>
          (if isOWS b then (p, True)
           else if b = bDQUOTE then (p\<lparr>transferState := transferParamQuoted\<rparr>, True)
           else if isTChar b then (p\<lparr>transferState := transferParamTokenValue\<rparr>, True)
           else rejectTransfer p)
      | transferParamTokenValue \<Rightarrow>
          (if isTChar b then (p, True)
           else if isOWS b then (p\<lparr>transferState := transferParamAfterValue\<rparr>, True)
           else if b = bSEMI then (p\<lparr>transferState := transferParamBeforeName\<rparr>, True)
           else if b = bCOMMA then (p\<lparr>transferState := transferBeforeToken\<rparr>, True)
           else rejectTransfer p)
      | transferParamQuoted \<Rightarrow>
          (if b = bBACKSLASH then (p\<lparr>transferState := transferParamQuotedEscape\<rparr>, True)
           else if b = bDQUOTE then (p\<lparr>transferState := transferParamAfterValue\<rparr>, True)
           else if \<not> isQDText b then rejectTransfer p
           else (p, True))
      | transferParamQuotedEscape \<Rightarrow>
          (if \<not> isQuotedPairByte b then rejectTransfer p
           else (p\<lparr>transferState := transferParamQuoted\<rparr>, True))
      | transferParamAfterValue \<Rightarrow>
          (if isOWS b then (p, True)
           else if b = bSEMI then (p\<lparr>transferState := transferParamBeforeName\<rparr>, True)
           else if b = bCOMMA then (p\<lparr>transferState := transferBeforeToken\<rparr>, True)
           else rejectTransfer p))"

definition finishTransferValue :: "parser \<Rightarrow> parser \<times> bool" where
  "finishTransferValue p =
     (case transferState p of
        transferToken \<Rightarrow>
          (let q = finishTransferToken p in
           if code q \<noteq> CodeNone then (q, False)
           else if \<not> transferSawToken q then rejectTransfer q else (q, True))
      | _ \<Rightarrow>
          (if transferState p = transferAfterToken \<or> transferState p = transferParamTokenValue \<or>
              transferState p = transferParamAfterValue
           then (if \<not> transferSawToken p then rejectTransfer p else (p, True))
           else rejectTransfer p))"

subsection \<open>Upgrade\<close>

definition rejectValue :: "parser \<Rightarrow> parser \<times> bool" where
  "rejectValue p = (fail CodeInvalidHeaderValue p, False)"

definition consumeUpgradeValue :: "byte \<Rightarrow> parser \<Rightarrow> parser \<times> bool" where
  "consumeUpgradeValue b p =
     (case upgradeState p of
        upgradeBeforeProtocol \<Rightarrow>
          (if isOWS b then (p, True)
           else if isTChar b
           then (p\<lparr>upgradeState := upgradeName, upgradeSawProtocol := True\<rparr>, True)
           else rejectValue p)
      | upgradeName \<Rightarrow>
          (if isTChar b then (p, True)
           else if b = bSLASH then (p\<lparr>upgradeState := upgradeVersionStart\<rparr>, True)
           else if isOWS b then (p\<lparr>upgradeState := upgradeAfterName\<rparr>, True)
           else if b = bCOMMA then (p\<lparr>upgradeState := upgradeBeforeProtocol\<rparr>, True)
           else rejectValue p)
      | upgradeAfterName \<Rightarrow>
          (if isOWS b then (p, True)
           else if b = bCOMMA then (p\<lparr>upgradeState := upgradeBeforeProtocol\<rparr>, True)
           else rejectValue p)
      | upgradeVersionStart \<Rightarrow>
          (if isTChar b then (p\<lparr>upgradeState := upgradeVersion\<rparr>, True) else rejectValue p)
      | upgradeVersion \<Rightarrow>
          (if isTChar b then (p, True)
           else if isOWS b then (p\<lparr>upgradeState := upgradeAfterProtocol\<rparr>, True)
           else if b = bCOMMA then (p\<lparr>upgradeState := upgradeBeforeProtocol\<rparr>, True)
           else rejectValue p)
      | upgradeAfterProtocol \<Rightarrow>
          (if isOWS b then (p, True)
           else if b = bCOMMA then (p\<lparr>upgradeState := upgradeBeforeProtocol\<rparr>, True)
           else rejectValue p))"

definition finishUpgradeValue :: "parser \<Rightarrow> parser \<times> bool" where
  "finishUpgradeValue p =
     (if \<not> upgradeSawProtocol p then rejectValue p
      else if upgradeState p = upgradeName \<or> upgradeState p = upgradeVersion \<or>
              upgradeState p = upgradeAfterName \<or> upgradeState p = upgradeAfterProtocol
      then (p\<lparr>hasUpgrade := True\<rparr>, True)
      else rejectValue p)"

subsection \<open>Host\<close>

definition appendIPLiteral :: "byte \<Rightarrow> parser \<Rightarrow> parser \<times> bool" where
  "appendIPLiteral b p =
     (if unat (ipLiteralLen p) = maxIPLiteralBytes then (p, False)
      else (p\<lparr>ipLiteral := (ipLiteral p)[unat (ipLiteralLen p) := b],
              ipLiteralLen := ipLiteralLen p + 1\<rparr>, True))"

definition ipLiteralBytes :: "parser \<Rightarrow> bytes" where
  "ipLiteralBytes p = take (unat (ipLiteralLen p)) (ipLiteral p)"

definition consumeHostValue :: "byte \<Rightarrow> parser \<Rightarrow> parser \<times> bool" where
  "consumeHostValue b p =
     (case hostState p of
        hostStart \<Rightarrow>
          (if b = bLBRACK then
             (p\<lparr>hostNonEmpty := True, hostLiteralNonEmpty := False, ipLiteralLen := 0,
                hostState := hostIPLiteral\<rparr>, True)
           else if isRegNameChar b
           then (p\<lparr>hostNonEmpty := True, hostState := hostRegName\<rparr>, True)
           else if b = bPERCENT
           then (p\<lparr>hostNonEmpty := True, hostState := hostPercentFirst\<rparr>, True)
           else rejectValue p)
      | hostRegName \<Rightarrow>
          (if isRegNameChar b then (p, True)
           else if b = bPERCENT then (p\<lparr>hostState := hostPercentFirst\<rparr>, True)
           else if b = bCOLON then (p\<lparr>hostState := hostPortStart\<rparr>, True)
           else if isOWS b then (p\<lparr>hostState := hostTrailing\<rparr>, True)
           else rejectValue p)
      | hostPercentFirst \<Rightarrow>
          (if isHexByte b then (p\<lparr>hostState := hostPercentSecond\<rparr>, True) else rejectValue p)
      | hostPercentSecond \<Rightarrow>
          (if isHexByte b then (p\<lparr>hostState := hostRegName\<rparr>, True) else rejectValue p)
      | hostIPLiteral \<Rightarrow>
          (if b = bRBRACK then
             (if \<not> hostLiteralNonEmpty p \<or> \<not> validIPLiteral (ipLiteralBytes p) then rejectValue p
              else (p\<lparr>hostState := hostAfterLiteral\<rparr>, True))
           else
             let (q, ok) = appendIPLiteral b p in
             if ok then (q\<lparr>hostLiteralNonEmpty := True\<rparr>, True) else rejectValue q)
      | hostAfterLiteral \<Rightarrow>
          (if b = bCOLON then (p\<lparr>hostState := hostPortStart\<rparr>, True)
           else if isOWS b then (p\<lparr>hostState := hostTrailing\<rparr>, True)
           else rejectValue p)
      | hostPortStart \<Rightarrow>
          (if isDigit b then (p\<lparr>hostState := hostPort\<rparr>, True)
           else if isOWS b then (p\<lparr>hostState := hostTrailing\<rparr>, True)
           else rejectValue p)
      | hostPort \<Rightarrow>
          (if isDigit b then (p, True)
           else if isOWS b then (p\<lparr>hostState := hostTrailing\<rparr>, True)
           else rejectValue p)
      | hostTrailing \<Rightarrow> (if isOWS b then (p, True) else rejectValue p))"

definition finishHostValue :: "parser \<Rightarrow> parser \<times> bool" where
  "finishHostValue p =
     (if \<not> hostNonEmpty p then (fail CodeMissingHost p, False)
      else if hostState p = hostRegName \<or> hostState p = hostAfterLiteral \<or>
              hostState p = hostPortStart \<or> hostState p = hostPort \<or> hostState p = hostTrailing
      then (p, True)
      else rejectValue p)"

subsection \<open>Connection\<close>

definition finishConnectionToken :: "parser \<Rightarrow> parser" where
  "finishConnectionToken p =
     p\<lparr>connectionClose :=
         (connectionClose p \<or> connectionCloseMatch p \<and> unat (connectionTokenPos p) = 5),
       connectionUpgrade :=
         (connectionUpgrade p \<or> connectionUpgradeMatch p \<and> unat (connectionTokenPos p) = 7),
       connectionKeepAlive :=
         (connectionKeepAlive p \<or> connectionKeepAliveMatch p \<and> unat (connectionTokenPos p) = 10)\<rparr>"

definition connectionTokenByte :: "byte \<Rightarrow> parser \<Rightarrow> parser \<times> bool" where
  "connectionTokenByte b p =
     (if isTChar b then
        (let pos = unat (connectionTokenPos p); lower = asciiLower b;
             q = p\<lparr>connectionCloseMatch :=
                     (connectionCloseMatch p \<and> \<not> mismatch (lit ''close'') pos lower),
                   connectionUpgradeMatch :=
                     (connectionUpgradeMatch p \<and> \<not> mismatch (lit ''upgrade'') pos lower),
                   connectionKeepAliveMatch :=
                     (connectionKeepAliveMatch p \<and> \<not> mismatch (lit ''keep-alive'') pos lower)\<rparr>
         in (if connectionTokenPos q \<noteq> 255
             then q\<lparr>connectionTokenPos := connectionTokenPos q + 1\<rparr> else q, True))
      else
        let q = finishConnectionToken p in
        if isOWS b then (q\<lparr>connectionState := connectionAfterToken\<rparr>, True)
        else if b = bCOMMA then (q\<lparr>connectionState := connectionBeforeToken\<rparr>, True)
        else rejectValue q)"

definition consumeConnectionValue :: "byte \<Rightarrow> parser \<Rightarrow> parser \<times> bool" where
  "consumeConnectionValue b p =
     (case connectionState p of
        connectionBeforeToken \<Rightarrow>
          (if isOWS b then (p, True)
           else if \<not> isTChar b then rejectValue p
           else connectionTokenByte b
             (p\<lparr>connectionState := connectionToken, connectionTokenPos := 0,
                connectionCloseMatch := True, connectionUpgradeMatch := True,
                connectionKeepAliveMatch := True\<rparr>))
      | connectionToken \<Rightarrow> connectionTokenByte b p
      | connectionAfterToken \<Rightarrow>
          (if isOWS b then (p, True)
           else if b = bCOMMA then (p\<lparr>connectionState := connectionBeforeToken\<rparr>, True)
           else rejectValue p))"

definition finishConnectionValue :: "parser \<Rightarrow> parser \<times> bool" where
  "finishConnectionValue p =
     (case connectionState p of
        connectionToken \<Rightarrow> (finishConnectionToken p, True)
      | connectionAfterToken \<Rightarrow> (p, True)
      | _ \<Rightarrow> rejectValue p)"

subsection \<open>Dispatch on the field\<close>

definition consumeFieldValue :: "byte \<Rightarrow> parser \<Rightarrow> parser \<times> bool" where
  "consumeFieldValue b p =
     (case field p of
        fieldContentLength \<Rightarrow> consumeContentLength b p
      | fieldTransferEncoding \<Rightarrow> consumeTransferValue b p
      | fieldConnection \<Rightarrow> consumeConnectionValue b p
      | fieldHost \<Rightarrow> consumeHostValue b p
      | fieldUpgrade \<Rightarrow> consumeUpgradeValue b p
      | _ \<Rightarrow> (p, True))"

definition finishFieldValue :: "parser \<Rightarrow> parser \<times> bool" where
  "finishFieldValue p =
     (case field p of
        fieldContentLength \<Rightarrow>
          (if \<not> contentLengthDigits p then (fail CodeInvalidContentLength p, False) else (p, True))
      | fieldTransferEncoding \<Rightarrow> finishTransferValue p
      | fieldConnection \<Rightarrow> finishConnectionValue p
      | fieldHost \<Rightarrow> finishHostValue p
      | fieldUpgrade \<Rightarrow> finishUpgradeValue p
      | _ \<Rightarrow> (p, True))"

end
