(* ===== verification/Http1_Target.thy ===== *)
theory Http1_Target
  imports Http1_Fields
begin

text \<open>
  The request target automaton and the chunk extension automaton of the HTTP/1 parser
  (src/http/parser.go, lines 2180 to 2396).
\<close>

subsection \<open>Request target\<close>

definition rejectTarget :: "parser \<Rightarrow> parser \<times> bool" where
  "rejectTarget p = (fail CodeInvalidTarget p, False)"

definition firstTargetByte :: "byte \<Rightarrow> parser \<Rightarrow> parser \<times> bool" where
  "firstTargetByte b p =
     (if b = bSLASH then (p\<lparr>targetForm := targetOrigin\<rparr>, True)
      else if b = bSTAR then (p\<lparr>targetForm := targetAsterisk\<rparr>, True)
      else if meth p = MethodCONNECT then
        (let q = p\<lparr>targetForm := targetAuthority\<rparr> in
         if b = bLBRACK then (q\<lparr>targetAuthorityBracket := True, ipLiteralLen := 0\<rparr>, True)
         else if b \<in> {bCOLON, bSLASH, bQUESTION, bAT, bRBRACK} then rejectTarget q
         else (q, True))
      else if isUpper b \<or> isLower b then (p\<lparr>targetForm := targetScheme\<rparr>, True)
      else rejectTarget p)"

definition authorityTargetByte :: "byte \<Rightarrow> parser \<Rightarrow> parser \<times> bool" where
  "authorityTargetByte b p =
     (if targetAuthorityBracket p then
        (if b = bRBRACK then
           (if \<not> validIPLiteral (ipLiteralBytes p) then rejectTarget p
            else (p\<lparr>targetAuthorityBracket := False, targetAuthorityClosed := True\<rparr>, True))
         else
           let (q, ok) = appendIPLiteral b p in
           if \<not> ok then rejectTarget q else (q, True))
      else if \<not> targetAuthorityColon p then
        (if targetAuthorityClosed p \<and> b \<noteq> bCOLON then rejectTarget p
         else if b = bCOLON then (p\<lparr>targetAuthorityColon := True\<rparr>, True)
         else if b \<in> {bSLASH, bQUESTION, bAT, bLBRACK, bRBRACK} then rejectTarget p
         else (p, True))
      else if \<not> isDigit b then rejectTarget p
      else (p\<lparr>targetAuthorityPort := True\<rparr>, True))"

definition consumeTargetForm :: "byte \<Rightarrow> parser \<Rightarrow> parser \<times> bool" where
  "consumeTargetForm b p =
     (if targetBytes p = 0 then firstTargetByte b p
      else case targetForm p of
          targetAsterisk \<Rightarrow> rejectTarget p
        | targetScheme \<Rightarrow>
            (if b = bCOLON then (p\<lparr>targetForm := targetAbsolute\<rparr>, True)
             else if \<not> isSchemeChar b then rejectTarget p
             else (p, True))
        | targetAuthority \<Rightarrow> authorityTargetByte b p
        | _ \<Rightarrow> (p, True))"

definition finishTarget :: "parser \<Rightarrow> parser \<times> bool" where
  "finishTarget p =
     (if targetBytes p = 0 \<or> targetPercent p \<noteq> 0 \<or> targetForm p = targetScheme
      then rejectTarget p
      else if targetForm p = targetAuthority \<and>
        (targetAuthorityBracket p \<or> \<not> targetAuthorityColon p \<or> \<not> targetAuthorityPort p)
      then rejectTarget p
      else (p, True))"

subsection \<open>Chunk extensions\<close>

definition rejectChunkExt :: "parser \<Rightarrow> parser \<times> bool" where
  "rejectChunkExt p = (fail CodeInvalidChunkExtension p, False)"

definition consumeChunkExtension :: "byte \<Rightarrow> parser \<Rightarrow> parser \<times> bool" where
  "consumeChunkExtension b p =
     (case chunkExtState p of
        chunkExtBeforeName \<Rightarrow>
          (if isOWS b then (p, True)
           else if \<not> isTChar b then rejectChunkExt p
           else (p\<lparr>chunkExtState := chunkExtName\<rparr>, True))
      | chunkExtName \<Rightarrow>
          (if isTChar b then (p, True)
           else if isOWS b then (p\<lparr>chunkExtState := chunkExtAfterName\<rparr>, True)
           else if b = bEQ then (p\<lparr>chunkExtState := chunkExtBeforeValue\<rparr>, True)
           else if b = bSEMI then (p\<lparr>chunkExtState := chunkExtBeforeName\<rparr>, True)
           else rejectChunkExt p)
      | chunkExtAfterName \<Rightarrow>
          (if isOWS b then (p, True)
           else if b = bEQ then (p\<lparr>chunkExtState := chunkExtBeforeValue\<rparr>, True)
           else if b = bSEMI then (p\<lparr>chunkExtState := chunkExtBeforeName\<rparr>, True)
           else rejectChunkExt p)
      | chunkExtBeforeValue \<Rightarrow>
          (if isOWS b then (p, True)
           else if b = bDQUOTE then (p\<lparr>chunkExtState := chunkExtQuotedValue\<rparr>, True)
           else if isTChar b then (p\<lparr>chunkExtState := chunkExtTokenValue\<rparr>, True)
           else rejectChunkExt p)
      | chunkExtTokenValue \<Rightarrow>
          (if isTChar b then (p, True)
           else if isOWS b then (p\<lparr>chunkExtState := chunkExtAfterValue\<rparr>, True)
           else if b = bSEMI then (p\<lparr>chunkExtState := chunkExtBeforeName\<rparr>, True)
           else rejectChunkExt p)
      | chunkExtQuotedValue \<Rightarrow>
          (if b = bBACKSLASH then (p\<lparr>chunkExtState := chunkExtQuotedEscape\<rparr>, True)
           else if b = bDQUOTE then (p\<lparr>chunkExtState := chunkExtAfterValue\<rparr>, True)
           else if \<not> isQDText b then rejectChunkExt p
           else (p, True))
      | chunkExtQuotedEscape \<Rightarrow>
          (if \<not> isQuotedPairByte b then rejectChunkExt p
           else (p\<lparr>chunkExtState := chunkExtQuotedValue\<rparr>, True))
      | chunkExtAfterValue \<Rightarrow>
          (if isOWS b then (p, True)
           else if b = bSEMI then (p\<lparr>chunkExtState := chunkExtBeforeName\<rparr>, True)
           else rejectChunkExt p))"

definition finishChunkExtension :: "parser \<Rightarrow> parser \<times> bool" where
  "finishChunkExtension p =
     (if chunkExtState p = chunkExtName \<or> chunkExtState p = chunkExtAfterName \<or>
         chunkExtState p = chunkExtTokenValue \<or> chunkExtState p = chunkExtAfterValue
      then (p, True)
      else rejectChunkExt p)"

end
