(* ===== verification/Http1_Parser.thy ===== *)
theory Http1_Parser
  imports Http1_Target
begin

text \<open>
  The main loop of the HTTP/1 parser and its public operations (src/http/parser.go, lines 550 to
  1199 and 1385 to 1470). The loop variable \<open>n\<close> is represented by the unread suffix
  \<open>src[n:]\<close> of the input; one definition models one case of the \<open>switch\<close> on the
  parser state. An iteration ends in \<open>Go\<close> (next iteration) or \<open>Ret\<close> (a
  \<open>return n, code\<close>).

  Body spans are measured by the length of the suffix, a natural number; a Go slice is shorter
  than \<open>2 ^ 63\<close>, so the source's \<open>uint64(len(src) - n)\<close> is that number.
\<close>

subsection \<open>Spans\<close>

datatype outcome = Go parser history bytes | Ret parser history bytes result_code

definition failRet :: "result_code \<Rightarrow> parser \<Rightarrow> history \<Rightarrow> bytes \<Rightarrow> outcome" where
  "failRet c p h rest = Ret (fail c p) h rest (code (fail c p))"

text \<open>The inner loops \<open>for n < len(src) && cond { body; n++ }\<close>; the body returns
  \<open>False\<close> where the source returns \<open>n, p.code\<close>.\<close>

fun scan ::
  "(byte \<Rightarrow> parser \<Rightarrow> bool) \<Rightarrow> (byte \<Rightarrow> parser \<Rightarrow> parser \<times> bool) \<Rightarrow> parser \<Rightarrow> bytes \<Rightarrow>
     parser \<times> bytes \<times> bool" where
  "scan cond body p [] = (p, [], True)"
| "scan cond body p (b # bs) =
     (if cond b p then
        (case body b p of (q, ok) \<Rightarrow>
           if ok then scan cond body q bs else (q, b # bs, False))
      else (p, b # bs, True))"

text \<open>\<open>if n > start && ... { callback(src[start:n:n]) }\<close>.\<close>

definition deliver ::
  "(callback_table \<Rightarrow> callback option) \<Rightarrow> (bytes \<Rightarrow> event) \<Rightarrow> bytes \<Rightarrow> bytes \<Rightarrow> parser \<Rightarrow> history \<Rightarrow>
     parser \<times> history" where
  "deliver sel ev src rest p h =
     (if length rest < length src
      then invoke sel (ev (take (length src - length rest) src)) p h else (p, h))"

subsection \<open>Start line\<close>

definition stepStart :: "parser \<Rightarrow> history \<Rightarrow> byte \<Rightarrow> bytes \<Rightarrow> outcome" where
  "stepStart p h b rest =
     (if kind p = Request \<and> b = bCR then
        (let (q, ok) = takePrefixByte p in
         if \<not> ok then Ret q h (b # rest) (code q) else Go (q\<lparr>state := stateLeadingLF\<rparr>) h rest)
      else
        let (q, h) = beginMessage p h in
        if code q \<noteq> CodeNone then Ret q h (b # rest) (code q)
        else Go (q\<lparr>state := (if kind q = Request then stateReqMethod else stateResHTTP)\<rparr>) h
               (b # rest))"

definition stepLeadingLF :: "parser \<Rightarrow> history \<Rightarrow> byte \<Rightarrow> bytes \<Rightarrow> outcome" where
  "stepLeadingLF p h b rest =
     (if b \<noteq> bLF then failRet CodeInvalidLineEnding p h (b # rest)
      else let (q, ok) = takePrefixByte p in
        if \<not> ok then Ret q h (b # rest) (code q) else Go (q\<lparr>state := stateStart\<rparr>) h rest)"

definition methodByte :: "byte \<Rightarrow> parser \<Rightarrow> parser \<times> bool" where
  "methodByte b p =
     (let (q, ok) = takeStartByte p in if \<not> ok then (q, False) else (matchMethod b q, True))"

definition stepReqMethod :: "parser \<Rightarrow> history \<Rightarrow> byte \<Rightarrow> bytes \<Rightarrow> outcome" where
  "stepReqMethod p h b rest =
     (case scan (\<lambda>b _. isTChar b) methodByte p (b # rest) of (p1, r, ok) \<Rightarrow>
        if \<not> ok then Ret p1 h r (code p1)
        else let (p2, h) = deliver cbMethod EvMethod (b # rest) r p1 h in
          if code p2 \<noteq> CodeNone then Ret p2 h r (code p2)
          else case r of
              [] \<Rightarrow> Go p2 h []
            | c # r' \<Rightarrow>
                if methodPos p2 = 0 \<or> c \<noteq> bSP then failRet CodeInvalidMethod p2 h r
                else let (p3, ok) = takeStartByte (finishMethod p2) in
                  if \<not> ok then Ret p3 h r (code p3) else Go (p3\<lparr>state := stateReqTarget\<rparr>) h r')"

definition targetPercentByte :: "byte \<Rightarrow> parser \<Rightarrow> parser \<times> bool" where
  "targetPercentByte b p =
     (if targetPercent p \<noteq> 0 then
        (if \<not> isHexByte b then rejectTarget p
         else let q = p\<lparr>targetPercent := targetPercent p + 1\<rparr> in
           (if targetPercent q = 3 then q\<lparr>targetPercent := 0\<rparr> else q, True))
      else if b = bPERCENT then (p\<lparr>targetPercent := 1\<rparr>, True)
      else (p, True))"

definition targetByte :: "byte \<Rightarrow> parser \<Rightarrow> parser \<times> bool" where
  "targetByte b p =
     (let (p1, ok) = consumeTargetForm b p in
      if \<not> ok then (p1, False)
      else let (p2, ok) = targetPercentByte b p1 in
        if \<not> ok then (p2, False)
        else let (p3, ok) = takeStartByte p2 in
          if \<not> ok then (p3, False) else (p3\<lparr>targetBytes := targetBytes p3 + 1\<rparr>, True))"

definition stepReqTarget :: "parser \<Rightarrow> history \<Rightarrow> byte \<Rightarrow> bytes \<Rightarrow> outcome" where
  "stepReqTarget p h b rest =
     (case scan (\<lambda>b _. validTargetByte b) targetByte p (b # rest) of (p1, r, ok) \<Rightarrow>
        if \<not> ok then Ret p1 h r (code p1)
        else let (p2, h) = deliver cbTarget EvTarget (b # rest) r p1 h in
          if code p2 \<noteq> CodeNone then Ret p2 h r (code p2)
          else case r of
              [] \<Rightarrow> Go p2 h []
            | c # r' \<Rightarrow>
                let (p3, ok) = finishTarget p2 in
                if \<not> ok \<or> c \<noteq> bSP then failRet CodeInvalidTarget p3 h r
                else let (p4, ok) = takeStartByte p3 in
                  if \<not> ok then Ret p4 h r (code p4)
                  else Go (p4\<lparr>literalPos := 0, state := stateReqHTTP\<rparr>) h r')"

definition literalByte :: "byte \<Rightarrow> parser \<Rightarrow> parser \<times> bool" where
  "literalByte b p =
     (if b \<noteq> lit ''HTTP/'' ! unat (literalPos p) then (fail CodeInvalidStartLine p, False)
      else let (q, ok) = takeStartByte p in
        if \<not> ok then (q, False) else (q\<lparr>literalPos := literalPos q + 1\<rparr>, True))"

definition stepHTTP :: "parser \<Rightarrow> history \<Rightarrow> byte \<Rightarrow> bytes \<Rightarrow> outcome" where
  "stepHTTP p h b rest =
     (case scan (\<lambda>_ p. literalPos p < 5) literalByte p (b # rest) of (q, r, ok) \<Rightarrow>
        if \<not> ok then Ret q h r (code q)
        else if literalPos q = 5
        then Go (q\<lparr>major := 0, minor := 0, state := stateVersionMajor\<rparr>) h r
        else Go q h r)"

definition stepVersionMajor :: "parser \<Rightarrow> history \<Rightarrow> byte \<Rightarrow> bytes \<Rightarrow> outcome" where
  "stepVersionMajor p h b rest =
     (if \<not> isDigit b then failRet CodeInvalidVersion p h (b # rest)
      else let (q, ok) = takeStartByte p in
        if \<not> ok then Ret q h (b # rest) (code q)
        else Go (q\<lparr>major := ucast (b - b0), state := stateVersionDot\<rparr>) h rest)"

definition stepVersionDot :: "parser \<Rightarrow> history \<Rightarrow> byte \<Rightarrow> bytes \<Rightarrow> outcome" where
  "stepVersionDot p h b rest =
     (if b \<noteq> bDOT then failRet CodeInvalidVersion p h (b # rest)
      else let (q, ok) = takeStartByte p in
        if \<not> ok then Ret q h (b # rest) (code q) else Go (q\<lparr>state := stateVersionMinor\<rparr>) h rest)"

definition stepVersionMinor :: "parser \<Rightarrow> history \<Rightarrow> byte \<Rightarrow> bytes \<Rightarrow> outcome" where
  "stepVersionMinor p h b rest =
     (if \<not> isDigit b then failRet CodeInvalidVersion p h (b # rest)
      else let (q, ok) = takeStartByte p in
        if \<not> ok then Ret q h (b # rest) (code q)
        else Go (q\<lparr>minor := ucast (b - b0),
                   state := (if kind q = Request then stateReqLineCR
                             else stateResSpaceBeforeStatus)\<rparr>) h rest)"

definition stepReqLineCR :: "parser \<Rightarrow> history \<Rightarrow> byte \<Rightarrow> bytes \<Rightarrow> outcome" where
  "stepReqLineCR p h b rest =
     (if b \<noteq> bCR then failRet CodeInvalidLineEnding p h (b # rest)
      else if \<not> validHTTPVersion (major p) (minor p)
      then failRet CodeInvalidVersion p h (b # rest)
      else let (q, ok) = takeStartByte p in
        if \<not> ok then Ret q h (b # rest) (code q) else Go (q\<lparr>state := stateReqLineLF\<rparr>) h rest)"

text \<open>The cases \<open>stateReqLineLF\<close> and \<open>stateResLineLF\<close> have the same body.\<close>

definition stepStartLineLF :: "parser \<Rightarrow> history \<Rightarrow> byte \<Rightarrow> bytes \<Rightarrow> outcome" where
  "stepStartLineLF p h b rest =
     (if b \<noteq> bLF then failRet CodeInvalidLineEnding p h (b # rest)
      else let (q, ok) = takeStartByte p in
        if \<not> ok then Ret q h (b # rest) (code q)
        else let (q', h) = startLineComplete q h in
          if code q' \<noteq> CodeNone then Ret q' h rest (code q') else Go q' h rest)"

definition stepResSpaceBeforeStatus :: "parser \<Rightarrow> history \<Rightarrow> byte \<Rightarrow> bytes \<Rightarrow> outcome" where
  "stepResSpaceBeforeStatus p h b rest =
     (if b \<noteq> bSP \<or> \<not> validHTTPVersion (major p) (minor p)
      then failRet CodeInvalidStartLine p h (b # rest)
      else let (q, ok) = takeStartByte p in
        if \<not> ok then Ret q h (b # rest) (code q)
        else Go (q\<lparr>status := 0, statusDigits := 0, state := stateResStatus\<rparr>) h rest)"

definition statusByte :: "byte \<Rightarrow> parser \<Rightarrow> parser \<times> bool" where
  "statusByte b p =
     (if \<not> isDigit b then (fail CodeInvalidStatus p, False)
      else let (q, ok) = takeStartByte p in
        if \<not> ok then (q, False)
        else (q\<lparr>status := status q * 10 + ucast (b - b0), statusDigits := statusDigits q + 1\<rparr>,
              True))"

definition stepResStatus :: "parser \<Rightarrow> history \<Rightarrow> byte \<Rightarrow> bytes \<Rightarrow> outcome" where
  "stepResStatus p h b rest =
     (case scan (\<lambda>_ p. statusDigits p < 3) statusByte p (b # rest) of (q, r, ok) \<Rightarrow>
        if \<not> ok then Ret q h r (code q)
        else if statusDigits q = 3 then
          (if status q < 100 then failRet CodeInvalidStatus q h r
           else Go (q\<lparr>state := stateResReasonStart\<rparr>) h r)
        else Go q h r)"

definition stepResReasonStart :: "parser \<Rightarrow> history \<Rightarrow> byte \<Rightarrow> bytes \<Rightarrow> outcome" where
  "stepResReasonStart p h b rest =
     (if b \<noteq> bSP then failRet CodeInvalidStatus p h (b # rest)
      else let (q, ok) = takeStartByte p in
        if \<not> ok then Ret q h (b # rest) (code q) else Go (q\<lparr>state := stateResReason\<rparr>) h rest)"

definition reasonByte :: "byte \<Rightarrow> parser \<Rightarrow> parser \<times> bool" where
  "reasonByte b p =
     (if \<not> validReasonByte b then (fail CodeInvalidStatus p, False) else takeStartByte p)"

definition stepResReason :: "parser \<Rightarrow> history \<Rightarrow> byte \<Rightarrow> bytes \<Rightarrow> outcome" where
  "stepResReason p h b rest =
     (case scan (\<lambda>b _. b \<noteq> bCR) reasonByte p (b # rest) of (p1, r, ok) \<Rightarrow>
        if \<not> ok then Ret p1 h r (code p1)
        else let (p2, h) = deliver cbReason EvReason (b # rest) r p1 h in
          if code p2 \<noteq> CodeNone then Ret p2 h r (code p2)
          else case r of
              [] \<Rightarrow> Go p2 h []
            | c # r' \<Rightarrow>
                let (p3, ok) = takeStartByte p2 in
                if \<not> ok then Ret p3 h r (code p3) else Go (p3\<lparr>state := stateResLineLF\<rparr>) h r')"

subsection \<open>Header fields\<close>

definition stepHeaderStart :: "parser \<Rightarrow> history \<Rightarrow> byte \<Rightarrow> bytes \<Rightarrow> outcome" where
  "stepHeaderStart p h b rest =
     (if b = bCR then
        (let (q, ok) = takeHeaderByte p in
         if \<not> ok then Ret q h (b # rest) (code q) else Go (q\<lparr>state := stateHeadersLF\<rparr>) h rest)
      else if isOWS b then failRet CodeInvalidHeaderName p h (b # rest)
      else let q = beginHeader p in
        if code q \<noteq> CodeNone then Ret q h (b # rest) (code q)
        else Go (q\<lparr>state := stateHeaderName\<rparr>) h (b # rest))"

definition headerNameByte :: "byte \<Rightarrow> parser \<Rightarrow> parser \<times> bool" where
  "headerNameByte b p =
     (let (q, ok) = takeHeaderByte p in
      if \<not> ok then (q, False)
      else if headerNameBytes q = MaxHeaderNameBytes (limits q)
      then (fail CodeHeaderNameTooLarge q, False)
      else (matchField b (q\<lparr>headerNameBytes := headerNameBytes q + 1\<rparr>), True))"

definition stepHeaderName :: "parser \<Rightarrow> history \<Rightarrow> byte \<Rightarrow> bytes \<Rightarrow> outcome" where
  "stepHeaderName p h b rest =
     (case scan (\<lambda>b _. isTChar b) headerNameByte p (b # rest) of (p1, r, ok) \<Rightarrow>
        if \<not> ok then Ret p1 h r (code p1)
        else let (p2, h) = deliver cbHeaderName EvHeaderName (b # rest) r p1 h in
          if code p2 \<noteq> CodeNone then Ret p2 h r (code p2)
          else case r of
              [] \<Rightarrow> Go p2 h []
            | c # r' \<Rightarrow>
                if headerNameBytes p2 = 0 \<or> c \<noteq> bCOLON then failRet CodeInvalidHeaderName p2 h r
                else let (p3, ok) = takeHeaderByte p2 in
                  if \<not> ok then Ret p3 h r (code p3)
                  else let p4 = finishFieldName p3 in
                    if code p4 \<noteq> CodeNone then Ret p4 h r' (code p4)
                    else Go (p4\<lparr>state := stateHeaderValueStart\<rparr>) h r')"

definition stepHeaderValueStart :: "parser \<Rightarrow> history \<Rightarrow> byte \<Rightarrow> bytes \<Rightarrow> outcome" where
  "stepHeaderValueStart p h b rest =
     (case scan (\<lambda>b _. isOWS b) (\<lambda>_. takeHeaderByte) p (b # rest) of (q, r, ok) \<Rightarrow>
        if \<not> ok then Ret q h r (code q)
        else if r \<noteq> [] then Go (q\<lparr>state := stateHeaderValue\<rparr>) h r
        else Go q h r)"

definition parseValue :: "parser \<Rightarrow> bool" where
  "parseValue p \<longleftrightarrow> field p \<noteq> fieldOther \<and> field p \<noteq> fieldTrailer"

definition headerValueByte :: "bool \<Rightarrow> byte \<Rightarrow> parser \<Rightarrow> parser \<times> bool" where
  "headerValueByte pv b p =
     (if \<not> validFieldValueByte b then (fail CodeInvalidHeaderValue p, False)
      else let (q, ok) = takeHeaderByte p in
        if \<not> ok then (q, False)
        else if pv then consumeFieldValue b q else (q, True))"

definition stepHeaderValue :: "parser \<Rightarrow> history \<Rightarrow> byte \<Rightarrow> bytes \<Rightarrow> outcome" where
  "stepHeaderValue p h b rest =
     (case scan (\<lambda>b _. b \<noteq> bCR) (headerValueByte (parseValue p)) p (b # rest) of (p1, r, ok) \<Rightarrow>
        if \<not> ok then Ret p1 h r (code p1)
        else let (p2, h) = deliver cbHeaderValue EvHeaderValue (b # rest) r p1 h in
          if code p2 \<noteq> CodeNone then Ret p2 h r (code p2)
          else case r of
              [] \<Rightarrow> Go p2 h []
            | c # r' \<Rightarrow>
                let (p3, ok) = finishFieldValue p2 in
                if \<not> ok then Ret p3 h r (code p3)
                else let (p4, ok) = takeHeaderByte p3 in
                  if \<not> ok then Ret p4 h r (code p4)
                  else Go (p4\<lparr>state := stateHeaderValueLF\<rparr>) h r')"

definition stepHeaderValueLF :: "parser \<Rightarrow> history \<Rightarrow> byte \<Rightarrow> bytes \<Rightarrow> outcome" where
  "stepHeaderValueLF p h b rest =
     (if b \<noteq> bLF then failRet CodeInvalidLineEnding p h (b # rest)
      else let (q, ok) = takeHeaderByte p in
        if \<not> ok then Ret q h (b # rest) (code q)
        else let (q', h) = invoke cbHeaderEnd (EvHeaderEnd (trailers q)) q h in
          if code q' \<noteq> CodeNone then Ret q' h rest (code q')
          else Go (q'\<lparr>state := stateHeaderStart\<rparr>) h rest)"

text \<open>The conditions of \<open>headersComplete\<close> that reject a message, in their order; the
  last one is checked before the \<open>HeadersComplete\<close> callback.\<close>

definition forbidsFraming :: "parser \<Rightarrow> bool" where
  "forbidsFraming p \<longleftrightarrow> 100 \<le> status p \<and> status p < 200 \<or> status p = 204 \<or>
     responseToCONNECT p \<and> 200 \<le> status p \<and> status p < 300"

definition headersError :: "parser \<Rightarrow> result_code option" where
  "headersError p =
     (if kind p = Request \<and> major p = 1 \<and> minor p = 1 \<and> \<not> hasHost p then Some CodeMissingHost
      else if hasTransferEncoding p \<and> (major p \<noteq> 1 \<or> minor p \<noteq> 1)
      then Some CodeInvalidTransferEncoding
      else if kind p = Response \<and> status p = 101 \<and> (\<not> connectionUpgrade p \<or> \<not> hasUpgrade p)
      then Some CodeInvalidHeaderValue
      else if kind p = Response \<and> forbidsFraming p \<and> (hasContentLength p \<or> hasTransferEncoding p)
      then Some CodeContentLengthConflict
      else if hasTransferEncoding p \<and> kind p = Request \<and> \<not> transferChunked p
      then Some CodeInvalidTransferEncoding
      else None)"

definition switchesProtocol :: "parser \<Rightarrow> bool" where
  "switchesProtocol p \<longleftrightarrow>
     kind p = Response \<and> status p = 101 \<and> connectionUpgrade p \<and> hasUpgrade p \<or>
     kind p = Response \<and> responseToCONNECT p \<and> 200 \<le> status p \<and> status p < 300"

text \<open>\<open>p.completeMessage(); return p.code == CodeNone\<close>.\<close>

definition completeOk :: "parser \<Rightarrow> history \<Rightarrow> parser \<times> history \<times> bool" where
  "completeOk p h = (let (q, h) = completeMessage p h in (q, h, code q = CodeNone))"

definition frameBody :: "parser \<Rightarrow> history \<Rightarrow> parser \<times> history \<times> bool" where
  "frameBody p h =
     (if kind p = Response \<and> noBody p then
        (let upgrade = switchesProtocol p; (q, h, ok) = completeOk p h in
         if \<not> ok then (q, h, False)
         else (if upgrade then q\<lparr>state := stateUpgrade\<rparr> else q, h, True))
      else if hasTransferEncoding p then
        (if transferChunked p then (p\<lparr>state := stateChunkSizeStart\<rparr>, h, True)
         else (p\<lparr>state := stateCloseBody\<rparr>, h, True))
      else if hasContentLength p then
        (if MaxBodyBytes (limits p) < remaining p then (fail CodeBodyTooLarge p, h, False)
         else if remaining p = 0 then completeOk p h
         else (p\<lparr>state := stateFixedBody\<rparr>, h, True))
      else if kind p = Request then completeOk p h
      else (p\<lparr>state := stateCloseBody\<rparr>, h, True))"

definition headersComplete :: "parser \<Rightarrow> history \<Rightarrow> parser \<times> history \<times> bool" where
  "headersComplete p h =
     (case headersError p of
        Some c \<Rightarrow> (fail c p, h, False)
      | None \<Rightarrow>
          let (q, h) = invoke cbHeadersComplete (EvHeadersComplete (message p)) p h in
          if code q \<noteq> CodeNone then (q, h, False) else frameBody q h)"

definition stepHeadersLF :: "parser \<Rightarrow> history \<Rightarrow> byte \<Rightarrow> bytes \<Rightarrow> outcome" where
  "stepHeadersLF p h b rest =
     (if b \<noteq> bLF then failRet CodeInvalidLineEnding p h (b # rest)
      else let (p1, ok) = takeHeaderByte p in
        if \<not> ok then Ret p1 h (b # rest) (code p1)
        else if trailers p1 then
          (let (p2, h) = invoke cbChunkComplete EvChunkComplete p1 h in
           if code p2 \<noteq> CodeNone then Ret p2 h rest (code p2)
           else let (p3, h) = completeMessage p2 h in
             if code p3 \<noteq> CodeNone then Ret p3 h rest (code p3) else Go p3 h rest)
        else let (p2, h, ok) = headersComplete p1 h in
          if \<not> ok then Ret p2 h rest (code p2)
          else if state p2 = stateUpgrade then Ret p2 h rest CodeUpgrade
          else Go p2 h rest)"

subsection \<open>Bodies\<close>

definition deliverBody :: "bytes \<Rightarrow> parser \<Rightarrow> history \<Rightarrow> parser \<times> history" where
  "deliverBody span p h = (if span \<noteq> [] then invoke cbBody (EvBody span) p h else (p, h))"

definition stepFixedBody :: "parser \<Rightarrow> history \<Rightarrow> byte \<Rightarrow> bytes \<Rightarrow> outcome" where
  "stepFixedBody p h b rest =
     (let tk = min (length (b # rest)) (unat (remaining p));
          (p1, ok) = addBody (of_nat tk) p in
      if \<not> ok then Ret p1 h (b # rest) (code p1)
      else
        let (p2, h) =
              deliverBody (take tk (b # rest)) (p1\<lparr>remaining := remaining p1 - of_nat tk\<rparr>) h;
            r = drop tk (b # rest) in
        if code p2 \<noteq> CodeNone then Ret p2 h r (code p2)
        else if remaining p2 = 0 then
          (let (p3, h) = completeMessage p2 h in
           if code p3 \<noteq> CodeNone then Ret p3 h r (code p3) else Go p3 h r)
        else Go p2 h r)"

definition stepCloseBody :: "parser \<Rightarrow> history \<Rightarrow> byte \<Rightarrow> bytes \<Rightarrow> outcome" where
  "stepCloseBody p h b rest =
     (let budget = MaxBodyBytes (limits p) - bodyBytes p;
          tk = min (length (b # rest)) (unat budget);
          (p1, h) = deliverBody (take tk (b # rest)) (p\<lparr>bodyBytes := bodyBytes p + of_nat tk\<rparr>) h;
          r = drop tk (b # rest) in
      if code p1 \<noteq> CodeNone then Ret p1 h r (code p1)
      else if tk \<noteq> length (b # rest) then failRet CodeBodyTooLarge p1 h r
      else Go p1 h r)"

definition stepChunkSizeStart :: "parser \<Rightarrow> history \<Rightarrow> byte \<Rightarrow> bytes \<Rightarrow> outcome" where
  "stepChunkSizeStart p h b rest =
     Go (p\<lparr>chunkSize := 0, chunkDigits := False, chunkLineBytes := 0, state := stateChunkSize\<rparr>) h
       (b # rest)"

definition chunkSizeByte :: "byte \<Rightarrow> parser \<Rightarrow> parser \<times> bool" where
  "chunkSizeByte b p =
     (let (q, ok) = takeChunkLineByte (p\<lparr>chunkDigits := True\<rparr>);
          digit = (case hexValue b of Some d \<Rightarrow> ucast d | None \<Rightarrow> 0) :: u64 in
      if \<not> ok then (q, False)
      else if (0xFFFFFFFFFFFFFFFF - digit) div 16 < chunkSize q
      then (fail CodeInvalidChunkSize q, False)
      else (q\<lparr>chunkSize := chunkSize q * 16 + digit\<rparr>, True))"

definition stepChunkSize :: "parser \<Rightarrow> history \<Rightarrow> byte \<Rightarrow> bytes \<Rightarrow> outcome" where
  "stepChunkSize p h b rest =
     (case scan (\<lambda>b _. hexValue b \<noteq> None) chunkSizeByte p (b # rest) of (p1, r, ok) \<Rightarrow>
        if \<not> ok then Ret p1 h r (code p1)
        else case r of
            [] \<Rightarrow> Go p1 h []
          | c # r' \<Rightarrow>
              if \<not> chunkDigits p1 then failRet CodeInvalidChunkSize p1 h r
              else if c = bSEMI then
                (let (p2, ok) = takeChunkLineByte p1 in
                 if \<not> ok then Ret p2 h r (code p2)
                 else Go (p2\<lparr>chunkExtState := chunkExtBeforeName, state := stateChunkExt\<rparr>) h r')
              else if c \<noteq> bCR then failRet CodeInvalidChunkSize p1 h r
              else let (p2, ok) = takeChunkLineByte p1 in
                if \<not> ok then Ret p2 h r (code p2) else Go (p2\<lparr>state := stateChunkSizeLF\<rparr>) h r')"

definition chunkExtByte :: "byte \<Rightarrow> parser \<Rightarrow> parser \<times> bool" where
  "chunkExtByte b p =
     (let (q, ok) = takeChunkLineByte p in
      if \<not> ok then (q, False) else consumeChunkExtension b q)"

definition stepChunkExt :: "parser \<Rightarrow> history \<Rightarrow> byte \<Rightarrow> bytes \<Rightarrow> outcome" where
  "stepChunkExt p h b rest =
     (case scan (\<lambda>b _. b \<noteq> bCR) chunkExtByte p (b # rest) of (p1, r, ok) \<Rightarrow>
        if \<not> ok then Ret p1 h r (code p1)
        else case r of
            [] \<Rightarrow> Go p1 h []
          | c # r' \<Rightarrow>
              let (p2, ok) = finishChunkExtension p1 in
              if \<not> ok then Ret p2 h r (code p2)
              else let (p3, ok) = takeChunkLineByte p2 in
                if \<not> ok then Ret p3 h r (code p3) else Go (p3\<lparr>state := stateChunkSizeLF\<rparr>) h r')"

definition stepChunkSizeLF :: "parser \<Rightarrow> history \<Rightarrow> byte \<Rightarrow> bytes \<Rightarrow> outcome" where
  "stepChunkSizeLF p h b rest =
     (if b \<noteq> bLF then failRet CodeInvalidLineEnding p h (b # rest)
      else let (p1, ok) = takeChunkLineByte p in
        if \<not> ok then Ret p1 h (b # rest) (code p1)
        else if MaxBodyBytes (limits p1) - bodyBytes p1 < chunkSize p1
        then failRet CodeBodyTooLarge p1 h rest
        else if chunkSize p1 \<noteq> 0 \<and> MaxChunks (limits p1) \<le> chunkCount p1
        then failRet CodeTooManyChunks p1 h rest
        else
          let p2 = (if chunkSize p1 \<noteq> 0 then p1\<lparr>chunkCount := chunkCount p1 + 1\<rparr> else p1);
              (p3, h) = invoke cbChunkHeader (EvChunkHeader (chunkSize p2)) p2 h in
          if code p3 \<noteq> CodeNone then Ret p3 h rest (code p3)
          else if chunkSize p3 = 0
          then Go (p3\<lparr>trailers := True, state := stateHeaderStart\<rparr>) h rest
          else Go (p3\<lparr>remaining := chunkSize p3, state := stateChunkBody\<rparr>) h rest)"

definition stepChunkBody :: "parser \<Rightarrow> history \<Rightarrow> byte \<Rightarrow> bytes \<Rightarrow> outcome" where
  "stepChunkBody p h b rest =
     (let tk = min (length (b # rest)) (unat (remaining p));
          (p1, ok) = addBody (of_nat tk) p in
      if \<not> ok then Ret p1 h (b # rest) (code p1)
      else
        let (p2, h) =
              deliverBody (take tk (b # rest)) (p1\<lparr>remaining := remaining p1 - of_nat tk\<rparr>) h;
            r = drop tk (b # rest) in
        if code p2 \<noteq> CodeNone then Ret p2 h r (code p2)
        else if remaining p2 = 0 then Go (p2\<lparr>state := stateChunkBodyCR\<rparr>) h r
        else Go p2 h r)"

definition stepChunkBodyCR :: "parser \<Rightarrow> history \<Rightarrow> byte \<Rightarrow> bytes \<Rightarrow> outcome" where
  "stepChunkBodyCR p h b rest =
     (if b \<noteq> bCR then failRet CodeInvalidLineEnding p h (b # rest)
      else Go (p\<lparr>state := stateChunkBodyLF\<rparr>) h rest)"

definition stepChunkBodyLF :: "parser \<Rightarrow> history \<Rightarrow> byte \<Rightarrow> bytes \<Rightarrow> outcome" where
  "stepChunkBodyLF p h b rest =
     (if b \<noteq> bLF then failRet CodeInvalidLineEnding p h (b # rest)
      else let (q, h) = invoke cbChunkComplete EvChunkComplete p h in
        if code q \<noteq> CodeNone then Ret q h rest (code q)
        else Go (q\<lparr>state := stateChunkSizeStart\<rparr>) h rest)"

subsection \<open>The loop\<close>

definition step :: "parser \<Rightarrow> history \<Rightarrow> byte \<Rightarrow> bytes \<Rightarrow> outcome" where
  "step p h b rest =
     (case state p of
        stateStart \<Rightarrow> stepStart p h b rest
      | stateLeadingLF \<Rightarrow> stepLeadingLF p h b rest
      | stateReqMethod \<Rightarrow> stepReqMethod p h b rest
      | stateReqTarget \<Rightarrow> stepReqTarget p h b rest
      | stateReqHTTP \<Rightarrow> stepHTTP p h b rest
      | stateResHTTP \<Rightarrow> stepHTTP p h b rest
      | stateVersionMajor \<Rightarrow> stepVersionMajor p h b rest
      | stateVersionDot \<Rightarrow> stepVersionDot p h b rest
      | stateVersionMinor \<Rightarrow> stepVersionMinor p h b rest
      | stateReqLineCR \<Rightarrow> stepReqLineCR p h b rest
      | stateReqLineLF \<Rightarrow> stepStartLineLF p h b rest
      | stateResSpaceBeforeStatus \<Rightarrow> stepResSpaceBeforeStatus p h b rest
      | stateResStatus \<Rightarrow> stepResStatus p h b rest
      | stateResReasonStart \<Rightarrow> stepResReasonStart p h b rest
      | stateResReason \<Rightarrow> stepResReason p h b rest
      | stateResLineLF \<Rightarrow> stepStartLineLF p h b rest
      | stateHeaderStart \<Rightarrow> stepHeaderStart p h b rest
      | stateHeaderName \<Rightarrow> stepHeaderName p h b rest
      | stateHeaderValueStart \<Rightarrow> stepHeaderValueStart p h b rest
      | stateHeaderValue \<Rightarrow> stepHeaderValue p h b rest
      | stateHeaderValueLF \<Rightarrow> stepHeaderValueLF p h b rest
      | stateHeadersLF \<Rightarrow> stepHeadersLF p h b rest
      | stateFixedBody \<Rightarrow> stepFixedBody p h b rest
      | stateCloseBody \<Rightarrow> stepCloseBody p h b rest
      | stateChunkSizeStart \<Rightarrow> stepChunkSizeStart p h b rest
      | stateChunkSize \<Rightarrow> stepChunkSize p h b rest
      | stateChunkExt \<Rightarrow> stepChunkExt p h b rest
      | stateChunkSizeLF \<Rightarrow> stepChunkSizeLF p h b rest
      | stateChunkBody \<Rightarrow> stepChunkBody p h b rest
      | stateChunkBodyCR \<Rightarrow> stepChunkBodyCR p h b rest
      | stateChunkBodyLF \<Rightarrow> stepChunkBodyLF p h b rest
      | stateUpgrade \<Rightarrow> failRet CodeInvalidStartLine p h (b # rest)
      | stateDead \<Rightarrow> failRet CodeInvalidStartLine p h (b # rest))"

text \<open>The loop, with fuel: \<open>None\<close> stands for more than \<open>fuel\<close> iterations.\<close>

fun parse_loop ::
  "nat \<Rightarrow> parser \<Rightarrow> history \<Rightarrow> bytes \<Rightarrow> (parser \<times> history \<times> bytes \<times> result_code) option" where
  "parse_loop fuel p h [] = Some (p, h, [], CodeNone)"
| "parse_loop 0 p h (b # rest) = None"
| "parse_loop (Suc fuel) p h (b # rest) =
     (if paused p then Some (p, h, b # rest, CodeNone)
      else case step p h b rest of
          Go q h' r \<Rightarrow> parse_loop fuel q h' r
        | Ret q h' r c \<Rightarrow> Some (q, h', r, c))"

text \<open>Every iteration either consumes an octet or is one of four state changes that are
  followed by one that does, so twice the input length and one iterations are enough
  (\<open>Parse_total\<close>).\<close>

definition parse_fuel :: "bytes \<Rightarrow> nat" where
  "parse_fuel src = 2 * length src + 1"

definition parse_suffix ::
  "parser \<Rightarrow> history \<Rightarrow> bytes \<Rightarrow> (parser \<times> history \<times> bytes \<times> result_code) option" where
  "parse_suffix p h src =
     (if code p \<noteq> CodeNone then Some (p, h, src, code p)
      else if state p = stateUpgrade then Some (p, h, src, CodeUpgrade)
      else parse_loop (parse_fuel src) p h src)"

subsection \<open>Public operations\<close>

definition runParse ::
  "bool \<Rightarrow> parser \<Rightarrow> history \<Rightarrow> bytes \<Rightarrow> (parser \<times> history \<times> nat \<times> result_code) option" where
  "runParse pause p h src =
     (if parsing p then Some (fail CodeReentrantCall p, h, 0, code (fail CodeReentrantCall p))
      else
        case parse_suffix (p\<lparr>parsing := True, pauseAfterMessage := pause, paused := False\<rparr>) h src of
          None \<Rightarrow> None
        | Some (q, h', rest, c) \<Rightarrow>
            Some (q\<lparr>pauseAfterMessage := False, parsing := False\<rparr>, h',
                  length src - length rest, c))"

definition Parse ::
  "parser \<Rightarrow> history \<Rightarrow> bytes \<Rightarrow> (parser \<times> history \<times> nat \<times> result_code) option" where
  "Parse p h src = runParse False p h src"

definition ParseOne ::
  "parser \<Rightarrow> history \<Rightarrow> bytes \<Rightarrow> (parser \<times> history \<times> nat \<times> bool \<times> result_code) option" where
  "ParseOne p h src =
     (case runParse True p h src of
        None \<Rightarrow> None
      | Some (q, h', n, c) \<Rightarrow> Some (q, h', n, paused q, c))"

text \<open>The deferred reset of \<open>parsing\<close> runs on every return after it is set.\<close>

definition finish_open :: "parser \<Rightarrow> history \<Rightarrow> parser \<times> history \<times> result_code" where
  "finish_open p h =
     (if state p = stateUpgrade then (p, h, CodeUpgrade)
      else if state p = stateCloseBody then
        (let (q, h) = completeMessage p h in (q, h, code q))
      else if state p = stateStart \<and> \<not> messageActive p then (p, h, CodeNone)
      else (fail CodeUnexpectedEOF p, h, code (fail CodeUnexpectedEOF p)))"

definition Finish :: "parser \<Rightarrow> history \<Rightarrow> parser \<times> history \<times> result_code" where
  "Finish p h =
     (if parsing p then (fail CodeReentrantCall p, h, code (fail CodeReentrantCall p))
      else if code p \<noteq> CodeNone then (p, h, code p)
      else
        let (q, h, c) = finish_open (p\<lparr>parsing := True\<rparr>) h
        in (q\<lparr>parsing := False\<rparr>, h, c))"

text \<open>What a callback can do to the parser that calls it: every public operation on a parser that is parsing only
  makes it fail.\<close>

lemma reentrant_calls_fail:
  assumes "parsing p"
  shows "Parse p h src = Some (fail CodeReentrantCall p, h, 0, code (fail CodeReentrantCall p))"
    "ParseOne p h src = Some (fail CodeReentrantCall p, h, 0, paused p, code (fail CodeReentrantCall p))"
    "Finish p h = (fail CodeReentrantCall p, h, code (fail CodeReentrantCall p))"
    "Init k cb l p = fail CodeReentrantCall p" "Reset p = fail CodeReentrantCall p"
    "SetResponseContext head connect p = fail CodeReentrantCall p"
  using assms by (simp_all add: Parse_def ParseOne_def runParse_def Finish_def Init_def Reset_def SetResponseContext_def fail_def)

end
