(* ===== verification/Http1_Invariant.thy ===== *)
theory Http1_Invariant
  imports Http1_Parser
begin

text \<open>
  The well-formedness invariant of the HTTP/1 parser: every counter is within the configured
  limit, the failure code and the dead state go together, the positions that the loop states
  count with are in range, a body is never announced beyond the body limit, and Content-Length
  and Transfer-Encoding are never both recorded. Every operation preserves it
  (\<open>step_wf\<close>, and the public operations in the theory of properties).
\<close>

subsection \<open>The invariant\<close>

definition headStates :: "parser_state set" where
  "headStates = {stateReqMethod, stateReqTarget, stateReqHTTP, stateVersionMajor,
     stateVersionDot, stateVersionMinor, stateReqLineCR, stateReqLineLF, stateResHTTP,
     stateResSpaceBeforeStatus, stateResStatus, stateResReasonStart, stateResReason,
     stateResLineLF, stateHeaderStart, stateHeaderName, stateHeaderValueStart,
     stateHeaderValue, stateHeaderValueLF, stateHeadersLF}"

definition sizedStates :: "parser_state set" where
  "sizedStates = {stateFixedBody, stateChunkBody}"

definition idleStates :: "parser_state set" where
  "idleStates = {stateStart, stateLeadingLF, stateUpgrade}"

definition within_limits :: "parser \<Rightarrow> bool" where
  "within_limits p \<longleftrightarrow>
     startBytes p \<le> MaxStartLineBytes (limits p) \<and>
     prefixBytes p \<le> MaxStartLineBytes (limits p) \<and>
     headerBytes p \<le> MaxHeaderBytes (limits p) \<and>
     chunkLineBytes p \<le> MaxChunkLineBytes (limits p) \<and>
     chunkCount p \<le> MaxChunks (limits p) \<and>
     chunkMetadataBytes p \<le> MaxChunkMetadataBytes (limits p) \<and>
     headerCount p \<le> MaxHeaders (limits p) \<and>
     headerNameBytes p \<le> MaxHeaderNameBytes (limits p) \<and>
     bodyBytes p \<le> MaxBodyBytes (limits p)"

text \<open>The IP literal buffer is an array of 64 octets, filled up to the recorded length.\<close>

definition ip_ok :: "parser \<Rightarrow> bool" where
  "ip_ok p \<longleftrightarrow>
     length (ipLiteral p) = maxIPLiteralBytes \<and> unat (ipLiteralLen p) \<le> maxIPLiteralBytes"

definition control_ok :: "parser \<Rightarrow> bool" where
  "control_ok p \<longleftrightarrow>
     (code p \<noteq> CodeNone \<longleftrightarrow> state p = stateDead) \<and>
     (code p = CodeNone \<longrightarrow> kind p = Request \<or> kind p = Response) \<and>
     (state p \<in> {stateReqHTTP, stateResHTTP} \<longrightarrow> literalPos p < 5) \<and>
     (state p = stateResStatus \<longrightarrow> statusDigits p < 3) \<and>
     (state p \<in> headStates \<and> \<not> trailers p \<longrightarrow> bodyBytes p = 0) \<and>
     (state p \<in> sizedStates \<longrightarrow>
        0 < remaining p \<and> remaining p \<le> MaxBodyBytes (limits p) - bodyBytes p) \<and>
     (code p = CodeNone \<longrightarrow> (messageActive p \<longleftrightarrow> state p \<notin> idleStates)) \<and>
     (parsing p \<and> paused p \<longrightarrow> pauseAfterMessage p) \<and>
     \<not> (hasContentLength p \<and> hasTransferEncoding p)"

definition well_formed :: "parser \<Rightarrow> bool" where
  "well_formed p \<longleftrightarrow> within_limits p \<and> ip_ok p \<and> control_ok p"

text \<open>A live parser in a given state: no failure recorded.\<close>

definition live :: "parser_state \<Rightarrow> parser \<Rightarrow> bool" where
  "live s p \<longleftrightarrow> well_formed p \<and> code p = CodeNone \<and> state p = s"

lemma live_wf: "live s p \<Longrightarrow> well_formed p"
  by (simp add: live_def)

lemma live_code: "live s p \<Longrightarrow> code p = CodeNone"
  by (simp add: live_def)

lemma live_state: "live s p \<Longrightarrow> state p = s"
  by (simp add: live_def)

lemmas live_dest = live_wf live_code live_state

subsection \<open>The control view\<close>

text \<open>The fields that the invariant reads, apart from the announced length. Operations of the
  value automata do not change them unless they fail.\<close>

definition ctl where
  "ctl p =
     ((state p, code p, kind p, limits p, callbacks p),
      (startBytes p, prefixBytes p, headerBytes p, chunkLineBytes p, chunkCount p,
       chunkMetadataBytes p, headerCount p, headerNameBytes p, bodyBytes p),
      (literalPos p, statusDigits p, hasContentLength p, hasTransferEncoding p, trailers p,
       messageActive p, parsing p, paused p, pauseAfterMessage p, messageNum p, exchangeNum p),
      ip_ok p)"

lemma ctl_aux [simp]:
  "ctl (p\<lparr>major := u1\<rparr>) = ctl p"
  "ctl (p\<lparr>minor := u1\<rparr>) = ctl p"
  "ctl (p\<lparr>status := u1\<rparr>) = ctl p"
  "ctl (p\<lparr>meth := m\<rparr>) = ctl p"
  "ctl (p\<lparr>remaining := u3\<rparr>) = ctl p"
  "ctl (p\<lparr>chunkSize := u3\<rparr>) = ctl p"
  "ctl (p\<lparr>methodPos := u0\<rparr>) = ctl p"
  "ctl (p\<lparr>methodMask := u1\<rparr>) = ctl p"
  "ctl (p\<lparr>targetBytes := u2\<rparr>) = ctl p"
  "ctl (p\<lparr>targetPercent := u0\<rparr>) = ctl p"
  "ctl (p\<lparr>targetForm := tf\<rparr>) = ctl p"
  "ctl (p\<lparr>targetAuthorityBracket := x\<rparr>) = ctl p"
  "ctl (p\<lparr>targetAuthorityClosed := x\<rparr>) = ctl p"
  "ctl (p\<lparr>targetAuthorityColon := x\<rparr>) = ctl p"
  "ctl (p\<lparr>targetAuthorityPort := x\<rparr>) = ctl p"
  "ctl (p\<lparr>fieldPos := u1\<rparr>) = ctl p"
  "ctl (p\<lparr>fieldMask := u1\<rparr>) = ctl p"
  "ctl (p\<lparr>field := fk\<rparr>) = ctl p"
  "ctl (p\<lparr>hasHost := x\<rparr>) = ctl p"
  "ctl (p\<lparr>hostNonEmpty := x\<rparr>) = ctl p"
  "ctl (p\<lparr>hostLiteralNonEmpty := x\<rparr>) = ctl p"
  "ctl (p\<lparr>hostState := hs\<rparr>) = ctl p"
  "ctl (p\<lparr>hasUpgrade := x\<rparr>) = ctl p"
  "ctl (p\<lparr>upgradeState := us\<rparr>) = ctl p"
  "ctl (p\<lparr>upgradeSawProtocol := x\<rparr>) = ctl p"
  "ctl (p\<lparr>connectionClose := x\<rparr>) = ctl p"
  "ctl (p\<lparr>connectionUpgrade := x\<rparr>) = ctl p"
  "ctl (p\<lparr>connectionKeepAlive := x\<rparr>) = ctl p"
  "ctl (p\<lparr>responseToHEAD := x\<rparr>) = ctl p"
  "ctl (p\<lparr>responseToCONNECT := x\<rparr>) = ctl p"
  "ctl (p\<lparr>contentLengthDigits := x\<rparr>) = ctl p"
  "ctl (p\<lparr>contentLengthTrailing := x\<rparr>) = ctl p"
  "ctl (p\<lparr>transferState := ts\<rparr>) = ctl p"
  "ctl (p\<lparr>transferTokenPos := u0\<rparr>) = ctl p"
  "ctl (p\<lparr>transferChunked := x\<rparr>) = ctl p"
  "ctl (p\<lparr>transferCurrentChunked := x\<rparr>) = ctl p"
  "ctl (p\<lparr>transferSawToken := x\<rparr>) = ctl p"
  "ctl (p\<lparr>transferSawChunked := x\<rparr>) = ctl p"
  "ctl (p\<lparr>connectionState := cs\<rparr>) = ctl p"
  "ctl (p\<lparr>connectionTokenPos := u0\<rparr>) = ctl p"
  "ctl (p\<lparr>connectionCloseMatch := x\<rparr>) = ctl p"
  "ctl (p\<lparr>connectionUpgradeMatch := x\<rparr>) = ctl p"
  "ctl (p\<lparr>connectionKeepAliveMatch := x\<rparr>) = ctl p"
  "ctl (p\<lparr>chunkDigits := x\<rparr>) = ctl p"
  "ctl (p\<lparr>chunkExtState := ce\<rparr>) = ctl p"
  by (simp_all add: ctl_def ip_ok_def)

lemma ctl_ipLiteralLen [simp]: "ip_ok p \<Longrightarrow> ctl (p\<lparr>ipLiteralLen := 0\<rparr>) = ctl p"
  by (simp add: ctl_def ip_ok_def)

lemma ip_ok_aux [simp]:
  "ip_ok (p\<lparr>hostNonEmpty := x\<rparr>) = ip_ok p" "ip_ok (p\<lparr>hostLiteralNonEmpty := x\<rparr>) = ip_ok p"
  "ip_ok (p\<lparr>targetForm := tf\<rparr>) = ip_ok p" "ip_ok (p\<lparr>targetAuthorityBracket := x\<rparr>) = ip_ok p"
  by (simp_all add: ip_ok_def)

lemma ip_ok_fail [simp]: "ip_ok (fail c p) = ip_ok p"
  by (simp add: ip_ok_def fail_def)

lemma wf_ctl:
  "ctl p = ctl q \<Longrightarrow> state p \<notin> sizedStates \<Longrightarrow> well_formed p \<longleftrightarrow> well_formed q"
  by (simp add: ctl_def well_formed_def within_limits_def control_ok_def)

lemma live_ctl: "ctl p = ctl q \<Longrightarrow> s \<notin> sizedStates \<Longrightarrow> live s p \<longleftrightarrow> live s q"
proof -
  assume *: "ctl p = ctl q" "s \<notin> sizedStates"
  then have "state p = state q" "code p = code q" by (simp_all add: ctl_def)
  then show ?thesis using * wf_ctl [of p q] by (cases "state q = s") (simp_all add: live_def)
qed

lemma ctl_fail_cong: "ctl p = ctl q \<Longrightarrow> ctl (fail c p) = ctl (fail c q)"
  by (simp add: ctl_def fail_def ip_ok_def)

subsection \<open>Failure\<close>

lemma fail_code [simp]: "code p = CodeNone \<Longrightarrow> code (fail c p) = c"
  by (simp add: fail_def)

lemma fail_dead: "code p \<noteq> CodeNone \<Longrightarrow> fail c p = p"
  by (simp add: fail_def)

lemma within_limits_fail [simp]: "within_limits (fail c p) = within_limits p"
  by (simp add: within_limits_def fail_def)

lemma control_ok_fail: "control_ok p \<Longrightarrow> c \<noteq> CodeNone \<Longrightarrow> control_ok (fail c p)"
  by (simp add: control_ok_def fail_def headStates_def sizedStates_def)

lemma wf_fail: "well_formed p \<Longrightarrow> c \<noteq> CodeNone \<Longrightarrow> well_formed (fail c p)"
  by (simp add: well_formed_def control_ok_fail)

text \<open>The contract of an automaton operation: success changes nothing the invariant reads,
  failure is a recorded failure.\<close>

definition aux_result :: "parser \<Rightarrow> parser \<times> bool \<Rightarrow> bool" where
  "aux_result p res \<longleftrightarrow>
     (case res of (q, ok) \<Rightarrow>
        if ok then ctl q = ctl p else (\<exists>c. c \<noteq> CodeNone \<and> ctl q = ctl (fail c p)))"

lemma aux_result_live:
  assumes "aux_result p (q, True)" "live s p" "s \<notin> sizedStates"
  shows "live s q"
  using assms by (auto simp: aux_result_def live_ctl [of q p])

lemma aux_result_wf:
  assumes "aux_result p (q, ok)" "live s p" "s \<notin> sizedStates"
  shows "well_formed q"
proof (cases ok)
  case True
  with assms show ?thesis using aux_result_live [of p q s] by (simp add: live_def)
next
  case False
  with assms(1) obtain c where c: "c \<noteq> CodeNone" "ctl q = ctl (fail c p)"
    by (auto simp: aux_result_def)
  have "well_formed (fail c p)" using assms(2) c(1) by (simp add: wf_fail live_def)
  moreover have "state (fail c p) \<notin> sizedStates"
    using assms(2) by (simp add: live_def fail_def sizedStates_def)
  ultimately show ?thesis using c(2) wf_ctl [of "fail c p" q] by simp
qed

lemma aux_result_failI: "c \<noteq> CodeNone \<Longrightarrow> ctl q = ctl p \<Longrightarrow> aux_result p (fail c q, False)"
  by (auto simp: aux_result_def intro: ctl_fail_cong)

lemma aux_result_okI: "ctl q = ctl p \<Longrightarrow> aux_result p (q, True)"
  by (simp add: aux_result_def)

lemmas aux_intros = aux_result_failI aux_result_okI

subsection \<open>The value automata keep the control view\<close>

lemma aux_finishTransferToken:
  "code p = CodeNone \<Longrightarrow> code (finishTransferToken p) = CodeNone \<Longrightarrow>
     ctl (finishTransferToken p) = ctl p"
  by (auto simp: finishTransferToken_def Let_def split: if_splits)

lemma aux_finishTransferToken_fail:
  "code p = CodeNone \<Longrightarrow> code (finishTransferToken p) \<noteq> CodeNone \<Longrightarrow>
     ctl (finishTransferToken p) = ctl (fail CodeInvalidTransferEncoding p)"
  by (simp add: finishTransferToken_def Let_def split: if_splits) (rule ctl_fail_cong, simp)

lemma aux_rejects:
  "ctl q = ctl p \<Longrightarrow> aux_result p (rejectTransfer q)"
  "ctl q = ctl p \<Longrightarrow> aux_result p (rejectValue q)"
  "ctl q = ctl p \<Longrightarrow> aux_result p (rejectTarget q)"
  "ctl q = ctl p \<Longrightarrow> aux_result p (rejectChunkExt q)"
  by (simp_all add: rejectTransfer_def rejectValue_def rejectTarget_def rejectChunkExt_def
        aux_result_failI)

lemmas aux_simps = aux_rejects aux_intros Let_def

lemma aux_transferTokenByte:
  assumes "code p = CodeNone" "ctl q = ctl p"
  shows "aux_result p (transferTokenByte b q)"
proof -
  have q: "code q = CodeNone" using assms by (simp add: ctl_def)
  show ?thesis
  proof (cases "code (finishTransferToken q) = CodeNone")
    case True
    then have "ctl (finishTransferToken q) = ctl p"
      using aux_finishTransferToken [OF q] assms(2) by simp
    then show ?thesis using True assms(2)
      by (simp add: transferTokenByte_def aux_simps)
  next
    case False
    then have "ctl (finishTransferToken q) = ctl (fail CodeInvalidTransferEncoding q)"
      by (rule aux_finishTransferToken_fail [OF q])
    then have "ctl (finishTransferToken q) = ctl (fail CodeInvalidTransferEncoding p)"
      using assms(2) ctl_fail_cong by metis
    then have "aux_result p (finishTransferToken q, False)"
      by (auto simp: aux_result_def)
    then show ?thesis using False assms(2)
      by (simp add: transferTokenByte_def aux_simps)
  qed
qed

lemma aux_consumeTransferValue:
  "code p = CodeNone \<Longrightarrow> aux_result p (consumeTransferValue b p)"
  by (cases "transferState p") (simp_all add: consumeTransferValue_def aux_simps aux_transferTokenByte)

lemma aux_finishTransferValue:
  assumes "code p = CodeNone"
  shows "aux_result p (finishTransferValue p)"
proof (cases "code (finishTransferToken p) = CodeNone")
  case True
  then have "ctl (finishTransferToken p) = ctl p"
    by (rule aux_finishTransferToken [OF assms])
  then show ?thesis using True
    by (simp add: finishTransferValue_def aux_simps
          split: transfer_state.splits)
next
  case False
  then have "ctl (finishTransferToken p) = ctl (fail CodeInvalidTransferEncoding p)"
    by (rule aux_finishTransferToken_fail [OF assms])
  then have "aux_result p (finishTransferToken p, False)"
    by (auto simp: aux_result_def)
  then show ?thesis using False
    by (simp add: finishTransferValue_def aux_simps
          split: transfer_state.splits)
qed

lemma aux_consumeUpgradeValue: "aux_result p (consumeUpgradeValue b p)"
  by (simp add: consumeUpgradeValue_def aux_simps
       split: upgrade_state.splits)

lemma aux_finishUpgradeValue: "aux_result p (finishUpgradeValue p)"
  by (simp add: finishUpgradeValue_def aux_simps)

lemma ctl_appendIPLiteral [simp]: "ip_ok p \<Longrightarrow> ctl (fst (appendIPLiteral b p)) = ctl p"
  by (simp add: appendIPLiteral_def ctl_def ip_ok_def maxIPLiteralBytes_def unat_word_ariths)

lemma aux_consumeHostValue: "ip_ok p \<Longrightarrow> aux_result p (consumeHostValue b p)"
  by (cases "hostState p") (simp_all add: consumeHostValue_def aux_simps case_prod_beta)

lemma aux_finishHostValue: "aux_result p (finishHostValue p)"
  by (simp add: finishHostValue_def aux_simps)

lemma ctl_finishConnectionToken [simp]: "ctl (finishConnectionToken p) = ctl p"
  by (simp add: finishConnectionToken_def)

lemma aux_connectionTokenByte: "ctl q = ctl p \<Longrightarrow> aux_result p (connectionTokenByte b q)"
  by (simp add: connectionTokenByte_def aux_simps)

lemma aux_consumeConnectionValue: "aux_result p (consumeConnectionValue b p)"
  by (simp add: consumeConnectionValue_def aux_simps
       aux_connectionTokenByte split: connection_state.splits)

lemma aux_finishConnectionValue: "aux_result p (finishConnectionValue p)"
  by (simp add: finishConnectionValue_def aux_simps
       split: connection_state.splits)

lemma aux_consumeContentLength: "aux_result p (consumeContentLength b p)"
  by (simp add: consumeContentLength_def aux_simps)

lemma aux_consumeFieldValue:
  "code p = CodeNone \<Longrightarrow> ip_ok p \<Longrightarrow> aux_result p (consumeFieldValue b p)"
  by (simp add: consumeFieldValue_def aux_simps aux_consumeContentLength
       aux_consumeTransferValue aux_consumeConnectionValue aux_consumeHostValue
       aux_consumeUpgradeValue split: field_kind.splits)

lemma aux_finishFieldValue:
  "code p = CodeNone \<Longrightarrow> aux_result p (finishFieldValue p)"
  by (simp add: finishFieldValue_def aux_simps aux_finishTransferValue
       aux_finishConnectionValue aux_finishHostValue aux_finishUpgradeValue
       split: field_kind.splits)

lemma aux_authorityTargetByte: "ip_ok p \<Longrightarrow> aux_result p (authorityTargetByte b p)"
  by (simp add: authorityTargetByte_def aux_simps case_prod_beta)

lemma aux_firstTargetByte: "ip_ok p \<Longrightarrow> aux_result p (firstTargetByte b p)"
  by (simp add: firstTargetByte_def aux_simps)

lemma aux_consumeTargetForm: "ip_ok p \<Longrightarrow> aux_result p (consumeTargetForm b p)"
  by (simp add: consumeTargetForm_def aux_simps aux_firstTargetByte
       aux_authorityTargetByte split: target_form.splits)

lemma aux_finishTarget: "aux_result p (finishTarget p)"
  by (simp add: finishTarget_def aux_simps)

lemma aux_targetPercentByte: "aux_result p (targetPercentByte b p)"
  by (simp add: targetPercentByte_def aux_simps)

lemma aux_consumeChunkExtension: "aux_result p (consumeChunkExtension b p)"
  by (cases "chunkExtState p") (simp_all add: consumeChunkExtension_def aux_simps)

lemma aux_finishChunkExtension: "aux_result p (finishChunkExtension p)"
  by (simp add: finishChunkExtension_def aux_simps)

lemma ctl_matchers [simp]:
  "ctl (matchMethod b p) = ctl p" "ctl (finishMethod p) = ctl p" "ctl (matchField b p) = ctl p"
  by (simp_all add: matchMethod_def finishMethod_def matchField_def Let_def)
end
