(* ===== verification/Http1_Steps.thy ===== *)
theory Http1_Steps
  imports Http1_Invariant
begin

text \<open>
  Proof rules for one iteration of the main loop. \<open>ok_outcome\<close> is what every iteration
  promises: the parser it leaves is well-formed, the unread input is a suffix of the input, a
  further iteration has less to do, and a returned code is the recorded failure or the protocol
  switch. The rules follow the shape of the code: budgets (\<open>wp_take\<close>), callbacks
  (\<open>wp_invoke\<close>, \<open>wp_deliver\<close>), inner loops (\<open>wp_scan\<close>, over the
  interface \<open>span_loop\<close> that every inner loop interprets) and changes of state.
\<close>

subsection \<open>Iteration outcomes\<close>

text \<open>Four states change without reading; they are followed by one that reads.\<close>

definition rank :: "parser_state \<Rightarrow> nat" where
  "rank s = (if s \<in> {stateStart, stateHeaderStart, stateHeaderValueStart, stateChunkSizeStart}
     then 1 else 0)"

fun ok_outcome :: "bytes \<Rightarrow> nat \<Rightarrow> outcome \<Rightarrow> bool" where
  "ok_outcome src m (Go q h r) \<longleftrightarrow>
     well_formed q \<and> code q = CodeNone \<and> state q \<noteq> stateUpgrade \<and> suffix r src \<and>
     2 * length r + rank (state q) < m"
| "ok_outcome src m (Ret q h r c) \<longleftrightarrow>
     well_formed q \<and> suffix r src \<and>
     (c = code q \<and> c \<noteq> CodeNone \<or>
      c = CodeUpgrade \<and> code q = CodeNone \<and> state q = stateUpgrade)"

definition res_ok :: "parser_state \<Rightarrow> parser \<times> bool \<Rightarrow> bool" where
  "res_ok s r \<longleftrightarrow>
     (if snd r then live s (fst r) else well_formed (fst r) \<and> code (fst r) \<noteq> CodeNone)"

lemma wp_if:
  "(c \<Longrightarrow> ok_outcome src m x) \<Longrightarrow> (\<not> c \<Longrightarrow> ok_outcome src m y) \<Longrightarrow>
     ok_outcome src m (if c then x else y)"
  by simp

lemma wp_take:
  assumes "res_ok s res" "suffix rs src" "\<And>q. live s q \<Longrightarrow> ok_outcome src m (k q)"
  shows "ok_outcome src m (let (q, ok) = res in if \<not> ok then Ret q h rs (code q) else k q)"
proof -
  obtain q ok where res: "res = (q, ok)" by (cases res)
  show ?thesis
  proof (cases ok)
    case True
    then have "live s q" using assms(1) res by (simp add: res_ok_def)
    then show ?thesis using res True assms(3) by simp
  next
    case False
    then show ?thesis using res assms(1,2) by (simp add: res_ok_def)
  qed
qed

lemma wp_fail:
  assumes "live s p" "suffix rs src" "c \<noteq> CodeNone"
  shows "ok_outcome src m (failRet c p h rs)"
  using assms by (simp add: failRet_def wf_fail live_def)

text \<open>What remains of the invariant when a state is being left: enough for a failure recorded
  now to be well-formed.\<close>

definition settled :: "parser \<Rightarrow> bool" where
  "settled p \<longleftrightarrow> within_limits p \<and> ip_ok p \<and> \<not> (hasContentLength p \<and> hasTransferEncoding p) \<and>
     (parsing p \<and> paused p \<longrightarrow> pauseAfterMessage p) \<and> code p = CodeNone"

lemma live_settled: "live s p \<Longrightarrow> settled p"
  by (simp add: live_def settled_def well_formed_def control_ok_def)

lemma settled_fail: "settled p \<Longrightarrow> c \<noteq> CodeNone \<Longrightarrow> well_formed (fail c p)"
  by (simp add: settled_def well_formed_def)
    (simp add: control_ok_def fail_def headStates_def sizedStates_def)

lemma invoke_cases:
  assumes "settled p" "invoke sel ev p h = (q, h')"
  shows "q = p \<and> code q = CodeNone \<or> well_formed q \<and> code q = CodeReentrantCall"
proof -
  have "q = p \<or> q = fail CodeReentrantCall p"
    using arg_cong [OF assms(2), of fst] by (simp add: invoke_def split: option.splits if_splits)
  then show ?thesis
    using assms(1) settled_fail [of p CodeReentrantCall] by (auto simp: settled_def)
qed

lemma wp_invoke:
  assumes "settled p" "suffix rs src" "\<And>h'. ok_outcome src m (k p h')"
  shows "ok_outcome src m (let (q, h') = invoke sel ev p h in
     if code q \<noteq> CodeNone then Ret q h' rs (code q) else k q h')"
proof -
  obtain q h' where i: "invoke sel ev p h = (q, h')" by (cases "invoke sel ev p h")
  show ?thesis using invoke_cases [OF assms(1) i] assms(2) assms(3) [of h'] i by auto
qed

lemma wp_deliver:
  assumes "settled p" "suffix rs src" "\<And>h'. ok_outcome src m (k p h')"
  shows "ok_outcome src m (let (q, h') = deliver sel ev s0 r0 p h in
     if code q \<noteq> CodeNone then Ret q h' rs (code q) else k q h')"
  using assms wp_invoke [of p rs src m k]
  by (simp add: deliver_def settled_def)

lemma deliverBody_cases:
  assumes "settled p" "deliverBody span p h = (q, h')"
  shows "q = p \<and> code q = CodeNone \<or> well_formed q \<and> code q = CodeReentrantCall"
  using assms invoke_cases [of p cbBody "EvBody span" h q h']
  by (simp add: deliverBody_def settled_def split: if_splits)

subsection \<open>Spans\<close>

text \<open>The interface of an inner loop: while the loop runs, \<open>I\<close> holds; when its body stops
  the parse, \<open>E\<close> holds.\<close>

locale span_loop =
  fixes cond :: "byte \<Rightarrow> parser \<Rightarrow> bool"
    and body :: "byte \<Rightarrow> parser \<Rightarrow> parser \<times> bool"
    and I :: "parser \<Rightarrow> bool"
    and E :: "parser \<Rightarrow> bool"
  assumes body_ok: "I p \<Longrightarrow> cond b p \<Longrightarrow> body b p = (q, True) \<Longrightarrow> I q"
    and body_stop: "I p \<Longrightarrow> cond b p \<Longrightarrow> body b p = (q, False) \<Longrightarrow> E q"
begin

lemma scan_result:
  "I p \<Longrightarrow> scan cond body p bs = (q, r, ok) \<Longrightarrow>
     suffix r bs \<and>
     (if ok then I q \<and> (r = [] \<or> \<not> cond (hd r) q) \<and> (r = bs \<longrightarrow> q = p) else E q)"
proof (induction bs arbitrary: p)
  case Nil
  then show ?case by simp
next
  case (Cons b bs)
  obtain p' ok' where body: "body b p = (p', ok')" by (cases "body b p")
  show ?case
  proof (cases "cond b p \<and> ok'")
    case True
    then have "I p'" using Cons.prems(1) body body_ok [of p b p'] by simp
    then have IH: "suffix r bs \<and>
       (if ok then I q \<and> (r = [] \<or> \<not> cond (hd r) q) \<and> (r = bs \<longrightarrow> q = p') else E q)"
      using Cons.IH Cons.prems(2) True body by simp
    then have "r \<noteq> b # bs" using suffix_length_le [of r bs] by auto
    then show ?thesis using IH by (simp add: suffix_ConsI)
  next
    case False
    then show ?thesis using Cons.prems body body_stop [of p b q] by (auto split: if_splits)
  qed
qed

end

lemma wp_scan:
  assumes "span_loop cond body I (\<lambda>q. well_formed q \<and> code q \<noteq> CodeNone)" "I p"
    and "\<And>q r. I q \<Longrightarrow> suffix r src \<Longrightarrow> r = [] \<or> \<not> cond (hd r) q \<Longrightarrow>
       r = src \<longrightarrow> q = p \<Longrightarrow> ok_outcome src m (k q r)"
  shows "ok_outcome src m (case scan cond body p src of (q, r, ok) \<Rightarrow>
     if \<not> ok then Ret q h r (code q) else k q r)"
proof -
  obtain q r ok where s: "scan cond body p src = (q, r, ok)"
    by (cases "scan cond body p src")
  from span_loop.scan_result [OF assms(1,2) s] assms(3) [of q r] show ?thesis
    by (cases ok) (simp_all add: s)
qed

lemma res_aux:
  assumes "aux_result p r" "live s p" "s \<notin> sizedStates"
  shows "res_ok s r"
proof -
  obtain q ok where r: "r = (q, ok)" by (cases r)
  show ?thesis
  proof (cases ok)
    case True
    then show ?thesis using assms r aux_result_live [of p q s] by (simp add: res_ok_def)
  next
    case False
    with assms(1) r obtain c where c: "c \<noteq> CodeNone" "ctl q = ctl (fail c p)"
      by (auto simp: aux_result_def)
    then have "code q = c" using assms(2) by (simp add: ctl_def live_def)
    then show ?thesis using assms r False c(1) aux_result_wf [of p q ok s]
      by (simp add: res_ok_def)
  qed
qed

lemma live_ip_ok: "live s p \<Longrightarrow> ip_ok p"
  by (simp add: live_def well_formed_def)

lemma res_bind:
  assumes "res_ok s r" "\<And>q. live s q \<Longrightarrow> res_ok s (k q)"
  shows "res_ok s (let (q, ok) = r in if \<not> ok then (q, False) else k q)"
proof -
  obtain q ok where r: "r = (q, ok)" by (cases r)
  show ?thesis
    using assms r by (cases ok) (simp_all add: res_ok_def)
qed

lemma res_fail: "live s p \<Longrightarrow> c \<noteq> CodeNone \<Longrightarrow> res_ok s (fail c p, False)"
  by (simp add: res_ok_def live_def wf_fail)

lemma res_okI: "live s p \<Longrightarrow> res_ok s (p, True)"
  by (simp add: res_ok_def)

lemma res_if:
  "(c \<Longrightarrow> res_ok s x) \<Longrightarrow> (\<not> c \<Longrightarrow> res_ok s y) \<Longrightarrow> res_ok s (if c then x else y)"
  by simp

lemma counters_frame [simp]:
  "control_ok (p\<lparr>startBytes := u2\<rparr>) = control_ok p" "ip_ok (p\<lparr>startBytes := u2\<rparr>) = ip_ok p"
  "control_ok (p\<lparr>prefixBytes := u2\<rparr>) = control_ok p" "ip_ok (p\<lparr>prefixBytes := u2\<rparr>) = ip_ok p"
  "control_ok (p\<lparr>headerBytes := u2\<rparr>) = control_ok p" "ip_ok (p\<lparr>headerBytes := u2\<rparr>) = ip_ok p"
  "control_ok (p\<lparr>chunkLineBytes := u2\<rparr>) = control_ok p" "ip_ok (p\<lparr>chunkLineBytes := u2\<rparr>) = ip_ok p"
  "control_ok (p\<lparr>chunkCount := u2\<rparr>) = control_ok p" "ip_ok (p\<lparr>chunkCount := u2\<rparr>) = ip_ok p"
  "control_ok (p\<lparr>chunkMetadataBytes := u3\<rparr>) = control_ok p" "ip_ok (p\<lparr>chunkMetadataBytes := u3\<rparr>) = ip_ok p"
  "control_ok (p\<lparr>headerCount := u1\<rparr>) = control_ok p" "ip_ok (p\<lparr>headerCount := u1\<rparr>) = ip_ok p"
  "control_ok (p\<lparr>headerNameBytes := u1\<rparr>) = control_ok p" "ip_ok (p\<lparr>headerNameBytes := u1\<rparr>) = ip_ok p"
  by (simp_all add: control_ok_def ip_ok_def)

lemma live_startBytes:
  "live s p \<Longrightarrow> startBytes p \<noteq> MaxStartLineBytes (limits p) \<Longrightarrow>
     live s (p\<lparr>startBytes := startBytes p + 1\<rparr>)"
  by (simp add: live_def well_formed_def within_limits_def word_facts)

lemma live_prefixBytes:
  "live s p \<Longrightarrow> prefixBytes p \<noteq> MaxStartLineBytes (limits p) \<Longrightarrow>
     live s (p\<lparr>prefixBytes := prefixBytes p + 1\<rparr>)"
  by (simp add: live_def well_formed_def within_limits_def word_facts)

lemma live_headerBytes:
  "live s p \<Longrightarrow> headerBytes p \<noteq> MaxHeaderBytes (limits p) \<Longrightarrow>
     live s (p\<lparr>headerBytes := headerBytes p + 1\<rparr>)"
  by (simp add: live_def well_formed_def within_limits_def word_facts)

lemma live_headerNameBytes:
  "live s p \<Longrightarrow> headerNameBytes p \<noteq> MaxHeaderNameBytes (limits p) \<Longrightarrow>
     live s (p\<lparr>headerNameBytes := headerNameBytes p + 1\<rparr>)"
  by (simp add: live_def well_formed_def within_limits_def word_facts)

lemma live_chunkLine:
  "live s p \<Longrightarrow> chunkLineBytes p \<noteq> MaxChunkLineBytes (limits p) \<Longrightarrow>
     \<not> MaxChunkMetadataBytes (limits p) \<le> chunkMetadataBytes p \<Longrightarrow>
     live s (p\<lparr>chunkLineBytes := chunkLineBytes p + 1,
              chunkMetadataBytes := chunkMetadataBytes p + 1\<rparr>)"
  by (simp add: live_def well_formed_def within_limits_def word_facts
        not_le inc_le)

lemma res_takeStartByte: "live s p \<Longrightarrow> res_ok s (takeStartByte p)"
  by (simp add: takeStartByte_def res_fail res_okI live_startBytes)

lemma res_takePrefixByte: "live s p \<Longrightarrow> res_ok s (takePrefixByte p)"
  by (simp add: takePrefixByte_def res_fail res_okI live_prefixBytes)

lemma res_takeHeaderByte: "live s p \<Longrightarrow> res_ok s (takeHeaderByte p)"
  by (simp add: takeHeaderByte_def res_fail res_okI live_headerBytes)

lemma res_takeChunkLineByte: "live s p \<Longrightarrow> res_ok s (takeChunkLineByte p)"
  by (simp add: takeChunkLineByte_def res_fail res_okI live_chunkLine)

lemmas res_takes = res_takeStartByte res_takePrefixByte res_takeHeaderByte res_takeChunkLineByte

text \<open>A change that the control view does not see keeps a parser live.\<close>

lemma live_same: "live s p \<Longrightarrow> s \<notin> sizedStates \<Longrightarrow> ctl q = ctl p \<Longrightarrow> live s q"
  using live_ctl [of q p s] by simp

lemma res_methodByte: "live stateReqMethod p \<Longrightarrow> res_ok stateReqMethod (methodByte b p)"
  unfolding methodByte_def
  by (rule res_bind) (simp_all add: res_takes res_okI live_same sizedStates_def)

lemma res_targetByte: "live stateReqTarget p \<Longrightarrow> res_ok stateReqTarget (targetByte b p)"
  unfolding targetByte_def
  by (intro res_bind)
    (simp_all add: res_takes res_okI live_same sizedStates_def
      res_aux [OF aux_consumeTargetForm] res_aux [OF aux_targetPercentByte] live_ip_ok)

lemma res_reasonByte: "live stateResReason p \<Longrightarrow> res_ok stateResReason (reasonByte b p)"
  by (simp add: reasonByte_def res_fail res_takes)

lemma res_headerNameByte: "live stateHeaderName p \<Longrightarrow> res_ok stateHeaderName (headerNameByte b p)"
  unfolding headerNameByte_def
  by (intro res_bind res_if res_fail res_okI)
    (simp_all add: res_takes live_same [OF live_headerNameBytes] sizedStates_def)

lemma res_headerValueByte:
  "live stateHeaderValue p \<Longrightarrow> res_ok stateHeaderValue (headerValueByte pv b p)"
  unfolding headerValueByte_def
  by (intro res_bind res_if res_fail res_okI)
    (simp_all add: res_takes res_aux [OF aux_consumeFieldValue] live_ip_ok live_code
      sizedStates_def)

lemma res_chunkSizeByte: "live stateChunkSize p \<Longrightarrow> res_ok stateChunkSize (chunkSizeByte b p)"
  unfolding chunkSizeByte_def Let_def
  by (rule res_bind [unfolded Let_def], simp add: res_takes live_same sizedStates_def)
    (intro res_if res_fail res_okI, simp_all add: live_same sizedStates_def)

lemma res_chunkExtByte: "live stateChunkExt p \<Longrightarrow> res_ok stateChunkExt (chunkExtByte b p)"
  unfolding chunkExtByte_def
  by (rule res_bind)
    (simp_all add: res_takes res_aux [OF aux_consumeChunkExtension] sizedStates_def)

abbreviation failed :: "parser \<Rightarrow> bool" where
  "failed q \<equiv> well_formed q \<and> code q \<noteq> CodeNone"

lemma span_loopI:
  assumes "\<And>p b. live s p \<Longrightarrow> cond b p \<Longrightarrow> res_ok s (body b p)"
  shows "span_loop cond body (live s) failed"
proof
  fix p b q assume *: "live s p" "cond b p"
  show "body b p = (q, True) \<Longrightarrow> live s q" using assms [OF *] by (simp add: res_ok_def)
  show "body b p = (q, False) \<Longrightarrow> failed q" using assms [OF *] by (simp add: res_ok_def)
qed

interpretation method_span: span_loop "\<lambda>b _. isTChar b" methodByte "live stateReqMethod" failed
  by (rule span_loopI) (rule res_methodByte)

interpretation target_span:
  span_loop "\<lambda>b _. validTargetByte b" targetByte "live stateReqTarget" failed
  by (rule span_loopI) (rule res_targetByte)

interpretation reason_span: span_loop "\<lambda>b _. b \<noteq> bCR" reasonByte "live stateResReason" failed
  by (rule span_loopI) (rule res_reasonByte)

interpretation headerName_span:
  span_loop "\<lambda>b _. isTChar b" headerNameByte "live stateHeaderName" failed
  by (rule span_loopI) (rule res_headerNameByte)

interpretation ows_span:
  span_loop "\<lambda>b _. isOWS b" "\<lambda>_. takeHeaderByte" "live stateHeaderValueStart" failed
  by (rule span_loopI) (rule res_takeHeaderByte)

interpretation headerValue_span:
  span_loop "\<lambda>b _. b \<noteq> bCR" "headerValueByte pv" "live stateHeaderValue" failed for pv
  by (rule span_loopI) (rule res_headerValueByte)

interpretation chunkSize_span:
  span_loop "\<lambda>b _. hexValue b \<noteq> None" chunkSizeByte "live stateChunkSize" failed
  by (rule span_loopI) (rule res_chunkSizeByte)

interpretation chunkExt_span:
  span_loop "\<lambda>b _. b \<noteq> bCR" chunkExtByte "live stateChunkExt" failed
  by (rule span_loopI) (rule res_chunkExtByte)

text \<open>The two loops that count a position run one past what the invariant of their state
  allows, and leave the state when they get there.\<close>

definition literal_live :: "parser_state \<Rightarrow> parser \<Rightarrow> bool" where
  "literal_live s p \<longleftrightarrow> live s (p\<lparr>literalPos := 0\<rparr>) \<and> literalPos p \<le> 5"

definition status_live :: "parser \<Rightarrow> bool" where
  "status_live p \<longleftrightarrow> live stateResStatus (p\<lparr>statusDigits := 0\<rparr>) \<and> statusDigits p \<le> 3"

lemma literal_live_settled: "literal_live s p \<Longrightarrow> settled p"
  by (simp add: literal_live_def live_def settled_def well_formed_def control_ok_def
      within_limits_def ip_ok_def)

lemma status_live_settled: "status_live p \<Longrightarrow> settled p"
  by (simp add: status_live_def live_def settled_def well_formed_def control_ok_def
      within_limits_def ip_ok_def)

lemma startBytes_swap:
  "p\<lparr>literalPos := i, startBytes := n\<rparr> = p\<lparr>startBytes := n, literalPos := i\<rparr>"
  "p\<lparr>statusDigits := i, startBytes := n\<rparr> = p\<lparr>startBytes := n, statusDigits := i\<rparr>"
  by simp_all

lemma literal_live_start:
  "literal_live s p \<Longrightarrow> startBytes p \<noteq> MaxStartLineBytes (limits p) \<Longrightarrow> literalPos p < 5 \<Longrightarrow>
   literal_live s (p\<lparr>startBytes := startBytes p + 1, literalPos := literalPos p + 1\<rparr>)"
  using live_startBytes [of s "p\<lparr>literalPos := 0\<rparr>"]
  by (simp add: literal_live_def inc_le startBytes_swap)

lemma status_live_start:
  "status_live p \<Longrightarrow> startBytes p \<noteq> MaxStartLineBytes (limits p) \<Longrightarrow> statusDigits p < 3 \<Longrightarrow>
   status_live (p\<lparr>startBytes := startBytes p + 1, status := st, statusDigits := statusDigits p + 1\<rparr>)"
  using live_startBytes [of stateResStatus "p\<lparr>statusDigits := 0\<rparr>"]
    live_same [of stateResStatus "p\<lparr>startBytes := startBytes p + 1, statusDigits := 0\<rparr>"
      "p\<lparr>startBytes := startBytes p + 1, status := st, statusDigits := 0\<rparr>"]
  by (simp add: status_live_def inc_le sizedStates_def ctl_def ip_ok_def startBytes_swap)

lemma settled_failed: "settled p \<Longrightarrow> c \<noteq> CodeNone \<Longrightarrow> failed (fail c p)"
  by (simp add: settled_fail settled_def)

interpretation literal_span:
  span_loop "\<lambda>_ p. literalPos p < 5" literalByte "literal_live s" failed for s
proof
  fix p b q assume *: "literal_live s p" "literalPos p < 5"
  show "literalByte b p = (q, True) \<Longrightarrow> literal_live s q"
    using literal_live_start [OF *(1) _ *(2)]
    by (simp add: literalByte_def takeStartByte_def Let_def split: if_splits)
  show "literalByte b p = (q, False) \<Longrightarrow> failed q"
    using settled_failed [OF literal_live_settled [OF *(1)], of CodeInvalidStartLine]
      settled_failed [OF literal_live_settled [OF *(1)], of CodeStartLineTooLarge]
    by (simp add: literalByte_def takeStartByte_def Let_def split: if_splits)
qed

interpretation status_span:
  span_loop "\<lambda>_ p. statusDigits p < 3" statusByte status_live failed
proof
  fix p b q assume *: "status_live p" "statusDigits p < 3"
  show "statusByte b p = (q, True) \<Longrightarrow> status_live q"
    using status_live_start [OF *(1) _ *(2), of "status p * 10 + ucast (b - b0)"]
    by (simp add: statusByte_def takeStartByte_def Let_def split: if_splits)
  show "statusByte b p = (q, False) \<Longrightarrow> failed q"
    using settled_failed [OF status_live_settled [OF *(1)], of CodeInvalidStatus]
      settled_failed [OF status_live_settled [OF *(1)], of CodeStartLineTooLarge]
    by (simp add: statusByte_def takeStartByte_def Let_def split: if_splits)
qed

subsection \<open>Rules for the continuation of an iteration\<close>

lemma wp_list:
  "(r = [] \<Longrightarrow> ok_outcome src m x) \<Longrightarrow>
   (\<And>c r'. r = c # r' \<Longrightarrow> ok_outcome src m (y c r')) \<Longrightarrow>
     ok_outcome src m (case r of [] \<Rightarrow> x | c # r' \<Rightarrow> y c r')"
  by (cases r) simp_all

lemma wp_go:
  "live s q \<Longrightarrow> suffix r src \<Longrightarrow> 2 * length r + rank s < m \<Longrightarrow> s \<noteq> stateUpgrade \<Longrightarrow>
     ok_outcome src m (Go q h r)"
  by (simp add: live_def)

lemma rank_le: "rank s \<le> 1"
  by (simp add: rank_def)

lemma wp_next:
  "live s q \<Longrightarrow> suffix (c # r) src \<Longrightarrow> 2 * length src \<le> m \<Longrightarrow> s \<noteq> stateUpgrade \<Longrightarrow>
     ok_outcome src m (Go q h r)"
  using rank_le [of s] suffix_length_le [of "c # r" src]
  by (intro wp_go [of s]) (auto dest: suffix_ConsD)

lemma wp_next1:
  "live s q \<Longrightarrow> 2 * length (b # r) \<le> m \<Longrightarrow> s \<noteq> stateUpgrade \<Longrightarrow> ok_outcome (b # r) m (Go q h r)"
  by (rule wp_next [of s q b]) simp_all

lemma wp_next_list:
  "live s q \<Longrightarrow> suffix r src \<Longrightarrow> r = c # r' \<Longrightarrow> 2 * length src \<le> m \<Longrightarrow> s \<noteq> stateUpgrade \<Longrightarrow>
     ok_outcome src m (Go q h r')"
  by (rule wp_next [of s q c]) simp_all

lemma wp_end:
  "live s q \<Longrightarrow> src \<noteq> [] \<Longrightarrow> 2 * length src \<le> m \<Longrightarrow> s \<noteq> stateUpgrade \<Longrightarrow>
     ok_outcome src m (Go q h [])"
  using rank_le [of s] by (cases src) (simp_all add: live_def)

lemma wp_ret:
  "failed q \<Longrightarrow> suffix r src \<Longrightarrow> ok_outcome src m (Ret q h r (code q))"
  by simp

lemma wp_settled_fail:
  assumes "settled p" "suffix rs src" "c \<noteq> CodeNone"
  shows "ok_outcome src m (failRet c p h rs)"
  using assms settled_fail [of p c] by (simp add: failRet_def settled_def)

subsection \<open>Changes of state\<close>

lemmas live_defs = live_def well_formed_def within_limits_def ip_ok_def control_ok_def
  idleStates_def sizedStates_def headStates_def

lemma goto_head:
  "live s p \<Longrightarrow> s \<in> headStates \<Longrightarrow> s' \<in> headStates - {stateReqHTTP, stateResHTTP, stateResStatus} \<Longrightarrow>
     live s' (p\<lparr>state := s'\<rparr>)"
proof -
  assume *: "live s p" "s \<in> headStates" "s' \<in> headStates - {stateReqHTTP, stateResHTTP, stateResStatus}"
  have "s' \<noteq> stateDead" "s' \<notin> sizedStates" "s' \<notin> idleStates" "s \<notin> idleStates"
    using *(2,3) by (auto simp: headStates_def sizedStates_def idleStates_def)
  then show ?thesis using *
    by (simp add: live_def well_formed_def within_limits_def ip_ok_def control_ok_def)
qed

lemma goto_ReqHTTP:
  "live stateReqTarget p \<Longrightarrow> live stateReqHTTP (p\<lparr>literalPos := 0, state := stateReqHTTP\<rparr>)"
  by (simp add: live_defs)

lemma goto_ResStatus:
  "live stateResSpaceBeforeStatus p \<Longrightarrow>
     live stateResStatus (p\<lparr>status := 0, statusDigits := 0, state := stateResStatus\<rparr>)"
  by (simp add: live_defs)

lemma live_literal:
  assumes "s \<in> {stateReqHTTP, stateResHTTP}"
  shows "live s p \<longleftrightarrow> literal_live s p \<and> literalPos p < 5"
proof -
  have le: "literalPos p < 5 \<Longrightarrow> literalPos p \<le> 5" by simp
  have "s \<notin> sizedStates" "s \<noteq> stateDead" "s \<noteq> stateResStatus" "s \<in> headStates"
    using assms by (auto simp: sizedStates_def headStates_def)
  then show ?thesis using assms
    by (cases "state p = s"; cases "literalPos p < 5")
      (simp_all add: literal_live_def live_def well_formed_def within_limits_def ip_ok_def
        control_ok_def le)
qed

lemma literal_live_exit:
  "s \<in> {stateReqHTTP, stateResHTTP} \<Longrightarrow> literal_live s p \<Longrightarrow>
     live stateVersionMajor (p\<lparr>major := 0, minor := 0, state := stateVersionMajor\<rparr>)"
  by (elim insertE emptyE) (simp_all add: literal_live_def live_defs)

lemma live_status: "live stateResStatus p \<longleftrightarrow> status_live p \<and> statusDigits p < 3"
proof -
  have le: "statusDigits p < 3 \<Longrightarrow> statusDigits p \<le> 3" by simp
  show ?thesis
    by (cases "state p = stateResStatus"; cases "statusDigits p < 3")
      (simp_all add: status_live_def live_defs le)
qed

lemma status_live_exit:
  "status_live p \<Longrightarrow> live stateResReasonStart (p\<lparr>state := stateResReasonStart\<rparr>)"
  by (simp add: status_live_def live_defs)

lemma goto_idle:
  "live stateStart p \<Longrightarrow> live stateLeadingLF (p\<lparr>state := stateLeadingLF\<rparr>)"
  "live stateLeadingLF p \<Longrightarrow> live stateStart (p\<lparr>state := stateStart\<rparr>)"
  by (simp_all add: live_defs)

lemma settled_goto:
  assumes "settled p" "kind p = Request \<or> kind p = Response" "messageActive p"
    "s' \<notin> idleStates \<union> headStates \<union> sizedStates \<union> {stateDead}"
  shows "live s' (p\<lparr>state := s'\<rparr>)"
proof -
  have "s' \<notin> {stateReqHTTP, stateResHTTP, stateResStatus}"
    using assms(4) by (simp add: headStates_def)
  then show ?thesis using assms
    by (simp add: live_def well_formed_def settled_def control_ok_def within_limits_def ip_ok_def)
qed

lemma live_active:
  "live s p \<Longrightarrow> messageActive p \<longleftrightarrow> s \<notin> idleStates"
  "live s p \<Longrightarrow> kind p = Request \<or> kind p = Response"
  by (auto simp: live_def well_formed_def control_ok_def)

lemma goto_chunk:
  "live s p \<Longrightarrow> s \<notin> idleStates \<Longrightarrow>
     s' \<notin> idleStates \<union> headStates \<union> sizedStates \<union> {stateDead} \<Longrightarrow> live s' (p\<lparr>state := s'\<rparr>)"
  by (rule settled_goto) (simp_all add: live_settled live_active)

lemmas wp_takeStart = wp_take [OF res_takeStartByte]
lemmas wp_takePrefix = wp_take [OF res_takePrefixByte]
lemmas wp_takeHeader = wp_take [OF res_takeHeaderByte]
lemmas wp_takeChunkLine = wp_take [OF res_takeChunkLineByte]

end
