(* ===== verification/Http1_Iteration.thy ===== *)
theory Http1_Iteration
  imports Http1_Steps
begin

text \<open>
  Every case of the main loop's \<open>switch\<close> keeps its promise (\<open>ok_outcome\<close>): one lemma
  per case, collected in \<open>ok_steps\<close>, and \<open>step_wf\<close> for the whole iteration.
\<close>

subsection \<open>Start line\<close>

abbreviation step_ok :: "parser_state \<Rightarrow> byte \<Rightarrow> bytes \<Rightarrow> outcome \<Rightarrow> bool" where
  "step_ok s b rest \<equiv> ok_outcome (b # rest) (2 * length (b # rest) + rank s)"

lemma settled_response_context:
  "settled p \<Longrightarrow> settled (p\<lparr>responseToHEAD := x, responseToCONNECT := y\<rparr>)"
  by (simp add: settled_def within_limits_def ip_ok_def)

lemma live_begin:
  assumes "live stateStart p"
  shows "settled (clearMessage p)"
    and "kind p = Request \<Longrightarrow> live stateReqMethod ((clearMessage p)\<lparr>state := stateReqMethod\<rparr>)"
    and "kind p \<noteq> Request \<Longrightarrow> live stateResHTTP ((clearMessage p)\<lparr>state := stateResHTTP\<rparr>)"
  using assms by (simp_all add: clearMessage_def settled_def live_defs)

lemma askResponseContext_cases:
  assumes "live stateStart p" "askResponseContext p h = (q, h')"
  shows "failed q \<or> live stateStart q \<and> kind q = kind p"
proof -
  have ctx: "live stateStart (p\<lparr>responseToHEAD := x, responseToCONNECT := y\<rparr>)"
    "failed ((fail CodeReentrantCall p)\<lparr>responseToHEAD := x, responseToCONNECT := y\<rparr>)" for x y
    using assms(1) settled_failed [OF settled_response_context [OF live_settled [OF assms(1)]],
        of CodeReentrantCall x y]
    by (simp_all add: live_defs fail_def)
  have "q = p \<or> (\<exists>x y. q = p\<lparr>responseToHEAD := x, responseToCONNECT := y\<rparr>) \<or>
      (\<exists>x y. q = (fail CodeReentrantCall p)\<lparr>responseToHEAD := x, responseToCONNECT := y\<rparr>)"
    using arg_cong [OF assms(2), of fst]
    by (simp add: askResponseContext_def Let_def split: if_splits option.splits prod.splits) blast+
  then show ?thesis using ctx assms(1) by (elim disjE exE) simp_all
qed

lemma beginMessage_cases:
  assumes "live stateStart p" "beginMessage p h = (q, h')"
  shows "failed q \<or> code q = CodeNone \<and>
     live (if kind q = Request then stateReqMethod else stateResHTTP)
       (q\<lparr>state := (if kind q = Request then stateReqMethod else stateResHTTP)\<rparr>)"
proof -
  obtain p1 h1 where a: "askResponseContext p h = (p1, h1)" by (cases "askResponseContext p h")
  show ?thesis
  proof (cases "code p1 = CodeNone")
    case False
    then have "q = p1" using assms(2) a by (simp add: beginMessage_def)
    then show ?thesis using askResponseContext_cases [OF assms(1) a] False
      by (simp add: live_def)
  next
    case True
    then have l: "live stateStart p1" using askResponseContext_cases [OF assms(1) a] by simp
    have "invoke cbMessageBegin EvMessageBegin (clearMessage p1) h1 = (q, h')"
      using assms(2) a True by (simp add: beginMessage_def)
    from invoke_cases [OF live_begin(1) [OF l] this] live_begin(2,3) [OF l]
    show ?thesis by (auto simp: clearMessage_def)
  qed
qed

lemma ok_stepStart: "live stateStart p \<Longrightarrow> step_ok stateStart b rest (stepStart p h b rest)"
  unfolding stepStart_def
proof (rule wp_if, rule wp_take [OF res_takePrefixByte], simp_all only:, goal_cases)
  case (1 q) then show ?case by (intro wp_next1 [OF goto_idle(1)]) simp_all
next
  case 2
  obtain q h' where b: "beginMessage p h = (q, h')" by (cases "beginMessage p h")
  show ?case
    using beginMessage_cases [OF 2(1) b] b by (auto simp: live_def rank_def split: if_splits)
qed

lemma ok_stepLeadingLF:
  "live stateLeadingLF p \<Longrightarrow> step_ok stateLeadingLF b rest (stepLeadingLF p h b rest)"
  unfolding stepLeadingLF_def
  by (intro wp_if wp_fail [of stateLeadingLF] wp_takePrefix [of stateLeadingLF]
      wp_next1 [of stateStart]) (simp_all add: goto_idle)

lemma goto_head_aux:
  "live s p \<Longrightarrow> s \<in> headStates \<Longrightarrow> ctl q = ctl p \<Longrightarrow>
     s' \<in> headStates - {stateReqHTTP, stateResHTTP, stateResStatus} \<Longrightarrow> live s' (q\<lparr>state := s'\<rparr>)"
  by (rule goto_head [of s], erule live_same [of s]) (auto simp: headStates_def sizedStates_def)

lemma ok_stepVersionMajor:
  "live stateVersionMajor p \<Longrightarrow> step_ok stateVersionMajor b rest (stepVersionMajor p h b rest)"
  unfolding stepVersionMajor_def
  by (intro wp_if wp_fail [of stateVersionMajor] wp_takeStart [of stateVersionMajor]
      wp_next1 [of stateVersionDot] goto_head_aux [of stateVersionMajor])
    (simp_all add: headStates_def)

lemma ok_stepVersionDot:
  "live stateVersionDot p \<Longrightarrow> step_ok stateVersionDot b rest (stepVersionDot p h b rest)"
  unfolding stepVersionDot_def
  by (intro wp_if wp_fail [of stateVersionDot] wp_takeStart [of stateVersionDot]
      wp_next1 [of stateVersionMinor] goto_head [of stateVersionDot])
    (simp_all add: headStates_def)

lemma ok_stepVersionMinor:
  "live stateVersionMinor p \<Longrightarrow> step_ok stateVersionMinor b rest (stepVersionMinor p h b rest)"
  unfolding stepVersionMinor_def
proof (intro wp_if wp_fail [of stateVersionMinor] wp_takeStart [of stateVersionMinor], goal_cases)
  case (6 q)
  have "live s (q\<lparr>minor := ucast (b - b0), state := s\<rparr>)"
    if "s = stateReqLineCR \<or> s = stateResSpaceBeforeStatus" for s
    using that by (intro goto_head_aux [OF 6(3)]) (auto simp: headStates_def)
  then show ?case
    by (intro wp_next1 [of "if kind q = Request then stateReqLineCR else stateResSpaceBeforeStatus"])
      simp_all
qed simp_all

lemma ok_stepReqLineCR:
  "live stateReqLineCR p \<Longrightarrow> step_ok stateReqLineCR b rest (stepReqLineCR p h b rest)"
  unfolding stepReqLineCR_def
  by (intro wp_if wp_fail [of stateReqLineCR] wp_takeStart [of stateReqLineCR]
      wp_next1 [of stateReqLineLF] goto_head [of stateReqLineCR])
    (simp_all add: headStates_def)

lemma ok_stepResSpaceBeforeStatus:
  "live stateResSpaceBeforeStatus p \<Longrightarrow>
     step_ok stateResSpaceBeforeStatus b rest (stepResSpaceBeforeStatus p h b rest)"
  unfolding stepResSpaceBeforeStatus_def
  by (intro wp_if wp_fail [of stateResSpaceBeforeStatus] wp_takeStart [of stateResSpaceBeforeStatus]
      wp_next1 [of stateResStatus] goto_ResStatus) simp_all

lemma ok_stepResReasonStart:
  "live stateResReasonStart p \<Longrightarrow> step_ok stateResReasonStart b rest (stepResReasonStart p h b rest)"
  unfolding stepResReasonStart_def
  by (intro wp_if wp_fail [of stateResReasonStart] wp_takeStart [of stateResReasonStart]
      wp_next1 [of stateResReason] goto_head [of stateResReasonStart])
    (simp_all add: headStates_def)

lemma startLineComplete_cases:
  assumes "live s p" "s \<in> headStates" "startLineComplete p h = (q, h')"
  shows "failed q \<or> live stateHeaderStart q"
proof -
  obtain p1 h1 where i: "invoke cbStartLine (EvStartLine (message p)) p h = (p1, h1)"
    by (cases "invoke cbStartLine (EvStartLine (message p)) p h")
  have "live stateHeaderStart (p\<lparr>state := stateHeaderStart\<rparr>)"
    using assms(1,2) by (rule goto_head) (simp add: headStates_def)
  then show ?thesis
    using invoke_cases [OF live_settled [OF assms(1)] i] assms(3) i
    by (auto simp: startLineComplete_def)
qed

lemma ok_stepStartLineLF:
  assumes "live s p" "s \<in> {stateReqLineLF, stateResLineLF}"
  shows "step_ok s b rest (stepStartLineLF p h b rest)"
  unfolding stepStartLineLF_def
proof (intro wp_if wp_fail [OF assms(1)] wp_takeStart [OF assms(1)], goal_cases)
  case (4 q)
  obtain q' h' where s: "startLineComplete q h = (q', h')" by (cases "startLineComplete q h")
  have "s \<in> headStates" using assms(2) by (auto simp: headStates_def)
  from startLineComplete_cases [OF 4(2) this s] s show ?case
    by (auto simp: live_def rank_def suffix_ConsI)
qed simp_all

lemma ok_stepReqMethod:
  "live stateReqMethod p \<Longrightarrow> step_ok stateReqMethod b rest (stepReqMethod p h b rest)"
  unfolding stepReqMethod_def
  by (intro wp_if wp_scan [OF method_span.span_loop_axioms] wp_deliver wp_list
     wp_fail [of stateReqMethod] wp_takeStart [of stateReqMethod] wp_end [of stateReqMethod]
     wp_next_list [of stateReqTarget] goto_head [of stateReqMethod])
   (simp_all add: live_settled headStates_def live_same sizedStates_def)

lemma wp_failed_fail: "failed p \<Longrightarrow> suffix r src \<Longrightarrow> ok_outcome src m (failRet c p h r)"
  by (simp add: failRet_def fail_def)

lemma live_finishTarget:
  assumes "live stateReqTarget p" "finishTarget p = (q, ok)"
  shows "if ok then live stateReqTarget q else failed q"
  using res_aux [OF aux_finishTarget assms(1)] assms(2) by (cases ok) (simp_all add: res_ok_def sizedStates_def)

lemma ok_stepReqTarget:
  "live stateReqTarget p \<Longrightarrow> step_ok stateReqTarget b rest (stepReqTarget p h b rest)"
  unfolding stepReqTarget_def
proof (intro wp_scan [OF target_span.span_loop_axioms] wp_deliver wp_list
    wp_end [of stateReqTarget], goal_cases)
  case (8 q r h' c r')
  obtain p3 ok where f: "finishTarget q = (p3, ok)" by (cases "finishTarget q")
  note fin = live_finishTarget [OF 8(2) f]
  show ?case
  proof (cases ok)
    case False
    then show ?thesis using f fin 8 by (simp add: wp_failed_fail)
  next
    case True
    then have "live stateReqTarget p3" using fin by simp
    then show ?thesis unfolding f Let_def prod.case using True 8(3,6)
      by (simp del: ok_outcome.simps) (intro conjI impI wp_fail [of stateReqTarget]
          wp_takeStart [of stateReqTarget, unfolded Let_def] wp_next_list [of stateReqHTTP],
        simp_all add: goto_ReqHTTP)
  qed
qed (simp_all add: live_settled)

lemma suffix_literal_go:
  "suffix r src \<Longrightarrow> r \<noteq> src \<or> rank s < rank s0 \<Longrightarrow> 2 * length r + rank s < 2 * length src + rank s0"
proof -
  assume *: "suffix r src" "r \<noteq> src \<or> rank s < rank s0"
  then obtain zs where zs: "src = zs @ r" by (auto simp: suffix_def)
  show ?thesis using * zs rank_le [of s] by (cases zs) simp_all
qed

lemma ok_stepHTTP:
  assumes s: "s \<in> {stateReqHTTP, stateResHTTP}" and l: "live s p"
  shows "step_ok s b rest (stepHTTP p h b rest)"
  unfolding stepHTTP_def
proof (rule wp_scan [OF literal_span.span_loop_axioms [of s]], goal_cases)
  case 1 then show ?case using l s by (simp add: live_literal)
next
  case (2 q r)
  have le: "literalPos p < 5" "literal_live s p" using l s by (simp_all add: live_literal)
  have rank: "rank s = 0" "rank stateVersionMajor = 0" using s by (auto simp: rank_def)
  show ?case
  proof (rule wp_if, goal_cases)
    case 1
    then have "r \<noteq> b # rest" using 2 le by auto
    then show ?case using 2 rank literal_live_exit [OF s 2(1)]
        suffix_literal_go [of r "b # rest" stateVersionMajor stateVersionMajor]
      by (intro wp_go [of stateVersionMajor]) simp_all
  next
    case ne: 2
    then have lt: "literalPos q < 5" using 2(1) by (simp add: literal_live_def less_le)
    then have r: "r = []" using 2(3) by simp
    show ?case unfolding r using 2 lt s by (intro wp_end [of s]) (auto simp: live_literal)
  qed
qed

lemma ok_stepResStatus:
  assumes l: "live stateResStatus p"
  shows "step_ok stateResStatus b rest (stepResStatus p h b rest)"
  unfolding stepResStatus_def
proof (rule wp_scan [OF status_span.span_loop_axioms], goal_cases)
  case 1 then show ?case using l by (simp add: live_status)
next
  case (2 q r)
  have le: "statusDigits p < 3" "status_live p" using l by (simp_all add: live_status)
  have rank: "rank stateResStatus = 0" "rank stateResReasonStart = 0" by (auto simp: rank_def)
  show ?case
  proof (intro wp_if wp_settled_fail, goal_cases)
    case 4
    then have "r \<noteq> b # rest" using 2 le by auto
    then show ?case using 2 rank status_live_exit [OF 2(1)]
        suffix_literal_go [of r "b # rest" stateResReasonStart stateResReasonStart]
      by (intro wp_go [of stateResReasonStart]) simp_all
  next
    case ne: 5
    then have lt: "statusDigits q < 3" using 2(1) by (simp add: status_live_def less_le)
    then have r: "r = []" using 2(3) by simp
    show ?case unfolding r using 2 lt by (intro wp_end [of stateResStatus]) (simp_all add: live_status)
  qed (use 2 in \<open>simp_all add: status_live_settled\<close>)
qed

lemma ok_stepResReason:
  "live stateResReason p \<Longrightarrow> step_ok stateResReason b rest (stepResReason p h b rest)"
  unfolding stepResReason_def
  by (intro wp_scan [OF reason_span.span_loop_axioms] wp_deliver wp_list
     wp_fail [of stateResReason] wp_takeStart [of stateResReason] wp_end [of stateResReason]
     wp_next_list [of stateResLineLF] goto_head [of stateResReason])
   (simp_all add: live_settled headStates_def)

subsection \<open>Header fields\<close>

lemma beginHeader_cases:
  assumes "live stateHeaderStart p"
  shows "failed (beginHeader p) \<or> live stateHeaderName ((beginHeader p)\<lparr>state := stateHeaderName\<rparr>)"
proof (cases "MaxHeaders (limits p) \<le> headerCount p")
  case True
  then show ?thesis using settled_failed [OF live_settled [OF assms]] by (simp add: beginHeader_def)
next
  case False
  then have "headerCount p + 1 \<le> MaxHeaders (limits p)" by (simp add: not_le inc_le)
  then show ?thesis using False assms by (simp add: beginHeader_def live_defs)
qed

lemma ok_stepHeaderStart:
  "live stateHeaderStart p \<Longrightarrow> step_ok stateHeaderStart b rest (stepHeaderStart p h b rest)"
  unfolding stepHeaderStart_def
proof (intro wp_if wp_fail [of stateHeaderStart] wp_takeHeader [of stateHeaderStart]
      wp_next1 [of stateHeadersLF] goto_head [of stateHeaderStart], goal_cases)
  case 11
  then have "failed (beginHeader p) \<or>
      live stateHeaderName ((beginHeader p)\<lparr>state := stateHeaderName\<rparr>)"
    by (intro beginHeader_cases)
  then show ?case by (auto simp: live_def rank_def Let_def)
qed (simp_all add: headStates_def)

lemma live_framing:
  "live stateHeaderName p \<Longrightarrow> \<not> hasTransferEncoding p \<Longrightarrow>
     live stateHeaderName (p\<lparr>hasContentLength := True\<rparr>)"
  "live stateHeaderName p \<Longrightarrow> \<not> hasContentLength p \<Longrightarrow>
     live stateHeaderName (p\<lparr>hasTransferEncoding := True\<rparr>)"
  by (simp_all add: live_defs)

lemma live_aux:
  "live stateHeaderName p \<Longrightarrow> ctl q = ctl p \<Longrightarrow> live stateHeaderName q"
  by (rule live_same) (simp_all add: sizedStates_def)

definition name_done :: "parser \<Rightarrow> bool" where
  "name_done q \<longleftrightarrow> failed q \<or> live stateHeaderName q"

lemma name_done_intros:
  "live stateHeaderName p \<Longrightarrow> c \<noteq> CodeNone \<Longrightarrow> name_done (fail c p)"
  "live stateHeaderName p \<Longrightarrow> ctl q = ctl p \<Longrightarrow> name_done q"
  "live stateHeaderName p \<Longrightarrow> \<not> hasTransferEncoding p \<Longrightarrow>
     ctl q = ctl (p\<lparr>hasContentLength := True\<rparr>) \<Longrightarrow> name_done q"
  "live stateHeaderName p \<Longrightarrow> \<not> hasContentLength p \<Longrightarrow>
     ctl q = ctl (p\<lparr>hasTransferEncoding := True\<rparr>) \<Longrightarrow> name_done q"
  unfolding name_done_def
  by (simp add: settled_failed live_settled)
    (blast intro: live_aux live_aux [OF live_framing(1)] live_aux [OF live_framing(2)])+

lemma finishFieldName_done:
  assumes "live stateHeaderName p"
  shows "name_done (finishFieldName p)"
proof -
  define p1 where "p1 = p\<lparr>field := selectField p\<rparr>"
  define p2 where "p2 = (if kind p1 = Response \<and> \<not> trailers p1 \<and> field p1 = fieldHost
               then p1\<lparr>field := fieldOther\<rparr> else p1)"
  have l: "live stateHeaderName p2"
    by (rule live_aux [OF assms]) (simp add: p1_def p2_def)
  show ?thesis
    unfolding finishFieldName_def p1_def [symmetric] Let_def p2_def [symmetric]
    by (cases "field p2")
      (simp_all add: name_done_intros(1) [OF l] name_done_intros(2) [OF l]
        name_done_intros(3) [OF l] name_done_intros(4) [OF l])
qed

lemma ok_stepHeaderName:
  "live stateHeaderName p \<Longrightarrow> step_ok stateHeaderName b rest (stepHeaderName p h b rest)"
  unfolding stepHeaderName_def
proof (intro wp_if wp_scan [OF headerName_span.span_loop_axioms] wp_deliver wp_list
     wp_fail [of stateHeaderName] wp_takeHeader [of stateHeaderName] wp_end [of stateHeaderName],
     goal_cases)
  case (13 q r h' c r' q')
  have suf: "suffix r' (b # rest)" using 13 by (auto dest: suffix_ConsD)
  consider "failed (finishFieldName q')" | "live stateHeaderName (finishFieldName q')"
    using finishFieldName_done [OF 13(8)] by (auto simp: name_done_def)
  then show ?case
  proof cases
    case 1
    then show ?thesis using suf by (simp add: Let_def)
  next
    case 2
    then have "live stateHeaderValueStart ((finishFieldName q')\<lparr>state := stateHeaderValueStart\<rparr>)"
      by (rule goto_head) (simp_all add: headStates_def)
    from wp_next_list [OF this 13(3,6),
        of "2 * length (b # rest) + rank stateHeaderName" h'] show ?thesis using 2 by (simp add: live_code Let_def)
  qed
qed (simp_all add: live_settled)

lemma ok_stepHeaderValueStart:
  "live stateHeaderValueStart p \<Longrightarrow>
     step_ok stateHeaderValueStart b rest (stepHeaderValueStart p h b rest)"
  unfolding stepHeaderValueStart_def
proof (intro wp_if wp_scan [OF ows_span.span_loop_axioms], goal_cases)
  case (2 q r)
  show ?case using 2(2,3)
      suffix_literal_go [of r "b # rest" stateHeaderValue stateHeaderValueStart]
    by (intro wp_go [of stateHeaderValue] goto_head [of stateHeaderValueStart])
      (simp_all add: headStates_def rank_def)
next
  case (3 q r)
  then have r: "r = []" by simp
  show ?case unfolding r by (rule wp_end [OF 3(2)]) simp_all
qed simp_all

lemma ok_stepHeaderValue:
  "live stateHeaderValue p \<Longrightarrow> step_ok stateHeaderValue b rest (stepHeaderValue p h b rest)"
  unfolding stepHeaderValue_def
  by (intro wp_if wp_scan [OF headerValue_span.span_loop_axioms] wp_deliver wp_list
     wp_fail [of stateHeaderValue] wp_takeHeader [of stateHeaderValue] wp_end [of stateHeaderValue]
     wp_take [of stateHeaderValue "finishFieldValue p" for p]
     wp_next_list [of stateHeaderValueLF] goto_head [of stateHeaderValue]
     res_aux [OF aux_finishFieldValue])
   (simp_all add: live_settled live_code headStates_def sizedStates_def)

lemma wp_invoke_live:
  assumes "live s p" "suffix rs src" "\<And>h'. ok_outcome src m (k p h')"
  shows "ok_outcome src m (let (q, h') = invoke sel ev p h in
     if code q \<noteq> CodeNone then Ret q h' rs (code q) else k q h')"
  using live_settled [OF assms(1)] assms(2,3) by (rule wp_invoke)

lemma ok_stepHeaderValueLF:
  "live stateHeaderValueLF p \<Longrightarrow> step_ok stateHeaderValueLF b rest (stepHeaderValueLF p h b rest)"
  unfolding stepHeaderValueLF_def
  by (intro wp_if wp_fail [of stateHeaderValueLF] wp_takeHeader [of stateHeaderValueLF]
      wp_invoke_live [of stateHeaderValueLF] wp_next1 [of stateHeaderStart]
      goto_head [of stateHeaderValueLF])
   (simp_all add: headStates_def suffix_ConsI)

subsection \<open>End of the header section\<close>

lemma completeMessage_cases:
  assumes "settled p" "kind p = Request \<or> kind p = Response" "completeMessage p h = (q, h')"
  shows "failed q \<or> live stateStart q"
proof -
  obtain p1 h1 where i: "invoke cbMessageComplete (EvMessageComplete (message p)) p h = (p1, h1)"
    by (cases "invoke cbMessageComplete (EvMessageComplete (message p)) p h")
  have c: "q = fst (completeMessage p h)" using assms(3) by simp
  from invoke_cases [OF assms(1) i] show ?thesis
  proof (elim disjE conjE)
    assume p1: "p1 = p" "code p1 = CodeNone"
    then show ?thesis using assms(1,2)
      by (simp add: c completeMessage_def i settled_def live_def well_formed_def
          within_limits_def ip_ok_def control_ok_def headStates_def sizedStates_def idleStates_def)
  qed (simp add: c completeMessage_def i)
qed

lemma completeOk_cases:
  assumes "settled p" "kind p = Request \<or> kind p = Response" "completeOk p h = (q, h', ok)"
  shows "if ok then live stateStart q else failed q"
proof -
  obtain q1 h1 where c: "completeMessage p h = (q1, h1)" by (cases "completeMessage p h")
  then have "q = q1" "ok = (code q1 = CodeNone)" using assms(3) by (auto simp: completeOk_def)
  then show ?thesis using completeMessage_cases [OF assms(1,2) c] by (auto simp: live_def)
qed

lemma goto_upgrade: "live stateStart p \<Longrightarrow> live stateUpgrade (p\<lparr>state := stateUpgrade\<rparr>)"
  by (simp add: live_defs)

lemma goto_FixedBody:
  "live stateHeadersLF p \<Longrightarrow> \<not> trailers p \<Longrightarrow> \<not> MaxBodyBytes (limits p) < remaining p \<Longrightarrow>
     remaining p \<noteq> 0 \<Longrightarrow> live stateFixedBody (p\<lparr>state := stateFixedBody\<rparr>)"
  by (simp add: live_defs word_neq_0_conv not_less)

definition framed :: "parser \<times> history \<times> bool \<Rightarrow> bool" where
  "framed r \<longleftrightarrow> (if snd (snd r) then live (state (fst r)) (fst r) else failed (fst r))"

lemma framed_completeOk:
  assumes "live s p"
  shows "framed (completeOk p h)"
proof -
  obtain q h' ok where c: "completeOk p h = (q, h', ok)" by (cases "completeOk p h")
  show ?thesis using completeOk_cases [OF live_settled [OF assms] live_active(2) [OF assms] c] c
    by (cases ok) (simp_all add: framed_def live_def)
qed

lemma framed_goto: "live s (p\<lparr>state := s\<rparr>) \<Longrightarrow> framed (p\<lparr>state := s\<rparr>, h, True)"
  by (simp add: framed_def)

lemma framed_frameBody:
  assumes l: "live stateHeadersLF p" "\<not> trailers p"
  shows "framed (frameBody p h)"
proof -
  obtain q h' ok where c: "completeOk p h = (q, h', ok)" by (cases "completeOk p h")
  have up: "framed (let (q, h, ok) = completeOk p h in
      if \<not> ok then (q, h, False) else (if u then q\<lparr>state := stateUpgrade\<rparr> else q, h, True))" for u
    using completeOk_cases [OF live_settled [OF l(1)] live_active(2) [OF l(1)] c] c
    by (cases ok) (simp_all add: framed_def live_state goto_upgrade)
  have goto: "framed (p\<lparr>state := s\<rparr>, h, True)" if "s = stateChunkSizeStart \<or> s = stateCloseBody" for s
    using that by (intro framed_goto goto_chunk [OF l(1)])
      (auto simp: idleStates_def headStates_def sizedStates_def)
  have "framed (fail CodeBodyTooLarge p, h, False)"
    using settled_failed [OF live_settled [OF l(1)]] by (simp add: framed_def)
  then show ?thesis
    unfolding frameBody_def Let_def
    by (simp add: up [unfolded Let_def] goto framed_completeOk [OF l(1)]
        framed_goto goto_FixedBody [OF l])
qed

lemma framed_headersComplete:
  assumes l: "live stateHeadersLF p" "\<not> trailers p"
  shows "framed (headersComplete p h)"
proof (cases "headersError p")
  case None
  let ?i = "invoke cbHeadersComplete (EvHeadersComplete (message p)) p h"
  obtain q h' where i: "?i = (q, h')" by (cases ?i)
  show ?thesis using invoke_cases [OF live_settled [OF l(1)] i] i None framed_frameBody [OF l]
    by (auto simp: headersComplete_def framed_def [of "(q, h', False)"])
next
  case (Some c)
  then have "c \<noteq> CodeNone" by (auto simp: headersError_def split: if_splits)
  then show ?thesis using Some settled_failed [OF live_settled [OF l(1)]]
    by (simp add: headersComplete_def framed_def)
qed

lemma wp_complete:
  assumes "settled p" "kind p = Request \<or> kind p = Response" "suffix r src" "r \<noteq> src"
    "2 * length src \<le> m"
  shows "ok_outcome src m (let (q, h) = completeMessage p h in
      if code q \<noteq> CodeNone then Ret q h r (code q) else Go q h r)"
proof -
  obtain q h' where c: "completeMessage p h = (q, h')" by (cases "completeMessage p h")
  show ?thesis
    using completeMessage_cases [OF assms(1,2) c] c assms(3-5)
      suffix_literal_go [of r src stateStart stateStart] rank_le [of stateStart]
    by (auto simp: live_def)
qed

lemma ok_stepHeadersLF:
  "live stateHeadersLF p \<Longrightarrow> step_ok stateHeadersLF b rest (stepHeadersLF p h b rest)"
  unfolding stepHeadersLF_def
proof (intro wp_if wp_fail [of stateHeadersLF] wp_takeHeader [of stateHeadersLF]
      wp_invoke_live [of stateHeadersLF] wp_complete, goal_cases)
  case (13 q)
  obtain p2 h2 ok where hc: "headersComplete q h = (p2, h2, ok)" by (cases "headersComplete q h")
  have "framed (p2, h2, ok)" using framed_headersComplete [of q h] hc 13 by simp
  then show ?case using hc wp_next1 [of "state p2" p2 b rest "2 * length (b # rest) + rank stateHeadersLF" h2]
    by (cases ok) (simp_all add: framed_def live_def suffix_ConsI)
qed (simp_all add: live_settled live_active suffix_ConsI)

subsection \<open>Bodies\<close>

lemma budget_add:
  fixes b x M r :: u64
  assumes "x \<le> r" "r \<le> M - b" "b \<le> M"
  shows "b + x \<le> M" "r - x \<le> M - (b + x)" "\<not> M - b < x"
proof -
  have s: "unat (M - b) = unat M - unat b" using assms(3) by (rule unat_sub)
  have le: "unat x \<le> unat r" "unat r \<le> unat M - unat b" "unat b \<le> unat M"
    using assms s by (simp_all add: word_le_nat_alt)
  have M: "unat M < 2 ^ LENGTH(64)" by (rule unsigned_less)
  have a: "unat (b + x) = unat b + unat x"
    using le M by (simp add: unat_word_ariths)
  show bx: "b + x \<le> M" using le a by (simp add: word_le_nat_alt)
  have "unat (M - (b + x)) = unat M - (unat b + unat x)" using unat_sub [OF bx] a by simp
  moreover have "unat (r - x) = unat r - unat x" using unat_sub [OF assms(1)] .
  ultimately show "r - x \<le> M - (b + x)" using le by (simp add: word_le_nat_alt)
  show "\<not> M - b < x" using assms(1,2) by simp
qed

lemma take_le:
  fixes r :: u64
  assumes "n \<le> unat r"
  shows "of_nat n \<le> r" "unat (of_nat n :: u64) = n"
proof -
  have "unat r < 2 ^ LENGTH(64)" by (rule unsigned_less)
  with assms have "n < 2 ^ LENGTH(64)" by simp
  then show "unat (of_nat n :: u64) = n" by (simp add: unat_of_nat)
  then show "of_nat n \<le> r" using assms by (simp add: word_le_nat_alt)
qed

lemma live_sized:
  "live s p \<Longrightarrow> s \<in> sizedStates \<Longrightarrow>
     0 < remaining p \<and> remaining p \<le> MaxBodyBytes (limits p) - bodyBytes p \<and>
     bodyBytes p \<le> MaxBodyBytes (limits p)"
  by (simp add: live_def well_formed_def control_ok_def within_limits_def)

lemma sized_span:
  assumes l: "live s p" and s: "s \<in> sizedStates" and n: "n \<le> unat (remaining p)"
  defines "q \<equiv> p\<lparr>bodyBytes := bodyBytes p + of_nat n, remaining := remaining p - of_nat n\<rparr>"
  shows "addBody (of_nat n) p = (p\<lparr>bodyBytes := bodyBytes p + of_nat n\<rparr>, True)"
    and "settled q" and "remaining q \<noteq> 0 \<Longrightarrow> live s q"
proof -
  have x: "of_nat n \<le> remaining p" using n by (rule take_le)
  note b = live_sized [OF l s]
  note w = budget_add [OF x, of "MaxBodyBytes (limits p)" "bodyBytes p"]
  show "addBody (of_nat n) p = (p\<lparr>bodyBytes := bodyBytes p + of_nat n\<rparr>, True)"
    using w(3) b by (simp add: addBody_def)
  show "settled q" using w(1) b live_settled [OF l]
    by (simp add: settled_def q_def within_limits_def ip_ok_def)
  have ns: "s \<notin> headStates" "s \<noteq> stateReqHTTP" "s \<noteq> stateResHTTP" "s \<noteq> stateResStatus"
    "s \<noteq> stateDead" using s by (auto simp: sizedStates_def headStates_def)
  show "live s q" if "remaining q \<noteq> 0"
  proof -
    have "0 < remaining p - of_nat n" using that by (simp add: q_def word_gt_0)
    then have "control_ok q"
      using w(2) b l s ns by (simp add: live_def well_formed_def control_ok_def q_def)
    then show ?thesis using \<open>settled q\<close> l
      by (simp add: live_def well_formed_def settled_def q_def)
  qed
qed

text \<open>The two states that read a body of announced length differ in what they do when it is
  complete.\<close>

lemma ok_sized:
  assumes l: "live s p" and s: "s \<in> sizedStates"
    and last: "\<And>n q h'. 0 < n \<Longrightarrow> n \<le> length (b # rest) \<Longrightarrow> settled q \<Longrightarrow> kind q = kind p \<Longrightarrow> messageActive q \<Longrightarrow>
       remaining q = 0 \<Longrightarrow> step_ok s b rest (k q h' (drop n (b # rest)))"
  shows "step_ok s b rest
     (let tk = min (length (b # rest)) (unat (remaining p));
          (p1, ok) = addBody (of_nat tk) p in
      if \<not> ok then Ret p1 h (b # rest) (code p1)
      else
        let (p2, h) =
              deliverBody (take tk (b # rest)) (p1\<lparr>remaining := remaining p1 - of_nat tk\<rparr>) h;
            r = drop tk (b # rest) in
        if code p2 \<noteq> CodeNone then Ret p2 h r (code p2)
        else if remaining p2 = 0 then k p2 h r
        else Go p2 h r)"
proof -
  define tk where "tk = min (length (b # rest)) (unat (remaining p))"
  define q where
    "q = p\<lparr>bodyBytes := bodyBytes p + of_nat tk, remaining := remaining p - of_nat tk\<rparr>"
  have n: "tk \<le> unat (remaining p)" "tk \<le> length (b # rest)" by (simp_all add: tk_def)
  have pos: "0 < tk" using live_sized [OF l s] by (auto simp: tk_def word_gt_0 unat_gt_0)
  note sp = sized_span [OF l s n(1), folded q_def]
  obtain p2 h2 where d: "deliverBody (take tk (b # rest)) q h = (p2, h2)"
    by (cases "deliverBody (take tk (b # rest)) q h")
  have act: "kind q = kind p" "messageActive q"
    using live_active(1) [OF l] s by (auto simp: q_def sizedStates_def idleStates_def)
  have suf: "suffix (drop tk (b # rest)) (b # rest)" by (rule suffix_drop)
  have go: "step_ok s b rest (Go q h2 (drop tk (b # rest)))" if "remaining q \<noteq> 0"
    using pos n(2) s by (intro wp_go [OF sp(3) [OF that] suf]) (auto simp: rank_def sizedStates_def)
  have fin: "step_ok s b rest (k q h2 (drop tk (b # rest)))" if "remaining q = 0"
    using last [OF pos n(2) sp(2) act that] .
  show ?thesis
    unfolding tk_def [symmetric] Let_def sp(1) prod.case
    using deliverBody_cases [OF sp(2) d] d suf go fin by (auto simp: q_def)
qed

lemma ok_stepFixedBody:
  "live stateFixedBody p \<Longrightarrow> step_ok stateFixedBody b rest (stepFixedBody p h b rest)"
  unfolding stepFixedBody_def
proof (rule ok_sized, assumption, goal_cases)
  case (2 n q h')
  have "drop n (b # rest) \<noteq> b # rest" using 2 by (metis diff_less length_drop less_not_refl
        length_greater_0_conv list.discI)
  then show ?case using 2 live_active(2) [OF 2(1)] by (intro wp_complete) (simp_all add: suffix_drop)
qed (simp add: sizedStates_def)

lemma ok_stepChunkBody:
  "live stateChunkBody p \<Longrightarrow> step_ok stateChunkBody b rest (stepChunkBody p h b rest)"
  unfolding stepChunkBody_def
proof (rule ok_sized, assumption, goal_cases)
  case (2 n q h')
  then have "live stateChunkBodyCR (q\<lparr>state := stateChunkBodyCR\<rparr>)"
    using live_active(2) [OF 2(1)]
    by (intro settled_goto) (simp_all add: idleStates_def headStates_def sizedStates_def)
  then show ?case using 2
    by (intro wp_go [of stateChunkBodyCR]) (simp_all add: suffix_drop rank_def)
qed (simp add: sizedStates_def)

lemma ok_stepCloseBody:
  assumes l: "live stateCloseBody p"
  shows "step_ok stateCloseBody b rest (stepCloseBody p h b rest)"
proof -
  define tk where "tk = min (length (b # rest)) (unat (MaxBodyBytes (limits p) - bodyBytes p))"
  define q where "q = p\<lparr>bodyBytes := bodyBytes p + of_nat tk\<rparr>"
  have x: "of_nat tk \<le> MaxBodyBytes (limits p) - bodyBytes p"
    by (rule take_le) (simp add: tk_def)
  have "bodyBytes p \<le> MaxBodyBytes (limits p)"
    using l by (simp add: live_def well_formed_def within_limits_def)
  then have "bodyBytes p + of_nat tk \<le> MaxBodyBytes (limits p)"
    using budget_add(1) [OF x order_refl] by simp
  then have q: "live stateCloseBody q" using l by (simp add: q_def live_defs)
  obtain p1 h1 where d: "deliverBody (take tk (b # rest)) q h = (p1, h1)"
    by (cases "deliverBody (take tk (b # rest)) q h")
  have go: "step_ok stateCloseBody b rest
      (if tk \<noteq> length (b # rest) then failRet CodeBodyTooLarge q h1 (drop tk (b # rest))
       else Go q h1 (drop tk (b # rest)))"
    by (intro wp_if wp_fail [OF q] wp_go [OF q] suffix_drop) (simp_all add: rank_def)
  show ?thesis
    unfolding stepCloseBody_def Let_def tk_def [symmetric] q_def [symmetric] d prod.case
    using deliverBody_cases [OF live_settled [OF q] d] go by (auto simp: suffix_drop)
qed

lemma ok_stepChunkSizeStart:
  "live stateChunkSizeStart p \<Longrightarrow>
     step_ok stateChunkSizeStart b rest (stepChunkSizeStart p h b rest)"
  unfolding stepChunkSizeStart_def
  by (intro wp_go [of stateChunkSize]) (simp_all add: live_defs rank_def)

lemma goto_chunk_states:
  "live stateChunkSize p \<Longrightarrow> live stateChunkSizeLF (p\<lparr>state := stateChunkSizeLF\<rparr>)"
  "live stateChunkExt p \<Longrightarrow> live stateChunkSizeLF (p\<lparr>state := stateChunkSizeLF\<rparr>)"
  "live stateChunkBodyCR p \<Longrightarrow> live stateChunkBodyLF (p\<lparr>state := stateChunkBodyLF\<rparr>)"
  "live stateChunkBodyLF p \<Longrightarrow> live stateChunkSizeStart (p\<lparr>state := stateChunkSizeStart\<rparr>)"
  "live stateChunkSize p \<Longrightarrow>
     live stateChunkExt (p\<lparr>chunkExtState := chunkExtBeforeName, state := stateChunkExt\<rparr>)"
  by (simp_all add: live_defs)

lemma ok_stepChunkSize:
  "live stateChunkSize p \<Longrightarrow> step_ok stateChunkSize b rest (stepChunkSize p h b rest)"
  unfolding stepChunkSize_def
  by (intro wp_if wp_scan [OF chunkSize_span.span_loop_axioms] wp_list
     wp_fail [of stateChunkSize] wp_takeChunkLine [of stateChunkSize] wp_end [of stateChunkSize]
     wp_next_list [of stateChunkSizeLF "q\<lparr>state := stateChunkSizeLF\<rparr>" for q]
     wp_next_list [of stateChunkExt])
   (simp_all add: goto_chunk_states)

lemma ok_stepChunkExt:
  "live stateChunkExt p \<Longrightarrow> step_ok stateChunkExt b rest (stepChunkExt p h b rest)"
  unfolding stepChunkExt_def
  by (intro wp_if wp_scan [OF chunkExt_span.span_loop_axioms] wp_list
     wp_takeChunkLine [of stateChunkExt] wp_end [of stateChunkExt]
     wp_take [of stateChunkExt "finishChunkExtension p" for p]
     wp_next_list [of stateChunkSizeLF] res_aux [OF aux_finishChunkExtension])
   (simp_all add: goto_chunk_states sizedStates_def)

lemma live_chunkCount:
  "live stateChunkSizeLF p \<Longrightarrow> \<not> MaxChunks (limits p) \<le> chunkCount p \<Longrightarrow>
     live stateChunkSizeLF (p\<lparr>chunkCount := chunkCount p + 1\<rparr>)"
  by (simp add: live_def well_formed_def within_limits_def not_le inc_le)

lemma goto_trailers:
  "live stateChunkSizeLF p \<Longrightarrow>
     live stateHeaderStart (p\<lparr>trailers := True, state := stateHeaderStart\<rparr>)"
  by (simp add: live_defs)

lemma goto_ChunkBody:
  "live stateChunkSizeLF p \<Longrightarrow> \<not> MaxBodyBytes (limits p) - bodyBytes p < n \<Longrightarrow> n \<noteq> 0 \<Longrightarrow>
     live stateChunkBody (p\<lparr>remaining := n, state := stateChunkBody\<rparr>)"
  using word_gt_0 [of n] by (simp add: live_defs not_less)

lemma ok_stepChunkSizeLF:
  "live stateChunkSizeLF p \<Longrightarrow> step_ok stateChunkSizeLF b rest (stepChunkSizeLF p h b rest)"
  unfolding stepChunkSizeLF_def
proof (intro wp_if wp_fail [of stateChunkSizeLF] wp_takeChunkLine [of stateChunkSizeLF], goal_cases)
  case (12 p1)
  define p2 where "p2 = (if chunkSize p1 \<noteq> 0 then p1\<lparr>chunkCount := chunkCount p1 + 1\<rparr> else p1)"
  have p2: "live stateChunkSizeLF p2" "chunkSize p2 = chunkSize p1" "limits p2 = limits p1"
    "bodyBytes p2 = bodyBytes p1"
    using 12 live_chunkCount [of p1] by (auto simp: p2_def)
  show ?case
    unfolding p2_def [symmetric]
    using 12 p2 goto_trailers [OF p2(1)] goto_ChunkBody [OF p2(1), of "chunkSize p1"]
    by (simp only: Let_def [of p2], intro wp_invoke_live [OF p2(1)] wp_if)
      (simp_all del: ok_outcome.simps add: suffix_ConsI wp_next1)
qed (simp_all add: suffix_ConsI)

lemma ok_stepChunkBodyCR:
  "live stateChunkBodyCR p \<Longrightarrow> step_ok stateChunkBodyCR b rest (stepChunkBodyCR p h b rest)"
  unfolding stepChunkBodyCR_def
  by (intro wp_if wp_fail [of stateChunkBodyCR] wp_next1 [of stateChunkBodyLF])
    (simp_all add: goto_chunk_states)

lemma ok_stepChunkBodyLF:
  "live stateChunkBodyLF p \<Longrightarrow> step_ok stateChunkBodyLF b rest (stepChunkBodyLF p h b rest)"
  unfolding stepChunkBodyLF_def
  by (intro wp_if wp_fail [of stateChunkBodyLF] wp_invoke_live [of stateChunkBodyLF]
      wp_next1 [of stateChunkSizeStart])
    (simp_all add: goto_chunk_states suffix_ConsI)

subsection \<open>Every iteration\<close>

lemmas ok_steps =
  ok_stepStart ok_stepLeadingLF ok_stepReqMethod ok_stepReqTarget ok_stepHTTP ok_stepVersionMajor
  ok_stepVersionDot ok_stepVersionMinor ok_stepReqLineCR ok_stepStartLineLF
  ok_stepResSpaceBeforeStatus ok_stepResStatus ok_stepResReasonStart ok_stepResReason
  ok_stepHeaderStart ok_stepHeaderName ok_stepHeaderValueStart ok_stepHeaderValue
  ok_stepHeaderValueLF ok_stepHeadersLF ok_stepFixedBody ok_stepCloseBody ok_stepChunkSizeStart
  ok_stepChunkSize ok_stepChunkExt ok_stepChunkSizeLF ok_stepChunkBody ok_stepChunkBodyCR
  ok_stepChunkBodyLF

lemma step_wf:
  assumes "well_formed p" "code p = CodeNone"
  shows "step_ok (state p) b rest (step p h b rest)"
proof -
  have l: "live s p" if "state p = s" for s using assms that by (simp add: live_def)
  show ?thesis
  proof (cases "state p")
    case stateUpgrade
    then show ?thesis using wp_fail [OF l [OF stateUpgrade]] by (simp add: step_def del: ok_outcome.simps list.size)
  next
    case stateDead
    then show ?thesis using assms by (simp add: well_formed_def control_ok_def)
  qed (simp_all del: ok_outcome.simps list.size add: step_def l ok_steps)
qed

end
