(* ===== verification/Http1_Config.thy ===== *)
theory Http1_Config
  imports Http1_Iteration
begin

text \<open>
  What a parse never changes: the kind of the parser, its limits, its callbacks and the two flags
  that describe the running call. Every operation keeps this configuration
  (\<open>cfg_step\<close>, \<open>cfg_parse_loop\<close>).
\<close>

definition cfg ::
  "parser \<Rightarrow> callback_table option \<times> limits_t \<times> message_kind \<times> bool \<times> bool" where
  "cfg p = (callbacks p, limits p, kind p, parsing p, pauseAfterMessage p)"

lemma cfg_frame [simp]:
  "cfg (p\<lparr>state := x_state\<rparr>) = cfg p"
  "cfg (p\<lparr>code := x_code\<rparr>) = cfg p"
  "cfg (p\<lparr>major := x_major\<rparr>) = cfg p"
  "cfg (p\<lparr>minor := x_minor\<rparr>) = cfg p"
  "cfg (p\<lparr>status := x_status\<rparr>) = cfg p"
  "cfg (p\<lparr>meth := x_method\<rparr>) = cfg p"
  "cfg (p\<lparr>messageNum := x_messageNum\<rparr>) = cfg p"
  "cfg (p\<lparr>exchangeNum := x_exchangeNum\<rparr>) = cfg p"
  "cfg (p\<lparr>startBytes := x_startBytes\<rparr>) = cfg p"
  "cfg (p\<lparr>prefixBytes := x_prefixBytes\<rparr>) = cfg p"
  "cfg (p\<lparr>headerBytes := x_headerBytes\<rparr>) = cfg p"
  "cfg (p\<lparr>chunkLineBytes := x_chunkLineBytes\<rparr>) = cfg p"
  "cfg (p\<lparr>chunkCount := x_chunkCount\<rparr>) = cfg p"
  "cfg (p\<lparr>chunkMetadataBytes := x_chunkMetadataBytes\<rparr>) = cfg p"
  "cfg (p\<lparr>headerCount := x_headerCount\<rparr>) = cfg p"
  "cfg (p\<lparr>headerNameBytes := x_headerNameBytes\<rparr>) = cfg p"
  "cfg (p\<lparr>bodyBytes := x_bodyBytes\<rparr>) = cfg p"
  "cfg (p\<lparr>remaining := x_remaining\<rparr>) = cfg p"
  "cfg (p\<lparr>chunkSize := x_chunkSize\<rparr>) = cfg p"
  "cfg (p\<lparr>literalPos := x_literalPos\<rparr>) = cfg p"
  "cfg (p\<lparr>statusDigits := x_statusDigits\<rparr>) = cfg p"
  "cfg (p\<lparr>methodPos := x_methodPos\<rparr>) = cfg p"
  "cfg (p\<lparr>methodMask := x_methodMask\<rparr>) = cfg p"
  "cfg (p\<lparr>targetBytes := x_targetBytes\<rparr>) = cfg p"
  "cfg (p\<lparr>targetPercent := x_targetPercent\<rparr>) = cfg p"
  "cfg (p\<lparr>targetForm := x_targetForm\<rparr>) = cfg p"
  "cfg (p\<lparr>targetAuthorityBracket := x_targetAuthorityBracket\<rparr>) = cfg p"
  "cfg (p\<lparr>targetAuthorityClosed := x_targetAuthorityClosed\<rparr>) = cfg p"
  "cfg (p\<lparr>targetAuthorityColon := x_targetAuthorityColon\<rparr>) = cfg p"
  "cfg (p\<lparr>targetAuthorityPort := x_targetAuthorityPort\<rparr>) = cfg p"
  "cfg (p\<lparr>ipLiteral := x_ipLiteral\<rparr>) = cfg p"
  "cfg (p\<lparr>ipLiteralLen := x_ipLiteralLen\<rparr>) = cfg p"
  "cfg (p\<lparr>fieldPos := x_fieldPos\<rparr>) = cfg p"
  "cfg (p\<lparr>fieldMask := x_fieldMask\<rparr>) = cfg p"
  "cfg (p\<lparr>field := x_field\<rparr>) = cfg p"
  "cfg (p\<lparr>messageActive := x_messageActive\<rparr>) = cfg p"
  "cfg (p\<lparr>trailers := x_trailers\<rparr>) = cfg p"
  "cfg (p\<lparr>hasContentLength := x_hasContentLength\<rparr>) = cfg p"
  "cfg (p\<lparr>hasTransferEncoding := x_hasTransferEncoding\<rparr>) = cfg p"
  "cfg (p\<lparr>hasHost := x_hasHost\<rparr>) = cfg p"
  "cfg (p\<lparr>hostNonEmpty := x_hostNonEmpty\<rparr>) = cfg p"
  "cfg (p\<lparr>hostLiteralNonEmpty := x_hostLiteralNonEmpty\<rparr>) = cfg p"
  "cfg (p\<lparr>hostState := x_hostState\<rparr>) = cfg p"
  "cfg (p\<lparr>hasUpgrade := x_hasUpgrade\<rparr>) = cfg p"
  "cfg (p\<lparr>upgradeState := x_upgradeState\<rparr>) = cfg p"
  "cfg (p\<lparr>upgradeSawProtocol := x_upgradeSawProtocol\<rparr>) = cfg p"
  "cfg (p\<lparr>connectionClose := x_connectionClose\<rparr>) = cfg p"
  "cfg (p\<lparr>connectionUpgrade := x_connectionUpgrade\<rparr>) = cfg p"
  "cfg (p\<lparr>connectionKeepAlive := x_connectionKeepAlive\<rparr>) = cfg p"
  "cfg (p\<lparr>responseToHEAD := x_responseToHEAD\<rparr>) = cfg p"
  "cfg (p\<lparr>responseToCONNECT := x_responseToCONNECT\<rparr>) = cfg p"
  "cfg (p\<lparr>paused := x_paused\<rparr>) = cfg p"
  "cfg (p\<lparr>contentLengthDigits := x_contentLengthDigits\<rparr>) = cfg p"
  "cfg (p\<lparr>contentLengthTrailing := x_contentLengthTrailing\<rparr>) = cfg p"
  "cfg (p\<lparr>transferState := x_transferState\<rparr>) = cfg p"
  "cfg (p\<lparr>transferTokenPos := x_transferTokenPos\<rparr>) = cfg p"
  "cfg (p\<lparr>transferChunked := x_transferChunked\<rparr>) = cfg p"
  "cfg (p\<lparr>transferCurrentChunked := x_transferCurrentChunked\<rparr>) = cfg p"
  "cfg (p\<lparr>transferSawToken := x_transferSawToken\<rparr>) = cfg p"
  "cfg (p\<lparr>transferSawChunked := x_transferSawChunked\<rparr>) = cfg p"
  "cfg (p\<lparr>connectionState := x_connectionState\<rparr>) = cfg p"
  "cfg (p\<lparr>connectionTokenPos := x_connectionTokenPos\<rparr>) = cfg p"
  "cfg (p\<lparr>connectionCloseMatch := x_connectionCloseMatch\<rparr>) = cfg p"
  "cfg (p\<lparr>connectionUpgradeMatch := x_connectionUpgradeMatch\<rparr>) = cfg p"
  "cfg (p\<lparr>connectionKeepAliveMatch := x_connectionKeepAliveMatch\<rparr>) = cfg p"
  "cfg (p\<lparr>chunkDigits := x_chunkDigits\<rparr>) = cfg p"
  "cfg (p\<lparr>chunkExtState := x_chunkExtState\<rparr>) = cfg p"
  by (simp_all add: cfg_def)

lemma cfg_fail [simp]: "cfg (fail c p) = cfg p"
  by (simp add: fail_def)

lemma cfg_core [simp]:
  "cfg (fst (invoke sel ev p h)) = cfg p"
  "cfg (fst (takeStartByte p)) = cfg p"
  "cfg (fst (takePrefixByte p)) = cfg p"
  "cfg (fst (takeHeaderByte p)) = cfg p"
  "cfg (fst (takeChunkLineByte p)) = cfg p"
  "cfg (fst (addBody n p)) = cfg p"
  "cfg (fst (askResponseContext p h)) = cfg p"
  "cfg (clearMessage p) = cfg p"
  "cfg (beginHeader p) = cfg p"
  by (simp_all add: invoke_def takeStartByte_def takePrefixByte_def takeHeaderByte_def
      takeChunkLineByte_def addBody_def askResponseContext_def clearMessage_def beginHeader_def
      Let_def split: option.splits prod.splits)

lemma cfg_boundaries [simp]:
  "cfg (fst (beginMessage p h)) = cfg p"
  "cfg (fst (startLineComplete p h)) = cfg p"
  "cfg (fst (completeMessage p h)) = cfg p"
  "cfg (fst (completeOk p h)) = cfg p"
  "cfg (fst (deliver sel ev0 src r p h)) = cfg p"
  "cfg (fst (deliverBody span p h)) = cfg p"
  by (simp_all add: beginMessage_def startLineComplete_def completeMessage_def completeOk_def
      deliver_def deliverBody_def case_prod_beta Let_def)

lemma cfg_match [simp]:
  "cfg (matchMethod b p) = cfg p" "cfg (finishMethod p) = cfg p" "cfg (matchField b p) = cfg p"
  "cfg (finishFieldName p) = cfg p"
  by (simp_all add: matchMethod_def finishMethod_def matchField_def finishFieldName_def Let_def
      split: field_kind.splits)

lemma cfg_values [simp]:
  "cfg (finishTransferToken p) = cfg p"
  "cfg (fst (transferTokenByte b p)) = cfg p"
  "cfg (fst (consumeTransferValue b p)) = cfg p"
  "cfg (fst (finishTransferValue p)) = cfg p"
  "cfg (fst (consumeUpgradeValue b p)) = cfg p"
  "cfg (fst (finishUpgradeValue p)) = cfg p"
  "cfg (fst (appendIPLiteral b p)) = cfg p"
  "cfg (fst (consumeHostValue b p)) = cfg p"
  "cfg (fst (finishHostValue p)) = cfg p"
  "cfg (finishConnectionToken p) = cfg p"
  "cfg (fst (connectionTokenByte b p)) = cfg p"
  "cfg (fst (consumeConnectionValue b p)) = cfg p"
  "cfg (fst (finishConnectionValue p)) = cfg p"
  "cfg (fst (consumeContentLength b p)) = cfg p"
proof -
  show t: "cfg (finishTransferToken p) = cfg p" for p
    by (simp add: finishTransferToken_def Let_def)
  show tb: "cfg (fst (transferTokenByte b p)) = cfg p" for p
    by (simp add: transferTokenByte_def rejectTransfer_def Let_def t)
  show "cfg (fst (consumeTransferValue b p)) = cfg p"
    by (cases "transferState p")
      (simp_all add: consumeTransferValue_def rejectTransfer_def tb)
  show "cfg (fst (finishTransferValue p)) = cfg p"
    by (cases "transferState p")
      (simp_all add: finishTransferValue_def rejectTransfer_def Let_def t)
  show "cfg (fst (consumeUpgradeValue b p)) = cfg p"
    by (cases "upgradeState p") (simp_all add: consumeUpgradeValue_def rejectValue_def)
  show "cfg (fst (finishUpgradeValue p)) = cfg p"
    by (simp add: finishUpgradeValue_def rejectValue_def)
  show a: "cfg (fst (appendIPLiteral b p)) = cfg p" by (simp add: appendIPLiteral_def)
  show "cfg (fst (consumeHostValue b p)) = cfg p"
    by (cases "hostState p") (simp_all add: consumeHostValue_def rejectValue_def case_prod_beta a)
  show "cfg (fst (finishHostValue p)) = cfg p"
    by (simp add: finishHostValue_def rejectValue_def)
  show c: "cfg (finishConnectionToken p) = cfg p" for p by (simp add: finishConnectionToken_def)
  show cb: "cfg (fst (connectionTokenByte b p)) = cfg p" for p
    by (simp add: connectionTokenByte_def rejectValue_def Let_def c)
  show "cfg (fst (consumeConnectionValue b p)) = cfg p"
    by (cases "connectionState p") (simp_all add: consumeConnectionValue_def rejectValue_def cb)
  show "cfg (fst (finishConnectionValue p)) = cfg p"
    by (cases "connectionState p") (simp_all add: finishConnectionValue_def rejectValue_def c)
  show "cfg (fst (consumeContentLength b p)) = cfg p"
    by (simp add: consumeContentLength_def Let_def)
qed

lemma cfg_dispatch [simp]:
  "cfg (fst (consumeFieldValue b p)) = cfg p" "cfg (fst (finishFieldValue p)) = cfg p"
  by (cases "field p"; simp add: consumeFieldValue_def finishFieldValue_def)+

lemma cfg_target [simp]:
  "cfg (fst (consumeTargetForm b p)) = cfg p"
  "cfg (fst (targetPercentByte b p)) = cfg p"
  "cfg (fst (finishTarget p)) = cfg p"
  "cfg (fst (consumeChunkExtension b p)) = cfg p"
  "cfg (fst (finishChunkExtension p)) = cfg p"
proof -
  have f: "cfg (fst (firstTargetByte b p)) = cfg p"
    by (simp add: firstTargetByte_def rejectTarget_def Let_def)
  have a: "cfg (fst (authorityTargetByte b p)) = cfg p"
    by (simp add: authorityTargetByte_def rejectTarget_def case_prod_beta)
  show "cfg (fst (consumeTargetForm b p)) = cfg p"
    by (cases "targetForm p") (simp_all add: consumeTargetForm_def rejectTarget_def f a)
  show "cfg (fst (targetPercentByte b p)) = cfg p"
    by (simp add: targetPercentByte_def rejectTarget_def Let_def)
  show "cfg (fst (finishTarget p)) = cfg p"
    by (simp add: finishTarget_def rejectTarget_def)
  show "cfg (fst (consumeChunkExtension b p)) = cfg p"
    by (cases "chunkExtState p") (simp_all add: consumeChunkExtension_def rejectChunkExt_def)
  show "cfg (fst (finishChunkExtension p)) = cfg p"
    by (simp add: finishChunkExtension_def rejectChunkExt_def)
qed

lemma cfg_bodies [simp]:
  "cfg (fst (methodByte b p)) = cfg p"
  "cfg (fst (targetByte b p)) = cfg p"
  "cfg (fst (literalByte b p)) = cfg p"
  "cfg (fst (statusByte b p)) = cfg p"
  "cfg (fst (reasonByte b p)) = cfg p"
  "cfg (fst (headerNameByte b p)) = cfg p"
  "cfg (fst (headerValueByte pv b p)) = cfg p"
  "cfg (fst (chunkSizeByte b p)) = cfg p"
  "cfg (fst (chunkExtByte b p)) = cfg p"
  by (simp_all add: methodByte_def targetByte_def literalByte_def statusByte_def reasonByte_def
      headerNameByte_def headerValueByte_def chunkSizeByte_def chunkExtByte_def case_prod_beta
      Let_def)

lemma cfg_scan:
  assumes "\<And>b p. cfg (fst (body b p)) = cfg p"
  shows "cfg (fst (scan cond body p src)) = cfg p"
proof (induction src arbitrary: p)
  case (Cons b src)
  then show ?case using assms [of b p] by (simp add: case_prod_beta)
qed simp

lemma cfg_frameBody [simp]: "cfg (fst (frameBody p h)) = cfg p"
  by (simp add: frameBody_def case_prod_beta Let_def)

lemma cfg_headersComplete [simp]: "cfg (fst (headersComplete p h)) = cfg p"
  by (simp add: headersComplete_def case_prod_beta Let_def split: option.splits)

subsection \<open>One iteration\<close>

primrec outcome_parser :: "outcome \<Rightarrow> parser" where
  "outcome_parser (Go q h r) = q"
| "outcome_parser (Ret q h r c) = q"

lemma outcome_parser_if [simp]:
  "outcome_parser (if c then x else y) = (if c then outcome_parser x else outcome_parser y)"
  by simp

lemma outcome_parser_list [simp]:
  "outcome_parser (case r of [] \<Rightarrow> x | c # r' \<Rightarrow> f c r') =
     (case r of [] \<Rightarrow> outcome_parser x | c # r' \<Rightarrow> outcome_parser (f c r'))"
  by (cases r) simp_all

lemmas step_defs = stepStart_def stepLeadingLF_def stepReqMethod_def stepReqTarget_def stepHTTP_def
  stepVersionMajor_def stepVersionDot_def stepVersionMinor_def stepReqLineCR_def stepStartLineLF_def
  stepResSpaceBeforeStatus_def stepResStatus_def stepResReasonStart_def stepResReason_def
  stepHeaderStart_def stepHeaderName_def stepHeaderValueStart_def stepHeaderValue_def
  stepHeaderValueLF_def stepHeadersLF_def stepFixedBody_def stepCloseBody_def
  stepChunkSizeStart_def stepChunkSize_def stepChunkExt_def stepChunkSizeLF_def stepChunkBody_def
  stepChunkBodyCR_def stepChunkBodyLF_def

lemma cfg_step: "cfg (outcome_parser (step p h b rest)) = cfg p"
  by (cases "state p")
    (simp_all del: scan.simps add: step_def step_defs failRet_def case_prod_beta Let_def cfg_scan
      split: list.split)

end
