(* ===== verification/Http1_Quiet.thy ===== *)
theory Http1_Quiet
  imports Http1_Config
begin

text \<open>
  The parser under callbacks that keep their contract. A callback that does not call the parser
  leaves it unchanged, so that an iteration only appends to the history of calls
  (\<open>step_quiet\<close>).
\<close>

subsection \<open>Callbacks that do not call back\<close>

text \<open>The contract of the callbacks (src/http/parser.go, lines 223 to 238): they never call the
  parser, and the response context is a function of the exchange number.\<close>

definition selectors :: "(callback_table \<Rightarrow> callback option) list" where
  "selectors = [cbMessageBegin, cbMethod, cbTarget, cbReason, cbStartLine, cbHeaderName,
     cbHeaderValue, cbHeaderEnd, cbHeadersComplete, cbChunkHeader, cbBody, cbChunkComplete,
     cbMessageComplete]"

definition silent :: "callback option \<Rightarrow> bool" where
  "silent f \<longleftrightarrow> (\<forall>g h. f = Some g \<longrightarrow> \<not> g h)"

definition quiet_table :: "callback_table option \<Rightarrow> bool" where
  "quiet_table t \<longleftrightarrow> (\<forall>cb. t = Some cb \<longrightarrow>
     list_all (\<lambda>sel. silent (sel cb)) selectors \<and>
     (\<forall>ctx f h n. cbResponseContext cb = Some (ctx, f) \<longrightarrow>
        \<not> f h \<and> ctx (h @ [EvResponseContext n]) = ctx [EvResponseContext n]))"

definition quiet :: "parser \<Rightarrow> bool" where
  "quiet p \<longleftrightarrow> quiet_table (fst (cfg p))"

text \<open>The events that a call adds to the history.\<close>

definition emit :: "(callback_table \<Rightarrow> callback option) \<Rightarrow> event \<Rightarrow> callback_table option \<Rightarrow> history" where
  "emit sel ev t = (case t of None \<Rightarrow> [] | Some cb \<Rightarrow> (case sel cb of None \<Rightarrow> [] | Some _ \<Rightarrow> [ev]))"

lemma invoke_silent:
  assumes "quiet_table (fst (cfg p))" "sel \<in> set selectors"
  shows "invoke sel ev p h = (p, h @ emit sel ev (fst (cfg p)))"
proof (cases "callbacks p")
  case (Some cb)
  have "silent (sel cb)" using assms Some by (simp add: quiet_table_def cfg_def list_all_iff)
  then show ?thesis using Some
    by (auto simp: invoke_def emit_def cfg_def silent_def split: option.split)
qed (simp add: invoke_def emit_def cfg_def)

lemma invoke_quiet [simp]:
  assumes "quiet_table (fst (cfg p))"
  shows "invoke cbMessageBegin ev p h = (p, h @ emit cbMessageBegin ev (fst (cfg p)))"
    "invoke cbMethod ev p h = (p, h @ emit cbMethod ev (fst (cfg p)))"
    "invoke cbTarget ev p h = (p, h @ emit cbTarget ev (fst (cfg p)))"
    "invoke cbReason ev p h = (p, h @ emit cbReason ev (fst (cfg p)))"
    "invoke cbStartLine ev p h = (p, h @ emit cbStartLine ev (fst (cfg p)))"
    "invoke cbHeaderName ev p h = (p, h @ emit cbHeaderName ev (fst (cfg p)))"
    "invoke cbHeaderValue ev p h = (p, h @ emit cbHeaderValue ev (fst (cfg p)))"
    "invoke cbHeaderEnd ev p h = (p, h @ emit cbHeaderEnd ev (fst (cfg p)))"
    "invoke cbHeadersComplete ev p h = (p, h @ emit cbHeadersComplete ev (fst (cfg p)))"
    "invoke cbChunkHeader ev p h = (p, h @ emit cbChunkHeader ev (fst (cfg p)))"
    "invoke cbBody ev p h = (p, h @ emit cbBody ev (fst (cfg p)))"
    "invoke cbChunkComplete ev p h = (p, h @ emit cbChunkComplete ev (fst (cfg p)))"
    "invoke cbMessageComplete ev p h = (p, h @ emit cbMessageComplete ev (fst (cfg p)))"
  using assms by (simp_all add: invoke_silent selectors_def)

text \<open>The event of a span: nothing when the span is empty.\<close>

definition emit_span :: "(callback_table \<Rightarrow> callback option) \<Rightarrow> (bytes \<Rightarrow> event) \<Rightarrow> bytes \<Rightarrow>
    callback_table option \<Rightarrow> history" where
  "emit_span sel ev span t = (if span = [] then [] else emit sel (ev span) t)"

lemma deliver_quiet:
  assumes "quiet_table (fst (cfg p))" "sel \<in> set selectors"
  shows "deliver sel ev src r p h =
     (p, h @ emit_span sel ev (take (length src - length r) src) (fst (cfg p)))"
  using invoke_silent [OF assms] by (auto simp: deliver_def emit_span_def)

lemma deliver_quiet' [simp]:
  assumes "quiet_table (fst (cfg p))"
  shows "deliver cbMethod ev src r p h =
     (p, h @ emit_span cbMethod ev (take (length src - length r) src) (fst (cfg p)))"
    "deliver cbTarget ev src r p h =
     (p, h @ emit_span cbTarget ev (take (length src - length r) src) (fst (cfg p)))"
    "deliver cbReason ev src r p h =
     (p, h @ emit_span cbReason ev (take (length src - length r) src) (fst (cfg p)))"
    "deliver cbHeaderName ev src r p h =
     (p, h @ emit_span cbHeaderName ev (take (length src - length r) src) (fst (cfg p)))"
    "deliver cbHeaderValue ev src r p h =
     (p, h @ emit_span cbHeaderValue ev (take (length src - length r) src) (fst (cfg p)))"
  using assms by (simp_all add: deliver_quiet selectors_def)

lemma deliverBody_quiet [simp]:
  "quiet_table (fst (cfg p)) \<Longrightarrow>
     deliverBody span p h = (p, h @ emit_span cbBody EvBody span (fst (cfg p)))"
  by (simp add: deliverBody_def emit_span_def)

definition ask_quiet :: "parser \<Rightarrow> parser \<times> history" where
  "ask_quiet p = askResponseContext p []"

lemma askResponseContext_quiet:
  assumes "quiet_table (fst (cfg p))"
  shows "askResponseContext p h = (fst (ask_quiet p), h @ snd (ask_quiet p))"
proof (cases "callbacks p")
  case (Some cb)
  show ?thesis
  proof (cases "cbResponseContext cb")
    case s: (Some cf)
    obtain ctx f where cf: "cf = (ctx, f)" by (cases cf)
    have "\<not> f h'" "ctx (h' @ [EvResponseContext n]) = ctx [EvResponseContext n]" for h' n
      using assms Some s cf by (auto simp: quiet_table_def cfg_def)
    then show ?thesis using Some s cf by (simp add: ask_quiet_def askResponseContext_def Let_def)
  qed (simp add: ask_quiet_def askResponseContext_def Some)
qed (simp add: ask_quiet_def askResponseContext_def)

lemma cfg_ask_quiet [simp]: "cfg (fst (ask_quiet p)) = cfg p"
  by (simp add: ask_quiet_def)

subsection \<open>The history only grows\<close>

primrec shift :: "history \<Rightarrow> outcome \<Rightarrow> outcome" where
  "shift h (Go q h' r) = Go q (h @ h') r"
| "shift h (Ret q h' r c) = Ret q (h @ h') r c"

lemma shift_if [simp]: "shift h (if c then x else y) = (if c then shift h x else shift h y)"
  by simp

lemma shift_list [simp]:
  "shift h (case r of [] \<Rightarrow> x | c # r' \<Rightarrow> f c r') =
     (case r of [] \<Rightarrow> shift h x | c # r' \<Rightarrow> shift h (f c r'))"
  by (cases r) simp_all

lemma beginMessage_quiet:
  "quiet_table (fst (cfg p)) \<Longrightarrow>
     beginMessage p h = (fst (beginMessage p []), h @ snd (beginMessage p []))"
  by (simp add: beginMessage_def askResponseContext_quiet [of p h] askResponseContext_quiet [of p "[]"]
      case_prod_beta Let_def)

lemma completeMessage_quiet:
  "quiet_table (fst (cfg p)) \<Longrightarrow>
     completeMessage p h = (fst (completeMessage p []), h @ snd (completeMessage p []))"
  by (simp add: completeMessage_def case_prod_beta Let_def)

lemma startLineComplete_quiet:
  "quiet_table (fst (cfg p)) \<Longrightarrow>
     startLineComplete p h = (fst (startLineComplete p []), h @ snd (startLineComplete p []))"
  by (simp add: startLineComplete_def case_prod_beta Let_def)

lemma completeOk_quiet:
  "quiet_table (fst (cfg p)) \<Longrightarrow>
     completeOk p h =
       (fst (completeOk p []), h @ fst (snd (completeOk p [])), snd (snd (completeOk p [])))"
  unfolding completeOk_def by (subst completeMessage_quiet) (simp_all add: case_prod_beta)

definition extends :: "history \<Rightarrow> parser \<times> history \<times> bool \<Rightarrow> parser \<times> history \<times> bool \<Rightarrow> bool" where
  "extends h r r0 \<longleftrightarrow> r = (fst r0, h @ fst (snd r0), snd (snd r0))"

lemma extends_if:
  "(c \<Longrightarrow> extends h x x0) \<Longrightarrow> (\<not> c \<Longrightarrow> extends h y y0) \<Longrightarrow>
     extends h (if c then x else y) (if c then x0 else y0)"
  by simp

lemma frameBody_extends:
  assumes q: "quiet_table (fst (cfg p))"
  shows "extends h (frameBody p h) (frameBody p [])"
proof -
  have c: "extends h (completeOk p h) (completeOk p [])"
    using completeOk_quiet [OF q, of h] by (simp add: extends_def)
  then have "extends h
     (let (q, h, ok) = completeOk p h in
        if \<not> ok then (q, h, False) else (if u then q\<lparr>state := stateUpgrade\<rparr> else q, h, True))
     (let (q, h, ok) = completeOk p [] in
        if \<not> ok then (q, h, False) else (if u then q\<lparr>state := stateUpgrade\<rparr> else q, h, True))" for u
    by (simp add: extends_def case_prod_beta)
  then show ?thesis
    unfolding frameBody_def Let_def [of "switchesProtocol p"]
    by (intro extends_if c) (simp_all add: extends_def)
qed

lemma frameBody_quiet:
  "quiet_table (fst (cfg p)) \<Longrightarrow>
     frameBody p h = (fst (frameBody p []), h @ fst (snd (frameBody p [])), snd (snd (frameBody p [])))"
  using frameBody_extends [of p h] by (simp add: extends_def)

lemma headersComplete_quiet:
  "quiet_table (fst (cfg p)) \<Longrightarrow>
     headersComplete p h =
       (fst (headersComplete p []), h @ fst (snd (headersComplete p [])), snd (snd (headersComplete p [])))"
  using frameBody_quiet [of p "emit cbHeadersComplete (EvHeadersComplete (message p)) (fst (cfg p))"]
    frameBody_quiet [of p "h @ emit cbHeadersComplete (EvHeadersComplete (message p)) (fst (cfg p))"]
  by (simp add: headersComplete_def case_prod_beta Let_def split: option.split)

lemma step_quiet:
  assumes q: "quiet_table (fst (cfg p))"
  shows "step p h b rest = shift h (step p [] b rest)"
proof -
  show ?thesis
  proof (cases "state p")
    case stateStart
    then show ?thesis using beginMessage_quiet [OF q, of h]
      by (simp add: step_def stepStart_def case_prod_beta Let_def)
  next
    case stateReqLineLF
    then show ?thesis using q startLineComplete_quiet [of "fst (takeStartByte p)" h]
      by (simp add: step_def stepStartLineLF_def failRet_def case_prod_beta Let_def)
  next
    case stateResLineLF
    then show ?thesis using q startLineComplete_quiet [of "fst (takeStartByte p)" h]
      by (simp add: step_def stepStartLineLF_def failRet_def case_prod_beta Let_def)
  next
    case stateHeadersLF
    then show ?thesis using q headersComplete_quiet [of "fst (takeHeaderByte p)" h]
        completeMessage_quiet [of "fst (takeHeaderByte p)"
          "h @ emit cbChunkComplete EvChunkComplete (fst (cfg p))"]
        completeMessage_quiet [of "fst (takeHeaderByte p)"
          "emit cbChunkComplete EvChunkComplete (fst (cfg p))"]
      by (simp add: step_def stepHeadersLF_def failRet_def case_prod_beta Let_def)
  next
    case stateFixedBody
    then show ?thesis using q
      by (simp add: step_def stepFixedBody_def case_prod_beta Let_def completeMessage_quiet [of _ "h @ _"]
       completeMessage_quiet [of _ "emit_span _ _ _ _"])
  qed (simp_all del: scan.simps add: q step_def step_defs failRet_def case_prod_beta Let_def cfg_scan
      split: list.split)
qed

end
