(* ===== verification/Http1_Resume.thy ===== *)
theory Http1_Resume
  imports Http1_Quiet
begin

text \<open>
  One iteration of the main loop on an input that continues: it either does what it does on the
  shorter input, or it stops in the middle of a token or body, and the iteration on the next
  fragment completes it with the same outcome (\<open>resumes_step\<close>).
\<close>

subsection \<open>Histories without span boundaries\<close>

text \<open>A token can be delivered in several spans; \<open>flat\<close> cuts every span into its octets, so
  that two histories with the same flat form deliver the same tokens.\<close>

fun octets :: "event \<Rightarrow> event list" where
  "octets (EvMethod bs) = map (\<lambda>b. EvMethod [b]) bs"
| "octets (EvTarget bs) = map (\<lambda>b. EvTarget [b]) bs"
| "octets (EvReason bs) = map (\<lambda>b. EvReason [b]) bs"
| "octets (EvHeaderName bs) = map (\<lambda>b. EvHeaderName [b]) bs"
| "octets (EvHeaderValue bs) = map (\<lambda>b. EvHeaderValue [b]) bs"
| "octets (EvBody bs) = map (\<lambda>b. EvBody [b]) bs"
| "octets ev = [ev]"

definition flat :: "history \<Rightarrow> history" where
  "flat h = concat (map octets h)"

lemma flat_append [simp]: "flat (xs @ ys) = flat xs @ flat ys"
  by (simp add: flat_def)

lemma flat_Nil [simp]: "flat [] = []"
  by (simp add: flat_def)

lemma flat_emit_span:
  assumes "\<And>bs. octets (ev bs) = map (\<lambda>b. ev [b]) bs"
  shows "flat (emit_span sel ev (xs @ ys) t) =
     flat (emit_span sel ev xs t) @ flat (emit_span sel ev ys t)"
  using assms by (simp add: emit_span_def emit_def flat_def split: option.split)

subsection \<open>Iterations on a longer input\<close>

primrec cont :: "bytes \<Rightarrow> outcome \<Rightarrow> outcome" where
  "cont ys (Go q h r) = Go q h (r @ ys)"
| "cont ys (Ret q h r c) = Ret q h (r @ ys) c"

lemma cont_if [simp]: "cont ys (if c then x else y) = (if c then cont ys x else cont ys y)"
  by simp

lemma cont_list [simp]:
  "cont ys (case r of [] \<Rightarrow> x | c # r' \<Rightarrow> f c r') =
     (case r of [] \<Rightarrow> cont ys x | c # r' \<Rightarrow> cont ys (f c r'))"
  by (cases r) simp_all

text \<open>The same outcome with histories of the same tokens; a failing iteration may have
  delivered more in the second history.\<close>

fun sim :: "outcome \<Rightarrow> outcome \<Rightarrow> bool" where
  "sim (Go q h r) (Go q' h' r') \<longleftrightarrow> q = q' \<and> r = r' \<and> flat h = flat h'"
| "sim (Ret q h r c) (Ret q' h' r' c') \<longleftrightarrow> q = q' \<and> r = r' \<and> c = c' \<and>
     (flat h = flat h' \<or> code q \<noteq> CodeNone \<and> prefix (flat h) (flat h'))"
| "sim _ _ \<longleftrightarrow> False"

lemma sim_refl: "sim out out"
  by (cases out) simp_all

lemma sim_shift: "flat h = flat h' \<Longrightarrow> sim (shift h out) (shift h' out)"
  by (cases out) simp_all

definition resumes :: "parser \<Rightarrow> history \<Rightarrow> byte \<Rightarrow> bytes \<Rightarrow> byte \<Rightarrow> bytes \<Rightarrow> bool" where
  "resumes p h b rest c cs \<longleftrightarrow>
     step p h b (rest @ c # cs) = cont (c # cs) (step p h b rest) \<or>
     (\<exists>q h'. step p h b rest = Go q h' [] \<and>
        sim (step p h b (rest @ c # cs)) (step q h' c cs))"

lemma scan_append:
  "scan cond body p (xs @ ys) =
     (case scan cond body p xs of (q, r, ok) \<Rightarrow>
        if ok \<and> r = [] then scan cond body q ys else (q, r @ ys, ok))"
  by (induction xs arbitrary: p) (simp_all split: prod.split)

lemma scan_suffix: "scan cond body p xs = (q, r, ok) \<Longrightarrow> suffix r xs"
  by (induction xs arbitrary: p) (auto split: if_splits prod.splits intro: suffix_ConsI)

subsubsection \<open>Iterations that read one octet\<close>

lemma resumes_byte:
  assumes "state p \<in> {stateStart, stateLeadingLF, stateVersionMajor, stateVersionDot,
     stateVersionMinor, stateReqLineCR, stateReqLineLF, stateResSpaceBeforeStatus,
     stateResReasonStart, stateResLineLF, stateHeaderStart, stateHeaderValueLF, stateHeadersLF,
     stateChunkSizeStart, stateChunkSizeLF, stateChunkBodyCR, stateChunkBodyLF, stateUpgrade,
     stateDead}"
  shows "resumes p h b rest c cs"
proof -
  have "step p h b (rest @ c # cs) = cont (c # cs) (step p h b rest)"
    using assms by (elim insertE emptyE)
      (simp_all add: step_def step_defs failRet_def case_prod_beta Let_def)
  then show ?thesis by (simp add: resumes_def)
qed

subsubsection \<open>Iterations over a span without a callback\<close>

definition plain_step where
  "plain_step cond body K p h src =
     (case scan cond body p src of (q, r, ok) \<Rightarrow>
        if \<not> ok then Ret q h r (code q) else K q h r)"

lemma plain_resumes:
  assumes step: "\<And>b' rest'. step p h b' rest' = plain_step cond body K p h (b' # rest')"
    and again: "\<And>q. scan cond body p (b # rest) = (q, [], True) \<Longrightarrow>
       K q h [] = Go q h [] \<and> step q h c cs = plain_step cond body K q h (c # cs) \<or>
       plain_step cond body K q h (c # cs) = cont (c # cs) (K q h [])"
    and K: "\<And>q d r. K q h (d # r @ c # cs) = cont (c # cs) (K q h (d # r))"
  shows "resumes p h b rest c cs"
proof -
  obtain q r ok where s: "scan cond body p (b # rest) = (q, r, ok)"
    by (cases "scan cond body p (b # rest)")
  then have s': "scan cond body p (b # rest @ c # cs) =
      (if ok \<and> r = [] then scan cond body q (c # cs) else (q, r @ c # cs, ok))"
    using scan_append [of cond body p "b # rest" "c # cs"] by simp
  show ?thesis
  proof (cases "ok \<and> r = []")
    case False
    then have "step p h b (rest @ c # cs) = cont (c # cs) (step p h b rest)"
      using s s' by (cases r) (auto simp: step plain_step_def K)
    then show ?thesis by (simp add: resumes_def)
  next
    case True
    then have one: "step p h b rest = K q h []"
      and two: "step p h b (rest @ c # cs) = plain_step cond body K q h (c # cs)"
      using s s' by (simp_all add: step plain_step_def)
    have "scan cond body p (b # rest) = (q, [], True)" using s True by simp
    from again [OF this] show ?thesis
      using one two sim_refl [of "step q h c cs"] by (auto simp: resumes_def)
  qed
qed

subsubsection \<open>Iterations over a span with a callback\<close>

definition span_step where
  "span_step cond body sel ev K p h src =
     (case scan cond body p src of (q, r, ok) \<Rightarrow>
        if \<not> ok then Ret q h r (code q)
        else let (q', h') = deliver sel ev src r q h in
          if code q' \<noteq> CodeNone then Ret q' h' r (code q')
          else case r of [] \<Rightarrow> Go q' h' [] | d # r' \<Rightarrow> K q' h' r d r')"

lemma span_resumes:
  assumes step: "\<And>b' rest'. step p h b' rest' = span_step cond body sel ev K p h (b' # rest')"
    and again: "\<And>q h'. scan cond body p (b # rest) = (q, [], True) \<Longrightarrow>
       step q h' c cs = span_step cond body sel ev K q h' (c # cs)"
    and code: "\<And>src q r. scan cond body p src = (q, r, True) \<Longrightarrow> code q = CodeNone"
    and fails: "\<And>src q r. scan cond body p src = (q, r, False) \<Longrightarrow> code q \<noteq> CodeNone"
    and K: "\<And>q h d r ys. K q h (d # r @ ys) d (r @ ys) = cont ys (K q h (d # r) d r)"
    and Kh: "\<And>q h d r. quiet_table (fst (cfg q)) \<Longrightarrow> K q h (d # r) d r = shift h (K q [] (d # r) d r)"
    and cfg: "\<And>b p. cfg (fst (body b p)) = cfg p"
    and quiet: "quiet_table (fst (cfg p))" "sel \<in> set selectors"
    and ev: "\<And>bs. octets (ev bs) = map (\<lambda>b. ev [b]) bs"
  shows "resumes p h b rest c cs"
proof -
  obtain q r ok where s: "scan cond body p (b # rest) = (q, r, ok)"
    by (cases "scan cond body p (b # rest)")
  then have s': "scan cond body p (b # rest @ c # cs) =
      (if ok \<and> r = [] then scan cond body q (c # cs) else (q, r @ c # cs, ok))"
    using scan_append [of cond body p "b # rest" "c # cs"] by simp
  have cq: "cfg q = cfg p" using cfg_scan [of body cond p "b # rest"] cfg s by simp
  have dq: "deliver sel ev src' r' q h' =
     (q, h' @ emit_span sel ev (take (length src' - length r') src') (fst (cfg p)))" for src' r' h'
    using deliver_quiet [of q sel ev src' r' h'] quiet cq by simp
  show ?thesis
  proof (cases "ok \<and> r = []")
    case False
    have "take (length (b # rest @ c # cs) - length (r @ c # cs)) (b # rest @ c # cs) =
        take (length (b # rest) - length r) (b # rest)"
      using suffix_length_le [OF scan_suffix [OF s]]
      by (simp add: take_Cons' split: nat.split)
    then have "step p h b (rest @ c # cs) = cont (c # cs) (step p h b rest)"
      using False s s' code [of "b # rest" q r] by (cases r) (auto simp: step span_step_def K dq)
    then show ?thesis by (simp add: resumes_def)
  next
    case True
    obtain q2 r2 ok2 where s2: "scan cond body q (c # cs) = (q2, r2, ok2)"
      by (cases "scan cond body q (c # cs)")
    have w: "scan cond body p (b # rest @ c # cs) = (q2, r2, ok2)" using s' s2 True by simp
    have cq2: "cfg q2 = cfg p" using cfg_scan [of body cond q "c # cs"] cfg s2 cq by simp
    define t where "t = fst (cfg p)"
    define h1 where "h1 = h @ emit_span sel ev (b # rest) t"
    have one: "step p h b rest = Go q h1 []"
      using s True code [of "b # rest" q r] by (simp add: step span_step_def dq h1_def t_def)
    have two: "step q h1 c cs = span_step cond body sel ev K q h1 (c # cs)"
      using s True by (intro again) simp
    have "sim (step p h b (rest @ c # cs)) (step q h1 c cs)"
    proof (cases ok2)
      case False
      then show ?thesis using w s2 two fails [of "b # rest @ c # cs" q2 r2]
        by (simp add: step span_step_def h1_def)
    next
      case ok: True
      define e2 where "e2 = emit_span sel ev (take (length (c # cs) - length r2) (c # cs)) t"
      define e where
        "e = emit_span sel ev (take (length (b # rest @ c # cs) - length r2) (b # rest @ c # cs)) t"
      have le: "length r2 \<le> length (c # cs)" using suffix_length_le [OF scan_suffix [OF s2]] .
      have "take (length (b # rest @ c # cs) - length r2) (b # rest @ c # cs) =
          (b # rest) @ take (length (c # cs) - length r2) (c # cs)"
        using le take_append [of "length (b # rest @ c # cs) - length r2" "b # rest" "c # cs"]
        by simp
      then have flat: "flat (h @ e) = flat (h1 @ e2)"
        using flat_emit_span [of ev sel "b # rest", OF ev] by (simp add: e_def e2_def h1_def)
      have c2: "code q2 = CodeNone" using code [of "b # rest @ c # cs" q2 r2] w ok by (simp del: scan.simps)
      have d: "deliver sel ev src' r' q2 h' =
         (q2, h' @ emit_span sel ev (take (length src' - length r') src') t)" for src' r' h'
        using deliver_quiet [of q2 sel ev src' r' h'] quiet cq2 by (simp add: t_def)
      have A: "step p h b (rest @ c # cs) =
          (case r2 of [] \<Rightarrow> Go q2 (h @ e) [] | d # r' \<Rightarrow> K q2 (h @ e) (d # r') d r')"
        using w ok c2 by (cases r2) (simp_all add: step span_step_def d e_def)
      have B: "step q h1 c cs =
          (case r2 of [] \<Rightarrow> Go q2 (h1 @ e2) [] | d # r' \<Rightarrow> K q2 (h1 @ e2) (d # r') d r')"
        using s2 ok c2 by (cases r2) (simp_all add: two span_step_def d e2_def)
      show ?thesis
      proof (cases r2)
        case Nil
        then show ?thesis using A B flat by simp
      next
        case (Cons d r')
        then show ?thesis
          using A B sim_shift [OF flat] Kh [of q2 "h @ e" d r'] Kh [of q2 "h1 @ e2" d r'] quiet cq2
          by simp
      qed
    qed
    then show ?thesis using one by (auto simp: resumes_def)
  qed
qed

lemma live_scan:
  assumes "span_loop cond body (live s) failed" "live s p" "scan cond body p src = (q, r, ok)"
  shows "if ok then live s q else failed q"
  using span_loop.scan_result [OF assms] by (cases ok) simp_all

lemma live_span_resumes:
  assumes step: "\<And>p h b rest. live s p \<Longrightarrow> F p = X \<Longrightarrow>
       step p h b rest = span_step cond body sel ev K p h (b # rest)"
    and F: "\<And>p src q r. scan cond body p src = (q, r, True) \<Longrightarrow> F q = F p"
    and loop: "span_loop cond body (live s) failed"
    and p: "live s p" "F p = X"
    and K: "\<And>q h d r ys. K q h (d # r @ ys) d (r @ ys) = cont ys (K q h (d # r) d r)"
    and Kh: "\<And>q h d r. quiet_table (fst (cfg q)) \<Longrightarrow> K q h (d # r) d r = shift h (K q [] (d # r) d r)"
    and cfg: "\<And>b p. cfg (fst (body b p)) = cfg p"
    and quiet: "quiet_table (fst (cfg p))" "sel \<in> set selectors"
    and ev: "\<And>bs. octets (ev bs) = map (\<lambda>b. ev [b]) bs"
  shows "resumes p h b rest c cs"
proof (rule span_resumes [where cond = cond and body = body and sel = sel and ev = ev and K = K])
  show "step p h b' rest' = span_step cond body sel ev K p h (b' # rest')" for b' rest'
    using p by (rule step)
  show "step q h' c cs = span_step cond body sel ev K q h' (c # cs)"
    if "scan cond body p (b # rest) = (q, [], True)" for q h'
    using live_scan [OF loop p(1) that] F [OF that] p(2) by (intro step) simp_all
  show "code q = CodeNone" if "scan cond body p src = (q, r, True)" for src q r
    using live_scan [OF loop p(1) that] by (simp add: live_code)
  show "code q \<noteq> CodeNone" if "scan cond body p src = (q, r, False)" for src q r
    using live_scan [OF loop p(1) that] by simp
qed (fact K Kh cfg quiet ev)+

lemma resumes_ReqMethod:
  assumes "live stateReqMethod p" "quiet_table (fst (cfg p))"
  shows "resumes p h b rest c cs"
proof -
  define K where "K = (\<lambda>p2 h r c r'.
     if methodPos p2 = 0 \<or> c \<noteq> bSP then failRet CodeInvalidMethod p2 h r
     else let (p3, ok) = takeStartByte (finishMethod p2) in
       if \<not> ok then Ret p3 h r (code p3) else Go (p3\<lparr>state := stateReqTarget\<rparr>) h r')"
  have s: "step p h b rest = span_step (\<lambda>b _. isTChar b) methodByte cbMethod EvMethod K p h (b # rest)"
    if "live stateReqMethod p" for p h b rest
    using that unfolding K_def span_step_def
    by (simp only: step_def live_state parser_state.case stepReqMethod_def)
  show ?thesis
    by (rule live_span_resumes [where F = "\<lambda>_. ()", OF s _ method_span.span_loop_axioms assms(1) _ _ _ _ assms(2)])
      (simp_all add: K_def selectors_def failRet_def case_prod_beta Let_def)
qed

lemma resumes_ReqTarget:
  assumes "live stateReqTarget p" "quiet_table (fst (cfg p))"
  shows "resumes p h b rest c cs"
proof -
  define K where "K = (\<lambda>p2 h r c r'.
     let (p3, ok) = finishTarget p2 in
     if \<not> ok \<or> c \<noteq> bSP then failRet CodeInvalidTarget p3 h r
     else let (p4, ok) = takeStartByte p3 in
       if \<not> ok then Ret p4 h r (code p4)
       else Go (p4\<lparr>literalPos := 0, state := stateReqHTTP\<rparr>) h r')"
  have s: "step p h b rest =
      span_step (\<lambda>b _. validTargetByte b) targetByte cbTarget EvTarget K p h (b # rest)"
    if "live stateReqTarget p" for p h b rest
    using that unfolding K_def span_step_def
    by (simp only: step_def live_state parser_state.case stepReqTarget_def)
  show ?thesis
    by (rule live_span_resumes [where F = "\<lambda>_. ()", OF s _ target_span.span_loop_axioms assms(1) _ _ _ _ assms(2)])
      (simp_all add: K_def selectors_def failRet_def case_prod_beta Let_def)
qed

lemma resumes_ResReason:
  assumes "live stateResReason p" "quiet_table (fst (cfg p))"
  shows "resumes p h b rest c cs"
proof -
  define K where "K = (\<lambda>p2 h r (c :: byte) r'.
     let (p3, ok) = takeStartByte p2 in
     if \<not> ok then Ret p3 h r (code p3) else Go (p3\<lparr>state := stateResLineLF\<rparr>) h r')"
  have s: "step p h b rest = span_step (\<lambda>b _. b \<noteq> bCR) reasonByte cbReason EvReason K p h (b # rest)"
    if "live stateResReason p" for p h b rest
    using that unfolding K_def span_step_def
    by (simp only: step_def live_state parser_state.case stepResReason_def)
  show ?thesis
    by (rule live_span_resumes [where F = "\<lambda>_. ()", OF s _ reason_span.span_loop_axioms assms(1) _ _ _ _ assms(2)])
      (simp_all add: K_def selectors_def failRet_def case_prod_beta Let_def)
qed

lemma resumes_HeaderName:
  assumes "live stateHeaderName p" "quiet_table (fst (cfg p))"
  shows "resumes p h b rest c cs"
proof -
  define K where "K = (\<lambda>p2 h r c r'.
     if headerNameBytes p2 = 0 \<or> c \<noteq> bCOLON then failRet CodeInvalidHeaderName p2 h r
     else let (p3, ok) = takeHeaderByte p2 in
       if \<not> ok then Ret p3 h r (code p3)
       else let p4 = finishFieldName p3 in
         if code p4 \<noteq> CodeNone then Ret p4 h r' (code p4)
         else Go (p4\<lparr>state := stateHeaderValueStart\<rparr>) h r')"
  have s: "step p h b rest =
      span_step (\<lambda>b _. isTChar b) headerNameByte cbHeaderName EvHeaderName K p h (b # rest)"
    if "live stateHeaderName p" for p h b rest
    using that unfolding K_def span_step_def
    by (simp only: step_def live_state parser_state.case stepHeaderName_def)
  show ?thesis
    by (rule live_span_resumes [where F = "\<lambda>_. ()", OF s _ headerName_span.span_loop_axioms assms(1) _ _ _ _ assms(2)])
      (simp_all add: K_def selectors_def failRet_def case_prod_beta Let_def)
qed

lemma field_fail [simp]: "field (fail c p) = field p"
  by (simp add: fail_def)

lemma field_consumeFieldValue: "field (fst (consumeFieldValue b p)) = field p"
proof -
  have t: "field (finishTransferToken p) = field p" for p
    by (simp add: finishTransferToken_def Let_def)
  have tb: "field (fst (transferTokenByte b p)) = field p" for p
    by (simp add: transferTokenByte_def rejectTransfer_def Let_def t)
  have te: "field (fst (consumeTransferValue b p)) = field p"
    by (cases "transferState p") (simp_all add: consumeTransferValue_def rejectTransfer_def tb)
  have up: "field (fst (consumeUpgradeValue b p)) = field p"
    by (cases "upgradeState p") (simp_all add: consumeUpgradeValue_def rejectValue_def)
  have host: "field (fst (consumeHostValue b p)) = field p"
    by (cases "hostState p")
      (simp_all add: consumeHostValue_def rejectValue_def case_prod_beta appendIPLiteral_def)
  have cb: "field (fst (connectionTokenByte b p)) = field p" for p
    by (simp add: connectionTokenByte_def rejectValue_def Let_def finishConnectionToken_def)
  have co: "field (fst (consumeConnectionValue b p)) = field p"
    by (cases "connectionState p") (simp_all add: consumeConnectionValue_def rejectValue_def cb)
  have cl: "field (fst (consumeContentLength b p)) = field p"
    by (simp add: consumeContentLength_def Let_def)
  show ?thesis by (cases "field p") (simp_all add: consumeFieldValue_def te up host co cl)
qed

lemma field_headerValueByte: "field (fst (headerValueByte pv b p)) = field p"
  by (simp add: headerValueByte_def case_prod_beta field_consumeFieldValue takeHeaderByte_def)

lemma scan_frame:
  assumes "\<And>b p. f (fst (body b p)) = f p"
  shows "scan cond body p src = (q, r, ok) \<Longrightarrow> f q = f p"
proof (induction src arbitrary: p)
  case (Cons b src)
  have "f (fst (body b p)) = f p" by (rule assms)
  then show ?case using Cons by (auto simp: case_prod_beta split: if_splits prod.splits)
qed simp

lemma resumes_HeaderValue:
  assumes "live stateHeaderValue p" "quiet_table (fst (cfg p))"
  shows "resumes p h b rest c cs"
proof -
  define X where "X = parseValue p"
  define K where "K = (\<lambda>p2 h r (c :: byte) r'.
     let (p3, ok) = finishFieldValue p2 in
     if \<not> ok then Ret p3 h r (code p3)
     else let (p4, ok) = takeHeaderByte p3 in
       if \<not> ok then Ret p4 h r (code p4)
       else Go (p4\<lparr>state := stateHeaderValueLF\<rparr>) h r')"
  have s: "step p h b rest =
      span_step (\<lambda>b _. b \<noteq> bCR) (headerValueByte X) cbHeaderValue EvHeaderValue K p h (b # rest)"
    if "live stateHeaderValue p" "parseValue p = X" for p h b rest
    using that unfolding K_def span_step_def
    by (simp only: step_def live_state parser_state.case stepHeaderValue_def)
  have F: "parseValue q = parseValue p"
    if "scan (\<lambda>b _. b \<noteq> bCR) (headerValueByte X) p src = (q, r, True)" for p src q r
    using scan_frame [of field, OF field_headerValueByte that] by (simp add: parseValue_def)
  show ?thesis
    by (rule live_span_resumes [where F = parseValue and X = X,
          OF s F headerValue_span.span_loop_axioms assms(1) _ _ _ _ assms(2)])
      (simp_all add: K_def X_def selectors_def case_prod_beta Let_def)
qed

lemma resumes_HTTP:
  assumes s: "s \<in> {stateReqHTTP, stateResHTTP}" and l: "live s p"
  shows "resumes p h b rest c cs"
proof -
  define K where "K = (\<lambda>q h r. if literalPos q = 5
     then Go (q\<lparr>major := 0, minor := 0, state := stateVersionMajor\<rparr>) h r else Go q h r)"
  have st: "step p h b rest =
      plain_step (\<lambda>_ p. literalPos p < 5) literalByte K p h (b # rest)"
    if "state p = s" for p b rest
    using that s unfolding K_def plain_step_def
    by (elim insertE emptyE) (simp_all only: step_def parser_state.case stepHTTP_def)
  show ?thesis
  proof (rule plain_resumes [OF st])
    show "state p = s" using l by (rule live_state)
  next
    fix q assume sc: "scan (\<lambda>_ p. literalPos p < 5) literalByte p (b # rest) = (q, [], True)"
    have "literal_live s p" using l s by (simp add: live_literal)
    from literal_span.scan_result [OF this sc] have "literal_live s q" by simp
    then have "state q = s" by (simp add: literal_live_def live_def)
    then show "K q h [] = Go q h [] \<and>
        step q h c cs = plain_step (\<lambda>_ p. literalPos p < 5) literalByte K q h (c # cs) \<or>
      plain_step (\<lambda>_ p. literalPos p < 5) literalByte K q h (c # cs) = cont (c # cs) (K q h [])"
      by (cases "literalPos q = 5") (simp_all add: st K_def plain_step_def)
  qed (simp add: K_def)
qed

lemma resumes_ResStatus:
  assumes l: "live stateResStatus p"
  shows "resumes p h b rest c cs"
proof -
  define K where "K = (\<lambda>q h r. if statusDigits q = 3
     then (if status q < 100 then failRet CodeInvalidStatus q h r
           else Go (q\<lparr>state := stateResReasonStart\<rparr>) h r) else Go q h r)"
  have st: "step p h b rest =
      plain_step (\<lambda>_ p. statusDigits p < 3) statusByte K p h (b # rest)"
    if "state p = stateResStatus" for p b rest
    using that unfolding K_def plain_step_def
    by (simp only: step_def parser_state.case stepResStatus_def)
  show ?thesis
  proof (rule plain_resumes [OF st])
    show "state p = stateResStatus" using l by (rule live_state)
  next
    fix q assume sc: "scan (\<lambda>_ p. statusDigits p < 3) statusByte p (b # rest) = (q, [], True)"
    have "status_live p" using l by (simp add: live_status)
    from status_span.scan_result [OF this sc] have "status_live q" by simp
    then have "state q = stateResStatus" by (simp add: status_live_def live_def)
    then show "K q h [] = Go q h [] \<and>
        step q h c cs = plain_step (\<lambda>_ p. statusDigits p < 3) statusByte K q h (c # cs) \<or>
      plain_step (\<lambda>_ p. statusDigits p < 3) statusByte K q h (c # cs) = cont (c # cs) (K q h [])"
      by (cases "statusDigits q = 3") (simp_all add: st K_def plain_step_def failRet_def)
  qed (simp add: K_def failRet_def)
qed

lemma live_plain_resumes:
  assumes step: "\<And>p h b rest. live s p \<Longrightarrow> step p h b rest = plain_step cond body K p h (b # rest)"
    and loop: "span_loop cond body (live s) failed"
    and p: "live s p"
    and K0: "\<And>q. K q h [] = Go q h []"
    and K: "\<And>q d r. K q h (d # r @ c # cs) = cont (c # cs) (K q h (d # r))"
  shows "resumes p h b rest c cs"
proof (rule plain_resumes [OF step [OF p]])
  fix q assume "scan cond body p (b # rest) = (q, [], True)"
  from live_scan [OF loop p this] have "live s q" by simp
  then show "K q h [] = Go q h [] \<and> step q h c cs = plain_step cond body K q h (c # cs) \<or>
      plain_step cond body K q h (c # cs) = cont (c # cs) (K q h [])"
    using K0 step by simp
qed (rule K)

lemma resumes_HeaderValueStart:
  assumes "live stateHeaderValueStart p"
  shows "resumes p h b rest c cs"
proof -
  define K where
    "K = (\<lambda>q h (r :: bytes). if r \<noteq> [] then Go (q\<lparr>state := stateHeaderValue\<rparr>) h r else Go q h r)"
  have s: "step p h b rest =
      plain_step (\<lambda>b _. isOWS b) (\<lambda>_. takeHeaderByte) K p h (b # rest)"
    if "live stateHeaderValueStart p" for p h b rest
    using that unfolding K_def plain_step_def
    by (simp only: step_def live_state parser_state.case stepHeaderValueStart_def)
  show ?thesis
    by (rule live_plain_resumes [OF s ows_span.span_loop_axioms assms(1)]) (simp_all add: K_def)
qed

lemma resumes_ChunkSize:
  assumes "live stateChunkSize p"
  shows "resumes p h b rest c cs"
proof -
  define K where "K = (\<lambda>p1 h r. case r of
            [] \<Rightarrow> Go p1 h []
          | c # r' \<Rightarrow>
              if \<not> chunkDigits p1 then failRet CodeInvalidChunkSize p1 h r
              else if c = bSEMI then
                (let (p2, ok) = takeChunkLineByte p1 in
                 if \<not> ok then Ret p2 h r (code p2)
                 else Go (p2\<lparr>chunkExtState := chunkExtBeforeName, state := stateChunkExt\<rparr>) h r')
              else if c \<noteq> bCR then failRet CodeInvalidChunkSize p1 h r
              else let (p2, ok) = takeChunkLineByte p1 in
                if \<not> ok then Ret p2 h r (code p2) else Go (p2\<lparr>state := stateChunkSizeLF\<rparr>) h r')"
  have s: "step p h b rest =
      plain_step (\<lambda>b _. hexValue b \<noteq> None) chunkSizeByte K p h (b # rest)"
    if "live stateChunkSize p" for p h b rest
    using that unfolding K_def plain_step_def
    by (simp only: step_def live_state parser_state.case stepChunkSize_def)
  show ?thesis
    by (rule live_plain_resumes [OF s chunkSize_span.span_loop_axioms assms(1)])
      (simp_all add: K_def failRet_def case_prod_beta Let_def)
qed

lemma resumes_ChunkExt:
  assumes "live stateChunkExt p"
  shows "resumes p h b rest c cs"
proof -
  define K where "K = (\<lambda>p1 h r. case r of
            [] \<Rightarrow> Go p1 h []
          | c # r' \<Rightarrow>
              let (p2, ok) = finishChunkExtension p1 in
              if \<not> ok then Ret p2 h r (code p2)
              else let (p3, ok) = takeChunkLineByte p2 in
                if \<not> ok then Ret p3 h r (code p3) else Go (p3\<lparr>state := stateChunkSizeLF\<rparr>) h r')"
  have s: "step p h b rest = plain_step (\<lambda>b _. b \<noteq> bCR) chunkExtByte K p h (b # rest)"
    if "live stateChunkExt p" for p h b rest
    using that unfolding K_def plain_step_def
    by (simp only: step_def live_state parser_state.case stepChunkExt_def)
  show ?thesis
    by (rule live_plain_resumes [OF s chunkExt_span.span_loop_axioms assms(1)])
      (simp_all add: K_def case_prod_beta Let_def)
qed

subsubsection \<open>Iterations over a body\<close>

lemma of_nat_sub_add:
  fixes r :: u64
  shows "r - of_nat a - of_nat b = r - of_nat (a + b)"
  by (simp add: diff_diff_eq)

lemma unat_sub_of_nat:
  fixes r :: u64
  assumes "n \<le> unat r"
  shows "unat (r - of_nat n) = unat r - n"
  using take_le [OF assms] by (simp add: unat_sub)

text \<open>The body states share their shape: take what is there, up to the announced length.\<close>

definition sized_step where
  "sized_step k p h src =
     (let tk = min (length src) (unat (remaining p));
          (p1, ok) = addBody (of_nat tk) p in
      if \<not> ok then Ret p1 h src (code p1)
      else
        let (p2, h) = deliverBody (take tk src) (p1\<lparr>remaining := remaining p1 - of_nat tk\<rparr>) h;
            r = drop tk src in
        if code p2 \<noteq> CodeNone then Ret p2 h r (code p2)
        else if remaining p2 = 0 then k p2 h r
        else Go p2 h r)"

definition sized_after :: "nat \<Rightarrow> parser \<Rightarrow> parser" where
  "sized_after n p = p\<lparr>bodyBytes := bodyBytes p + of_nat n, remaining := remaining p - of_nat n\<rparr>"

lemma sized_step_quiet:
  assumes l: "live s p" and s: "s \<in> sizedStates" and q: "quiet_table (fst (cfg p))"
  defines "tk src \<equiv> min (length src) (unat (remaining p))"
  shows "sized_step k p h src =
     (let h' = h @ emit_span cbBody EvBody (take (tk src) src) (fst (cfg p)) in
      if unat (remaining p) \<le> length src then k (sized_after (tk src) p) h' (drop (tk src) src)
      else Go (sized_after (tk src) p) h' (drop (tk src) src))"
proof -
  have n: "tk src \<le> unat (remaining p)" by (simp add: tk_def)
  note sp = sized_span [OF l s n]
  have cfg: "quiet_table (fst (cfg (sized_after (tk src) p)))" using q by (simp add: sized_after_def)
  have rem: "remaining (sized_after (tk src) p) = 0 \<longleftrightarrow> unat (remaining p) \<le> length src"
  proof -
    have "remaining (sized_after (tk src) p) = 0 \<longleftrightarrow> unat (remaining p - of_nat (tk src)) = 0"
      by (simp add: sized_after_def unat_eq_zero)
    also have "\<dots> \<longleftrightarrow> unat (remaining p) - tk src = 0" using unat_sub_of_nat [OF n] by simp
    also have "\<dots> \<longleftrightarrow> unat (remaining p) \<le> length src" by (auto simp: tk_def)
    finally show ?thesis .
  qed
  have code: "code p = CodeNone" using l by (rule live_code)
  show ?thesis
    unfolding sized_step_def tk_def [symmetric] Let_def sp(1) prod.case
    using deliverBody_quiet [OF cfg, of "take (tk src) src" h] rem code
    by (simp add: sized_after_def)
qed

lemma sized_resumes:
  assumes l: "live s p" and s: "s \<in> sizedStates" and q: "quiet_table (fst (cfg p))"
    and step: "\<And>p h b rest. live s p \<Longrightarrow> step p h b rest = sized_step k p h (b # rest)"
    and k: "\<And>p h r ys. k p h (r @ ys) = cont ys (k p h r)"
    and kh: "\<And>p h r. quiet_table (fst (cfg p)) \<Longrightarrow> k p h r = shift h (k p [] r)"
  shows "resumes p h b rest c cs"
proof -
  define R where "R = unat (remaining p)"
  define t where "t = fst (cfg p)"
  note one = sized_step_quiet [OF l s q, of k h, folded R_def t_def]
  show ?thesis
  proof (cases "R \<le> length (b # rest)")
    case True
    then have eqs: "take R (b # rest @ c # cs) = take R (b # rest)"
      "drop R (b # rest @ c # cs) = drop R (b # rest) @ c # cs"
      "min (length (b # rest)) R = R" "min (length (b # rest @ c # cs)) R = R"
      "R \<le> length (b # rest @ c # cs)"
      using take_append [of R "b # rest" "c # cs"] drop_append [of R "b # rest" "c # cs"]
      by simp_all
    have "step p h b (rest @ c # cs) = cont (c # cs) (step p h b rest)"
      unfolding step [OF l] one eqs Let_def using True eqs(5) by (simp add: k)
    then show ?thesis by (simp add: resumes_def)
  next
    case False
    define q where "q = sized_after (length (b # rest)) p"
    define h1 where "h1 = h @ emit_span cbBody EvBody (b # rest) t"
    have n: "length (b # rest) \<le> unat (remaining p)" using False by (simp add: R_def)
    have fst: "step p h b rest = Go q h1 []"
      using False by (simp add: step [OF l] one q_def h1_def Let_def min_def)
    have rq: "unat (remaining q) = R - length (b # rest)"
      using unat_sub_of_nat [OF n] by (simp add: q_def sized_after_def R_def)
    then have "remaining q \<noteq> 0" using False by (auto simp: unat_eq_zero)
    then have lq: "live s q" using sized_span(3) [OF l s n] by (simp add: q_def sized_after_def)
    have cq: "quiet_table (fst (cfg q))" using \<open>quiet_table (fst (cfg p))\<close>
      by (simp add: q_def sized_after_def)
    have tq: "fst (cfg q) = t" by (simp add: q_def sized_after_def t_def)
    note two = sized_step_quiet [OF lq s cq, of k h1 "c # cs", folded rq, unfolded rq tq]
    have add: "sized_after m q = sized_after (length (b # rest) + m) p" for m
      by (simp add: q_def sized_after_def algebra_simps)
    define m where "m = min (length (c # cs)) (R - length (b # rest))"
    have m: "min (length (b # rest @ c # cs)) R = length (b # rest) + m"
      using False by (auto simp: m_def min_def)
    have flat: "flat (h @ emit_span cbBody EvBody (b # rest @ take m (c # cs)) t) =
        flat (h1 @ emit_span cbBody EvBody (take m (c # cs)) t)"
      using flat_emit_span [of EvBody cbBody "b # rest" "take m (c # cs)" t] by (simp add: h1_def)
    have tk: "take (length (b # rest) + m) (b # rest @ c # cs) = b # rest @ take m (c # cs)"
      "drop (length (b # rest) + m) (b # rest @ c # cs) = drop m (c # cs)"
      by simp_all
    have le: "R \<le> length (b # rest @ c # cs) \<longleftrightarrow> R - length (b # rest) \<le> length (c # cs)" by auto
    have "sim (step p h b (rest @ c # cs)) (step q h1 c cs)"
    proof -
      define z where "z = sized_after (length (b # rest) + m) p"
      have cz: "quiet_table (fst (cfg z))" using \<open>quiet_table (fst (cfg p))\<close>
        by (simp add: z_def sized_after_def)
      have A: "step p h b (rest @ c # cs) =
        (if R \<le> length (b # rest @ c # cs)
         then k z (h @ emit_span cbBody EvBody (b # rest @ take m (c # cs)) t) (drop m (c # cs))
         else Go z (h @ emit_span cbBody EvBody (b # rest @ take m (c # cs)) t) (drop m (c # cs)))"
        unfolding step [OF l] one Let_def m tk z_def ..
      have B: "step q h1 c cs =
        (if R \<le> length (b # rest @ c # cs)
         then k z (h1 @ emit_span cbBody EvBody (take m (c # cs)) t) (drop m (c # cs))
         else Go z (h1 @ emit_span cbBody EvBody (take m (c # cs)) t) (drop m (c # cs)))"
        unfolding le step [OF lq] two Let_def m_def [symmetric] add z_def ..
      show ?thesis unfolding A B
        using sim_shift [OF flat, of "k z [] (drop m (c # cs))"] flat
          kh [OF cz, of "h @ emit_span cbBody EvBody (b # rest @ take m (c # cs)) t"]
          kh [OF cz, of "h1 @ emit_span cbBody EvBody (take m (c # cs)) t"]
        by simp
    qed
    then show ?thesis using fst by (auto simp: resumes_def)
  qed
qed

lemma resumes_FixedBody:
  assumes "live stateFixedBody p" "quiet_table (fst (cfg p))"
  shows "resumes p h b rest c cs"
proof -
  define k where "k = (\<lambda>p2 h r. let (p3, h) = completeMessage p2 h in
     if code p3 \<noteq> CodeNone then Ret p3 h r (code p3) else Go p3 h r)"
  have s: "step p h b rest = sized_step k p h (b # rest)" if "live stateFixedBody p" for p h b rest
    using that unfolding k_def sized_step_def
    by (simp only: step_def live_state parser_state.case stepFixedBody_def)
  have kh: "k p h r = shift h (k p [] r)" if "quiet_table (fst (cfg p))" for p h r
    using completeMessage_quiet [OF that, of h] by (simp add: k_def case_prod_beta Let_def)
  show ?thesis
    by (rule sized_resumes [OF assms(1) _ assms(2) s _ kh])
      (simp_all add: k_def sizedStates_def case_prod_beta Let_def)
qed

lemma resumes_ChunkBody:
  assumes "live stateChunkBody p" "quiet_table (fst (cfg p))"
  shows "resumes p h b rest c cs"
proof -
  define k where "k = (\<lambda>p2 (h :: history) r. Go (p2\<lparr>state := stateChunkBodyCR\<rparr>) h r)"
  have s: "step p h b rest = sized_step k p h (b # rest)" if "live stateChunkBody p" for p h b rest
    using that unfolding k_def sized_step_def
    by (simp only: step_def live_state parser_state.case stepChunkBody_def)
  show ?thesis
    by (rule sized_resumes [OF assms(1) _ assms(2) s]) (simp_all add: k_def sizedStates_def)
qed

lemma resumes_CloseBody:
  assumes l: "live stateCloseBody p" and q: "quiet_table (fst (cfg p))"
  shows "resumes p h b rest c cs"
proof -
  define t where "t = fst (cfg p)"
  define B where "B p = unat (MaxBodyBytes (limits p) - bodyBytes p)" for p :: parser
  define aft where "aft n p = p\<lparr>bodyBytes := bodyBytes p + of_nat n\<rparr>" for n and p :: parser
  have st: "step p h b rest =
      (let tk = min (length (b # rest)) (B p);
           h' = h @ emit_span cbBody EvBody (take tk (b # rest)) t; r = drop tk (b # rest) in
       if tk \<noteq> length (b # rest) then failRet CodeBodyTooLarge (aft tk p) h' r
       else Go (aft tk p) h' r)"
    if "live stateCloseBody p" "fst (cfg p) = t" for p h b rest
    using that q by (simp add: step_def live_state live_code stepCloseBody_def B_def aft_def Let_def
        t_def del: take_Suc_Cons drop_Suc_Cons)
  show ?thesis
  proof (cases "B p < length (b # rest)")
    case True
    then have eqs: "take (B p) (b # rest @ c # cs) = take (B p) (b # rest)"
      "drop (B p) (b # rest @ c # cs) = drop (B p) (b # rest) @ c # cs"
      "min (length (b # rest)) (B p) = B p" "min (length (b # rest @ c # cs)) (B p) = B p"
      using take_append [of "B p" "b # rest" "c # cs"] drop_append [of "B p" "b # rest" "c # cs"]
      by simp_all
    have "step p h b (rest @ c # cs) = cont (c # cs) (step p h b rest)"
      unfolding st [OF l t_def [symmetric]] eqs Let_def using True by (simp add: failRet_def)
    then show ?thesis by (simp add: resumes_def)
  next
    case False
    define n where "n = length (b # rest)"
    define q where "q = aft n p"
    define h1 where "h1 = h @ emit_span cbBody EvBody (b # rest) t"
    have n: "n \<le> B p" using False by (simp add: n_def)
    have fst: "step p h b rest = Go q h1 []"
      using False by (simp add: st [OF l t_def [symmetric]] Let_def q_def n_def h1_def min_def)
    have x: "of_nat n \<le> MaxBodyBytes (limits p) - bodyBytes p"
      using n by (intro take_le) (simp add: B_def)
    have M: "bodyBytes p \<le> MaxBodyBytes (limits p)"
      using l by (simp add: live_def well_formed_def within_limits_def)
    have lq: "live stateCloseBody q"
      using l budget_add(1) [OF x order_refl M] by (simp add: q_def aft_def live_defs)
    have tq: "fst (cfg q) = t" by (simp add: q_def aft_def t_def)
    have Bq: "B q = B p - n"
      using unat_sub_of_nat [of n "MaxBodyBytes (limits p) - bodyBytes p"] n
      by (simp add: B_def q_def aft_def diff_diff_eq)
    define m where "m = min (length (c # cs)) (B p - n)"
    have m: "min (length (b # rest @ c # cs)) (B p) = n + m"
      using n by (auto simp: m_def n_def min_def)
    have z: "aft m q = aft (n + m) p" by (simp add: q_def aft_def algebra_simps)
    have flat: "flat (h @ emit_span cbBody EvBody (b # rest @ take m (c # cs)) t) =
        flat (h1 @ emit_span cbBody EvBody (take m (c # cs)) t)"
      using flat_emit_span [of EvBody cbBody "b # rest" "take m (c # cs)" t] by (simp add: h1_def)
    have tk: "take (n + m) (b # rest @ c # cs) = b # rest @ take m (c # cs)"
      "drop (n + m) (b # rest @ c # cs) = drop m (c # cs)"
      "n + m \<noteq> length (b # rest @ c # cs) \<longleftrightarrow> m \<noteq> length (c # cs)"
      by (simp_all add: n_def)
    have "sim (step p h b (rest @ c # cs)) (step q h1 c cs)"
      unfolding st [OF l t_def [symmetric]] st [OF lq tq] Let_def m Bq m_def [symmetric] tk z
      using flat by (cases "m = length (c # cs)") (simp_all add: failRet_def)
    then show ?thesis using fst by (auto simp: resumes_def)
  qed
qed

text \<open>Every iteration.\<close>

lemma resumes_step:
  assumes "well_formed p" "code p = CodeNone" "quiet_table (fst (cfg p))"
  shows "resumes p h b rest c cs"
proof -
  have l: "live s p" if "state p = s" for s using assms that by (simp add: live_def)
  show ?thesis
    by (cases "state p")
      (simp_all add: resumes_byte l assms(3) resumes_ReqMethod resumes_ReqTarget
        resumes_HTTP [of stateReqHTTP] resumes_HTTP [of stateResHTTP]
        resumes_ResStatus resumes_ResReason resumes_HeaderName resumes_HeaderValueStart
        resumes_HeaderValue resumes_FixedBody resumes_CloseBody resumes_ChunkSize
        resumes_ChunkExt resumes_ChunkBody)
qed

end
