(* ===== verification/Http1_Pause.thy ===== *)
theory Http1_Pause
  imports Http1_Config
begin

text \<open>
  Where \<open>ParseOne\<close> stops (src/http/parser.go): only the end of a message sets \<open>paused\<close>, so that a parse that
  pauses stands between two messages or before another protocol (\<open>pause_runParse\<close>).
\<close>

lemma paused_fail [simp]: "paused (fail c p) = paused p"
  by (simp add: fail_def)

lemma paused_core [simp]:
  "paused (fst (invoke sel ev p h)) = paused p"
  "paused (fst (takeStartByte p)) = paused p"
  "paused (fst (takePrefixByte p)) = paused p"
  "paused (fst (takeHeaderByte p)) = paused p"
  "paused (fst (takeChunkLineByte p)) = paused p"
  "paused (fst (addBody n p)) = paused p"
  "paused (fst (askResponseContext p h)) = paused p"
  "paused (clearMessage p) = paused p"
  "paused (beginHeader p) = paused p"
  by (simp_all add: invoke_def takeStartByte_def takePrefixByte_def takeHeaderByte_def
      takeChunkLineByte_def addBody_def askResponseContext_def clearMessage_def beginHeader_def
      Let_def split: option.splits prod.splits)

lemma paused_boundaries [simp]:
  "paused (fst (beginMessage p h)) = paused p"
  "paused (fst (startLineComplete p h)) = paused p"
  "paused (fst (deliver sel ev0 src r p h)) = paused p"
  "paused (fst (deliverBody span p h)) = paused p"
  by (simp_all add: beginMessage_def startLineComplete_def
      deliver_def deliverBody_def case_prod_beta Let_def)

lemma paused_match [simp]:
  "paused (matchMethod b p) = paused p" "paused (finishMethod p) = paused p" "paused (matchField b p) = paused p"
  "paused (finishFieldName p) = paused p"
  by (simp_all add: matchMethod_def finishMethod_def matchField_def finishFieldName_def Let_def
      split: field_kind.splits)

lemma paused_values [simp]:
  "paused (finishTransferToken p) = paused p"
  "paused (fst (transferTokenByte b p)) = paused p"
  "paused (fst (consumeTransferValue b p)) = paused p"
  "paused (fst (finishTransferValue p)) = paused p"
  "paused (fst (consumeUpgradeValue b p)) = paused p"
  "paused (fst (finishUpgradeValue p)) = paused p"
  "paused (fst (appendIPLiteral b p)) = paused p"
  "paused (fst (consumeHostValue b p)) = paused p"
  "paused (fst (finishHostValue p)) = paused p"
  "paused (finishConnectionToken p) = paused p"
  "paused (fst (connectionTokenByte b p)) = paused p"
  "paused (fst (consumeConnectionValue b p)) = paused p"
  "paused (fst (finishConnectionValue p)) = paused p"
  "paused (fst (consumeContentLength b p)) = paused p"
proof -
  show t: "paused (finishTransferToken p) = paused p" for p
    by (simp add: finishTransferToken_def Let_def)
  show tb: "paused (fst (transferTokenByte b p)) = paused p" for p
    by (simp add: transferTokenByte_def rejectTransfer_def Let_def t)
  show "paused (fst (consumeTransferValue b p)) = paused p"
    by (cases "transferState p")
      (simp_all add: consumeTransferValue_def rejectTransfer_def tb)
  show "paused (fst (finishTransferValue p)) = paused p"
    by (cases "transferState p")
      (simp_all add: finishTransferValue_def rejectTransfer_def Let_def t)
  show "paused (fst (consumeUpgradeValue b p)) = paused p"
    by (cases "upgradeState p") (simp_all add: consumeUpgradeValue_def rejectValue_def)
  show "paused (fst (finishUpgradeValue p)) = paused p"
    by (simp add: finishUpgradeValue_def rejectValue_def)
  show a: "paused (fst (appendIPLiteral b p)) = paused p" by (simp add: appendIPLiteral_def)
  show "paused (fst (consumeHostValue b p)) = paused p"
    by (cases "hostState p") (simp_all add: consumeHostValue_def rejectValue_def case_prod_beta a)
  show "paused (fst (finishHostValue p)) = paused p"
    by (simp add: finishHostValue_def rejectValue_def)
  show c: "paused (finishConnectionToken p) = paused p" for p by (simp add: finishConnectionToken_def)
  show cb: "paused (fst (connectionTokenByte b p)) = paused p" for p
    by (simp add: connectionTokenByte_def rejectValue_def Let_def c)
  show "paused (fst (consumeConnectionValue b p)) = paused p"
    by (cases "connectionState p") (simp_all add: consumeConnectionValue_def rejectValue_def cb)
  show "paused (fst (finishConnectionValue p)) = paused p"
    by (cases "connectionState p") (simp_all add: finishConnectionValue_def rejectValue_def c)
  show "paused (fst (consumeContentLength b p)) = paused p"
    by (simp add: consumeContentLength_def Let_def)
qed

lemma paused_dispatch [simp]:
  "paused (fst (consumeFieldValue b p)) = paused p" "paused (fst (finishFieldValue p)) = paused p"
  by (cases "field p"; simp add: consumeFieldValue_def finishFieldValue_def)+

lemma paused_target [simp]:
  "paused (fst (consumeTargetForm b p)) = paused p"
  "paused (fst (targetPercentByte b p)) = paused p"
  "paused (fst (finishTarget p)) = paused p"
  "paused (fst (consumeChunkExtension b p)) = paused p"
  "paused (fst (finishChunkExtension p)) = paused p"
proof -
  have f: "paused (fst (firstTargetByte b p)) = paused p"
    by (simp add: firstTargetByte_def rejectTarget_def Let_def)
  have a: "paused (fst (authorityTargetByte b p)) = paused p"
    by (simp add: authorityTargetByte_def rejectTarget_def case_prod_beta)
  show "paused (fst (consumeTargetForm b p)) = paused p"
    by (cases "targetForm p") (simp_all add: consumeTargetForm_def rejectTarget_def f a)
  show "paused (fst (targetPercentByte b p)) = paused p"
    by (simp add: targetPercentByte_def rejectTarget_def Let_def)
  show "paused (fst (finishTarget p)) = paused p"
    by (simp add: finishTarget_def rejectTarget_def)
  show "paused (fst (consumeChunkExtension b p)) = paused p"
    by (cases "chunkExtState p") (simp_all add: consumeChunkExtension_def rejectChunkExt_def)
  show "paused (fst (finishChunkExtension p)) = paused p"
    by (simp add: finishChunkExtension_def rejectChunkExt_def)
qed

lemma paused_bodies [simp]:
  "paused (fst (methodByte b p)) = paused p"
  "paused (fst (targetByte b p)) = paused p"
  "paused (fst (literalByte b p)) = paused p"
  "paused (fst (statusByte b p)) = paused p"
  "paused (fst (reasonByte b p)) = paused p"
  "paused (fst (headerNameByte b p)) = paused p"
  "paused (fst (headerValueByte pv b p)) = paused p"
  "paused (fst (chunkSizeByte b p)) = paused p"
  "paused (fst (chunkExtByte b p)) = paused p"
  by (simp_all add: methodByte_def targetByte_def literalByte_def statusByte_def reasonByte_def
      headerNameByte_def headerValueByte_def chunkSizeByte_def chunkExtByte_def case_prod_beta
      Let_def)

lemma paused_scan:
  assumes "\<And>b p. paused (fst (body b p)) = paused p"
  shows "paused (fst (scan cond body p src)) = paused p"
proof (induction src arbitrary: p)
  case (Cons b src)
  then show ?case using assms [of b p] by (simp add: case_prod_beta)
qed simp

definition pause_ok :: "parser \<Rightarrow> bool" where
  "pause_ok p \<longleftrightarrow> (paused p \<longrightarrow> \<not> messageActive p \<and> (state p = stateStart \<or> state p = stateUpgrade))"

lemma pause_complete:
  assumes "\<not> paused p"
  shows "pause_ok (fst (completeMessage p h))"
  using assms paused_core(1) [of cbMessageComplete "EvMessageComplete (message p)" p h]
  by (simp add: completeMessage_def pause_ok_def case_prod_beta Let_def)

lemma pause_frameBody:
  assumes "\<not> paused p"
  shows "pause_ok (fst (frameBody p h))"
  using pause_complete [OF assms, of h] assms
  by (simp add: frameBody_def completeOk_def case_prod_beta Let_def) (auto simp: pause_ok_def)

lemma pause_headersComplete:
  assumes "\<not> paused p"
  shows "pause_ok (fst (headersComplete p h))"
  using assms pause_frameBody
  by (simp add: headersComplete_def case_prod_beta Let_def split: option.splits) (auto simp: pause_ok_def)

lemma pause_step:
  assumes "\<not> paused p"
  shows "pause_ok (outcome_parser (step p h b rest))"
proof (cases "state p = stateHeadersLF \<or> state p = stateFixedBody")
  case True
  then show ?thesis using assms
    by (elim disjE) (simp_all add: step_def stepHeadersLF_def stepFixedBody_def failRet_def case_prod_beta Let_def
      pause_complete pause_headersComplete, simp_all add: pause_ok_def)
next
  case False
  have "paused (outcome_parser (step p h b rest)) = paused p" using False
  by (cases "state p")
    (simp_all del: scan.simps add: step_def step_defs failRet_def case_prod_beta Let_def paused_scan
      split: list.split)
  then show ?thesis using assms by (simp add: pause_ok_def)
qed

lemma pause_parse_loop:
  "parse_loop fuel p h src = Some (q, h', r, c) \<Longrightarrow> pause_ok p \<Longrightarrow> pause_ok q"
proof (induction fuel p h src rule: parse_loop.induct)
  case (3 fuel p h b rest)
  show ?case
  proof (cases "paused p")
    case True
    then show ?thesis using "3.prems" by simp
  next
    case False
    from pause_step [OF this] have "pause_ok (outcome_parser (step p h b rest))" .
    then show ?thesis using "3.prems" "3.IH" [OF False] False by (cases "step p h b rest") auto
  qed
qed simp_all

lemma pause_runParse:
  assumes "runParse pause p h src = Some (q, h', n, c)" "\<not> parsing p"
  shows "pause_ok q"
proof -
  let ?p = "p\<lparr>parsing := True, pauseAfterMessage := pause, paused := False\<rparr>"
  have "pause_ok ?p" by (simp add: pause_ok_def)
  then have "pause_ok q'" if "parse_suffix ?p h src = Some (q', h1, r, c1)" for q' h1 r c1
    using that pause_parse_loop [of "parse_fuel src" ?p h src q' h1 r c1] by (auto simp: parse_suffix_def split: if_splits)
  then show ?thesis using assms by (auto simp: runParse_def pause_ok_def split: option.splits)
qed

end
