(* ===== verification/Http1_Names.thy ===== *)
theory Http1_Names
  imports Http1_Match
begin

text \<open>
  The candidate masks of src/http/parser.go compute an exact comparison with the tables of names: with the method names as
  they are, and with the field names up to case. A matcher is an instance of the locale \<open>mask_matcher\<close>, whose
  laws say what one more octet does to a mask.
\<close>

unbundle bit_operations_syntax

subsection \<open>A table of names\<close>

definition lookupName :: "bytes list \<Rightarrow> 'a list \<Rightarrow> bytes \<Rightarrow> 'a" where
  "lookupName names values name =
     (case find (\<lambda>i. name = names ! i) [1..<length names] of Some i \<Rightarrow> values ! i | None \<Rightarrow> values ! 0)"

text \<open>What a matcher promises: its masks are from a finite set, and one more octet removes exactly the candidates
  that do not have the octet at the position.\<close>

locale mask_matcher =
  fixes names :: "bytes list" and first :: "byte \<Rightarrow> u16" and nxt :: "nat \<Rightarrow> u16 \<Rightarrow> byte \<Rightarrow> u16" and masks :: "u16 set"
  assumes first_mask: "first b \<in> masks"
    and next_mask: "m \<in> masks \<Longrightarrow> nxt pos m b \<in> masks"
    and first_bit: "bit (first b) i \<longleftrightarrow> i + 1 < length names \<and> \<not> mismatch (names ! (i + 1)) 0 b"
    and next_bit: "m \<in> masks \<Longrightarrow> bit (nxt pos m b) i \<longleftrightarrow> bit m i \<and> \<not> mismatch (names ! (i + 1)) pos b"
begin

definition candidates :: "u16 \<Rightarrow> bytes \<Rightarrow> bool" where
  "candidates m ws \<longleftrightarrow> m \<in> masks \<and> (\<forall>i. bit m i \<longleftrightarrow> i + 1 < length names \<and> take (length ws) (names ! (i + 1)) = ws)"

lemma take_snoc: "take (length (ws @ [b])) name = ws @ [b] \<longleftrightarrow> take (length ws) name = ws \<and> \<not> mismatch name (length ws) b"
proof (cases "length ws < length name")
  case True
  then show ?thesis by (auto simp: mismatch_def take_Suc_conv_app_nth)
next
  case False
  then have "length (take (length (ws @ [b])) name) < length (ws @ [b])" by simp
  then show ?thesis using False by (auto simp: mismatch_def)
qed

lemma candidates_first: "candidates (first b) [b]"
  using first_mask first_bit take_snoc [of "[]" b] by (simp add: candidates_def)

lemma candidates_next:
  assumes "candidates m ws" "\<And>i. i + 1 < length names \<Longrightarrow> mismatch (names ! (i + 1)) pos b = mismatch (names ! (i + 1)) (length ws) b"
  shows "candidates (nxt pos m b) (ws @ [b])"
  using assms next_mask next_bit take_snoc [of ws b] by (auto simp: candidates_def)

lemma selected:
  assumes "candidates m ws" "\<And>i. i < length names \<Longrightarrow> pos = length (names ! i) \<longleftrightarrow> length ws = length (names ! i)"
  shows "selectName names values m pos = lookupName names values ws"
proof -
  have "bit m (i - 1) \<and> pos = length (names ! i) \<longleftrightarrow> ws = names ! i" if i: "i \<in> set [1..<length names]" for i
  proof -
    have "1 \<le> i" "i < length names" using i by simp_all
    then obtain k where k: "i = Suc k" "Suc k < length names" by (cases i) simp_all
    have "bit m k \<longleftrightarrow> take (length ws) (names ! Suc k) = ws" using assms(1) k by (simp add: candidates_def)
    moreover have "take (length ws) x = ws \<and> length ws = length x \<longleftrightarrow> ws = x" for x :: bytes by force
    moreover have "pos = length (names ! Suc k) \<longleftrightarrow> length ws = length (names ! Suc k)" using assms(2) k(2) .
    ultimately show ?thesis unfolding k(1) by (simp only: diff_Suc_1)
  qed
  then have "find (\<lambda>i. bit m (i - 1) \<and> pos = length (names ! i)) [1..<length names] = find (\<lambda>i. ws = names ! i) [1..<length names]"
    by (intro find_cong refl)
  then show ?thesis by (simp add: selectName_def lookupName_def)
qed

end

lemma power_bits:
  fixes i :: nat
  shows "bit (1 :: u16) i \<longleftrightarrow> i = 0" "bit (2 :: u16) i \<longleftrightarrow> i = 1" "bit (4 :: u16) i \<longleftrightarrow> i = 2"
    "bit (8 :: u16) i \<longleftrightarrow> i = 3" "bit (16 :: u16) i \<longleftrightarrow> i = 4" "bit (32 :: u16) i \<longleftrightarrow> i = 5"
    "bit (64 :: u16) i \<longleftrightarrow> i = 6" "bit (128 :: u16) i \<longleftrightarrow> i = 7" "bit (256 :: u16) i \<longleftrightarrow> i = 8"
proof -
  have "bit ((2 :: u16) ^ k) i \<longleftrightarrow> i = k" if "k < 16" for k
    using that by (auto simp: bit_simps)
  from this [of 0] this [of 1] this [of 2] this [of 3] this [of 4] this [of 5] this [of 6] this [of 7] this [of 8]
  show "bit (1 :: u16) i \<longleftrightarrow> i = 0" "bit (2 :: u16) i \<longleftrightarrow> i = 1" "bit (4 :: u16) i \<longleftrightarrow> i = 2"
    "bit (8 :: u16) i \<longleftrightarrow> i = 3" "bit (16 :: u16) i \<longleftrightarrow> i = 4" "bit (32 :: u16) i \<longleftrightarrow> i = 5"
    "bit (64 :: u16) i \<longleftrightarrow> i = 6" "bit (128 :: u16) i \<longleftrightarrow> i = 7" "bit (256 :: u16) i \<longleftrightarrow> i = 8"
    by simp_all
qed

lemma or_bits:
  fixes i :: nat
  shows "bit (12 :: u16) i \<longleftrightarrow> i = 2 \<or> i = 3" "bit (260 :: u16) i \<longleftrightarrow> i = 2 \<or> i = 8"
    "bit (264 :: u16) i \<longleftrightarrow> i = 3 \<or> i = 8" "bit (268 :: u16) i \<longleftrightarrow> i = 2 \<or> i = 3 \<or> i = 8"
    "bit (5 :: u16) i \<longleftrightarrow> i = 0 \<or> i = 2" "bit (34 :: u16) i \<longleftrightarrow> i = 1 \<or> i = 5"
proof -
  have "(12 :: u16) = 4 OR 8" "(260 :: u16) = 4 OR 256" "(264 :: u16) = 8 OR 256" "(268 :: u16) = 4 OR 8 OR 256"
    "(5 :: u16) = 1 OR 4" "(34 :: u16) = 2 OR 32" by simp_all
  then show "bit (12 :: u16) i \<longleftrightarrow> i = 2 \<or> i = 3" "bit (260 :: u16) i \<longleftrightarrow> i = 2 \<or> i = 8"
    "bit (264 :: u16) i \<longleftrightarrow> i = 3 \<or> i = 8" "bit (268 :: u16) i \<longleftrightarrow> i = 2 \<or> i = 3 \<or> i = 8"
    "bit (5 :: u16) i \<longleftrightarrow> i = 0 \<or> i = 2" "bit (34 :: u16) i \<longleftrightarrow> i = 1 \<or> i = 5"
    by (simp_all only: bit_or_iff power_bits disj_assoc)
qed
text \<open>The masks that occur: no candidate, one, or some of POST, PUT and PATCH.\<close>

definition method_masks :: "u16 set" where
  "method_masks = {0, 1, 2, 4, 8, 16, 32, 64, 128, 256, 12, 260, 264, 268}"

lemma next_method:
  "nextMethodMask pos 0 b = 0"
  "nextMethodMask pos 1 b = (if mismatch (methodNames ! 1) pos b then 0 else 1)"
  "nextMethodMask pos 2 b = (if mismatch (methodNames ! 2) pos b then 0 else 2)"
  "nextMethodMask pos 4 b = (if mismatch (methodNames ! 3) pos b then 0 else 4)"
  "nextMethodMask pos 8 b = (if mismatch (methodNames ! 4) pos b then 0 else 8)"
  "nextMethodMask pos 16 b = (if mismatch (methodNames ! 5) pos b then 0 else 16)"
  "nextMethodMask pos 32 b = (if mismatch (methodNames ! 6) pos b then 0 else 32)"
  "nextMethodMask pos 64 b = (if mismatch (methodNames ! 7) pos b then 0 else 64)"
  "nextMethodMask pos 128 b = (if mismatch (methodNames ! 8) pos b then 0 else 128)"
  "nextMethodMask pos 256 b = (if mismatch (methodNames ! 9) pos b then 0 else 256)"
  by (simp_all add: nextMethodMask_def TrailingZeros16_def upt_conv_Cons methodNames_def)

lemma next_methods:
  "nextMethodMask pos 12 b = (if mismatch (methodNames ! 3) pos b then if mismatch (methodNames ! 4) pos b then 0 else 8
     else if mismatch (methodNames ! 4) pos b then 4 else 12)"
  "nextMethodMask pos 260 b = (if mismatch (methodNames ! 3) pos b then if mismatch (methodNames ! 9) pos b then 0 else 256
     else if mismatch (methodNames ! 9) pos b then 4 else 260)"
  "nextMethodMask pos 264 b = (if mismatch (methodNames ! 4) pos b then if mismatch (methodNames ! 9) pos b then 0 else 256
     else if mismatch (methodNames ! 9) pos b then 8 else 264)"
  "nextMethodMask pos 268 b = (if mismatch (methodNames ! 3) pos b then
       if mismatch (methodNames ! 4) pos b then if mismatch (methodNames ! 9) pos b then 0 else 256
       else if mismatch (methodNames ! 9) pos b then 8 else 264
     else if mismatch (methodNames ! 4) pos b then if mismatch (methodNames ! 9) pos b then 4 else 260
       else if mismatch (methodNames ! 9) pos b then 12 else 268)"
  by (simp_all add: nextMethodMask_def methodNames_def postBit_def putBit_def patchBit_def Let_def)

lemma next_method_mask: "m \<in> method_masks \<Longrightarrow> nextMethodMask pos m b \<in> method_masks"
  unfolding method_masks_def insert_iff empty_iff
  by (elim disjE) (simp_all add: next_method next_methods)

lemma next_method_bit:
  assumes "m \<in> method_masks"
  shows "bit (nextMethodMask pos m b) i \<longleftrightarrow> bit m i \<and> \<not> mismatch (methodNames ! (i + 1)) pos b"
  using assms unfolding method_masks_def insert_iff empty_iff simp_thms
  by (elim disjE; simp only: next_method next_methods if_distrib [of "\<lambda>m. bit m i"] power_bits or_bits bit_0_eq bot_apply
      bot_bool_def simp_thms) (auto simp: numeral_eq_Suc intro!: gr0I)

lemma method_mask_small: "m \<in> method_masks \<Longrightarrow> bit m i \<Longrightarrow> i < 9"
  unfolding method_masks_def insert_iff empty_iff simp_thms
  by (elim disjE; simp only: power_bits or_bits bit_0_eq bot_apply bot_bool_def simp_thms) auto

lemma first_method_mask: "firstMethodMask b \<in> method_masks"
  by (simp add: firstMethodMask_def method_masks_def getBit_def headBit_def postBit_def
      putBit_def patchBit_def deleteBit_def connectBit_def optionsBit_def traceBit_def)

lemma first_method_bit: "bit (firstMethodMask b) i \<longleftrightarrow> i + 1 < length methodNames \<and> \<not> mismatch (methodNames ! (i + 1)) 0 b"
proof (cases "i < 9")
  case True
  then have "i \<in> {0, 1, 2, 3, 4, 5, 6, 7, 8}" by auto
  then show ?thesis unfolding insert_iff empty_iff
    by (elim disjE; simp add: firstMethodMask_def mismatch_def methodNames_def lit_def of_char_def getBit_def headBit_def postBit_def
        putBit_def patchBit_def deleteBit_def connectBit_def optionsBit_def traceBit_def power_bits or_bits)
next
  case False
  then show ?thesis using method_mask_small [OF first_method_mask, of b i] by (auto simp: methodNames_def)
qed

interpretation method_matcher: mask_matcher methodNames firstMethodMask nextMethodMask method_masks
  by unfold_locales (rule first_method_mask next_method_mask first_method_bit next_method_bit; assumption?)+

lemma method_lengths: "i < length methodNames \<Longrightarrow> length (methodNames ! i) < 255"
  unfolding methodNames_def by (auto simp: less_Suc_eq lit_def)

lemma mismatch_late: "length name \<le> k \<Longrightarrow> mismatch name k b"
  by (simp add: mismatch_def)

lemma method_candidates:
  assumes "methodPos p = 0"
  shows "(ws \<noteq> [] \<longrightarrow> method_matcher.candidates (methodMask (fold matchMethod ws p)) ws) \<and>
     unat (methodPos (fold matchMethod ws p)) = min 255 (length ws)"
proof (induction ws rule: rev_induct)
  case (snoc b ws)
  define q where "q = fold matchMethod ws p"
  have pos: "unat (methodPos q) = min 255 (length ws)" using snoc.IH by (simp add: q_def)
  have more1: "unat (methodPos q + 1) = unat (methodPos q) + 1" if "methodPos q \<noteq> 255"
    using that unat_plus_of_nat [of "methodPos q" 1] unsigned_less [of "methodPos q", where 'a = nat]
    by (simp add: word_unat_eq_iff)
  have "unat (methodPos (matchMethod b q)) = min 255 (length (ws @ [b]))"
    using more1 pos by (auto simp: matchMethod_def Let_def word_unat_eq_iff)
  moreover have "method_matcher.candidates (methodMask (matchMethod b q)) (ws @ [b])"
  proof (cases "ws = []")
    case True
    then have "methodPos q = 0" using assms by (simp add: q_def)
    then show ?thesis using method_matcher.candidates_first [of b] True by (simp add: matchMethod_def)
  next
    case False
    then have "methodPos q \<noteq> 0" using pos by (auto simp: min_def split: if_splits)
    moreover have "method_matcher.candidates (nextMethodMask (unat (methodPos q)) (methodMask q) b) (ws @ [b])"
    proof (rule method_matcher.candidates_next)
      show "method_matcher.candidates (methodMask q) ws" using snoc.IH False by (simp add: q_def)
      fix i
      assume "i + 1 < length methodNames"
      from method_lengths [OF this] show "mismatch (methodNames ! (i + 1)) (unat (methodPos q)) b =
          mismatch (methodNames ! (i + 1)) (length ws) b"
        by (cases "length ws \<le> 255") (simp_all add: pos mismatch_late)
    qed
    ultimately show ?thesis by (auto simp: matchMethod_def Let_def)
  qed
  ultimately show ?case by (simp add: q_def)
qed (use assms in simp)

text \<open>C15: The method matcher is exact. Whatever the octets, and however many, feeding them to \<open>matchMethod\<close> from the
  start of a name and then calling \<open>finishMethod\<close> records the method whose name they spell, octet for octet, and
  \<open>MethodOther\<close> when the table has no such name: no prefix, no longer name and no name with more than 255
  octets is taken for a method.\<close>

theorem method_recognised:
  assumes "methodPos p = 0"
  shows "meth (finishMethod (fold matchMethod ws p)) = lookupName methodNames methods ws"
proof (cases "ws = []")
  case True
  then show ?thesis using assms
    by (simp add: finishMethod_def selectName_def lookupName_def methodNames_def lit_def upt_conv_Cons)
next
  case False
  note c = method_candidates [OF assms, of ws]
  have "selectName methodNames methods (methodMask (fold matchMethod ws p)) (unat (methodPos (fold matchMethod ws p))) =
      lookupName methodNames methods ws"
  proof (rule method_matcher.selected)
    fix i
    assume "i < length methodNames"
    from method_lengths [OF this] show "unat (methodPos (fold matchMethod ws p)) = length (methodNames ! i) \<longleftrightarrow>
        length ws = length (methodNames ! i)" using c by auto
  qed (use c False in simp)
  then show ?thesis by (simp add: finishMethod_def)
qed

text \<open>For the fields: content-length and connection begin alike, and so do transfer-encoding and trailer.\<close>

definition field_masks :: "u16 set" where
  "field_masks = {0, 1, 2, 4, 8, 16, 32, 5, 34}"

lemma next_field:
  "nextFieldMask pos 0 b = 0"
  "nextFieldMask pos 1 b = (if mismatch (fieldNames ! 1) pos b then 0 else 1)"
  "nextFieldMask pos 2 b = (if mismatch (fieldNames ! 2) pos b then 0 else 2)"
  "nextFieldMask pos 4 b = (if mismatch (fieldNames ! 3) pos b then 0 else 4)"
  "nextFieldMask pos 8 b = (if mismatch (fieldNames ! 4) pos b then 0 else 8)"
  "nextFieldMask pos 16 b = (if mismatch (fieldNames ! 5) pos b then 0 else 16)"
  "nextFieldMask pos 32 b = (if mismatch (fieldNames ! 6) pos b then 0 else 32)"
  "nextFieldMask pos 5 b = (if mismatch (fieldNames ! 1) pos b then if mismatch (fieldNames ! 3) pos b then 0 else 4
     else if mismatch (fieldNames ! 3) pos b then 1 else 5)"
  "nextFieldMask pos 34 b = (if mismatch (fieldNames ! 2) pos b then if mismatch (fieldNames ! 6) pos b then 0 else 32
     else if mismatch (fieldNames ! 6) pos b then 2 else 34)"
  by (simp_all add: nextFieldMask_def fieldNames_def contentLengthBit_def transferEncodingBit_def connectionBit_def
      upgradeBit_def hostBit_def trailerBit_def Let_def)

lemma next_field_mask: "m \<in> field_masks \<Longrightarrow> nextFieldMask pos m b \<in> field_masks"
  unfolding field_masks_def insert_iff empty_iff by (elim disjE) (simp_all add: next_field)

lemma next_field_bit:
  assumes "m \<in> field_masks"
  shows "bit (nextFieldMask pos m b) i \<longleftrightarrow> bit m i \<and> \<not> mismatch (fieldNames ! (i + 1)) pos b"
  using assms unfolding field_masks_def insert_iff empty_iff simp_thms
  by (elim disjE; simp only: next_field if_distrib [of "\<lambda>m. bit m i"] power_bits or_bits bit_0_eq bot_apply
      bot_bool_def simp_thms) (auto simp: numeral_eq_Suc intro!: gr0I)

lemma field_mask_small: "m \<in> field_masks \<Longrightarrow> bit m i \<Longrightarrow> i < 6"
  unfolding field_masks_def insert_iff empty_iff simp_thms
  by (elim disjE; simp only: power_bits or_bits bit_0_eq bot_apply bot_bool_def simp_thms) auto

lemma first_field_mask: "firstFieldMask b \<in> field_masks"
  by (simp add: firstFieldMask_def field_masks_def contentLengthBit_def transferEncodingBit_def connectionBit_def
      upgradeBit_def hostBit_def trailerBit_def)

lemma first_field_bit: "bit (firstFieldMask b) i \<longleftrightarrow> i + 1 < length fieldNames \<and> \<not> mismatch (fieldNames ! (i + 1)) 0 b"
proof (cases "i < 6")
  case True
  then have "i \<in> {0, 1, 2, 3, 4, 5}" by auto
  then show ?thesis unfolding insert_iff empty_iff
    by (elim disjE; simp add: firstFieldMask_def mismatch_def fieldNames_def lit_def of_char_def contentLengthBit_def
        transferEncodingBit_def connectionBit_def upgradeBit_def hostBit_def trailerBit_def power_bits or_bits)
next
  case False
  then show ?thesis using field_mask_small [OF first_field_mask, of b i] by (auto simp: fieldNames_def)
qed

interpretation field_matcher: mask_matcher fieldNames firstFieldMask nextFieldMask field_masks
  by unfold_locales (rule first_field_mask next_field_mask first_field_bit next_field_bit; assumption?)+

lemma field_candidates:
  assumes "fieldPos p = 0"
  shows "length ws < 2 ^ 16 \<Longrightarrow> (ws \<noteq> [] \<longrightarrow> field_matcher.candidates (fieldMask (fold matchField ws p)) (map asciiLower ws)) \<and>
     unat (fieldPos (fold matchField ws p)) = length ws"
proof (induction ws rule: rev_induct)
  case (snoc b ws)
  define q where "q = fold matchField ws p"
  have pos: "unat (fieldPos q) = length ws" using snoc by (simp add: q_def)
  have "unat (fieldPos q + 1) = length ws + 1"
    using unat_plus_of_nat [of "fieldPos q" 1] snoc.prems pos by simp
  then have "unat (fieldPos (matchField b q)) = length (ws @ [b])" by (simp add: matchField_def Let_def)
  moreover have "field_matcher.candidates (fieldMask (matchField b q)) (map asciiLower ws @ [asciiLower b])"
  proof (cases "ws = []")
    case True
    then have "fieldPos q = 0" using assms by (simp add: q_def)
    then show ?thesis using field_matcher.candidates_first [of "asciiLower b"] True by (simp add: matchField_def)
  next
    case False
    then have "fieldPos q \<noteq> 0" using pos by auto
    moreover have "field_matcher.candidates (nextFieldMask (unat (fieldPos q)) (fieldMask q) (asciiLower b))
        (map asciiLower ws @ [asciiLower b])"
      by (rule field_matcher.candidates_next) (use snoc False pos in \<open>simp_all add: q_def\<close>)
    ultimately show ?thesis by (simp add: matchField_def Let_def)
  qed
  ultimately show ?case by (simp add: q_def)
qed (use assms in simp)

text \<open>C16: The field matcher is exact up to case. Feeding the octets of a field name to \<open>matchField\<close> from the start of a
  name selects the framing-relevant field that they spell when upper-case letters are read as lower-case ones, and no field
  for every other name. The names have less than 2^16 octets, which the type of \<open>MaxHeaderNameBytes\<close>
  ensures; the position then does not wrap around.\<close>

theorem field_recognised:
  assumes "fieldPos p = 0" "length ws < 2 ^ 16"
  shows "selectField (fold matchField ws p) = lookupName fieldNames fieldKinds (map asciiLower ws)"
proof (cases "ws = []")
  case True
  then show ?thesis using assms
    by (simp add: selectField_def selectName_def lookupName_def fieldNames_def lit_def upt_conv_Cons)
next
  case False
  then show ?thesis using field_candidates [OF assms] unfolding selectField_def by (intro field_matcher.selected) simp_all
qed

definition demo_start :: parser where
  "demo_start = NewParser Request None zero_limits"

lemma demo_start_facts: "methodPos demo_start = 0" "fieldPos demo_start = 0"
  by (simp_all add: demo_start_def NewParser_def Init_def zero_parser_def Let_def)

lemma demo_names:
  "lookupName methodNames methods (lit ''PATCH'') = MethodPATCH"
  "lookupName methodNames methods (lit ''PUTS'') = MethodOther"
  "lookupName fieldNames fieldKinds (map asciiLower (lit ''Content-LENGTH'')) = fieldContentLength"
  "lookupName fieldNames fieldKinds (map asciiLower (lit ''Content-Lengt'')) = fieldOther"
  by code_simp+

theorem method_recognised_witness:
  "meth (finishMethod (fold matchMethod (lit ''PATCH'') demo_start)) = MethodPATCH \<and>
   meth (finishMethod (fold matchMethod (lit ''PUTS'') demo_start)) = MethodOther"
  using method_recognised [OF demo_start_facts(1), of "lit ''PATCH''"] method_recognised [OF demo_start_facts(1), of "lit ''PUTS''"]
  by (simp only: demo_names simp_thms)

theorem field_recognised_witness:
  "selectField (fold matchField (lit ''Content-LENGTH'') demo_start) = fieldContentLength \<and>
   selectField (fold matchField (lit ''Content-Lengt'') demo_start) = fieldOther"
proof -
  have "length (lit ''Content-LENGTH'') < 2 ^ 16" "length (lit ''Content-Lengt'') < 2 ^ 16" by (simp_all add: lit_def)
  then show ?thesis using field_recognised [OF demo_start_facts(2), of "lit ''Content-LENGTH''"]
      field_recognised [OF demo_start_facts(2), of "lit ''Content-Lengt''"] by (simp only: demo_names simp_thms)
qed

end
