(* ===== verification/Http1_Safety.thy ===== *)
theory Http1_Safety
  imports Http1_Pause Http1_Names
begin

text \<open>
  The main loop terminates (\<open>parse_loop_total\<close>), every parser a client can hold satisfies
  the invariant (\<open>reachable_invariant\<close>), and failures are final.
\<close>

subsection \<open>The loop terminates\<close>

text \<open>What a run of the loop promises of its result.\<close>

fun ok_result :: "bytes \<Rightarrow> parser \<times> history \<times> bytes \<times> result_code \<Rightarrow> bool" where
  "ok_result src (q, h, r, c) \<longleftrightarrow>
     well_formed q \<and> suffix r src \<and>
     (c = code q \<and> (c = CodeNone \<longrightarrow> r = [] \<or> paused q) \<or>
      c = CodeUpgrade \<and> code q = CodeNone \<and> state q = stateUpgrade)"

lemma parse_loop_total:
  assumes "well_formed p" "code p = CodeNone" "2 * length src + rank (state p) \<le> fuel"
  shows "\<exists>r. parse_loop fuel p h src = Some r \<and> ok_result src r"
  using assms
proof (induction fuel arbitrary: p h src)
  case 0
  then show ?case by simp
next
  case (Suc fuel)
  show ?case
  proof (cases src)
    case Nil
    then show ?thesis using Suc.prems by simp
  next
    case (Cons b rest)
    show ?thesis
    proof (cases "paused p")
      case True
      then show ?thesis using Cons Suc.prems by simp
    next
      case False
      note s = step_wf [OF Suc.prems(1,2), of b rest h]
      show ?thesis
      proof (cases "step p h b rest")
        case (Go q h' r)
        then have g: "well_formed q" "code q = CodeNone" "suffix r src"
          "2 * length r + rank (state q) < 2 * length src + rank (state p)"
          using s Cons by simp_all
        then have "2 * length r + rank (state q) \<le> fuel" using Suc.prems(3) by simp
        from Suc.IH [OF g(1,2) this, of h'] obtain q2 h2 r2 c2 where
          "parse_loop fuel q h' r = Some (q2, h2, r2, c2)" "ok_result r (q2, h2, r2, c2)"
          by (metis prod_cases4)
        then show ?thesis using Cons False Go g(3)
          by (auto intro: suffix_order.trans)
      next
        case (Ret q h' r c)
        then show ?thesis using s Cons False by auto
      qed
    qed
  qed
qed

lemma parse_loop_mono:
  "parse_loop fuel p h src = Some r \<Longrightarrow> fuel \<le> fuel' \<Longrightarrow> parse_loop fuel' p h src = Some r"
proof (induction fuel arbitrary: p h src fuel')
  case 0
  then show ?case by (cases src; cases fuel') simp_all
next
  case (Suc fuel)
  obtain f where f: "fuel' = Suc f" "fuel \<le> f" using Suc.prems(2) by (cases fuel') simp_all
  show ?case
  proof (cases src)
    case Nil
    then show ?thesis using Suc.prems(1) by simp
  next
    case (Cons b rest)
    show ?thesis
    proof (cases "step p h b rest")
      case (Go q h' r')
      show ?thesis
      proof (cases "paused p")
        case False
        then have "parse_loop fuel q h' r' = Some r" using Suc.prems(1) Cons Go by simp
        from Suc.IH [OF this f(2)] show ?thesis using Cons Go False f(1) by simp
      qed (use Suc.prems(1) Cons f(1) in simp)
    next
      case (Ret q h' r' c)
      then show ?thesis using Suc.prems(1) Cons f(1) by (cases "paused p") simp_all
    qed
  qed
qed

text \<open>Without a pause after the message, the loop never pauses.\<close>

lemma cfg_parse_loop:
  "parse_loop fuel p h src = Some (q, h', r, c) \<Longrightarrow> cfg q = cfg p"
proof (induction fuel arbitrary: p h src)
  case 0
  then show ?case by (cases src) simp_all
next
  case (Suc fuel)
  show ?case
  proof (cases src)
    case Nil
    then show ?thesis using Suc.prems by simp
  next
    case (Cons b rest)
    have s: "cfg (outcome_parser (step p h b rest)) = cfg p" by (rule cfg_step)
    show ?thesis
    proof (cases "paused p")
      case True
      then show ?thesis using Suc.prems Cons by simp
    next
      case False
      then show ?thesis using Suc.prems Cons s
        by (cases "step p h b rest") (simp_all add: Suc.IH)
    qed
  qed
qed

lemma wf_flags:
  "well_formed p \<Longrightarrow> well_formed (p\<lparr>parsing := a, pauseAfterMessage := b, paused := False\<rparr>)"
  "well_formed p \<Longrightarrow> well_formed (p\<lparr>pauseAfterMessage := b, parsing := False\<rparr>)"
  "well_formed p \<Longrightarrow> well_formed (p\<lparr>parsing := False\<rparr>)"
  by (simp_all add: well_formed_def within_limits_def ip_ok_def control_ok_def)

lemma parse_suffix_total:
  assumes "well_formed p"
  shows "\<exists>r. parse_suffix p h src = Some r \<and> ok_result src r"
proof (cases "code p = CodeNone \<and> state p \<noteq> stateUpgrade")
  case True
  have "2 * length src + rank (state p) \<le> parse_fuel src"
    using rank_le [of "state p"] by (simp add: parse_fuel_def)
  then show ?thesis using parse_loop_total [OF assms] True by (simp add: parse_suffix_def)
next
  case False
  then show ?thesis using assms by (auto simp: parse_suffix_def)
qed

lemma cfg_parse_suffix:
  "parse_suffix p h src = Some (q, h', r, c) \<Longrightarrow> cfg q = cfg p"
  using cfg_parse_loop [of "parse_fuel src" p h src q h' r c]
  by (simp add: parse_suffix_def split: if_splits)

lemma runParse_total:
  assumes "well_formed p" "\<not> parsing p"
  shows "\<exists>q h' n c. runParse pause p h src = Some (q, h', n, c) \<and> well_formed q \<and> \<not> parsing q \<and>
     n \<le> length src \<and> (paused q \<longrightarrow> pause) \<and>
     (c = code q \<and> (c = CodeNone \<longrightarrow> n = length src \<or> paused q) \<or>
      c = CodeUpgrade \<and> code q = CodeNone \<and> state q = stateUpgrade)"
proof -
  let ?p = "p\<lparr>parsing := True, pauseAfterMessage := pause, paused := False\<rparr>"
  have "well_formed ?p" using assms(1) by (rule wf_flags)
  from parse_suffix_total [OF this, of h src] obtain q h' r c where
    r: "parse_suffix ?p h src = Some (q, h', r, c)" "ok_result src (q, h', r, c)"
    by (metis prod_cases4)
  have cfg: "parsing q" "pauseAfterMessage q = pause"
    using cfg_parse_suffix [OF r(1)] by (simp_all add: cfg_def)
  have "paused q \<longrightarrow> pause" using r(2) cfg by (simp add: well_formed_def control_ok_def)
  then show ?thesis
    using r assms(2) wf_flags(2) [of q False] by (simp add: runParse_def) auto
qed

subsection \<open>Reachable parsers\<close>

text \<open>The parsers a client can hold: made by \<open>NewParser\<close> and then used through the public
  operations, in any order and with any input.\<close>

inductive reachable :: "parser \<Rightarrow> bool" where
  new: "reachable (NewParser k cb l)"
| init: "reachable p \<Longrightarrow> reachable (Init k cb l p)"
| reset: "reachable p \<Longrightarrow> reachable (Reset p)"
| context_set: "reachable p \<Longrightarrow> reachable (SetResponseContext head connect p)"
| parse: "reachable p \<Longrightarrow> Parse p h src = Some (q, h', n, c) \<Longrightarrow> reachable q"
| parse_one: "reachable p \<Longrightarrow> ParseOne p h src = Some (q, h', n, done, c) \<Longrightarrow> reachable q"
| finish: "reachable p \<Longrightarrow> Finish p h = (q, h', c) \<Longrightarrow> reachable q"

lemma wf_zero:
  "k = Request \<or> k = Response \<Longrightarrow> well_formed (zero_parser k cb l)"
  "settled (zero_parser k cb l)"
  by (simp_all add: zero_parser_def settled_def live_defs maxIPLiteralBytes_def)

lemma wf_Init:
  assumes "\<not> parsing p"
  shows "well_formed (Init k cb l p) \<and> \<not> parsing (Init k cb l p)"
proof -
  have "\<not> parsing (zero_parser k cb (normalized l))" by (simp add: zero_parser_def)
  then show ?thesis
    using assms wf_zero(1) [of k cb] settled_fail [OF wf_zero(2), of CodeInvalidKind k cb]
    by (auto simp: Init_def Let_def fail_def)
qed

lemma wf_SetResponseContext:
  assumes "well_formed p" "\<not> parsing p"
  shows "well_formed (SetResponseContext a b p) \<and> \<not> parsing (SetResponseContext a b p)"
  using assms
  by (simp add: SetResponseContext_def well_formed_def within_limits_def ip_ok_def control_ok_def)

lemma wf_Finish:
  assumes "well_formed p" "\<not> parsing p" "Finish p h = (q, h', c)"
  shows "well_formed q \<and> \<not> parsing q"
proof (cases "code p = CodeNone")
  case False
  then show ?thesis using assms by (simp add: Finish_def)
next
  case True
  let ?p = "p\<lparr>parsing := True\<rparr>"
  obtain q1 h1 c1 where f: "finish_open ?p h = (q1, h1, c1)" by (cases "finish_open ?p h")
  have q: "q = q1\<lparr>parsing := False\<rparr>" using assms f True by (simp add: Finish_def)
  have s: "settled p" using assms(1) True by (simp add: settled_def well_formed_def control_ok_def)
  have bad: "well_formed ((fail c' ?p)\<lparr>parsing := False\<rparr>)" if "c' \<noteq> CodeNone" for c'
    using settled_fail [OF s that] True
    by (simp add: fail_def well_formed_def within_limits_def ip_ok_def control_ok_def)
  have "well_formed ((fst (completeMessage ?p h))\<lparr>parsing := False\<rparr>)"
  proof -
    let ?i = "invoke cbMessageComplete (EvMessageComplete (message ?p)) ?p h"
    have i: "fst ?i = ?p \<or> fst ?i = fail CodeReentrantCall ?p"
      by (simp add: invoke_def split: option.split)
    have k: "kind p = Request \<or> kind p = Response"
      using assms(1) True by (simp add: well_formed_def control_ok_def)
    show ?thesis
    proof (cases "fst ?i = ?p")
      case eq: True
      then show ?thesis using s k True
        by (simp add: completeMessage_def case_prod_beta eq settled_def well_formed_def
            within_limits_def ip_ok_def control_ok_def headStates_def sizedStates_def
            idleStates_def)
    next
      case False
      then have "fst ?i = fail CodeReentrantCall ?p" using i by simp
      then show ?thesis using bad [of CodeReentrantCall] True
        by (simp add: completeMessage_def case_prod_beta)
    qed
  qed
  moreover have "q1 = ?p \<or> q1 = fst (completeMessage ?p h) \<or> q1 = fail CodeUnexpectedEOF ?p"
    using f by (auto simp: finish_open_def case_prod_beta split: if_splits)
  moreover have "well_formed (?p\<lparr>parsing := False\<rparr>)" using assms(1) wf_flags(3) by simp
  ultimately show ?thesis using q bad [of CodeUnexpectedEOF] by auto
qed

lemma wf_runParse:
  assumes "well_formed p" "\<not> parsing p" "runParse pause p h src = Some (q, h', n, c)"
  shows "well_formed q \<and> \<not> parsing q"
  using runParse_total [OF assms(1,2), of pause h src] assms(3) by simp

lemma reachable_invariant: "reachable p \<Longrightarrow> well_formed p \<and> \<not> parsing p"
proof (induction rule: reachable.induct)
  case (new k cb l)
  have "\<not> parsing (zero_parser (KindOther 0) None zero_limits)" by (simp add: zero_parser_def)
  then show ?case unfolding NewParser_def by (rule wf_Init)
next
  case (init p k cb l)
  then show ?case by (simp add: wf_Init)
next
  case (reset p)
  then show ?case by (simp add: Reset_def wf_Init)
next
  case (context_set p head connect)
  then show ?case by (simp add: wf_SetResponseContext)
next
  case (parse p h src q h' n c)
  then show ?case using wf_runParse [of p False h src q h' n c] by (simp add: Parse_def)
next
  case (parse_one p h src q h' n d c)
  obtain q1 h1 n1 c1 where r: "runParse True p h src = Some (q1, h1, n1, c1)"
    using parse_one.hyps(2) by (simp add: ParseOne_def split: option.splits)
      (metis prod_cases4 that)
  then have "q = q1" using parse_one.hyps(2) by (simp add: ParseOne_def)
  then show ?case using wf_runParse [OF _ _ r] parse_one.IH by simp
next
  case (finish p h q h' c)
  then show ?case using wf_Finish [of p h q h' c] by simp
qed


text \<open>A concrete parser and a concrete run, used by the witnesses of this theory: a request whose
  body is announced with five octets, of which two have arrived.\<close>

definition demo_parser :: parser where
  "demo_parser = NewParser Request None zero_limits"

definition demo_post :: bytes where
  "demo_post = lit ''PUT / HTTP/1.1'' @ [bCR, bLF] @ lit ''Host: a'' @ [bCR, bLF] @
     lit ''Content-Length:5'' @ [bCR, bLF, bCR, bLF] @ lit ''ab''"

definition demo_body :: parser where
  "demo_body = fst (the (Parse demo_parser [] demo_post))"

lemma demo_run:
  "map_option (\<lambda>(q, h, n, c). (state q, remaining q, n, c)) (Parse demo_parser [] demo_post) =
     Some (stateFixedBody, 3, 47, CodeNone)"
  by code_simp

lemma demo_body_facts:
  "state demo_body = stateFixedBody" "remaining demo_body = 3"
  "\<exists>h. Parse demo_parser [] demo_post = Some (demo_body, h, 47, CodeNone)"
  using demo_run by (auto simp: demo_body_def)

lemma demo_reachable: "reachable demo_parser" "reachable demo_body"
proof -
  show p: "reachable demo_parser" unfolding demo_parser_def by (rule reachable.new)
  show "reachable demo_body" using demo_body_facts(3) reachable.parse [OF p] by blast
qed


text \<open>C9: \<open>Parse\<close> and \<open>ParseOne\<close> always return, on every input and with every callback: the model's loop
  never runs out of its fuel of two iterations per octet and one. They never consume more than they were given. With
  \<open>Parse\<close>, a result \<open>CodeNone\<close> means that everything was consumed; with \<open>ParseOne\<close>, that everything was
  consumed or that the parse stopped after a complete message, which its flag says. Any other result is either
  the recorded failure of a dead parser or the switch to another protocol.\<close>

theorem Parse_total:
  assumes "reachable p"
  shows "(\<exists>q h' n c. Parse p h src = Some (q, h', n, c) \<and> n \<le> length src \<and>
       (c = CodeNone \<longrightarrow> n = length src \<and> code q = CodeNone) \<and>
       (c \<noteq> CodeNone \<longrightarrow> c = code q \<and> state q = stateDead \<or>
          c = CodeUpgrade \<and> code q = CodeNone \<and> state q = stateUpgrade)) \<and>
     (\<exists>q h' n complete c. ParseOne p h src = Some (q, h', n, complete, c) \<and> n \<le> length src \<and>
       (c = CodeNone \<longrightarrow> (n = length src \<or> complete) \<and> code q = CodeNone) \<and>
       (complete \<longrightarrow> \<not> messageActive q \<and> (state q = stateStart \<or> state q = stateUpgrade)) \<and>
       (c \<noteq> CodeNone \<longrightarrow> c = code q \<and> state q = stateDead \<or>
          c = CodeUpgrade \<and> code q = CodeNone \<and> state q = stateUpgrade))"
proof -
  have wf: "well_formed p" "\<not> parsing p" using reachable_invariant [OF assms] by simp_all
  have run: "\<exists>q h' n c. runParse pause p h src = Some (q, h', n, c) \<and> n \<le> length src \<and> pause_ok q \<and> (paused q \<longrightarrow> pause) \<and>
      (c = CodeNone \<longrightarrow> (n = length src \<or> paused q) \<and> code q = CodeNone) \<and>
      (c \<noteq> CodeNone \<longrightarrow> c = code q \<and> state q = stateDead \<or>
         c = CodeUpgrade \<and> code q = CodeNone \<and> state q = stateUpgrade)" for pause
  proof -
    from runParse_total [OF wf, of pause h src] obtain q h' n c where
      r: "runParse pause p h src = Some (q, h', n, c)" "well_formed q" "n \<le> length src" "paused q \<longrightarrow> pause"
        "c = code q \<and> (c = CodeNone \<longrightarrow> n = length src \<or> paused q) \<or>
         c = CodeUpgrade \<and> code q = CodeNone \<and> state q = stateUpgrade" by blast
    have "code q \<noteq> CodeNone \<longleftrightarrow> state q = stateDead" using r(2) by (simp add: well_formed_def control_ok_def)
    then show ?thesis using r(1,3-5) pause_runParse [OF r(1) wf(2)] by (intro exI conjI) auto
  qed
  show ?thesis
  proof (rule conjI)
    show "\<exists>q h' n c. Parse p h src = Some (q, h', n, c) \<and> n \<le> length src \<and>
       (c = CodeNone \<longrightarrow> n = length src \<and> code q = CodeNone) \<and>
       (c \<noteq> CodeNone \<longrightarrow> c = code q \<and> state q = stateDead \<or>
          c = CodeUpgrade \<and> code q = CodeNone \<and> state q = stateUpgrade)"
      using run [of False] unfolding Parse_def by blast
    from run [of True] obtain q h' n c where r: "runParse True p h src = Some (q, h', n, c)" "n \<le> length src" "pause_ok q"
      "(c = CodeNone \<longrightarrow> (n = length src \<or> paused q) \<and> code q = CodeNone) \<and>
       (c \<noteq> CodeNone \<longrightarrow> c = code q \<and> state q = stateDead \<or>
          c = CodeUpgrade \<and> code q = CodeNone \<and> state q = stateUpgrade)" by blast
    show "\<exists>q h' n complete c. ParseOne p h src = Some (q, h', n, complete, c) \<and> n \<le> length src \<and>
       (c = CodeNone \<longrightarrow> (n = length src \<or> complete) \<and> code q = CodeNone) \<and>
       (complete \<longrightarrow> \<not> messageActive q \<and> (state q = stateStart \<or> state q = stateUpgrade)) \<and>
       (c \<noteq> CodeNone \<longrightarrow> c = code q \<and> state q = stateDead \<or>
          c = CodeUpgrade \<and> code q = CodeNone \<and> state q = stateUpgrade)"
      by (rule exI [of _ q], rule exI [of _ h'], rule exI [of _ n], rule exI [of _ "paused q"], rule exI [of _ c])
        (use r in \<open>simp add: ParseOne_def pause_ok_def\<close>)
  qed
qed

theorem Parse_total_witness:
  "reachable demo_body \<and> (\<exists>q h' n c. Parse demo_body [] [0x63, 0x64] = Some (q, h', n, c) \<and> n \<le> 2) \<and>
   (\<exists>q h' n complete c. ParseOne demo_body [] [0x63, 0x64] = Some (q, h', n, complete, c) \<and> n \<le> 2)"
proof -
  note t = Parse_total [OF demo_reachable(2), of "[]" "[0x63, 0x64]"]
  have "length [0x63, 0x64 :: byte] = 2" by simp
  then show ?thesis using conjunct1 [OF t] conjunct2 [OF t] demo_reachable(2) by metis
qed

text \<open>C28: a failure is final. Once a parser has recorded a failure, \<open>Parse\<close>,
  \<open>ParseOne\<close> and \<open>Finish\<close> consume nothing, call no callback and report the
  same code again; only \<open>Init\<close> and \<open>Reset\<close> give a usable parser back.\<close>

theorem failure_is_final:
  assumes "reachable p" "code p \<noteq> CodeNone"
  shows "map_option (\<lambda>(q, r). (code q, r)) (Parse p h src) = Some (code p, h, 0, code p) \<and>
     map_option (\<lambda>(q, r). (code q, r)) (ParseOne p h src) = Some (code p, h, 0, False, code p) \<and>
     Finish p h = (p, h, code p) \<and>
     (kind p = Request \<or> kind p = Response \<longrightarrow> code (Reset p) = CodeNone)"
proof -
  have np: "\<not> parsing p" using reachable_invariant [OF assms(1)] by simp
  have "map_option (\<lambda>(q, r). (code q, r)) (Parse p h src) = Some (code p, h, 0, code p)"
    "map_option (\<lambda>(q, r). (code q, r)) (ParseOne p h src) = Some (code p, h, 0, False, code p)"
    using np assms(2) by (simp_all add: Parse_def ParseOne_def runParse_def parse_suffix_def)
  moreover have "Finish p h = (p, h, code p)" using np assms(2) by (simp add: Finish_def)
  moreover have "code (Reset p) = CodeNone" if "kind p = Request \<or> kind p = Response"
    using np that by (auto simp: Reset_def Init_def zero_parser_def)
  ultimately show ?thesis by blast
qed

definition demo_dead :: parser where
  "demo_dead = NewParser (KindOther 9) None zero_limits"

theorem failure_is_final_witness:
  "code demo_dead = CodeInvalidKind \<and> Finish demo_dead [] = (demo_dead, [], CodeInvalidKind)"
proof -
  have c: "code demo_dead = CodeInvalidKind"
    by (simp add: demo_dead_def NewParser_def Init_def zero_parser_def fail_def Let_def)
  have "reachable demo_dead" unfolding demo_dead_def by (rule reachable.new)
  from failure_is_final [OF this, of "[]"] c show ?thesis by simp
qed

end
