(* ===== verification/Http1_Fragments.thy ===== *)
theory Http1_Fragments
  imports Http1_Resume Http1_Safety
begin

text \<open>
  Fragmentation independence: a run on the concatenation of two inputs is the run on the first
  followed by the run on the second (\<open>Parse_append\<close>), hence the way the input is cut into
  fragments does not matter (\<open>feed_Parse\<close>).
\<close>

subsection \<open>Runs on a longer input\<close>

type_synonym run = "parser \<times> history \<times> bytes \<times> result_code"

fun add_history :: "history \<Rightarrow> run \<Rightarrow> run" where
  "add_history h (q, h', r, c) = (q, h @ h', r, c)"

lemma add_history_append: "add_history (h @ h') r = add_history h (add_history h' r)"
  by (cases r) simp

lemma loop_history:
  "quiet_table (fst (cfg p)) \<Longrightarrow>
     parse_loop fuel p h src = map_option (add_history h) (parse_loop fuel p [] src)"
proof (induction fuel arbitrary: p h src)
  case 0
  then show ?case by (cases src) simp_all
next
  case (Suc fuel)
  show ?case
  proof (cases src)
    case (Cons b rest)
    have s: "step p h b rest = shift h (step p [] b rest)" using Suc.prems by (rule step_quiet)
    show ?thesis
    proof (cases "step p [] b rest")
      case (Go q h' r)
      have "cfg q = cfg p" using cfg_step [of p "[]" b rest] Go by simp
      then have q: "quiet_table (fst (cfg q))" using Suc.prems by simp
      show ?thesis
        using Cons Go s Suc.IH [OF q, of "h @ h'" r] Suc.IH [OF q, of h' r]
        by (simp add: option.map_comp comp_def add_history_append)
    next
      case (Ret q h' r c)
      then show ?thesis using Cons s by simp
    qed
  qed simp
qed

fun same_run :: "run \<Rightarrow> run \<Rightarrow> bool" where
  "same_run (q, h, r, c) (q', h', r', c') \<longleftrightarrow> q = q' \<and> r = r' \<and> c = c' \<and>
     (flat h = flat h' \<or> code q \<noteq> CodeNone \<and> prefix (flat h) (flat h'))"

lemma same_run_refl: "same_run r r"
  by (cases r) simp

lemma same_run_add: "flat h = flat h' \<Longrightarrow> same_run (add_history h r) (add_history h' r)"
  by (cases r) simp

text \<open>A parser inside \<open>Parse\<close>: it does not pause.\<close>

definition inside :: "parser \<Rightarrow> bool" where
  "inside p \<longleftrightarrow> well_formed p \<and> code p = CodeNone \<and> state p \<noteq> stateUpgrade \<and> parsing p \<and>
     \<not> pauseAfterMessage p \<and> quiet_table (fst (cfg p))"

lemma inside_not_paused: "inside p \<Longrightarrow> \<not> paused p"
  unfolding inside_def well_formed_def control_ok_def by blast

lemma inside_Go:
  assumes "inside p" "step p h b rest = Go q h' r"
  shows "inside q"
  using assms step_wf [of p b rest h] cfg_step [of p h b rest] by (simp add: inside_def cfg_def)

lemma inside_Ret:
  assumes "inside p" "step p h b rest = Ret q h' r c"
  shows "c \<noteq> CodeNone"
  using assms step_wf [of p b rest h] by (auto simp: inside_def)

lemma loop_resume:
  assumes "inside q" "sim (step p h b rest) (step q h' c cs)" "\<not> paused p"
    "parse_loop fuel q h' (c # cs) = Some res"
  shows "\<exists>res'. parse_loop fuel p h (b # rest) = Some res' \<and> same_run res' res"
proof -
  obtain f where f: "fuel = Suc f" using assms(4) by (cases fuel) simp_all
  note np = inside_not_paused [OF assms(1)]
  show ?thesis
  proof (cases "step q h' c cs")
    case (Go q2 h2 r2)
    obtain hA where A: "step p h b rest = Go q2 hA r2" "flat hA = flat h2"
      using assms(2) Go by (cases "step p h b rest") simp_all
    have "quiet_table (fst (cfg q2))" using inside_Go [OF assms(1) Go] by (simp add: inside_def)
    note lh = loop_history [OF this, of f _ r2]
    have "parse_loop f q2 h2 r2 = Some res" using assms(4) f np Go by simp
    then have "map_option (add_history h2) (parse_loop f q2 [] r2) = Some res"
      using lh [of h2] by simp
    then obtain e where e: "parse_loop f q2 [] r2 = Some e" "res = add_history h2 e"
      unfolding map_option_eq_Some by blast
    then show ?thesis using lh [of hA] A f assms(3) same_run_add [OF A(2)] by simp
  next
    case (Ret q2 h2 r2 c2)
    then show ?thesis using assms f np by (cases "step p h b rest") auto
  qed
qed

lemma loop_split:
  assumes "inside p" "parse_loop f1 p h xs = Some (p1, h1, r1, c1)" "ys \<noteq> []"
  shows "if c1 = CodeNone
     then r1 = [] \<and> inside p1 \<and> (\<forall>f2 res. parse_loop f2 p1 h1 ys = Some res \<longrightarrow>
       (\<exists>f res'. parse_loop f p h (xs @ ys) = Some res' \<and> same_run res' res))
     else (\<exists>f. parse_loop f p h (xs @ ys) = Some (p1, h1, r1 @ ys, c1))"
  using assms(1,2)
proof (induction f1 arbitrary: p h xs)
  case 0
  then show ?case using same_run_refl by (cases xs) auto
next
  case (Suc f1)
  obtain c cs where ys: "ys = c # cs" using assms(3) by (cases ys) simp_all
  note np = inside_not_paused [OF Suc.prems(1)]
  show ?case
  proof (cases xs)
    case Nil
    then show ?thesis using Suc.prems same_run_refl by auto
  next
    case (Cons b rest)
    have res: "resumes p h b rest c cs"
      using Suc.prems(1) by (intro resumes_step) (simp_all add: inside_def)
    show ?thesis
    proof (cases "step p h b rest")
      case (Ret q h' r c')
      have "step p h b (rest @ c # cs) = Ret q h' (r @ c # cs) c'"
        using res Ret by (auto simp: resumes_def)
      then have "parse_loop (Suc 0) p h (xs @ ys) = Some (q, h', r @ ys, c')"
        using Cons ys np by simp
      moreover have "(p1, h1, r1, c1) = (q, h', r, c')" using Suc.prems(2) Cons Ret np by simp
      ultimately show ?thesis using inside_Ret [OF Suc.prems(1) Ret] by auto
    next
      case (Go q h' r)
      note iq = inside_Go [OF Suc.prems(1) Go]
      have run: "parse_loop f1 q h' r = Some (p1, h1, r1, c1)" using Suc.prems(2) Cons Go np by simp
      show ?thesis
      proof (cases "step p h b (rest @ c # cs) = cont (c # cs) (step p h b rest)")
        case True
        then have "parse_loop (Suc f) p h (xs @ ys) = parse_loop f q h' (r @ ys)" for f
          using Cons ys np Go by simp
        then show ?thesis using Suc.IH [OF iq run] by metis
      next
        case False
        then have s: "r = []" "sim (step p h b (rest @ c # cs)) (step q h' c cs)"
          using res Go by (auto simp: resumes_def)
        have e: "p1 = q" "h1 = h'" "r1 = []" "c1 = CodeNone" using run s(1) by (cases f1; simp)+
        have "\<exists>f res'. parse_loop f p h (xs @ ys) = Some res' \<and> same_run res' res"
          if "parse_loop f2 q h' ys = Some res" for f2 res
          using loop_resume [OF iq s(2) np, of f2 res] that Cons ys by (metis append_Cons)
        then show ?thesis unfolding if_P [OF e(4)] using iq e(1-3) by blast
      qed
    qed
  qed
qed

subsection \<open>Fragments\<close>

text \<open>Two histories of the same outcome: the same tokens, or, when the run ends in a failure,
  possibly some more of them in the second.\<close>

definition same_tokens :: "parser \<Rightarrow> history \<Rightarrow> history \<Rightarrow> bool" where
  "same_tokens q h h' \<longleftrightarrow> flat h = flat h' \<or> code q \<noteq> CodeNone \<and> prefix (flat h) (flat h')"

lemma same_tokens_trans:
  "same_tokens q h1 h2 \<Longrightarrow> same_tokens q h2 h3 \<Longrightarrow> same_tokens q h1 h3"
  unfolding same_tokens_def by (metis prefix_order.trans)

lemma parse_loop_fuel:
  assumes "inside p" "parse_loop f p h src = Some res"
  shows "parse_loop (parse_fuel src) p h src = Some res"
proof -
  have "2 * length src + rank (state p) \<le> parse_fuel src"
    using rank_le [of "state p"] by (simp add: parse_fuel_def)
  then obtain r where r: "parse_loop (parse_fuel src) p h src = Some r"
    using parse_loop_total assms(1) unfolding inside_def by blast
  from parse_loop_mono [OF assms(2), of "max f (parse_fuel src)"]
    parse_loop_mono [OF r, of "max f (parse_fuel src)"]
  show ?thesis using r by simp
qed

abbreviation enter :: "parser \<Rightarrow> parser" where
  "enter p \<equiv> p\<lparr>parsing := True, pauseAfterMessage := False, paused := False\<rparr>"

abbreviation leave :: "parser \<Rightarrow> parser" where
  "leave q \<equiv> q\<lparr>pauseAfterMessage := False, parsing := False\<rparr>"

lemma Parse_enter:
  "\<not> parsing p \<Longrightarrow> Parse p h src =
     map_option (\<lambda>(q, h', r, c). (leave q, h', length src - length r, c)) (parse_suffix (enter p) h src)"
  by (simp add: Parse_def runParse_def split: option.split)

lemma enter_leave: "inside q \<Longrightarrow> enter (leave q) = q"
  using inside_not_paused [of q] by (simp add: inside_def)

lemma parse_loop_suffix:
  assumes "inside p" "parse_loop (parse_fuel src) p h src = Some (q, h', r, c)"
  shows "suffix r src"
proof -
  have "2 * length src + rank (state p) \<le> parse_fuel src"
    using rank_le [of "state p"] by (simp add: parse_fuel_def)
  from parse_loop_total [OF _ _ this, of h] assms show ?thesis by (simp add: inside_def)
qed

lemma Parse_append:
  assumes p: "well_formed p" "\<not> parsing p" "quiet p"
    and run: "Parse p h xs = Some (p1, h1, n1, c1)"
  shows "if c1 = CodeNone
     then \<forall>p2 h2 n2 c2. Parse p1 h1 ys = Some (p2, h2, n2, c2) \<longrightarrow>
       (\<exists>h'. Parse p h (xs @ ys) = Some (p2, h', n1 + n2, c2) \<and> same_tokens p2 h' h2)
     else Parse p h (xs @ ys) = Some (p1, h1, n1, c1)"
proof (cases "code p = CodeNone \<and> state p \<noteq> stateUpgrade")
  case False
  then show ?thesis using run p(2) by (auto simp: Parse_enter parse_suffix_def)
next
  case True
  have ins: "inside (enter p)"
    using p True wf_flags(1) [OF p(1), where a = True and b = False] by (simp add: inside_def quiet_def cfg_def)
  have suffix_eq: "parse_suffix q h src = parse_loop (parse_fuel src) q h src"
    if "code q = CodeNone" "state q \<noteq> stateUpgrade" for q h src
    using that by (simp add: parse_suffix_def)
  have enter: "parse_suffix (enter p) h src = parse_loop (parse_fuel src) (enter p) h src" for h src
    using True by (intro suffix_eq) simp_all
  obtain q1 r1 where l1: "parse_loop (parse_fuel xs) (enter p) h xs = Some (q1, h1, r1, c1)"
    and p1: "p1 = leave q1" "n1 = length xs - length r1"
    using run p(2) by (auto simp: Parse_enter enter)
  have "[0 :: byte] \<noteq> []" by simp
  note sp0 = loop_split [OF ins l1 this]
  have dn: "r1 = []" "inside q1" if "c1 = CodeNone"
    using sp0 unfolding if_P [OF that] by blast+
  have nx: "Parse p1 h1 ys = map_option (\<lambda>(q, h', r, c). (leave q, h', length ys - length r, c))
      (parse_loop (parse_fuel ys) q1 h1 ys)" if "c1 = CodeNone"
  proof -
    have q1: "code q1 = CodeNone" "state q1 \<noteq> stateUpgrade"
      using dn(2) [OF that] by (simp_all add: inside_def)
    have "enter p1 = q1" unfolding p1(1) by (rule enter_leave [OF dn(2) [OF that]])
    moreover have "\<not> parsing p1" by (simp add: p1(1))
    ultimately show ?thesis using Parse_enter [of p1 h1 ys] suffix_eq [OF q1] by simp
  qed
  show ?thesis
  proof (cases "ys = []")
    case True
    then show ?thesis using run nx dn p1 by (cases "c1 = CodeNone") (simp_all add: same_tokens_def)
  next
    case False
    note sp = loop_split [OF ins l1 False]
    show ?thesis
    proof (cases "c1 = CodeNone")
      case bad: False
      then obtain f where "parse_loop f (enter p) h (xs @ ys) = Some (q1, h1, r1 @ ys, c1)"
        using sp unfolding if_not_P [OF bad] by blast
      from parse_loop_fuel [OF ins this] show ?thesis
        using bad p(2) p1 by (simp add: Parse_enter enter)
    next
      case ok: True
      show ?thesis unfolding if_P [OF ok]
      proof (intro allI impI)
        fix p2 h2 n2 c2 assume "Parse p1 h1 ys = Some (p2, h2, n2, c2)"
        then obtain q2 r2 where l2: "parse_loop (parse_fuel ys) q1 h1 ys = Some (q2, h2, r2, c2)"
          and p2: "p2 = leave q2" "n2 = length ys - length r2"
          unfolding nx [OF ok] by auto
        from sp l2 obtain f res where
          f: "parse_loop f (enter p) h (xs @ ys) = Some res" "same_run res (q2, h2, r2, c2)"
          unfolding if_P [OF ok] by blast
        obtain h' where res: "res = (q2, h', r2, c2)" "same_tokens p2 h' h2"
          using f(2) p2(1) by (cases res) (auto simp: same_tokens_def)
        have "length r2 \<le> length ys"
          using parse_loop_suffix [OF dn(2) [OF ok] l2] by (rule suffix_length_le)
        then have "length (xs @ ys) - length r2 = n1 + n2"
          using dn(1) [OF ok] p1(2) p2(2) by simp
        then show "\<exists>h'. Parse p h (xs @ ys) = Some (p2, h', n1 + n2, c2) \<and> same_tokens p2 h' h2"
          using parse_loop_fuel [OF ins f(1)] res p(2) p2(1) by (simp add: Parse_enter enter)
      qed
    qed
  qed
qed

text \<open>A client that receives its input in fragments: it parses each of them and stops at the first
  result other than \<open>CodeNone\<close>.\<close>

fun feed :: "parser \<Rightarrow> history \<Rightarrow> bytes list \<Rightarrow> (parser \<times> history \<times> nat \<times> result_code) option" where
  "feed p h [] = Some (p, h, 0, CodeNone)"
| "feed p h (xs # xss) =
     (case Parse p h xs of
        None \<Rightarrow> None
      | Some (q, h', n, c) \<Rightarrow>
          if c \<noteq> CodeNone \<or> xss = [] then Some (q, h', n, c)
          else map_option (\<lambda>(q2, h2, m, c2). (q2, h2, n + m, c2)) (feed q h' xss))"

lemma quiet_Parse:
  assumes "\<not> parsing p" "quiet p" "Parse p h src = Some (q, h', n, c)"
  shows "quiet q"
proof -
  obtain q1 r where "parse_suffix (enter p) h src = Some (q1, h', r, c)" "q = leave q1"
    using assms(1,3) by (auto simp: Parse_enter)
  then show ?thesis using cfg_parse_suffix [of "enter p" h src q1 h' r c] assms(2)
    by (simp add: quiet_def cfg_def)
qed

lemma feed_Parse:
  assumes "xss \<noteq> []" "well_formed p" "\<not> parsing p" "quiet p"
  shows "\<exists>q h1 h2 n c. feed p h xss = Some (q, h2, n, c) \<and>
     Parse p h (concat xss) = Some (q, h1, n, c) \<and> same_tokens q h1 h2"
  using assms
proof (induction xss arbitrary: p h)
  case Nil
  then show ?case by simp
next
  case (Cons xs xss)
  obtain q h' n c where r: "Parse p h xs = Some (q, h', n, c)" "well_formed q" "\<not> parsing q"
    using runParse_total [OF Cons.prems(2,3), of False h xs] unfolding Parse_def by blast
  have qq: "quiet q" using quiet_Parse [OF Cons.prems(3,4) r(1)] .
  note ap = Parse_append [OF Cons.prems(2,3,4) r(1), of "concat xss"]
  show ?case
  proof (cases "c \<noteq> CodeNone \<or> xss = []")
    case True
    then show ?thesis using r(1) ap by (auto simp: same_tokens_def)
  next
    case False
    from Cons.IH [OF _ r(2,3) qq, of h'] False obtain q2 h1 h2 m c2 where
      IH: "feed q h' xss = Some (q2, h2, m, c2)" "Parse q h' (concat xss) = Some (q2, h1, m, c2)"
        "same_tokens q2 h1 h2"
      by blast
    obtain h3 where w: "Parse p h (xs @ concat xss) = Some (q2, h3, n + m, c2)"
      "same_tokens q2 h3 h1"
      using ap False IH(2) by auto
    show ?thesis
      using r(1) False IH(1) w same_tokens_trans [OF w(2) IH(3)] by simp
  qed
qed

text \<open>C2: parsing does not depend on how the input is cut into fragments. Feeding the fragments one
  by one ends with the same parser, the same number of consumed octets and the same result as one
  call on their concatenation; the callbacks see the same tokens (a token may be delivered in
  several spans), except that before a failure the fragmented run may already have delivered the
  part of a token that precedes the offending octet. The callbacks must keep their contract: they
  do not call the parser, and the response context depends on the exchange number only.\<close>

theorem fragmentation_independent:
  assumes "reachable p" "quiet p" "xss \<noteq> []"
  shows "\<exists>q h1 h2 n c. feed p h xss = Some (q, h2, n, c) \<and>
     Parse p h (concat xss) = Some (q, h1, n, c) \<and>
     (if code q = CodeNone then flat h1 = flat h2 else prefix (flat h1) (flat h2))"
proof -
  have wf: "well_formed p" "\<not> parsing p" using reachable_invariant [OF assms(1)] by simp_all
  from feed_Parse [OF assms(3) wf assms(2), of h] obtain q h1 h2 n c where
    r: "feed p h xss = Some (q, h2, n, c)" "Parse p h (concat xss) = Some (q, h1, n, c)"
      "same_tokens q h1 h2"
    by blast
  then have "if code q = CodeNone then flat h1 = flat h2 else prefix (flat h1) (flat h2)"
    by (auto simp: same_tokens_def)
  then show ?thesis using r by blast
qed

definition demo_quiet_table :: callback_table where
  "demo_quiet_table =
     \<lparr>cbResponseContext = None, cbMessageBegin = None, cbMethod = Some (\<lambda>_. False),
      cbTarget = Some (\<lambda>_. False), cbReason = None, cbStartLine = None, cbHeaderName = None,
      cbHeaderValue = None, cbHeaderEnd = None, cbHeadersComplete = None, cbChunkHeader = None,
      cbBody = Some (\<lambda>_. False), cbChunkComplete = None, cbMessageComplete = None\<rparr>"

definition demo_quiet :: parser where
  "demo_quiet = NewParser Request (Some demo_quiet_table) zero_limits"

theorem fragmentation_independent_witness:
  "\<exists>q h1 h2 n c.
     feed demo_quiet [] [lit ''GE'', lit ''T /a HT'', lit ''TP/'', []] = Some (q, h2, n, c) \<and>
     Parse demo_quiet [] (lit ''GET /a HTTP/'') = Some (q, h1, n, c)"
proof -
  have "reachable demo_quiet" unfolding demo_quiet_def by (rule reachable.new)
  moreover have "quiet demo_quiet"
    by (simp add: quiet_def quiet_table_def cfg_def demo_quiet_def NewParser_def Init_def
        zero_parser_def selectors_def silent_def demo_quiet_table_def Let_def)
  ultimately show ?thesis
    using fragmentation_independent [of demo_quiet "[lit ''GE'', lit ''T /a HT'', lit ''TP/'', []]" "[]"]
    by fastforce
qed

end
