(* ===== verification/Http1_Request.thy ===== *)
theory Http1_Request
  imports Http1_Parser
begin

text \<open>
  The HTTP/1.1 request writer and the synchronous client (src/http/request/request.go). Requests
  are validated by the parser of src/http, fed part by part, and are then encoded, appended or
  written to a stream. The writer and the stream are interfaces of the Go standard library that
  the caller implements: they are parameters, functions from their own state.
\<close>

subsection \<open>Data\<close>

record header_t =
  Name :: bytes
  Value :: bytes

record request_t =
  Method :: bytes
  Target :: bytes
  Host :: bytes
  Headers :: "header_t list"
  Body :: bytes
  ExplicitLength :: bool

text \<open>The package's error values, the two error structures, the errors of package \<open>io\<close> that
  are returned, and the errors that the caller's stream returns. \<open>NoReturn\<close> stands for a
  call of the parser that does not return; it never does (\<open>runParse_total\<close>).
  \<open>Panic\<close> is a run-time panic.\<close>

datatype 'e req_error =
    ErrInvalidRequest | ErrInvalidResponse | ErrInvalidStream | ErrReservedHeader | ErrShortBuffer
  | ErrEmptyReadBuffer | ValidationError result_code | ParseError result_code
  | IoErrShortWrite | IoErrShortBuffer | IoErrNoProgress | IoErrUnexpectedEOF
  | Transport 'e | Panic | NoReturn

text \<open>The constants of the wire format.\<close>

definition space :: bytes where "space = lit '' ''"
definition crlf :: bytes where "crlf = [bCR, bLF]"
definition colonSpace :: bytes where "colonSpace = lit '': ''"
definition http11HostPrefix :: bytes where
  "http11HostPrefix = lit '' HTTP/1.1'' @ [bCR, bLF] @ lit ''Host: ''"
definition contentLengthPrefix :: bytes where "contentLengthPrefix = lit ''Content-Length: ''"
definition digitData :: bytes where "digitData = lit ''0123456789''"

subsection \<open>Octet predicates\<close>

definition validToken :: "bytes \<Rightarrow> bool" where
  "validToken v \<longleftrightarrow> v \<noteq> [] \<and>
     list_all (\<lambda>b. isDigit b \<or> isUpper b \<or> isLower b \<or>
       b \<in> set ([0x21, 0x23, 0x24, 0x25, 0x26, 0x27] @ lit ''*+-.^_`|~'')) v"

definition validFieldValue :: "bytes \<Rightarrow> bool" where
  "validFieldValue v \<longleftrightarrow> list_all (\<lambda>b. \<not> (b \<noteq> bHT \<and> (b < 0x20 \<or> b = 0x7f))) v"

definition equalFold :: "bytes \<Rightarrow> bytes \<Rightarrow> bool" where
  "equalFold left right \<longleftrightarrow> length left = length right \<and>
     list_all (\<lambda>(b, other). asciiLower b = asciiLower other) (zip left right)"

definition reservedHeader :: "bytes \<Rightarrow> bool" where
  "reservedHeader name \<longleftrightarrow> equalFold name (lit ''host'') \<or>
     equalFold name (lit ''content-length'') \<or> equalFold name (lit ''transfer-encoding'')"

subsection \<open>Decimal numbers\<close>

text \<open>The largest power of ten not above the value: the quotient loop of \<open>parseDecimal\<close>
  and \<open>writeDecimal\<close>.\<close>

function decimalDivisor :: "u64 \<Rightarrow> u64 \<Rightarrow> u64" where
  "decimalDivisor quot divisor =
     (if quot = 0 then divisor else decimalDivisor (quot div 10) (divisor * 10))"
  by pat_completeness auto
termination
proof (relation "measure (\<lambda>(q, _). unat q)")
  fix quot divisor :: u64
  assume "quot \<noteq> 0"
  then have "0 < unat quot" by (simp add: unat_gt_0)
  then have "unat quot div 10 < unat quot" by simp
  then show "((quot div 10, divisor * 10), quot, divisor) \<in> measure (\<lambda>(q, _). unat q)"
    by (simp add: unat_div)
qed simp

text \<open>The digit loop: a division by zero and an index past \<open>digitData\<close> are panics
  (\<open>None\<close>).\<close>

function decimalDigits :: "u64 \<Rightarrow> u64 \<Rightarrow> bytes list option" where
  "decimalDigits v divisor =
     (if divisor = 0 then None
      else let digit = v div divisor in
        if length digitData \<le> unat digit then None
        else if divisor = 1 then Some [[digitData ! unat digit]]
        else map_option (Cons [digitData ! unat digit])
               (decimalDigits (v mod divisor) (divisor div 10)))"
  by pat_completeness auto
termination
proof (relation "measure (\<lambda>(_, d). unat d)")
  fix v divisor :: u64 and digit
  assume "divisor \<noteq> 0"
  then have "0 < unat divisor" by (simp add: unat_gt_0)
  then have "unat divisor div 10 < unat divisor" by simp
  then show "((v mod divisor, divisor div 10), v, divisor) \<in> measure (\<lambda>(_, d). unat d)"
    by (simp add: unat_div)
qed simp

declare decimalDivisor.simps [simp del] decimalDigits.simps [simp del]

text \<open>The parts that both decimal loops emit for a value.\<close>

definition decimalParts :: "u64 \<Rightarrow> bytes list option" where
  "decimalParts v = decimalDigits v (decimalDivisor (v div 10) 1)"

text \<open>\<open>strconv.AppendUint(dst, value, 10)\<close> appends the digits.\<close>

fun AppendUint_digits :: "nat \<Rightarrow> bytes" where
  "AppendUint_digits n =
     (if n < 10 then [b0 + of_nat n] else AppendUint_digits (n div 10) @ [b0 + of_nat (n mod 10)])"

declare AppendUint_digits.simps [simp del]

function decimalLen_loop :: "u64 \<Rightarrow> nat \<Rightarrow> nat" where
  "decimalLen_loop v len =
     (if 10 \<le> v then decimalLen_loop (v div 10) (len + 1) else len)"
  by pat_completeness auto
termination
proof (relation "measure (\<lambda>(v, _). unat v)")
  fix v :: u64 and len :: nat
  assume "10 \<le> v"
  then have "10 \<le> unat v" by (simp add: word_le_nat_alt)
  then have "unat v div 10 < unat v" by simp
  then show "((v div 10, len + 1), v, len) \<in> measure (\<lambda>(v, _). unat v)"
    by (simp add: unat_div)
qed simp

declare decimalLen_loop.simps [simp del]

definition decimalLen :: "u64 \<Rightarrow> nat" where
  "decimalLen v = decimalLen_loop v 1"

subsection \<open>Validation\<close>

definition parsePart :: "parser \<Rightarrow> bytes \<Rightarrow> 'e req_error + parser" where
  "parsePart p part =
     (case Parse p [] part of
        None \<Rightarrow> Inl NoReturn
      | Some (q, _, consumed, c) \<Rightarrow>
          if c \<noteq> CodeNone \<or> consumed \<noteq> length part
          then (if c = CodeNone then Inl ErrInvalidRequest else Inl (ValidationError c))
          else Inr q)"

text \<open>A sequence of parts, stopping at the first error.\<close>

fun parseParts :: "parser \<Rightarrow> bytes list \<Rightarrow> 'e req_error + parser" where
  "parseParts p [] = Inr p"
| "parseParts p (part # parts) =
     (case parsePart p part of Inl e \<Rightarrow> Inl e | Inr q \<Rightarrow> parseParts q parts)"

definition parseDecimal :: "parser \<Rightarrow> u64 \<Rightarrow> 'e req_error + parser" where
  "parseDecimal p v =
     (case decimalParts v of None \<Rightarrow> Inl Panic | Some parts \<Rightarrow> parseParts p parts)"

fun parseHeaders :: "parser \<Rightarrow> header_t list \<Rightarrow> 'e req_error + parser" where
  "parseHeaders p [] = Inr p"
| "parseHeaders p (header # headers) =
     (case parseParts p [Name header, colonSpace, Value header, crlf] of
        Inl e \<Rightarrow> Inl e
      | Inr q \<Rightarrow> parseHeaders q headers)"

fun checkHeaders :: "header_t list \<Rightarrow> 'e req_error option" where
  "checkHeaders [] = None"
| "checkHeaders (header # headers) =
     (if \<not> validToken (Name header) \<or> \<not> validFieldValue (Value header) then Some ErrInvalidRequest
      else if reservedHeader (Name header) then Some ErrReservedHeader
      else checkHeaders headers)"

definition hasLength :: "request_t \<Rightarrow> bool" where
  "hasLength r \<longleftrightarrow> length (Body r) \<noteq> 0 \<or> ExplicitLength r"

definition bodyLength :: "request_t \<Rightarrow> u64" where
  "bodyLength r = of_nat (length (Body r))"

definition parseLength :: "parser \<Rightarrow> request_t \<Rightarrow> 'e req_error + parser" where
  "parseLength p r =
     (if hasLength r then
        (case parsePart p contentLengthPrefix of
           Inl e \<Rightarrow> Inl e
         | Inr p1 \<Rightarrow>
             (case parseDecimal p1 (bodyLength r) of
                Inl e \<Rightarrow> Inl e
              | Inr p2 \<Rightarrow> parsePart p2 crlf))
      else Inr p)"

text \<open>\<open>None\<close> is a nil error.\<close>

definition Validate :: "request_t \<Rightarrow> limits_t \<Rightarrow> 'e req_error option" where
  "Validate r l =
     (if \<not> validToken (Method r) \<or> length (Target r) = 0 \<or> length (Host r) = 0 \<or>
         \<not> validFieldValue (Host r)
      then Some ErrInvalidRequest
      else case checkHeaders (Headers r) of
          Some e \<Rightarrow> Some e
        | None \<Rightarrow>
            (case parseParts (NewParser Request None l)
                    [Method r, space, Target r, http11HostPrefix, Host r, crlf] of
               Inl e \<Rightarrow> Some e
             | Inr p1 \<Rightarrow>
                 (case parseHeaders p1 (Headers r) of
                    Inl e \<Rightarrow> Some e
                  | Inr p2 \<Rightarrow>
                      (case parseLength p2 r of
                         Inl e \<Rightarrow> Some e
                       | Inr p3 \<Rightarrow>
                           (case parsePart p3 crlf of Inl e \<Rightarrow> Some e | Inr _ \<Rightarrow> None)))))"

subsection \<open>Encoding\<close>

definition encodedLen :: "request_t \<Rightarrow> nat" where
  "encodedLen r =
     (let size = length (Method r) + 1 + length (Target r) + length http11HostPrefix +
                 length (Host r) + length crlf;
          size = foldl (\<lambda>size header. size + (length (Name header) + length colonSpace +
                   length (Value header) + length crlf)) size (Headers r);
          size = (if hasLength r
                  then size + (length contentLengthPrefix + decimalLen (bodyLength r) + length crlf)
                  else size)
      in size + length crlf + length (Body r))"

definition appendRequest :: "bytes \<Rightarrow> request_t \<Rightarrow> bytes" where
  "appendRequest dst r =
     (let dst = dst @ Method r; dst = dst @ [bSP]; dst = dst @ Target r;
          dst = dst @ http11HostPrefix; dst = dst @ Host r; dst = dst @ crlf;
          dst = foldl (\<lambda>dst header. (((dst @ Name header) @ colonSpace) @ Value header) @ crlf)
                  dst (Headers r);
          dst = (if hasLength r
                 then ((dst @ contentLengthPrefix) @ AppendUint_digits (unat (bodyLength r))) @ crlf
                 else dst);
          dst = dst @ crlf
      in dst @ Body r)"

definition EncodedLen :: "request_t \<Rightarrow> limits_t \<Rightarrow> 'e req_error + nat" where
  "EncodedLen r l = (case Validate r l of Some e \<Rightarrow> Inl e | None \<Rightarrow> Inr (encodedLen r))"

text \<open>The destination slice is returned with its new contents; \<open>append\<close> to
  \<open>dst[:0]\<close> overwrites a prefix of it.\<close>

definition Encode :: "bytes \<Rightarrow> request_t \<Rightarrow> limits_t \<Rightarrow> ('e req_error + nat) \<times> bytes" where
  "Encode dst r l =
     (case Validate r l of
        Some e \<Rightarrow> (Inl e, dst)
      | None \<Rightarrow>
          let size = encodedLen r in
          if length dst < size then (Inl ErrShortBuffer, dst)
          else let encoded = appendRequest [] r
               in (Inr (length encoded), take (length dst) (encoded @ drop (length encoded) dst)))"

definition Append :: "bytes \<Rightarrow> request_t \<Rightarrow> limits_t \<Rightarrow> bytes \<times> 'e req_error option" where
  "Append dst r l =
     (case Validate r l of Some e \<Rightarrow> (dst, Some e) | None \<Rightarrow> (appendRequest dst r, None))"

subsection \<open>Writing\<close>

text \<open>A writer takes its state and the data and returns its new state, the count and the error.\<close>

type_synonym ('s, 'e) writer = "'s \<Rightarrow> bytes \<Rightarrow> 's \<times> int \<times> 'e option"

function writeAll :: "('s, 'e) writer \<Rightarrow> 's \<Rightarrow> bytes \<Rightarrow> 's \<times> 'e req_error option" where
  "writeAll write s data =
     (if data = [] then (s, None)
      else case write s data of (s', written, err) \<Rightarrow>
        if written < 0 \<or> int (length data) < written then (s', Some IoErrShortWrite)
        else let data' = (if 0 < written then drop (nat written) data else data) in
          case err of
            Some e \<Rightarrow> (s', Some (Transport e))
          | None \<Rightarrow>
              if written = 0 then (s', Some IoErrShortWrite) else writeAll write s' data')"
  by pat_completeness auto
termination
  by (relation "measure (\<lambda>(_, _, data). length data)") (auto split: if_splits)

declare writeAll.simps [simp del]

fun writeParts :: "('s, 'e) writer \<Rightarrow> 's \<Rightarrow> bytes list \<Rightarrow> 's \<times> 'e req_error option" where
  "writeParts write s [] = (s, None)"
| "writeParts write s (part # parts) =
     (case writeAll write s part of
        (s', Some e) \<Rightarrow> (s', Some e)
      | (s', None) \<Rightarrow> writeParts write s' parts)"

definition writeDecimal :: "('s, 'e) writer \<Rightarrow> 's \<Rightarrow> u64 \<Rightarrow> 's \<times> 'e req_error option" where
  "writeDecimal write s v =
     (case decimalParts v of None \<Rightarrow> (s, Some Panic) | Some parts \<Rightarrow> writeParts write s parts)"

fun writeHeaders :: "('s, 'e) writer \<Rightarrow> 's \<Rightarrow> header_t list \<Rightarrow> 's \<times> 'e req_error option" where
  "writeHeaders write s [] = (s, None)"
| "writeHeaders write s (header # headers) =
     (case writeParts write s [Name header, colonSpace, Value header, crlf] of
        (s', Some e) \<Rightarrow> (s', Some e)
      | (s', None) \<Rightarrow> writeHeaders write s' headers)"

definition writeLength :: "('s, 'e) writer \<Rightarrow> 's \<Rightarrow> request_t \<Rightarrow> 's \<times> 'e req_error option" where
  "writeLength write s r =
     (if hasLength r then
        (case writeAll write s contentLengthPrefix of
           (s1, Some e) \<Rightarrow> (s1, Some e)
         | (s1, None) \<Rightarrow>
             (case writeDecimal write s1 (bodyLength r) of
                (s2, Some e) \<Rightarrow> (s2, Some e)
              | (s2, None) \<Rightarrow> writeAll write s2 crlf))
      else (s, None))"

text \<open>\<open>None\<close> for the writer is the nil interface.\<close>

definition Write :: "('s, 'e) writer option \<Rightarrow> 's \<Rightarrow> request_t \<Rightarrow> limits_t \<Rightarrow> 's \<times> 'e req_error option" where
  "Write writer s r l =
     (case writer of
        None \<Rightarrow> (s, Some ErrInvalidRequest)
      | Some write \<Rightarrow>
          (case Validate r l of
             Some e \<Rightarrow> (s, Some e)
           | None \<Rightarrow>
               (case writeParts write s [Method r, space, Target r, http11HostPrefix, Host r, crlf] of
                  (s1, Some e) \<Rightarrow> (s1, Some e)
                | (s1, None) \<Rightarrow>
                    (case writeHeaders write s1 (Headers r) of
                       (s2, Some e) \<Rightarrow> (s2, Some e)
                     | (s2, None) \<Rightarrow>
                         (case writeLength write s2 r of
                            (s3, Some e) \<Rightarrow> (s3, Some e)
                          | (s3, None) \<Rightarrow>
                              (case writeAll write s3 crlf of
                                 (s4, Some e) \<Rightarrow> (s4, Some e)
                               | (s4, None) \<Rightarrow> writeAll write s4 (Body r)))))))"

subsection \<open>The client\<close>

datatype 'e read_error = EOF | ReadFailed 'e

text \<open>A reader takes its state and the size of the buffer and returns its new state, the count, the
  contents of the buffer after the call, and the error.\<close>

type_synonym ('s, 'e) reader = "'s \<Rightarrow> nat \<Rightarrow> 's \<times> int \<times> bytes \<times> 'e read_error option"

record ('s, 'e) stream_t =
  streamRead :: "('s, 'e) reader"
  streamWrite :: "('s, 'e) writer"

record response_t =
  rspMessage :: message_t
  rspBuffered :: bytes
  rspUpgraded :: bool

record client_t =
  RequestLimits :: limits_t
  ResponseLimits :: limits_t
  ReadBufferBytes :: u32

definition DefaultReadBufferBytes :: u32 where "DefaultReadBufferBytes = 16384"

definition finalResponse :: "u16 \<Rightarrow> bool" where
  "finalResponse st \<longleftrightarrow> st = 101 \<or> 200 \<le> st"

definition nil_callbacks :: callback_table where
  "nil_callbacks =
     \<lparr>cbResponseContext = None, cbMessageBegin = None, cbMethod = None, cbTarget = None,
      cbReason = None, cbStartLine = None, cbHeaderName = None, cbHeaderValue = None,
      cbHeaderEnd = None, cbHeadersComplete = None, cbChunkHeader = None, cbBody = None,
      cbChunkComplete = None, cbMessageComplete = None\<rparr>"

text \<open>The callbacks of the exchange: the caller's, with the response context taken from the request
  and a \<open>MessageComplete\<close> that also stores the message. The variables \<open>completed\<close> and
  \<open>sawMessage\<close> that it sets are read off the history: the last completed message.\<close>

definition wrappedCallbacks :: "bytes \<Rightarrow> callback_table option \<Rightarrow> callback_table" where
  "wrappedCallbacks m cbs =
     (let base = (case cbs of None \<Rightarrow> nil_callbacks | Some t \<Rightarrow> t) in
      base\<lparr>cbResponseContext :=
             Some (\<lambda>_. (equalFold m (lit ''HEAD''), equalFold m (lit ''CONNECT'')), \<lambda>_. False),
           cbMessageComplete :=
             Some (case cbMessageComplete base of None \<Rightarrow> \<lambda>_. False | Some f \<Rightarrow> f)\<rparr>)"

fun completedMessage :: "history \<Rightarrow> message_t option" where
  "completedMessage [] = None"
| "completedMessage (ev # h) =
     (case completedMessage h of
        Some m \<Rightarrow> Some m
      | None \<Rightarrow> (case ev of EvMessageComplete m \<Rightarrow> Some m | _ \<Rightarrow> None))"

definition finalMessage :: "history \<Rightarrow> message_t option" where
  "finalMessage h =
     (case completedMessage h of
        Some m \<Rightarrow> if finalResponse (msgStatus m) then Some m else None
      | None \<Rightarrow> None)"

datatype 'e parsed = Answered response_t | Rejected "'e req_error" | Unfinished parser history

text \<open>The loop over one read, with the octets of the buffer that are still to be parsed. The fuel
  bounds its iterations; running out of it would be \<open>NoReturn\<close>.\<close>

fun parseRead :: "nat \<Rightarrow> parser \<Rightarrow> history \<Rightarrow> bytes \<Rightarrow> 'e parsed" where
  "parseRead fuel p h [] = Unfinished p h"
| "parseRead 0 p h (b # bs) = Rejected NoReturn"
| "parseRead (Suc fuel) p h (b # bs) =
     (case ParseOne p h (b # bs) of
        None \<Rightarrow> Rejected NoReturn
      | Some (q, h', consumed, complete, c) \<Rightarrow>
          let rest = drop consumed (b # bs) in
          if c \<noteq> CodeNone \<and> c \<noteq> CodeUpgrade then Rejected (ParseError c)
          else
            (case (if complete then finalMessage h' else None) of
               Some m \<Rightarrow>
                 Answered \<lparr>rspMessage = m, rspBuffered = rest, rspUpgraded = (c = CodeUpgrade)\<rparr>
             | None \<Rightarrow>
                 if c = CodeUpgrade then Rejected (ParseError c)
                 else if consumed = 0 \<and> \<not> complete then Rejected IoErrNoProgress
                 else parseRead fuel q h' rest))"

definition finishExchange :: "parser \<Rightarrow> history \<Rightarrow> 'e req_error + response_t" where
  "finishExchange p h =
     (let (q, h', c) = Finish p h in
      if c \<noteq> CodeNone \<and> c \<noteq> CodeUpgrade then Inl (ParseError c)
      else case finalMessage h' of
          Some m \<Rightarrow> Inr \<lparr>rspMessage = m, rspBuffered = [], rspUpgraded = (c = CodeUpgrade)\<rparr>
        | None \<Rightarrow> Inl IoErrUnexpectedEOF)"

text \<open>The loop over the reads; \<open>None\<close> is an exchange that has not ended after
  \<open>fuel\<close> reads.\<close>

fun exchange ::
  "nat \<Rightarrow> ('s, 'e) reader \<Rightarrow> nat \<Rightarrow> 's \<Rightarrow> parser \<Rightarrow> history \<Rightarrow>
     ('s \<times> ('e req_error + response_t)) option" where
  "exchange 0 read len s p h = None"
| "exchange (Suc fuel) read len s p h =
     (case read s len of (s', n, contents, err) \<Rightarrow>
        if n < 0 \<or> int len < n then Some (s', Inl IoErrShortBuffer)
        else
          let bs = take (nat n) contents in
          (case parseRead (Suc (length bs)) p h bs of
             Answered rsp \<Rightarrow> Some (s', Inr rsp)
           | Rejected e \<Rightarrow> Some (s', Inl e)
           | Unfinished q h' \<Rightarrow>
               (case err of
                  Some (ReadFailed e) \<Rightarrow> Some (s', Inl (Transport e))
                | Some EOF \<Rightarrow> Some (s', finishExchange q h')
                | None \<Rightarrow>
                    if n = 0 then Some (s', Inl IoErrNoProgress)
                    else exchange fuel read len s' q h')))"

definition DoBuffer ::
  "nat \<Rightarrow> client_t \<Rightarrow> ('s, 'e) stream_t option \<Rightarrow> 's \<Rightarrow> request_t \<Rightarrow> callback_table option \<Rightarrow> nat \<Rightarrow>
     ('s \<times> ('e req_error + response_t)) option" where
  "DoBuffer fuel client stream s r cbs len =
     (case stream of
        None \<Rightarrow> Some (s, Inl ErrInvalidStream)
      | Some st \<Rightarrow>
          if len = 0 then Some (s, Inl ErrEmptyReadBuffer)
          else
            (case Write (Some (streamWrite st)) s r (RequestLimits client) of
               (s', Some e) \<Rightarrow> Some (s', Inl e)
             | (s', None) \<Rightarrow>
                 exchange fuel (streamRead st) len s'
                   (NewParser Response (Some (wrappedCallbacks (Method r) cbs))
                      (ResponseLimits client)) []))"

definition Do ::
  "nat \<Rightarrow> client_t \<Rightarrow> ('s, 'e) stream_t option \<Rightarrow> 's \<Rightarrow> request_t \<Rightarrow> callback_table option \<Rightarrow>
     ('s \<times> ('e req_error + response_t)) option" where
  "Do fuel client stream s r cbs =
     (let size = (if ReadBufferBytes client = 0 then DefaultReadBufferBytes else ReadBufferBytes client)
      in DoBuffer fuel client stream s r cbs (unat size))"

end
