(* ===== verification/Http1_Writer.thy ===== *)
theory Http1_Writer
  imports Http1_Request Http1_Fragments
begin

text \<open>What the request writer of \<open>src/http/request/request.go\<close> promises: the decimal
  loops agree with \<open>strconv.AppendUint\<close>, the computed length is the length of the encoding,
  the parts that \<open>Write\<close> sends and \<open>Validate\<close> parses are the pieces of that encoding,
  and the wire holds a prefix of it whatever the transport does.\<close>

subsection \<open>Decimal numbers\<close>

text \<open>The reference for the digit loops: \<open>k + 1\<close> digits with leading zeros.\<close>

fun padded :: "nat \<Rightarrow> nat \<Rightarrow> bytes" where
  "padded 0 n = [b0 + of_nat n]"
| "padded (Suc k) n = (b0 + of_nat (n div 10 ^ Suc k)) # padded k (n mod 10 ^ Suc k)"

lemma length_padded [simp]: "length (padded k n) = Suc k"
  by (induction k arbitrary: n) simp_all

lemma padded_snoc: "padded (Suc k) n = padded k (n div 10) @ [b0 + of_nat (n mod 10)]"
proof (induction k arbitrary: n)
  case (Suc k)
  have d: "n div 10 ^ Suc (Suc k) = n div 10 div 10 ^ Suc k"
    unfolding power_Suc [of 10 "Suc k"] by (rule div_mult2_eq)
  have m: "n mod 10 ^ Suc (Suc k) div 10 = n div 10 mod 10 ^ Suc k"
    unfolding power_Suc [of 10 "Suc k"] mod_mult2_eq by simp
  have "n mod 10 ^ Suc (Suc k) mod 10 = n mod 10"
    by (rule mod_mod_cancel) simp
  then show ?case using d m Suc.IH [of "n mod 10 ^ Suc (Suc k)"] by simp
qed simp

lemma AppendUint_padded:
  "k = 0 \<or> 10 ^ k \<le> n \<Longrightarrow> n < 10 ^ Suc k \<Longrightarrow> AppendUint_digits n = padded k n"
proof (induction k arbitrary: n)
  case 0
  then show ?case by (simp add: AppendUint_digits.simps)
next
  case (Suc k)
  have n: "\<not> n < 10" using Suc.prems(1) by (auto simp: not_less intro: order_trans [of _ "10 ^ Suc k"])
  have "k = 0 \<or> 10 ^ k \<le> n div 10" using Suc.prems(1) by (auto simp: less_eq_div_iff_mult_less_eq)
  moreover have "n div 10 < 10 ^ Suc k" using Suc.prems(2) by (simp add: div_less_iff_less_mult)
  ultimately have "AppendUint_digits (n div 10) = padded k (n div 10)" by (rule Suc.IH)
  then show ?case unfolding padded_snoc by (subst AppendUint_digits.simps) (simp add: n)
qed

lemma digits_exist: "\<exists>k. (k = 0 \<or> 10 ^ k \<le> n) \<and> n < 10 ^ Suc k" for n :: nat
proof (induction n rule: less_induct)
  case (less n)
  show ?case
  proof (cases "n < 10")
    case True
    then show ?thesis by (intro exI [of _ 0]) simp
  next
    case False
    then obtain k where k: "k = 0 \<or> 10 ^ k \<le> n div 10" "n div 10 < 10 ^ Suc k"
      using less.IH [of "n div 10"] by auto
    have "10 ^ Suc k \<le> n" using k(1) False by (auto simp: less_eq_div_iff_mult_less_eq)
    moreover have "n < 10 ^ Suc (Suc k)" using k(2) by (simp add: div_less_iff_less_mult)
    ultimately show ?thesis by blast
  qed
qed

lemma unat_pow10: "10 ^ k < (2 :: nat) ^ 64 \<Longrightarrow> unat (10 ^ k :: u64) = 10 ^ k"
proof -
  assume "10 ^ k < (2 :: nat) ^ 64"
  moreover have "unat (of_nat (10 ^ k) :: u64) = 10 ^ k mod 2 ^ LENGTH(64)" by (rule unat_of_nat)
  ultimately show ?thesis by simp
qed

lemma decimalDivisor_eq:
  assumes "k = 0 \<or> 10 ^ k \<le> unat v" "unat v < 10 ^ Suc k"
  shows "decimalDivisor (v div 10) d = d * 10 ^ k"
  using assms
proof (induction k arbitrary: v d)
  case 0
  then have "unat (v div 10) = 0" by (simp add: unat_div)
  then have "v div 10 = 0" by (simp add: unat_eq_zero)
  then show ?case by (simp add: decimalDivisor.simps)
next
  case (Suc k)
  have u: "unat (v div 10) = unat v div 10" by (simp add: unat_div)
  have "10 ^ Suc k \<le> unat v" using Suc.prems(1) by simp
  then have le: "10 ^ k \<le> unat (v div 10)" by (simp add: u less_eq_div_iff_mult_less_eq)
  have "(0 :: nat) < 10 ^ k" by simp
  with le have "unat (v div 10) \<noteq> 0" by linarith
  then have nz: "v div 10 \<noteq> 0" by (metis unat_0)
  have "unat (v div 10) < 10 ^ Suc k" using Suc.prems(2) by (simp add: u div_less_iff_less_mult)
  from Suc.IH [OF _ this] le have "decimalDivisor (v div 10 div 10) (d * 10) = d * 10 * 10 ^ k" by simp
  then show ?case using nz by (subst decimalDivisor.simps) (simp add: mult.assoc)
qed

lemma length_digitData [simp]: "length digitData = 10"
  by (simp add: digitData_def)

lemma digitData_nth: "n < 10 \<Longrightarrow> digitData ! n = b0 + of_nat n"
proof -
  assume "n < 10"
  then have "n \<in> {0, 1, 2, 3, 4, 5, 6, 7, 8, 9}" by auto
  then show ?thesis by (auto simp: digitData_def)
qed

lemma decimalDigits_eq:
  assumes "unat v < 10 ^ Suc k" "10 ^ k < (2 :: nat) ^ 64"
  shows "decimalDigits v (10 ^ k) = Some (map (\<lambda>b. [b]) (padded k (unat v)))"
  using assms
proof (induction k arbitrary: v)
  case 0
  then show ?case by (subst decimalDigits.simps) (simp add: digitData_nth)
next
  case (Suc k)
  have k: "10 ^ k < (2 :: nat) ^ 64" using Suc.prems(2) by simp
  have p: "unat (10 ^ Suc k :: u64) = 10 ^ Suc k" using Suc.prems(2) by (rule unat_pow10)
  have nz: "(10 ^ Suc k :: u64) \<noteq> 0" using p by (metis power_eq_0_iff unat_0 zero_neq_numeral)
  have n1: "(10 ^ Suc k :: u64) \<noteq> 1"
  proof
    assume "(10 ^ Suc k :: u64) = 1"
    then have "unat (10 ^ Suc k :: u64) = 1" by simp
    then show False using p by simp
  qed
  have dig: "unat (v div 10 ^ Suc k) = unat v div 10 ^ Suc k" using p by (simp add: unat_div)
  then have lt: "unat (v div 10 ^ Suc k) < 10" using Suc.prems(1) by (simp add: div_less_iff_less_mult)
  have m: "unat (v mod 10 ^ Suc k) = unat v mod 10 ^ Suc k" using p by (simp add: unat_mod)
  have "unat (10 ^ Suc k div 10 :: u64) = 10 ^ k" using p by (simp add: unat_div)
  then have q: "(10 ^ Suc k div 10 :: u64) = 10 ^ k" using unat_pow10 [OF k] by (simp only: word_unat_eq_iff)
  have "unat (v mod 10 ^ Suc k) < 10 ^ Suc k" unfolding m by simp
  from Suc.IH [OF this k] show ?case
    using nz n1 lt q m dig digitData_nth [OF lt]
    by (subst decimalDigits.simps) (simp add: Let_def)
qed

lemma decimalParts_eq: "decimalParts v = Some (map (\<lambda>b. [b]) (AppendUint_digits (unat v)))"
proof -
  obtain k where k: "k = 0 \<or> 10 ^ k \<le> unat v" "unat v < 10 ^ Suc k" using digits_exist by blast
  have "unat v < 2 ^ LENGTH(64)" by (rule unsigned_less)
  then have "10 ^ k < (2 :: nat) ^ 64" using k(1) by auto
  then show ?thesis
    using k by (simp add: decimalParts_def decimalDivisor_eq decimalDigits_eq AppendUint_padded)
qed

lemma concat_decimalParts: "decimalParts v = Some parts \<Longrightarrow> concat parts = AppendUint_digits (unat v)"
  by (auto simp: decimalParts_eq comp_def)

lemma decimalLen_eq: "decimalLen v = length (AppendUint_digits (unat v))"
proof -
  have "decimalLen_loop v n + 1 = n + length (AppendUint_digits (unat v))" for n
  proof (induction v n rule: decimalLen_loop.induct)
    case (1 v n)
    show ?case
    proof (cases "10 \<le> v")
      case True
      then have "\<not> unat v < 10" by (simp add: word_le_nat_alt)
      then have "AppendUint_digits (unat v) =
          AppendUint_digits (unat v div 10) @ [b0 + of_nat (unat v mod 10)]"
        by (subst AppendUint_digits.simps) simp
      then show ?thesis using 1 True
        by (subst decimalLen_loop.simps) (simp add: unat_div)
    next
      case False
      then have "unat v < 10" by (simp add: word_le_nat_alt)
      then show ?thesis using False
        by (subst decimalLen_loop.simps, subst AppendUint_digits.simps) simp
    qed
  qed
  from this [of 1] show ?thesis by (simp add: decimalLen_def)
qed

lemma AppendUint_digits_isDigit: "list_all isDigit (AppendUint_digits n)"
proof (induction n rule: AppendUint_digits.induct)
  case (1 n)
  have d: "isDigit (b0 + of_nat m)" if "m < 10" for m
  proof -
    have "m \<in> {0, 1, 2, 3, 4, 5, 6, 7, 8, 9}" using that by auto
    then show ?thesis by (auto simp: isDigit_def)
  qed
  show ?case by (subst AppendUint_digits.simps) (simp add: 1 d)
qed

subsection \<open>The encoding\<close>

text \<open>The reference form of the encoding: the octets before the body, and the body.\<close>

definition headerLine :: "header_t \<Rightarrow> bytes" where
  "headerLine fld = Name fld @ colonSpace @ Value fld @ crlf"

definition lengthLine :: "request_t \<Rightarrow> bytes" where
  "lengthLine r = (if hasLength r
     then contentLengthPrefix @ AppendUint_digits (unat (bodyLength r)) @ crlf else [])"

definition requestHead :: "request_t \<Rightarrow> bytes" where
  "requestHead r = Method r @ space @ Target r @ http11HostPrefix @ Host r @ crlf @
     concat (map headerLine (Headers r)) @ lengthLine r @ crlf"

lemma foldl_append_concat: "foldl (\<lambda>a x. a @ f x) a xs = a @ concat (map f xs)"
  by (induction xs arbitrary: a) simp_all

lemma appendRequest_eq: "appendRequest dst r = dst @ requestHead r @ Body r"
proof -
  have "headerLine = (\<lambda>fld. Name fld @ colonSpace @ Value fld @ crlf)"
    by (simp add: headerLine_def fun_eq_iff)
  then show ?thesis
    by (simp add: appendRequest_def requestHead_def lengthLine_def Let_def foldl_append_concat
        space_def)
qed

lemma encodedLen_eq: "encodedLen r = length (appendRequest [] r)"
proof -
  have "foldl (\<lambda>size fld. size + (length (Name fld) + length colonSpace + length (Value fld) + length crlf))
      n hs = n + length (concat (map headerLine hs))" for n hs
    by (induction hs arbitrary: n) (simp_all add: headerLine_def)
  then show ?thesis
    by (simp add: encodedLen_def appendRequest_eq requestHead_def lengthLine_def decimalLen_eq
        space_def Let_def)
qed

subsection \<open>Writing\<close>

lemma writeParts_append:
  "writeParts w s (xs @ ys) =
     (case writeParts w s xs of (s', Some e) \<Rightarrow> (s', Some e) | (s', None) \<Rightarrow> writeParts w s' ys)"
  by (induction xs arbitrary: s) (simp_all split: prod.split option.split)

lemma writeParts_one: "writeParts w s [x] = writeAll w s x"
  by (simp split: prod.split option.split)

lemma writeHeaders_parts:
  "writeHeaders w s hs =
     writeParts w s (concat (map (\<lambda>f. [Name f, colonSpace, Value f, crlf]) hs))"
proof (induction hs arbitrary: s)
  case (Cons f hs)
  show ?case
    using writeParts_append [of w s "[Name f, colonSpace, Value f, crlf]"
        "concat (map (\<lambda>f. [Name f, colonSpace, Value f, crlf]) hs)"] Cons
    by (simp del: writeParts.simps split: prod.split option.split)
qed simp

text \<open>The parts of a request in the order in which they are parsed and written.\<close>

definition headParts :: "request_t \<Rightarrow> bytes list" where
  "headParts r = [Method r, space, Target r, http11HostPrefix, Host r, crlf] @
     concat (map (\<lambda>f. [Name f, colonSpace, Value f, crlf]) (Headers r)) @
     (if hasLength r
      then [contentLengthPrefix] @ map (\<lambda>b. [b]) (AppendUint_digits (unat (bodyLength r))) @ [crlf]
      else []) @ [crlf]"

lemma concat_headParts: "concat (headParts r) = requestHead r"
proof -
  have "concat (concat (map (\<lambda>f. [Name f, colonSpace, Value f, crlf]) hs)) =
      concat (map headerLine hs)" for hs
    by (induction hs) (simp_all add: headerLine_def)
  then show ?thesis
    by (simp add: headParts_def requestHead_def lengthLine_def comp_def)
qed

lemma writeLength_parts:
  "writeLength w s r = writeParts w s
     (if hasLength r
      then [contentLengthPrefix] @ map (\<lambda>b. [b]) (AppendUint_digits (unat (bodyLength r))) @ [crlf]
      else [])"
  unfolding writeLength_def writeDecimal_def decimalParts_eq
  by (simp only: writeParts_append writeParts_one option.case if_split writeParts.simps(1))
    (simp add: writeParts_append split: prod.split option.split)

lemma Write_parts:
  assumes "(Validate r l :: 'e req_error option) = None"
  shows "Write (Some w) s r l = (writeParts w s (headParts r @ [Body r]) :: 's \<times> 'e req_error option)"
  unfolding Write_def headParts_def
  using assms
  by (simp only: option.case writeHeaders_parts writeLength_parts append_assoc)
    (simp only: writeParts_append writeParts_one)

text \<open>What is on the wire after a sequence of writes: a prefix of the data, all of it on
  success.\<close>

definition wrote :: "('s \<Rightarrow> bytes) \<Rightarrow> 's \<Rightarrow> 's \<Rightarrow> 'a option \<Rightarrow> bytes \<Rightarrow> bool" where
  "wrote wire s s' err data \<longleftrightarrow>
     (\<exists>k \<le> length data. wire s' = wire s @ take k data \<and> (err = None \<longrightarrow> k = length data))"

text \<open>The documented contract of \<open>io.Writer\<close>: the count is between zero and the length of
  the data, and that many octets were written.\<close>

definition io_writer :: "('s, 'e) writer \<Rightarrow> ('s \<Rightarrow> bytes) \<Rightarrow> bool" where
  "io_writer w wire \<longleftrightarrow> (\<forall>s data s' n err. w s data = (s', n, err) \<longrightarrow>
     0 \<le> n \<and> n \<le> int (length data) \<and> wire s' = wire s @ take (nat n) data)"

lemma wrote_append:
  assumes "wrote wire s s1 None xs" "wrote wire s1 s2 err ys"
  shows "wrote wire s s2 err (xs @ ys)"
proof -
  obtain k where k: "k \<le> length ys" "wire s2 = wire s1 @ take k ys" "err = None \<longrightarrow> k = length ys"
    using assms(2) by (auto simp: wrote_def)
  have "wire s1 = wire s @ xs" using assms(1) by (auto simp: wrote_def)
  then show ?thesis unfolding wrote_def using k by (intro exI [of _ "length xs + k"]) simp
qed

lemma wrote_stop: "wrote wire s s1 (Some e) xs \<Longrightarrow> wrote wire s s1 (Some e') (xs @ ys)"
proof (unfold wrote_def, elim exE conjE)
  fix k
  assume "k \<le> length xs" "wire s1 = wire s @ take k xs"
  then show "\<exists>k \<le> length (xs @ ys). wire s1 = wire s @ take k (xs @ ys) \<and>
      (Some e' = None \<longrightarrow> k = length (xs @ ys))"
    by (intro exI [of _ k]) simp
qed

lemma writeAll_wrote:
  assumes w: "io_writer w wire"
  shows "writeAll w s data = (s', err) \<Longrightarrow> wrote wire s s' err data"
proof (induction "length data" arbitrary: s data rule: less_induct)
  case less
  show ?case
  proof (cases "data = []")
    case True
    then show ?thesis using less.prems by (simp add: writeAll.simps wrote_def)
  next
    case False
    obtain s1 n e where r: "w s data = (s1, n, e)" by (cases "w s data")
    then have c: "0 \<le> n" "n \<le> int (length data)" "wire s1 = wire s @ take (nat n) data"
      using w unfolding io_writer_def by blast+
    have part: "wrote wire s s1 (Some x) data" for x :: "'b req_error"
      using c unfolding wrote_def by (intro exI [of _ "nat n"]) simp
    show ?thesis
    proof (cases "e = None \<and> n \<noteq> 0")
      case True
      then have "writeAll w s1 (drop (nat n) data) = (s', err)"
        using less.prems False r c by (subst (asm) writeAll.simps) (simp add: Let_def)
      moreover have "length (drop (nat n) data) < length data"
        using True False c by (simp add: nat_less_iff)
      ultimately have "wrote wire s1 s' err (drop (nat n) data)" using less.hyps by blast
      moreover have "wrote wire s s1 None (take (nat n) data)"
        using c unfolding wrote_def by (intro exI [of _ "nat n"]) simp
      ultimately show ?thesis using wrote_append by fastforce
    next
      case stop: False
      then obtain x where "(s', err) = (s1, Some x)"
        using less.prems False r c
        by (subst (asm) writeAll.simps) (auto simp: Let_def split: option.splits)
      then show ?thesis using part by simp
    qed
  qed
qed

lemma writeParts_wrote:
  assumes w: "io_writer w wire"
  shows "writeParts w s parts = (s', err) \<Longrightarrow> wrote wire s s' err (concat parts)"
proof (induction parts arbitrary: s)
  case Nil
  then show ?case by (simp add: wrote_def)
next
  case (Cons part parts)
  obtain s1 e where r: "writeAll w s part = (s1, e)" by (cases "writeAll w s part")
  note one = writeAll_wrote [OF w r]
  show ?case
  proof (cases e)
    case None
    then show ?thesis using Cons r one wrote_append [of wire s s1 part s' err "concat parts"] by simp
  next
    case (Some x)
    then show ?thesis using Cons.prems r one wrote_stop [of wire s s1 x part] by auto
  qed
qed

subsection \<open>Validation\<close>

lemma Parse_history:
  assumes "well_formed p" "\<not> parsing p" "quiet p"
  shows "Parse p h src = map_option (\<lambda>(q, h', n, c). (q, h @ h', n, c)) (Parse p [] src)"
proof -
  have "quiet_table (fst (cfg (enter p)))" using assms(3) by (simp add: quiet_def cfg_def)
  from loop_history [OF this, of "parse_fuel src" h src] show ?thesis
    using assms(2)
    by (cases "parse_loop (parse_fuel src) (enter p) [] src") (auto simp: Parse_enter parse_suffix_def)
qed

lemma parseParts_feed:
  assumes "well_formed p" "\<not> parsing p" "quiet p" "parts \<noteq> []"
  shows "\<exists>q h' n c. feed p h parts = Some (q, h', n, c) \<and>
     (parseParts p parts :: 'e req_error + parser) =
       (if c = CodeNone then Inr q else Inl (ValidationError c))"
  using assms
proof (induction parts arbitrary: p h)
  case Nil
  then show ?case by simp
next
  case (Cons part parts)
  obtain q h1 n c where r: "Parse p [] part = Some (q, h1, n, c)" "well_formed q" "\<not> parsing q"
    "c = CodeNone \<longrightarrow> n = length part"
    using runParse_total [OF Cons.prems(1,2), of False "[]" part] unfolding Parse_def
    by (metis result_code.distinct(1))
  have rh: "Parse p h part = Some (q, h @ h1, n, c)"
    using Parse_history [OF Cons.prems(1-3), of h part] r(1) by simp
  have qq: "quiet q" using quiet_Parse [OF Cons.prems(2,3) r(1)] .
  have one: "(parsePart p part :: 'e req_error + parser) = (if c = CodeNone then Inr q else Inl (ValidationError c))"
    using r(1,4) by (simp add: parsePart_def)
  show ?case
  proof (cases "c = CodeNone \<and> parts \<noteq> []")
    case True
    then obtain q2 h2 m c2 where IH: "feed q (h @ h1) parts = Some (q2, h2, m, c2)"
      "(parseParts q parts :: 'e req_error + parser) =
         (if c2 = CodeNone then Inr q2 else Inl (ValidationError c2))"
      using Cons.IH [OF r(2,3) qq, of "h @ h1"] by blast
    show ?thesis
      by (intro exI [of _ q2] exI [of _ h2] exI [of _ "n + m"] exI [of _ c2])
        (simp add: True one rh IH)
  next
    case False
    then show ?thesis using one rh by (cases "c = CodeNone") auto
  qed
qed

lemma parseParts_append:
  "parseParts p (xs @ ys) = (case parseParts p xs of Inl e \<Rightarrow> Inl e | Inr q \<Rightarrow> parseParts q ys)"
  by (induction xs arbitrary: p) (simp_all split: sum.split)

lemma parseParts_one: "parseParts p [x] = parsePart p x"
  by (simp split: sum.split)

lemma parseHeaders_parts:
  "parseHeaders p hs = parseParts p (concat (map (\<lambda>f. [Name f, colonSpace, Value f, crlf]) hs))"
proof (induction hs arbitrary: p)
  case (Cons f hs)
  show ?case by (simp only: parseHeaders.simps list.map concat.simps parseParts_append Cons)
qed simp

lemma parseLength_parts:
  "parseLength p r = parseParts p
     (if hasLength r
      then [contentLengthPrefix] @ map (\<lambda>b. [b]) (AppendUint_digits (unat (bodyLength r))) @ [crlf]
      else [])"
  unfolding parseLength_def parseDecimal_def decimalParts_eq
  by (simp only: parseParts_append parseParts_one option.case if_split parseParts.simps(1))
    (simp add: parseParts_append split: sum.split)

text \<open>The syntactic checks that \<open>Validate\<close> does itself.\<close>

definition precheck :: "request_t \<Rightarrow> 'e req_error option" where
  "precheck r =
     (if \<not> validToken (Method r) \<or> Target r = [] \<or> Host r = [] \<or> \<not> validFieldValue (Host r)
      then Some ErrInvalidRequest else checkHeaders (Headers r))"

lemma Validate_parts:
  "Validate r l =
     (case precheck r of
        Some e \<Rightarrow> Some e
      | None \<Rightarrow>
          (case parseParts (NewParser Request None l) (headParts r) of
             Inl e \<Rightarrow> Some e | Inr _ \<Rightarrow> None))"
  unfolding Validate_def precheck_def headParts_def
  by (simp only: parseHeaders_parts parseLength_parts)
    (simp only: parseParts_append parseParts_one,
     simp del: parseParts.simps split: sum.split option.split)

lemma new_parser_ready:
  "well_formed (NewParser k None l)" "\<not> parsing (NewParser k None l)" "quiet (NewParser k None l)"
proof -
  have "reachable (NewParser k None l)" by (rule reachable.new)
  then show "well_formed (NewParser k None l)" "\<not> parsing (NewParser k None l)"
    using reachable_invariant by simp_all
  show "quiet (NewParser k None l)"
    unfolding NewParser_def Init_def Let_def quiet_def
    by (simp add: quiet_table_def cfg_def zero_parser_def fail_def)
qed

lemma headParts_nonempty: "headParts r \<noteq> []"
  by (simp add: headParts_def)

lemma writeAll_willing:
  assumes "\<And>s data. data \<noteq> [] \<Longrightarrow> \<exists>s' n. w s data = (s', n, None) \<and> 0 < n"
    and "io_writer w wire"
  shows "snd (writeAll w s data) = None"
proof (induction "length data" arbitrary: s data rule: less_induct)
  case less
  show ?case
  proof (cases "data = []")
    case True
    then show ?thesis by (simp add: writeAll.simps)
  next
    case False
    from assms(1) [OF this] obtain s1 n where r: "w s data = (s1, n, None)" "0 < n" by blast
    have "n \<le> int (length data)" using assms(2) r(1) unfolding io_writer_def by blast
    moreover have "length (drop (nat n) data) < length data" using False r(2) by simp
    ultimately show ?thesis using less.hyps [of "drop (nat n) data" s1] False r
      by (subst writeAll.simps) (simp add: Let_def)
  qed
qed

lemma writeParts_willing:
  assumes "\<And>s data. data \<noteq> [] \<Longrightarrow> \<exists>s' n. w s data = (s', n, None) \<and> 0 < n"
    and "io_writer w wire"
  shows "snd (writeParts w s parts) = None"
proof (induction parts arbitrary: s)
  case (Cons part parts)
  show ?case using writeAll_willing [OF assms, of s part] Cons
    by (cases "writeAll w s part") simp
qed simp

definition demo_request :: request_t where
  "demo_request = \<lparr>Method = lit ''PUT'', Target = lit ''/'', Host = lit ''a'', Headers = [],
     Body = lit ''hi'', ExplicitLength = False\<rparr>"

lemma demo_request_valid: "Validate demo_request zero_limits = (None :: 'e req_error option)"
  by code_simp

text \<open>A transport that takes at most three octets of each write; its state is the wire.\<close>

definition demo_writer :: "(bytes, 'e) writer" where
  "demo_writer s data = (s @ take 3 data, int (length (take 3 data)), None)"

lemma demo_io_writer: "io_writer demo_writer (\<lambda>s. s)"
  by (simp add: io_writer_def demo_writer_def min_def)

subsection \<open>Properties\<close>

text \<open>C27: the decimal loops of the request writer index the digit table in range for every 64-bit
  value and yield exactly the digits of \<open>strconv.AppendUint\<close>, whose number
  \<open>decimalLen\<close> predicts; there are at most twenty of them.\<close>

theorem decimal_loops_exact:
  "decimalParts v = Some (map (\<lambda>b. [b]) (AppendUint_digits (unat v))) \<and>
   decimalLen v = length (AppendUint_digits (unat v)) \<and> decimalLen v \<le> 20"
proof -
  obtain k where k: "k = 0 \<or> 10 ^ k \<le> unat v" "unat v < 10 ^ Suc k"
    using digits_exist by blast
  have "k < 20"
  proof (rule ccontr)
    assume "\<not> k < 20"
    then have "10 ^ 20 \<le> (10 :: nat) ^ k" by (intro power_increasing) simp_all
    moreover have "unat v < 2 ^ 64" using unsigned_less [of v] by simp
    ultimately show False using k(1) \<open>\<not> k < 20\<close> by simp
  qed
  then have "length (AppendUint_digits (unat v)) \<le> 20"
    using AppendUint_padded [OF k] by simp
  then show ?thesis by (simp add: decimalParts_eq decimalLen_eq)
qed

text \<open>C26: the three encoders agree on a valid request. \<open>EncodedLen\<close> is the exact length of
  the encoding, \<open>Append\<close> appends the encoding, and \<open>Encode\<close> either fits it at the
  start of the buffer, leaving what follows untouched, or reports a short buffer and writes nothing.\<close>

theorem encoders_agree:
  assumes "Validate r l = (None :: 'e req_error option)"
  shows "\<exists>wire. Append dst r l = (dst @ wire, None :: 'e req_error option) \<and>
     EncodedLen r l = (Inr (length wire) :: 'e req_error + nat) \<and>
     Encode buf r l =
       (if length buf < length wire then (Inl (ErrShortBuffer :: 'e req_error), buf)
        else (Inr (length wire), wire @ drop (length wire) buf))"
proof -
  let ?wire = "appendRequest [] r"
  have "appendRequest dst r = dst @ ?wire" by (simp add: appendRequest_eq)
  then show ?thesis using assms
    by (intro exI [of _ ?wire])
      (simp add: Append_def EncodedLen_def Encode_def encodedLen_eq Let_def)
qed

theorem encoders_agree_witness:
  "\<exists>wire. Append [] demo_request zero_limits = (wire, None :: nat req_error option) \<and>
     EncodedLen demo_request zero_limits = (Inr (length wire) :: nat req_error + nat)"
  using encoders_agree [where 'e = nat, OF demo_request_valid, of "[]" "[]"] by auto

text \<open>C24: whatever the transport does, \<open>Write\<close> puts a prefix of the encoding of the request on
  the wire, and all of it when it reports success; a rejected request leaves the wire alone. The
  hypothesis is the documented contract of \<open>io.Writer\<close>.\<close>

theorem Write_prefix:
  assumes "io_writer w wire" "Write (Some w) s r l = (s', err :: 'e req_error option)"
  shows "case Validate r l of
       Some e \<Rightarrow> s' = s \<and> err = Some e
     | None \<Rightarrow> (\<exists>k \<le> encodedLen r. wire s' = wire s @ take k (appendRequest [] r) \<and>
                  (err = None \<longrightarrow> k = encodedLen r))"
proof (cases "Validate r l :: 'e req_error option")
  case None
  have "writeParts w s (headParts r @ [Body r]) = (s', err)"
    using assms(2) None by (simp add: Write_parts)
  from writeParts_wrote [OF assms(1) this] have "wrote wire s s' err (appendRequest [] r)"
    by (simp add: appendRequest_eq concat_headParts)
  then show ?thesis using None by (simp add: wrote_def encodedLen_eq)
next
  case (Some e)
  moreover from this have "s' = s" "err = Some e" using assms(2) by (simp_all add: Write_def)
  ultimately show ?thesis by simp
qed

theorem Write_prefix_witness:
  "\<exists>k \<le> encodedLen demo_request.
     fst (Write (Some demo_writer) [] demo_request zero_limits :: bytes \<times> nat req_error option) =
       take k (appendRequest [] demo_request)"
  using Write_prefix [OF demo_io_writer, where 'e = nat and s = "[]" and r = demo_request
      and l = zero_limits, OF prod.collapse [symmetric]] demo_request_valid [where 'e = nat]
  by auto

text \<open>C25: short writes are retried. Over a transport that takes at least one octet of every write and
  reports no error, writing a valid request succeeds, and the whole encoding is on the wire.\<close>

theorem Write_completes:
  assumes "io_writer w wire"
    and "\<And>s data. data \<noteq> [] \<Longrightarrow> \<exists>s' n. w s data = (s', n, None) \<and> 0 < n"
    and "Validate r l = (None :: 'e req_error option)"
  shows "\<exists>s'. Write (Some w) s r l = (s', None :: 'e req_error option) \<and>
     wire s' = wire s @ appendRequest [] r"
proof -
  obtain s' err where r: "writeParts w s (headParts r @ [Body r]) = (s', err)"
    by (cases "writeParts w s (headParts r @ [Body r])")
  have "err = None" using writeParts_willing [OF assms(2,1), of s "headParts r @ [Body r]"] r by simp
  moreover have "wrote wire s s' err (appendRequest [] r)"
    using writeParts_wrote [OF assms(1) r] by (simp add: appendRequest_eq concat_headParts)
  ultimately show ?thesis using r assms(3) by (auto simp: Write_parts wrote_def)
qed

theorem Write_completes_witness:
  "\<exists>s'. Write (Some demo_writer) [] demo_request zero_limits = (s', None :: nat req_error option) \<and>
     s' = appendRequest [] demo_request"
proof -
  have "\<exists>s' n. demo_writer s data = (s', n, None :: nat option) \<and> 0 < n" if "data \<noteq> []" for s data
    using that by (simp add: demo_writer_def min_def)
  from Write_completes [OF demo_io_writer this demo_request_valid, of "[]"]
  show ?thesis by simp
qed

text \<open>C23: validation is parsing. A request is valid exactly when it passes the syntactic checks and
  the strict parser accepts its encoded head in one piece, and a rejection by the parser carries the
  parser's code.\<close>

theorem Validate_parses_head:
  "\<exists>q h n c. Parse (NewParser Request None l) [] (requestHead r) = Some (q, h, n, c) \<and>
     (Validate r l :: 'e req_error option) =
       (case precheck r of
          Some e \<Rightarrow> Some e
        | None \<Rightarrow> if c = CodeNone then None else Some (ValidationError c))"
proof -
  let ?p = "NewParser Request None l"
  note ready = new_parser_ready [of Request l]
  obtain q h n c where f: "feed ?p [] (headParts r) = Some (q, h, n, c)"
    "(parseParts ?p (headParts r) :: 'e req_error + parser) =
       (if c = CodeNone then Inr q else Inl (ValidationError c))"
    using parseParts_feed [OF ready headParts_nonempty, of "[]"] by blast
  obtain h1 where "Parse ?p [] (requestHead r) = Some (q, h1, n, c)"
    using feed_Parse [OF headParts_nonempty ready, of "[]" r] f(1) concat_headParts by auto
  then show ?thesis using f(2) by (auto simp: Validate_parts split: option.split)
qed

definition injecting :: request_t where
  "injecting =
     \<lparr>Method = lit ''GET'',
      Target = lit ''/ HTTP/1.0'' @ crlf @ crlf @ lit ''GET /'',
      Host = lit ''a'', Headers = [], Body = [], ExplicitLength = False\<rparr>"

text \<open>\<open>Validate\<close> does not confine a request to one message. The target is not checked for
  spaces or line ends, so a target that closes the request line and goes on with a second request is
  valid, and its encoding is two complete requests to a server that reads it with the same
  parser.\<close>

lemma target_injects_request:
  "Validate injecting zero_limits = (None :: 'e req_error option) \<and>
   map_option (\<lambda>(q, h, n, c). (messageNum q, n = length (appendRequest [] injecting), c))
     (Parse (NewParser Request None zero_limits) [] (appendRequest [] injecting)) =
   Some (2, True, CodeNone)"
  by code_simp

end
