(* ===== verification/H2_Frame.thy ===== *)
theory H2_Frame
  imports Prelude
begin

text \<open>
  The HTTP/2 frame layer (src/http2/frame.go): the frame header, the incremental frame parser and
  \<open>AppendFrame\<close>. The names of the Go package that the HTTP/1 package also has carry
  \<open>frame\<close> or a leading \<open>f\<close> here.
\<close>

subsection \<open>Big-endian numbers\<close>

text \<open>Package \<open>encoding/binary\<close>, on slices that are long enough.\<close>

definition Uint16 :: "bytes \<Rightarrow> u16" where
  "Uint16 bs = push_bit 8 (ucast (bs ! 0)) OR ucast (bs ! 1)"

definition Uint32 :: "bytes \<Rightarrow> u32" where
  "Uint32 bs = push_bit 24 (ucast (bs ! 0)) OR push_bit 16 (ucast (bs ! 1)) OR
     push_bit 8 (ucast (bs ! 2)) OR ucast (bs ! 3)"

definition PutUint16 :: "u16 \<Rightarrow> bytes" where
  "PutUint16 v = [ucast (drop_bit 8 v), ucast v]"

definition PutUint32 :: "u32 \<Rightarrow> bytes" where
  "PutUint32 v = [ucast (drop_bit 24 v), ucast (drop_bit 16 v), ucast (drop_bit 8 v), ucast v]"

text \<open>\<open>copy(dst[off:], src)\<close>: the new contents; the number of octets copied is the
  smaller of the two lengths.\<close>

definition copy_at :: "bytes \<Rightarrow> nat \<Rightarrow> bytes \<Rightarrow> bytes" where
  "copy_at dst off src =
     (let n = min (length dst - off) (length src)
      in take off dst @ take n src @ drop (off + n) dst)"

subsection \<open>Data\<close>

type_synonym frame_type = u8

abbreviation FrameData :: frame_type where "FrameData \<equiv> 0"
abbreviation FrameHeaders :: frame_type where "FrameHeaders \<equiv> 1"
abbreviation FramePriority :: frame_type where "FramePriority \<equiv> 2"
abbreviation FrameRSTStream :: frame_type where "FrameRSTStream \<equiv> 3"
abbreviation FrameSettings :: frame_type where "FrameSettings \<equiv> 4"
abbreviation FramePushPromise :: frame_type where "FramePushPromise \<equiv> 5"
abbreviation FramePing :: frame_type where "FramePing \<equiv> 6"
abbreviation FrameGoAway :: frame_type where "FrameGoAway \<equiv> 7"
abbreviation FrameWindowUpdate :: frame_type where "FrameWindowUpdate \<equiv> 8"
abbreviation FrameContinuation :: frame_type where "FrameContinuation \<equiv> 9"

definition frameTypeString :: "frame_type \<Rightarrow> string" where
  "frameTypeString typ =
     (if typ = FrameData then ''DATA'' else if typ = FrameHeaders then ''HEADERS''
      else if typ = FramePriority then ''PRIORITY'' else if typ = FrameRSTStream then ''RST_STREAM''
      else if typ = FrameSettings then ''SETTINGS'' else if typ = FramePushPromise then ''PUSH_PROMISE''
      else if typ = FramePing then ''PING'' else if typ = FrameGoAway then ''GOAWAY''
      else if typ = FrameWindowUpdate then ''WINDOW_UPDATE''
      else if typ = FrameContinuation then ''CONTINUATION'' else ''UNKNOWN'')"

type_synonym frame_flags = u8

abbreviation FlagEndStream :: frame_flags where "FlagEndStream \<equiv> 0x1"
abbreviation FlagACK :: frame_flags where "FlagACK \<equiv> 0x1"
abbreviation FlagEndHeaders :: frame_flags where "FlagEndHeaders \<equiv> 0x4"
abbreviation FlagPadded :: frame_flags where "FlagPadded \<equiv> 0x8"
abbreviation FlagPriority :: frame_flags where "FlagPriority \<equiv> 0x20"

definition Has :: "frame_flags \<Rightarrow> frame_flags \<Rightarrow> bool" where
  "Has flags flag \<longleftrightarrow> flags AND flag \<noteq> 0"

record frame_header =
  fhLength :: u32
  fhType :: frame_type
  fhFlags :: frame_flags
  fhStreamID :: u32

definition zero_header :: frame_header where
  "zero_header = \<lparr>fhLength = 0, fhType = 0, fhFlags = 0, fhStreamID = 0\<rparr>"

abbreviation SettingHeaderTableSize :: u16 where "SettingHeaderTableSize \<equiv> 0x1"
abbreviation SettingEnablePush :: u16 where "SettingEnablePush \<equiv> 0x2"
abbreviation SettingMaxConcurrentStreams :: u16 where "SettingMaxConcurrentStreams \<equiv> 0x3"
abbreviation SettingInitialWindowSize :: u16 where "SettingInitialWindowSize \<equiv> 0x4"
abbreviation SettingMaxFrameSize :: u16 where "SettingMaxFrameSize \<equiv> 0x5"
abbreviation SettingMaxHeaderListSize :: u16 where "SettingMaxHeaderListSize \<equiv> 0x6"
abbreviation SettingEnableConnectProtocol :: u16 where "SettingEnableConnectProtocol \<equiv> 0x8"
abbreviation SettingNoRFC7540Priorities :: u16 where "SettingNoRFC7540Priorities \<equiv> 0x9"

record setting_t =
  settingID :: u16
  settingValue :: u32

record priority_param =
  StreamDependency :: u32
  Exclusive :: bool
  Weight :: u8

type_synonym error_code = u32

datatype frame_code =
    FCodeNone | FCodeReentrantCall | FCodeFrameTooLarge | FCodeInvalidStreamID
  | FCodeInvalidFrameSize | FCodeInvalidPadding | FCodeInvalidContinuation
  | FCodeHeaderBlockTooLarge | FCodeTooManyContinuations | FCodeInvalidPriority
  | FCodeInvalidSetting | FCodeInvalidWindowUpdate | FCodeUnexpectedEOF

fun frameCodeString :: "frame_code \<Rightarrow> string" where
  "frameCodeString FCodeNone = ''ok''"
| "frameCodeString FCodeReentrantCall = ''reentrant parser call''"
| "frameCodeString FCodeFrameTooLarge = ''frame too large''"
| "frameCodeString FCodeInvalidStreamID = ''invalid stream identifier''"
| "frameCodeString FCodeInvalidFrameSize = ''invalid frame size''"
| "frameCodeString FCodeInvalidPadding = ''invalid padding''"
| "frameCodeString FCodeInvalidContinuation = ''invalid CONTINUATION sequence''"
| "frameCodeString FCodeHeaderBlockTooLarge = ''header block too large''"
| "frameCodeString FCodeTooManyContinuations = ''too many CONTINUATION frames''"
| "frameCodeString FCodeInvalidPriority = ''invalid priority dependency''"
| "frameCodeString FCodeInvalidSetting = ''invalid SETTINGS value''"
| "frameCodeString FCodeInvalidWindowUpdate = ''invalid WINDOW_UPDATE increment''"
| "frameCodeString FCodeUnexpectedEOF = ''unexpected EOF''"

record frame_limits =
  MaxFrameSize :: u32
  MaxHeaderBlockBytes :: u64
  MaxContinuationFrames :: u32

definition defaultMaxFrameSize :: u32 where "defaultMaxFrameSize = 16384"
definition defaultMaxHeaderBlockBytes :: u64 where "defaultMaxHeaderBlockBytes = 1048576"
definition defaultMaxContinuationFrames :: u32 where "defaultMaxContinuationFrames = 1024"
definition maxFrameSize :: u32 where "maxFrameSize = 16777215"

definition frameNormalized :: "frame_limits \<Rightarrow> frame_limits" where
  "frameNormalized l =
     (let l = (if MaxFrameSize l = 0 then l\<lparr>MaxFrameSize := defaultMaxFrameSize\<rparr> else l);
          l = (if MaxHeaderBlockBytes l = 0
               then l\<lparr>MaxHeaderBlockBytes := defaultMaxHeaderBlockBytes\<rparr> else l);
          l = (if MaxContinuationFrames l = 0
               then l\<lparr>MaxContinuationFrames := defaultMaxContinuationFrames\<rparr> else l)
      in if maxFrameSize < MaxFrameSize l then l\<lparr>MaxFrameSize := maxFrameSize\<rparr> else l)"

text \<open>A callback changes the state \<open>'s\<close> of the client; the boolean says that it called
  the parser again, which the parser records as a failure.\<close>

type_synonym 's effect = "'s \<Rightarrow> 's \<times> bool"

record 's frame_callbacks =
  fcFrameBegin :: "(frame_header \<Rightarrow> 's effect) option"
  fcData :: "(u32 \<Rightarrow> bytes \<Rightarrow> bool \<Rightarrow> 's effect) option"
  fcHeaderBlock :: "(u32 \<Rightarrow> bytes \<Rightarrow> 's effect) option"
  fcHeaderBlockEnd :: "(u32 \<Rightarrow> bool \<Rightarrow> 's effect) option"
  fcPriority :: "(u32 \<Rightarrow> priority_param \<Rightarrow> 's effect) option"
  fcRSTStream :: "(u32 \<Rightarrow> error_code \<Rightarrow> 's effect) option"
  fcSetting :: "(setting_t \<Rightarrow> 's effect) option"
  fcSettingsEnd :: "(bool \<Rightarrow> 's effect) option"
  fcPushPromise :: "(u32 \<Rightarrow> u32 \<Rightarrow> 's effect) option"
  fcPing :: "(bytes \<Rightarrow> bool \<Rightarrow> 's effect) option"
  fcGoAway :: "(u32 \<Rightarrow> error_code \<Rightarrow> 's effect) option"
  fcGoAwayDebug :: "(bytes \<Rightarrow> 's effect) option"
  fcWindowUpdate :: "(u32 \<Rightarrow> u32 \<Rightarrow> 's effect) option"
  fcUnknown :: "(frame_header \<Rightarrow> bytes \<Rightarrow> 's effect) option"
  fcFrameComplete :: "(frame_header \<Rightarrow> 's effect) option"

datatype payload_state = payloadStart | payloadPrefix | payloadContent | payloadPadding

text \<open>The parser structure. Its field \<open>callbacks\<close> never changes after
  \<open>Init\<close>: the table (\<open>None\<close> for a nil pointer) is the argument \<open>cb\<close> of the
  operations.\<close>

record frame_parser =
  fLimits :: frame_limits
  fCode :: frame_code
  fParsing :: bool
  fPauseAfterFrame :: bool
  fPaused :: bool
  fHeader :: bytes
  fHeaderN :: u8
  fCurrent :: frame_header
  fPayloadN :: u32
  fState :: payload_state
  fPrefix :: bytes
  fPrefixN :: u8
  fPrefixNeed :: u8
  fPadLength :: u32
  fContentN :: u32
  fContinuationStream :: u32
  fContinuationCount :: u32
  fHeaderBlockBytes :: u64
  fHeaderBlockEndStream :: bool

definition zero_frame_parser :: "frame_limits \<Rightarrow> frame_parser" where
  "zero_frame_parser l =
     \<lparr>fLimits = l, fCode = FCodeNone, fParsing = False, fPauseAfterFrame = False, fPaused = False,
      fHeader = replicate 9 0, fHeaderN = 0, fCurrent = zero_header, fPayloadN = 0,
      fState = payloadStart, fPrefix = replicate 8 0, fPrefixN = 0, fPrefixNeed = 0,
      fPadLength = 0, fContentN = 0, fContinuationStream = 0, fContinuationCount = 0,
      fHeaderBlockBytes = 0, fHeaderBlockEndStream = False\<rparr>"

subsection \<open>Failures and callbacks\<close>

definition frameFail :: "frame_code \<Rightarrow> frame_parser \<Rightarrow> frame_parser" where
  "frameFail c p = (if fCode p = FCodeNone then p\<lparr>fCode := c\<rparr> else p)"

text \<open>A call of a callback, with the arguments already applied.\<close>

definition invoke :: "'s effect option \<Rightarrow> frame_parser \<Rightarrow> 's \<Rightarrow> frame_parser \<times> 's" where
  "invoke f p s =
     (case f of
        None \<Rightarrow> (p, s)
      | Some g \<Rightarrow> (case g s of (s', again) \<Rightarrow>
          (if again then frameFail FCodeReentrantCall p else p, s')))"

definition fire ::
  "'s frame_callbacks option \<Rightarrow> ('s frame_callbacks \<Rightarrow> 's effect option) \<Rightarrow>
     frame_parser \<Rightarrow> 's \<Rightarrow> frame_parser \<times> 's" where
  "fire cb sel p s = (case cb of None \<Rightarrow> (p, s) | Some t \<Rightarrow> invoke (sel t) p s)"

definition frameInit :: "frame_limits \<Rightarrow> frame_parser \<Rightarrow> frame_parser" where
  "frameInit l p =
     (if fParsing p then frameFail FCodeReentrantCall p else zero_frame_parser (frameNormalized l))"

definition NewFrameParser :: "frame_limits \<Rightarrow> frame_parser" where
  "NewFrameParser l =
     frameInit l (zero_frame_parser \<lparr>MaxFrameSize = 0, MaxHeaderBlockBytes = 0, MaxContinuationFrames = 0\<rparr>)"

definition frameReset :: "frame_parser \<Rightarrow> frame_parser" where
  "frameReset p =
     (if fParsing p then frameFail FCodeReentrantCall p else frameInit (fLimits p) p)"

subsection \<open>Frame headers\<close>

definition validateFrameHeader :: "frame_header \<Rightarrow> frame_code" where
  "validateFrameHeader h =
     (let typ = fhType h; len = fhLength h; flags = fhFlags h;
          streamRequired = (typ = FrameData \<or> typ = FrameHeaders \<or> typ = FramePriority \<or>
            typ = FrameRSTStream \<or> typ = FramePushPromise \<or> typ = FrameContinuation);
          streamForbidden = (typ = FrameSettings \<or> typ = FramePing \<or> typ = FrameGoAway)
      in
      if streamRequired \<and> fhStreamID h = 0 \<or> streamForbidden \<and> fhStreamID h \<noteq> 0
      then FCodeInvalidStreamID
      else if typ = FrameData then
        (if Has flags FlagPadded \<and> len < 1 then FCodeInvalidFrameSize else FCodeNone)
      else if typ = FrameHeaders then
        (let minimum = (0 :: u32);
             minimum = (if Has flags FlagPadded then minimum + 1 else minimum);
             minimum = (if Has flags FlagPriority then minimum + 5 else minimum)
         in if len < minimum then FCodeInvalidFrameSize else FCodeNone)
      else if typ = FramePriority then (if len \<noteq> 5 then FCodeInvalidFrameSize else FCodeNone)
      else if typ = FrameRSTStream then (if len \<noteq> 4 then FCodeInvalidFrameSize else FCodeNone)
      else if typ = FrameSettings then
        (if Has flags FlagACK then (if len \<noteq> 0 then FCodeInvalidFrameSize else FCodeNone)
         else if len mod 6 \<noteq> 0 then FCodeInvalidFrameSize else FCodeNone)
      else if typ = FramePushPromise then
        (let minimum = (4 :: u32);
             minimum = (if Has flags FlagPadded then minimum + 1 else minimum)
         in if len < minimum then FCodeInvalidFrameSize else FCodeNone)
      else if typ = FramePing then (if len \<noteq> 8 then FCodeInvalidFrameSize else FCodeNone)
      else if typ = FrameGoAway then (if len < 8 then FCodeInvalidFrameSize else FCodeNone)
      else if typ = FrameWindowUpdate then (if len \<noteq> 4 then FCodeInvalidFrameSize else FCodeNone)
      else FCodeNone)"

text \<open>The header in the nine octets, with the reserved bit dropped.\<close>

definition decodeHeader :: "bytes \<Rightarrow> frame_header" where
  "decodeHeader h =
     \<lparr>fhLength = push_bit 16 (ucast (h ! 0)) OR push_bit 8 (ucast (h ! 1)) OR ucast (h ! 2),
      fhType = h ! 3, fhFlags = h ! 4,
      fhStreamID = Uint32 (take 4 (drop 5 h)) AND 0x7fffffff\<rparr>"

text \<open>The result code of \<open>beginFrame\<close> is \<open>fCode\<close> of the parser it leaves, on
  every path.\<close>

definition beginFrame :: "'s frame_callbacks option \<Rightarrow> frame_parser \<Rightarrow> 's \<Rightarrow> frame_parser \<times> 's" where
  "beginFrame cb p s =
     (let cur = decodeHeader (fHeader p);
          p = p\<lparr>fCurrent := cur, fPayloadN := 0, fState := payloadStart, fPrefixN := 0,
                fPrefixNeed := 0, fPadLength := 0, fContentN := 0\<rparr>
      in
      if MaxFrameSize (fLimits p) < fhLength cur then (frameFail FCodeFrameTooLarge p, s)
      else if fContinuationStream p \<noteq> 0 \<and>
          (fhType cur \<noteq> FrameContinuation \<or> fhStreamID cur \<noteq> fContinuationStream p)
      then (frameFail FCodeInvalidContinuation p, s)
      else
        let p = (if fContinuationStream p \<noteq> 0
                 then p\<lparr>fContinuationCount := fContinuationCount p + 1\<rparr> else p)
        in
        if fContinuationStream p \<noteq> 0 \<and> MaxContinuationFrames (fLimits p) < fContinuationCount p
        then (frameFail FCodeTooManyContinuations p, s)
        else if fContinuationStream p = 0 \<and> fhType cur = FrameContinuation
        then (frameFail FCodeInvalidContinuation p, s)
        else
          let p = (if fhType cur = FrameHeaders \<and> fContinuationStream p = 0
                   then p\<lparr>fHeaderBlockEndStream := Has (fhFlags cur) FlagEndStream\<rparr> else p)
          in
          if validateFrameHeader cur \<noteq> FCodeNone then (frameFail (validateFrameHeader cur) p, s)
          else fire cb (\<lambda>t. map_option (\<lambda>f. f cur) (fcFrameBegin t)) p s)"


subsection \<open>Payloads\<close>

text \<open>The position in the input is the unread suffix. A payload function returns the parser, the
  client's state, the unread suffix, whether the frame is complete, and a code.\<close>

type_synonym 's payload_result = "frame_parser \<times> 's \<times> bytes \<times> bool \<times> frame_code"

definition frameDone :: "frame_parser \<Rightarrow> bool" where
  "frameDone p \<longleftrightarrow> fPayloadN p = fhLength (fCurrent p)"

definition copyPrefix :: "frame_parser \<Rightarrow> bytes \<Rightarrow> frame_parser \<times> bytes" where
  "copyPrefix p src =
     (let need = unat (fPrefixNeed p - fPrefixN p); count = min need (length src)
      in (p\<lparr>fPrefix := copy_at (fPrefix p) (unat (fPrefixN p)) (take count src),
            fPrefixN := fPrefixN p + of_nat count,
            fPayloadN := fPayloadN p + of_nat count\<rparr>, drop count src))"

definition decodePriority :: "bytes \<Rightarrow> priority_param" where
  "decodePriority src =
     (let dependency = Uint32 (take 4 src)
      in \<lparr>StreamDependency = dependency AND 0x7fffffff,
          Exclusive = (drop_bit 31 dependency \<noteq> 0), Weight = src ! 4\<rparr>)"

text \<open>The end of the content, and the octets of the padding.\<close>

definition skipPadding :: "frame_parser \<Rightarrow> bytes \<Rightarrow> frame_parser \<times> bytes" where
  "skipPadding p src =
     (let p = (if fState p = payloadContent \<and> fContentN p = 0 then p\<lparr>fState := payloadPadding\<rparr> else p)
      in
      if fState p = payloadPadding \<and> src \<noteq> [] then
        let count = min (unat (fhLength (fCurrent p) - fPayloadN p)) (length src)
        in (p\<lparr>fPayloadN := fPayloadN p + of_nat count\<rparr>, drop count src)
      else (p, src))"

text \<open>The first octet of a padded payload; the boolean says that the padding is too long.\<close>

definition readPadLength :: "u32 \<Rightarrow> frame_parser \<Rightarrow> bytes \<Rightarrow> frame_parser \<times> bytes \<times> bool" where
  "readPadLength minimum p src =
     (if Has (fhFlags (fCurrent p)) FlagPadded then
        let p = p\<lparr>fPadLength := ucast (hd src), fPayloadN := fPayloadN p + 1\<rparr>
        in if fhLength (fCurrent p) - fPayloadN p - minimum < fPadLength p
           then (frameFail FCodeInvalidPadding p, tl src, True)
           else (p, tl src, False)
      else (p, src, False))"

definition beginContent :: "frame_parser \<Rightarrow> frame_parser" where
  "beginContent p =
     p\<lparr>fContentN := fhLength (fCurrent p) - fPayloadN p - fPadLength p, fState := payloadContent\<rparr>"

definition deliverData ::
  "'s frame_callbacks option \<Rightarrow> frame_parser \<Rightarrow> 's \<Rightarrow> bytes \<Rightarrow> frame_parser \<times> 's \<times> bytes" where
  "deliverData cb p s src =
     (if fState p = payloadContent \<and> fContentN p \<noteq> 0 \<and> src \<noteq> [] then
        let count = min (unat (fContentN p)) (length src);
            (p, s) = fire cb (\<lambda>t. map_option (\<lambda>f. f (fhStreamID (fCurrent p)) (take count src)
                       (Has (fhFlags (fCurrent p)) FlagEndStream)) (fcData t)) p s
        in (p\<lparr>fContentN := fContentN p - of_nat count, fPayloadN := fPayloadN p + of_nat count\<rparr>,
            s, drop count src)
      else (p, s, src))"

definition parseData ::
  "'s frame_callbacks option \<Rightarrow> frame_parser \<Rightarrow> 's \<Rightarrow> bytes \<Rightarrow> 's payload_result" where
  "parseData cb p s src =
     (case (if fState p = payloadStart
            then (case readPadLength 0 p src of (p, src, bad) \<Rightarrow>
                    (if bad then p else beginContent p, src, bad))
            else (p, src, False)) of (p, src, bad) \<Rightarrow>
      if bad then (p, s, src, False, fCode p)
      else
        (case deliverData cb p s src of (p, s, src) \<Rightarrow>
         (case skipPadding p src of (p, src) \<Rightarrow> (p, s, src, frameDone p, FCodeNone))))"

definition parseHeaderFragment ::
  "'s frame_callbacks option \<Rightarrow> frame_parser \<Rightarrow> 's \<Rightarrow> bytes \<Rightarrow> u32 \<Rightarrow> 's payload_result" where
  "parseHeaderFragment cb p s src remaining =
     (let count = min (unat remaining) (length src) in
      if count = 0 then (p, s, src, remaining = 0, FCodeNone)
      else if MaxHeaderBlockBytes (fLimits p) < fHeaderBlockBytes p + of_nat count
      then let p = frameFail FCodeHeaderBlockTooLarge p in (p, s, src, False, fCode p)
      else
        let (p, s) = fire cb (\<lambda>t. map_option (\<lambda>f. f (fhStreamID (fCurrent p)) (take count src))
                       (fcHeaderBlock t)) p s;
            p = p\<lparr>fHeaderBlockBytes := fHeaderBlockBytes p + of_nat count,
                  fPayloadN := fPayloadN p + of_nat count\<rparr>;
            p = (if fState p = payloadContent then p\<lparr>fContentN := fContentN p - of_nat count\<rparr> else p)
        in (p, s, drop count src, of_nat count = remaining, FCodeNone))"

definition parseHeaderContentAndPadding ::
  "'s frame_callbacks option \<Rightarrow> frame_parser \<Rightarrow> 's \<Rightarrow> bytes \<Rightarrow> 's payload_result" where
  "parseHeaderContentAndPadding cb p s src =
     (case (if fState p = payloadContent \<and> fContentN p \<noteq> 0 \<and> src \<noteq> []
            then (case parseHeaderFragment cb p s src (fContentN p) of (p, s, src, finished, c) \<Rightarrow>
                    if c \<noteq> FCodeNone then (p, s, src, True, c)
                    else if \<not> finished then (p, s, src, True, FCodeNone)
                    else (p\<lparr>fContentN := 0, fState := payloadPadding\<rparr>, s, src, False, FCodeNone))
            else (p, s, src, False, FCodeNone)) of (p, s, src, stop, c) \<Rightarrow>
      if stop then (p, s, src, False, c)
      else (case skipPadding p src of (p, src) \<Rightarrow> (p, s, src, frameDone p, FCodeNone)))"

definition startHeaders :: "frame_parser \<Rightarrow> bytes \<Rightarrow> frame_parser \<times> bytes \<times> bool" where
  "startHeaders p src =
     (case readPadLength (if Has (fhFlags (fCurrent p)) FlagPriority then 5 else 0) p src of
        (p, src, bad) \<Rightarrow>
          (if bad then p
           else if Has (fhFlags (fCurrent p)) FlagPriority
           then p\<lparr>fPrefixNeed := 5, fState := payloadPrefix\<rparr>
           else beginContent p, src, bad))"

definition parseHeadersFrame ::
  "'s frame_callbacks option \<Rightarrow> frame_parser \<Rightarrow> 's \<Rightarrow> bytes \<Rightarrow> 's payload_result" where
  "parseHeadersFrame cb p s src =
     (case (if fState p = payloadStart then startHeaders p src else (p, src, False)) of
        (p, src, bad) \<Rightarrow>
      if bad then (p, s, src, False, fCode p)
      else if fState p = payloadPrefix then
        (case copyPrefix p src of (p, src) \<Rightarrow>
         if fPrefixN p < fPrefixNeed p then (p, s, src, False, FCodeNone)
         else
           let priority = decodePriority (take 5 (fPrefix p)) in
           if StreamDependency priority = fhStreamID (fCurrent p)
           then let p = frameFail FCodeInvalidPriority p in (p, s, src, False, fCode p)
           else
             (case fire cb (\<lambda>t. map_option (\<lambda>f. f (fhStreamID (fCurrent p)) priority) (fcPriority t)) p s
              of (p, s) \<Rightarrow> parseHeaderContentAndPadding cb (beginContent p) s src))
      else parseHeaderContentAndPadding cb p s src)"

definition startPushPromise :: "frame_parser \<Rightarrow> bytes \<Rightarrow> frame_parser \<times> bytes \<times> bool" where
  "startPushPromise p src =
     (case readPadLength 4 p src of (p, src, bad) \<Rightarrow>
        (if bad then p else p\<lparr>fPrefixNeed := 4, fState := payloadPrefix\<rparr>, src, bad))"

definition parsePushPromise ::
  "'s frame_callbacks option \<Rightarrow> frame_parser \<Rightarrow> 's \<Rightarrow> bytes \<Rightarrow> 's payload_result" where
  "parsePushPromise cb p s src =
     (case (if fState p = payloadStart then startPushPromise p src else (p, src, False)) of
        (p, src, bad) \<Rightarrow>
      if bad then (p, s, src, False, fCode p)
      else if fState p = payloadPrefix then
        (case copyPrefix p src of (p, src) \<Rightarrow>
         if fPrefixN p < fPrefixNeed p then (p, s, src, False, FCodeNone)
         else
           let promised = Uint32 (take 4 (fPrefix p)) AND 0x7fffffff in
           if promised = 0
           then let p = frameFail FCodeInvalidStreamID p in (p, s, src, False, fCode p)
           else
             (case fire cb (\<lambda>t. map_option (\<lambda>f. f (fhStreamID (fCurrent p)) promised)
                     (fcPushPromise t)) p s
              of (p, s) \<Rightarrow> parseHeaderContentAndPadding cb (beginContent p) s src))
      else parseHeaderContentAndPadding cb p s src)"

definition parseFixed ::
  "frame_parser \<Rightarrow> 's \<Rightarrow> bytes \<Rightarrow> u8 \<Rightarrow> 's payload_result" where
  "parseFixed p s src need =
     (case copyPrefix (p\<lparr>fPrefixNeed := need\<rparr>) src of (p, src) \<Rightarrow>
        (p, s, src, frameDone p, FCodeNone))"

definition validSetting :: "setting_t \<Rightarrow> bool" where
  "validSetting st =
     (if settingID st = SettingEnablePush \<or> settingID st = SettingEnableConnectProtocol \<or>
         settingID st = SettingNoRFC7540Priorities then settingValue st \<le> 1
      else if settingID st = SettingInitialWindowSize then settingValue st \<le> 0x7fffffff
      else if settingID st = SettingMaxFrameSize
      then defaultMaxFrameSize \<le> settingValue st \<and> settingValue st \<le> maxFrameSize
      else True)"

definition decodeSetting :: "bytes \<Rightarrow> setting_t" where
  "decodeSetting src = \<lparr>settingID = Uint16 (take 2 src), settingValue = Uint32 (take 4 (drop 2 src))\<rparr>"

text \<open>The loop over the parameters; the fuel bounds its iterations.\<close>

fun settingsLoop ::
  "nat \<Rightarrow> 's frame_callbacks option \<Rightarrow> frame_parser \<Rightarrow> 's \<Rightarrow> bytes \<Rightarrow> 's payload_result option" where
  "settingsLoop 0 cb p s src = None"
| "settingsLoop (Suc fuel) cb p s src =
     (if src \<noteq> [] \<and> fPayloadN p < fhLength (fCurrent p) then
        (case copyPrefix p src of (p, src) \<Rightarrow>
         if fPrefixN p < 6 then Some (p, s, src, frameDone p, FCodeNone)
         else
           let setting = decodeSetting (fPrefix p) in
           if \<not> validSetting setting
           then let p = frameFail FCodeInvalidSetting p in Some (p, s, src, False, fCode p)
           else
             (case fire cb (\<lambda>t. map_option (\<lambda>f. f setting) (fcSetting t)) p s of (p, s) \<Rightarrow>
                settingsLoop fuel cb (p\<lparr>fPrefixN := 0\<rparr>) s src))
      else Some (p, s, src, frameDone p, FCodeNone))"

definition parseSettings ::
  "'s frame_callbacks option \<Rightarrow> frame_parser \<Rightarrow> 's \<Rightarrow> bytes \<Rightarrow> 's payload_result option" where
  "parseSettings cb p s src = settingsLoop (Suc (length src)) cb (p\<lparr>fPrefixNeed := 6\<rparr>) s src"

definition parseGoAway ::
  "'s frame_callbacks option \<Rightarrow> frame_parser \<Rightarrow> 's \<Rightarrow> bytes \<Rightarrow> 's payload_result" where
  "parseGoAway cb p s src =
     (case (if fPayloadN p < 8 then copyPrefix (p\<lparr>fPrefixNeed := 8\<rparr>) src else (p, src)) of
        (q, src') \<Rightarrow>
      if fPayloadN p < 8 \<and> fPrefixN q < 8 then (q, s, src', False, FCodeNone)
      else if fPayloadN q < fhLength (fCurrent q) \<and> src' \<noteq> [] then
        let count = min (unat (fhLength (fCurrent q) - fPayloadN q)) (length src');
            (q, s) = fire cb (\<lambda>t. map_option (\<lambda>f. f (take count src')) (fcGoAwayDebug t)) q s;
            q = q\<lparr>fPayloadN := fPayloadN q + of_nat count\<rparr>
        in (q, s, drop count src', frameDone q, FCodeNone)
      else (q, s, src', frameDone q, FCodeNone))"

definition parseUnknown ::
  "'s frame_callbacks option \<Rightarrow> frame_parser \<Rightarrow> 's \<Rightarrow> bytes \<Rightarrow> 's payload_result" where
  "parseUnknown cb p s src =
     (let remaining = min (unat (fhLength (fCurrent p) - fPayloadN p)) (length src);
          (p, s) = fire cb (\<lambda>t. map_option (\<lambda>f. f (fCurrent p) (take remaining src)) (fcUnknown t)) p s;
          p = p\<lparr>fPayloadN := fPayloadN p + of_nat remaining\<rparr>
      in (p, s, drop remaining src, frameDone p, FCodeNone))"

text \<open>The switch over the frame types.\<close>

definition parseByType ::
  "'s frame_callbacks option \<Rightarrow> frame_parser \<Rightarrow> 's \<Rightarrow> bytes \<Rightarrow> 's payload_result option" where
  "parseByType cb p s src =
     (let typ = fhType (fCurrent p) in
      if typ = FrameData then Some (parseData cb p s src)
      else if typ = FrameHeaders then Some (parseHeadersFrame cb p s src)
      else if typ = FramePriority then Some (parseFixed p s src 5)
      else if typ = FrameRSTStream then Some (parseFixed p s src 4)
      else if typ = FrameSettings then parseSettings cb p s src
      else if typ = FramePushPromise then Some (parsePushPromise cb p s src)
      else if typ = FramePing then Some (parseFixed p s src 8)
      else if typ = FrameGoAway then Some (parseGoAway cb p s src)
      else if typ = FrameWindowUpdate then Some (parseFixed p s src 4)
      else if typ = FrameContinuation
      then Some (parseHeaderFragment cb p s src (fhLength (fCurrent p) - fPayloadN p))
      else Some (parseUnknown cb p s src))"

fun payloadLoop ::
  "nat \<Rightarrow> 's frame_callbacks option \<Rightarrow> frame_parser \<Rightarrow> 's \<Rightarrow> bytes \<Rightarrow> 's payload_result option" where
  "payloadLoop 0 cb p s src = None"
| "payloadLoop (Suc fuel) cb p s src =
     (if src \<noteq> [] \<and> fPayloadN p < fhLength (fCurrent p) then
        (case parseByType cb p s src of
           None \<Rightarrow> None
         | Some (p, s, src, finished, c) \<Rightarrow>
             if c \<noteq> FCodeNone \<or> finished then Some (p, s, src, finished, c)
             else payloadLoop fuel cb p s src)
      else Some (p, s, src, frameDone p, FCodeNone))"

definition parsePayload ::
  "'s frame_callbacks option \<Rightarrow> frame_parser \<Rightarrow> 's \<Rightarrow> bytes \<Rightarrow> 's payload_result option" where
  "parsePayload cb p s src = payloadLoop (Suc (length src)) cb p s src"

subsection \<open>The end of a frame\<close>

text \<open>The part that depends on the type, and the end of a header block. The code of
  \<open>finishFrame\<close> is again \<open>fCode\<close> of the parser it leaves; the boolean says that it
  returned early.\<close>

definition finishPayload ::
  "'s frame_callbacks option \<Rightarrow> frame_parser \<Rightarrow> 's \<Rightarrow> frame_parser \<times> 's \<times> bool" where
  "finishPayload cb p s =
     (let h = fCurrent p; typ = fhType h in
      if typ = FramePriority then
        (let priority = decodePriority (take 5 (fPrefix p)) in
         if StreamDependency priority = fhStreamID h
         then (frameFail FCodeInvalidPriority p, s, True)
         else case fire cb (\<lambda>t. map_option (\<lambda>f. f (fhStreamID h) priority) (fcPriority t)) p s of
             (p, s) \<Rightarrow> (p, s, False))
      else if typ = FrameRSTStream then
        (case fire cb (\<lambda>t. map_option (\<lambda>f. f (fhStreamID h) (Uint32 (take 4 (fPrefix p))))
                (fcRSTStream t)) p s of (p, s) \<Rightarrow> (p, s, False))
      else if typ = FrameSettings then
        (case fire cb (\<lambda>t. map_option (\<lambda>f. f (Has (fhFlags h) FlagACK)) (fcSettingsEnd t)) p s of
           (p, s) \<Rightarrow> (p, s, False))
      else if typ = FramePing then
        (case fire cb (\<lambda>t. map_option (\<lambda>f. f (fPrefix p) (Has (fhFlags h) FlagACK)) (fcPing t)) p s of
           (p, s) \<Rightarrow> (p, s, False))
      else if typ = FrameGoAway then
        (case fire cb (\<lambda>t. map_option (\<lambda>f. f (Uint32 (take 4 (fPrefix p)) AND 0x7fffffff)
                (Uint32 (take 4 (drop 4 (fPrefix p))))) (fcGoAway t)) p s of (p, s) \<Rightarrow> (p, s, False))
      else if typ = FrameWindowUpdate then
        (let increment = Uint32 (take 4 (fPrefix p)) AND 0x7fffffff in
         if increment = 0 then (frameFail FCodeInvalidWindowUpdate p, s, True)
         else case fire cb (\<lambda>t. map_option (\<lambda>f. f (fhStreamID h) increment) (fcWindowUpdate t)) p s of
             (p, s) \<Rightarrow> (p, s, False))
      else (p, s, False))"

definition finishHeaderBlock ::
  "'s frame_callbacks option \<Rightarrow> frame_parser \<Rightarrow> 's \<Rightarrow> frame_parser \<times> 's" where
  "finishHeaderBlock cb p s =
     (let h = fCurrent p in
      if fhType h = FrameHeaders \<or> fhType h = FramePushPromise \<or> fhType h = FrameContinuation then
        if Has (fhFlags h) FlagEndHeaders then
          (case fire cb (\<lambda>t. map_option (\<lambda>f. f (fhStreamID h) (fHeaderBlockEndStream p))
                  (fcHeaderBlockEnd t)) p s of (p, s) \<Rightarrow>
             (p\<lparr>fContinuationStream := 0, fContinuationCount := 0, fHeaderBlockBytes := 0,
                fHeaderBlockEndStream := False\<rparr>, s))
        else if fContinuationStream p = 0
        then (p\<lparr>fContinuationStream := fhStreamID h, fContinuationCount := 0\<rparr>, s)
        else (p, s)
      else (p, s))"

definition finishFrame ::
  "'s frame_callbacks option \<Rightarrow> frame_parser \<Rightarrow> 's \<Rightarrow> frame_parser \<times> 's" where
  "finishFrame cb p s =
     (let h = fCurrent p in
      case finishPayload cb p s of (p, s, early) \<Rightarrow>
      if early then (p, s)
      else
        (case finishHeaderBlock cb p s of (p, s) \<Rightarrow>
         (case fire cb (\<lambda>t. map_option (\<lambda>f. f h) (fcFrameComplete t)) p s of (p, s) \<Rightarrow>
          if fCode p \<noteq> FCodeNone then (p, s)
          else (p\<lparr>fHeaderN := 0, fCurrent := zero_header, fPayloadN := 0, fPrefixN := 0,
                  fPrefixNeed := 0, fState := payloadStart, fPaused := fPauseAfterFrame p\<rparr>, s))))"

subsection \<open>Parsing\<close>

text \<open>One iteration of the loop of \<open>runParse\<close>: the boolean says that the loop returns.\<close>

definition copyHeader :: "frame_parser \<Rightarrow> bytes \<Rightarrow> frame_parser \<times> bytes" where
  "copyHeader p src =
     (let copied = min (9 - unat (fHeaderN p)) (length src)
      in (p\<lparr>fHeader := copy_at (fHeader p) (unat (fHeaderN p)) src,
            fHeaderN := fHeaderN p + of_nat copied\<rparr>, drop copied src))"

definition framePayloadStep ::
  "'s frame_callbacks option \<Rightarrow> frame_parser \<Rightarrow> 's \<Rightarrow> bytes \<Rightarrow>
     (frame_parser \<times> 's \<times> bytes \<times> bool \<times> frame_code) option" where
  "framePayloadStep cb p s src =
     (case parsePayload cb p s src of
        None \<Rightarrow> None
      | Some (p, s, src, finished, c) \<Rightarrow>
          if c \<noteq> FCodeNone then Some (p, s, src, True, c)
          else if fCode p \<noteq> FCodeNone then Some (p, s, src, True, fCode p)
          else if \<not> finished then Some (p, s, src, True, FCodeNone)
          else (case finishFrame cb p s of (p, s) \<Rightarrow> Some (p, s, src, fCode p \<noteq> FCodeNone, fCode p)))"

definition frameStep ::
  "'s frame_callbacks option \<Rightarrow> frame_parser \<Rightarrow> 's \<Rightarrow> bytes \<Rightarrow>
     (frame_parser \<times> 's \<times> bytes \<times> bool \<times> frame_code) option" where
  "frameStep cb p s src =
     (if fPaused p then Some (p, s, src, True, FCodeNone)
      else if fHeaderN p < 9 then
        (case copyHeader p src of (p, src) \<Rightarrow>
         if fHeaderN p < 9 then Some (p, s, src, True, FCodeNone)
         else
           (case beginFrame cb p s of (p, s) \<Rightarrow>
            if fCode p \<noteq> FCodeNone then Some (p, s, src, True, fCode p)
            else if fhLength (fCurrent p) = 0
            then (case finishFrame cb p s of (p, s) \<Rightarrow>
                    Some (p, s, src, fCode p \<noteq> FCodeNone, fCode p))
            else framePayloadStep cb p s src))
      else framePayloadStep cb p s src)"

fun frameLoop ::
  "nat \<Rightarrow> 's frame_callbacks option \<Rightarrow> frame_parser \<Rightarrow> 's \<Rightarrow> bytes \<Rightarrow>
     (frame_parser \<times> 's \<times> bytes \<times> frame_code) option" where
  "frameLoop fuel cb p s [] = Some (p, s, [], FCodeNone)"
| "frameLoop 0 cb p s (b # bs) = None"
| "frameLoop (Suc fuel) cb p s (b # bs) =
     (case frameStep cb p s (b # bs) of
        None \<Rightarrow> None
      | Some (p, s, src, stop, c) \<Rightarrow>
          if stop then Some (p, s, src, c) else frameLoop fuel cb p s src)"

text \<open>The result is the parser, the client's state, the number of octets consumed and the code.
  \<open>None\<close> would be a loop that does not end within one iteration per octet and one more.\<close>

definition frameRunParse ::
  "bool \<Rightarrow> 's frame_callbacks option \<Rightarrow> frame_parser \<Rightarrow> 's \<Rightarrow> bytes \<Rightarrow>
     (frame_parser \<times> 's \<times> nat \<times> frame_code) option" where
  "frameRunParse pause cb p s src =
     (if fParsing p then let p = frameFail FCodeReentrantCall p in Some (p, s, 0, fCode p)
      else if fCode p \<noteq> FCodeNone then Some (p, s, 0, fCode p)
      else
        map_option
          (\<lambda>(p, s, rest, c). (p\<lparr>fParsing := False, fPauseAfterFrame := False\<rparr>, s,
             length src - length rest, c))
          (frameLoop (Suc (length src)) cb
             (p\<lparr>fParsing := True, fPauseAfterFrame := pause, fPaused := False\<rparr>) s src))"

definition frameParse ::
  "'s frame_callbacks option \<Rightarrow> frame_parser \<Rightarrow> 's \<Rightarrow> bytes \<Rightarrow>
     (frame_parser \<times> 's \<times> nat \<times> frame_code) option" where
  "frameParse cb p s src = frameRunParse False cb p s src"

definition frameParseOne ::
  "'s frame_callbacks option \<Rightarrow> frame_parser \<Rightarrow> 's \<Rightarrow> bytes \<Rightarrow>
     (frame_parser \<times> 's \<times> nat \<times> bool \<times> frame_code) option" where
  "frameParseOne cb p s src =
     map_option (\<lambda>(p, s, n, c). (p, s, n, fPaused p, c)) (frameRunParse True cb p s src)"

definition frameFinish :: "frame_parser \<Rightarrow> frame_parser \<times> frame_code" where
  "frameFinish p =
     (if fParsing p then let p = frameFail FCodeReentrantCall p in (p, fCode p)
      else if fCode p \<noteq> FCodeNone then (p, fCode p)
      else if fHeaderN p \<noteq> 0 \<or> fContinuationStream p \<noteq> 0
      then let p = frameFail FCodeUnexpectedEOF p in (p, fCode p)
      else (p, FCodeNone))"

subsection \<open>Writing\<close>

definition encodeHeader :: "frame_header \<Rightarrow> bytes" where
  "encodeHeader h =
     [ucast (drop_bit 16 (fhLength h)), ucast (drop_bit 8 (fhLength h)), ucast (fhLength h),
      fhType h, fhFlags h] @ PutUint32 (fhStreamID h)"

definition AppendFrame :: "bytes \<Rightarrow> frame_header \<Rightarrow> bytes \<Rightarrow> bytes \<times> frame_code" where
  "AppendFrame dst h payload =
     (if uint maxFrameSize < int (length payload) \<or>
         fhLength h \<noteq> 0 \<and> fhLength h \<noteq> of_nat (length payload) \<or> 0x7fffffff < fhStreamID h
      then (dst, FCodeInvalidFrameSize)
      else
        let h = h\<lparr>fhLength := of_nat (length payload)\<rparr>; c = validateFrameHeader h in
        if c \<noteq> FCodeNone then (dst, c)
        else (dst @ encodeHeader h @ payload, FCodeNone))"

end
