(* ===== verification/H2_Hpack.thy ===== *)
theory H2_Hpack
  imports H2_Frame
begin

text \<open>
  The bounded HPACK decoder (src/http2/hpack.go). The codec itself, golang.org/x/net/http2/hpack, is
  not part of the sources: its decoder and encoder are the fields of a record of functions on their
  own states, \<open>'d\<close> and \<open>'e\<close>. The decoder's callback is called once for each field that a
  write yields, in order; the encoder turns a field into the octets of one write.
\<close>

subsection \<open>The external codec\<close>

record header_field =
  hfName :: bytes
  hfValue :: bytes
  hfSensitive :: bool

text \<open>An error of the codec is its text.\<close>

record ('d, 'e) codec =
  hpNewDecoder :: "u32 \<Rightarrow> 'd"
  hpSetAllowedMaxDynamicTableSize :: "u32 \<Rightarrow> 'd \<Rightarrow> 'd"
  hpSetMaxStringLength :: "u64 \<Rightarrow> 'd \<Rightarrow> 'd"
  hpDecoderWrite :: "bytes \<Rightarrow> 'd \<Rightarrow> 'd \<times> header_field list \<times> nat \<times> string option"
  hpDecoderClose :: "'d \<Rightarrow> 'd \<times> string option"
  hpNewEncoder :: 'e
  hpSetMaxDynamicTableSizeLimit :: "u32 \<Rightarrow> 'e \<Rightarrow> 'e"
  hpSetMaxDynamicTableSize :: "u32 \<Rightarrow> 'e \<Rightarrow> 'e"
  hpWriteField :: "header_field \<Rightarrow> 'e \<Rightarrow> 'e \<times> bytes"

subsection \<open>The bounded decoder\<close>

datatype hpack_error =
  ErrHeaderDecoderState | ErrHeaderListTooLarge | ErrTooManyHeaders | HpackError string

record header_limits =
  MaxDynamicTableBytes :: u32
  MaxFieldBytes :: u32
  MaxHeaderListBytes :: u64
  hlMaxHeaders :: u32

definition defaultMaxDynamicTableBytes :: u32 where "defaultMaxDynamicTableBytes = 4096"
definition defaultMaxFieldBytes :: u32 where "defaultMaxFieldBytes = 16384"
definition defaultMaxHeaderListBytes :: u64 where "defaultMaxHeaderListBytes = 65536"
definition defaultMaxHeaders :: u32 where "defaultMaxHeaders = 256"

definition headerNormalized :: "header_limits \<Rightarrow> header_limits" where
  "headerNormalized l =
     (let l = (if MaxDynamicTableBytes l = 0
               then l\<lparr>MaxDynamicTableBytes := defaultMaxDynamicTableBytes\<rparr> else l);
          l = (if MaxFieldBytes l = 0 then l\<lparr>MaxFieldBytes := defaultMaxFieldBytes\<rparr> else l);
          l = (if MaxHeaderListBytes l = 0
               then l\<lparr>MaxHeaderListBytes := defaultMaxHeaderListBytes\<rparr> else l)
      in if hlMaxHeaders l = 0 then l\<lparr>hlMaxHeaders := defaultMaxHeaders\<rparr> else l)"

record 'd header_decoder =
  hdDecoder :: 'd
  hdLimits :: header_limits
  hdActive :: bool
  hdFields :: u32
  hdListSize :: u64
  hdErr :: "hpack_error option"

text \<open>On a 64-bit platform the clamp to the largest \<open>int\<close> never applies to a 32-bit limit.\<close>

definition maxInt :: u64 where "maxInt = drop_bit 1 (NOT 0)"

definition NewHeaderDecoder :: "('d, 'e) codec \<Rightarrow> header_limits \<Rightarrow> 'd header_decoder" where
  "NewHeaderDecoder hp l =
     (let l = headerNormalized l;
          d = hpNewDecoder hp (MaxDynamicTableBytes l);
          d = hpSetAllowedMaxDynamicTableSize hp (MaxDynamicTableBytes l) d;
          maxStringBytes = (ucast (MaxFieldBytes l) :: u64);
          maxStringBytes = (if maxInt < maxStringBytes then maxInt else maxStringBytes)
      in \<lparr>hdDecoder = hpSetMaxStringLength hp maxStringBytes d, hdLimits = l, hdActive = False,
          hdFields = 0, hdListSize = 0, hdErr = None\<rparr>)"

definition BeginBlock :: "'d header_decoder \<Rightarrow> 'd header_decoder \<times> hpack_error option" where
  "BeginBlock d =
     (if hdActive d then (d, Some ErrHeaderDecoderState)
      else (d\<lparr>hdActive := True, hdFields := 0, hdListSize := 0, hdErr := None\<rparr>, None))"

text \<open>The accounting of one field. The callback \<open>emit\<close> changes the state of the client.\<close>

definition emitField ::
  "(header_field \<Rightarrow> 's \<Rightarrow> 's) option \<Rightarrow> header_field \<Rightarrow> 'd header_decoder \<times> 's \<Rightarrow> 'd header_decoder \<times> 's" where
  "emitField emit f ds =
     (case ds of (d, s) \<Rightarrow>
      if hdErr d \<noteq> None then (d, s)
      else
        let d = d\<lparr>hdFields := hdFields d + 1\<rparr> in
        if hlMaxHeaders (hdLimits d) < hdFields d then (d\<lparr>hdErr := Some ErrTooManyHeaders\<rparr>, s)
        else
          let size = of_nat (length (hfName f)) + of_nat (length (hfValue f)) + 32 in
          if MaxHeaderListBytes (hdLimits d) - hdListSize d < size
          then (d\<lparr>hdErr := Some ErrHeaderListTooLarge\<rparr>, s)
          else (d\<lparr>hdListSize := hdListSize d + size\<rparr>, (case emit of None \<Rightarrow> s | Some e \<Rightarrow> e f s)))"

definition decoderWrite ::
  "('d, 'e) codec \<Rightarrow> (header_field \<Rightarrow> 's \<Rightarrow> 's) option \<Rightarrow> bytes \<Rightarrow> 'd header_decoder \<Rightarrow> 's \<Rightarrow>
     'd header_decoder \<times> 's \<times> nat \<times> hpack_error option" where
  "decoderWrite hp emit src d s =
     (if \<not> hdActive d then (d, s, 0, Some ErrHeaderDecoderState)
      else if hdErr d \<noteq> None then (d, s, 0, hdErr d)
      else
        (case hpDecoderWrite hp src (hdDecoder d) of (x, emitted, n, err) \<Rightarrow>
         (case fold (emitField emit) emitted (d\<lparr>hdDecoder := x\<rparr>, s) of (d, s) \<Rightarrow>
            if hdErr d \<noteq> None then (d, s, n, hdErr d)
            else (d, s, n, map_option HpackError err))))"

definition EndBlock :: "('d, 'e) codec \<Rightarrow> 'd header_decoder \<Rightarrow> 'd header_decoder \<times> hpack_error option" where
  "EndBlock hp d =
     (if \<not> hdActive d then (d, Some ErrHeaderDecoderState)
      else
        (case hpDecoderClose hp (hdDecoder d) of (x, err) \<Rightarrow>
           let d = d\<lparr>hdActive := False, hdDecoder := x\<rparr> in
           (d, if hdErr d \<noteq> None then hdErr d else map_option HpackError err)))"

definition SetAllowedDynamicTableBytes ::
  "('d, 'e) codec \<Rightarrow> u32 \<Rightarrow> 'd header_decoder \<Rightarrow> 'd header_decoder \<times> hpack_error option" where
  "SetAllowedDynamicTableBytes hp sz d =
     (if hdActive d \<or> MaxDynamicTableBytes (hdLimits d) < sz then (d, Some ErrHeaderDecoderState)
      else (d\<lparr>hdDecoder := hpSetAllowedMaxDynamicTableSize hp sz (hdDecoder d)\<rparr>, None))"

subsection \<open>What a block can yield\<close>

text \<open>The size of a list of fields by the formula of RFC 7541.\<close>

definition list_size :: "header_field list \<Rightarrow> nat" where
  "list_size fs = sum_list (map (\<lambda>f. length (hfName f) + length (hfValue f) + 32) fs)"

text \<open>The decoder with its client, an accumulator of the fields of the block so far: the counters are
  those of the fields that were passed on, and within the limits.\<close>

definition block_inv :: "'d header_decoder \<times> header_field list \<Rightarrow> bool" where
  "block_inv ds \<longleftrightarrow>
     (case ds of (d, fs) \<Rightarrow>
        unat (hdListSize d) = list_size fs \<and> hdListSize d \<le> MaxHeaderListBytes (hdLimits d) \<and>
        (hdErr d = None \<longrightarrow> hdFields d = of_nat (length fs)) \<and>
        (length fs \<le> unat (hlMaxHeaders (hdLimits d)) \<or> hlMaxHeaders (hdLimits d) = 0xffffffff))"

text \<open>The length of a Go string is an \<open>int\<close>.\<close>

definition go_field :: "header_field \<Rightarrow> bool" where
  "go_field f \<longleftrightarrow> length (hfName f) < 2 ^ 62 \<and> length (hfValue f) < 2 ^ 62"

definition collect :: "(header_field \<Rightarrow> header_field list \<Rightarrow> header_field list) option" where
  "collect = Some (\<lambda>f fs. fs @ [f])"

lemma emitField_limits [simp]:
  "hdLimits (fst (emitField emit f ds)) = hdLimits (fst ds)"
  by (simp add: emitField_def Let_def case_prod_beta)

lemma emitField_inv:
  assumes "go_field f" "block_inv ds"
  shows "block_inv (emitField collect f ds)"
proof -
  obtain d fs where ds: "ds = (d, fs)" by (cases ds)
  define size :: u64 where "size = of_nat (length (hfName f)) + of_nat (length (hfValue f)) + 32"
  define k where "k = length (hfName f) + length (hfValue f) + 32"
  have k: "k < 2 ^ 64" using assms(1) by (simp add: k_def go_field_def)
  have size: "size = of_nat k" by (simp add: size_def k_def)
  have usize: "unat size = k" unfolding size using k by (simp add: unat_of_nat take_bit_nat_eq_self)
  have inv: "unat (hdListSize d) = list_size fs" "hdListSize d \<le> MaxHeaderListBytes (hdLimits d)"
    "hdErr d = None \<Longrightarrow> hdFields d = of_nat (length fs)"
    "length fs \<le> unat (hlMaxHeaders (hdLimits d)) \<or> hlMaxHeaders (hdLimits d) = 0xffffffff"
    using assms(2) by (simp_all add: block_inv_def ds)
  show ?thesis
  proof (cases "hdErr d = None \<and> \<not> hlMaxHeaders (hdLimits d) < hdFields d + 1 \<and>
      \<not> MaxHeaderListBytes (hdLimits d) - hdListSize d < size")
    case False
    then show ?thesis using inv
      by (auto simp: ds emitField_def Let_def block_inv_def size_def [symmetric])
  next
    case True
    have n: "hdFields d + 1 \<le> hlMaxHeaders (hdLimits d)" and f1: "hdFields d + 1 = of_nat (length fs + 1)"
      using True inv(3) by (simp_all add: not_less)
    have f2: "length fs + 1 \<le> unat (hlMaxHeaders (hdLimits d)) \<or> hlMaxHeaders (hdLimits d) = 0xffffffff"
    proof (cases "hlMaxHeaders (hdLimits d) = 0xffffffff")
      case False
      then have "unat (hlMaxHeaders (hdLimits d)) < 0xffffffff"
        using unsigned_less [of "hlMaxHeaders (hdLimits d)", where 'a = nat] by (simp add: word_unat_eq_iff)
      moreover have "unat (of_nat k :: u32) = k" if "k < 2 ^ 32" for k using that by (simp add: unat_of_nat take_bit_nat_eq_self)
      from this [of "length fs + 1"] have "unat (of_nat (length fs + 1) :: u32) = length fs + 1" if "length fs + 1 < 2 ^ 32"
        using that .
      ultimately show ?thesis using n inv(4) False unfolding f1 word_le_nat_alt by simp
    qed simp
    have "unat (MaxHeaderListBytes (hdLimits d) - hdListSize d) =
        unat (MaxHeaderListBytes (hdLimits d)) - list_size fs"
      using inv(1,2) by (simp add: unat_minus_le word_le_nat_alt)
    then have le: "list_size fs + k \<le> unat (MaxHeaderListBytes (hdLimits d))"
      using True usize inv(1,2) by (simp add: not_less word_le_nat_alt) linarith
    moreover have "unat (MaxHeaderListBytes (hdLimits d)) < 2 ^ LENGTH(64)" by (rule unsigned_less)
    ultimately have "list_size fs + k < 2 ^ 64" by simp
    then have s1: "unat (hdListSize d + size) = list_size fs + k"
      using unat_plus_of_nat [of "hdListSize d" k] inv(1) by (simp add: size)
    have "emitField collect f ds =
        (d\<lparr>hdFields := hdFields d + 1, hdListSize := hdListSize d + size\<rparr>, fs @ [f])"
      using True by (simp add: ds emitField_def Let_def collect_def size_def)
    then show ?thesis
      using f1 f2 s1 le by (simp add: block_inv_def list_size_def k_def word_le_nat_alt)
  qed
qed

lemma fold_emit_inv:
  assumes "list_all go_field emitted" "block_inv ds"
  shows "block_inv (fold (emitField collect) emitted ds) \<and>
     hdLimits (fst (fold (emitField collect) emitted ds)) = hdLimits (fst ds)"
  using assms by (induction emitted arbitrary: ds) (simp_all add: emitField_inv)

text \<open>A block decoded in any number of writes.\<close>

fun decoderWrites ::
  "('d, 'e) codec \<Rightarrow> bytes list \<Rightarrow> 'd header_decoder \<times> header_field list \<Rightarrow> 'd header_decoder \<times> header_field list" where
  "decoderWrites hp [] ds = ds"
| "decoderWrites hp (src # srcs) (d, fs) =
     (case decoderWrite hp collect src d fs of (d, fs, n, err) \<Rightarrow> decoderWrites hp srcs (d, fs))"

lemma decoderWrites_inv:
  assumes "\<And>src d. list_all go_field (fst (snd (hpDecoderWrite hp src d)))"
    and "block_inv (d, fs)"
  shows "block_inv (decoderWrites hp srcs (d, fs)) \<and>
     hdLimits (fst (decoderWrites hp srcs (d, fs))) = hdLimits d"
  using assms(2)
proof (induction srcs arbitrary: d fs)
  case (Cons src srcs)
  obtain d1 fs1 n err where r: "decoderWrite hp collect src d fs = (d1, fs1, n, err)"
    by (rule prod_cases4)
  have "block_inv (d1, fs1) \<and> hdLimits d1 = hdLimits d"
  proof (cases "hdActive d \<and> hdErr d = None")
    case True
    obtain x emitted m e where w: "hpDecoderWrite hp src (hdDecoder d) = (x, emitted, m, e)"
      by (rule prod_cases4)
    have "list_all go_field emitted" using assms(1) [of src "hdDecoder d"] by (simp add: w)
    moreover have "block_inv (d\<lparr>hdDecoder := x\<rparr>, fs)" using Cons.prems(1) by (simp add: block_inv_def)
    ultimately have "block_inv (fold (emitField collect) emitted (d\<lparr>hdDecoder := x\<rparr>, fs)) \<and>
        hdLimits (fst (fold (emitField collect) emitted (d\<lparr>hdDecoder := x\<rparr>, fs))) = hdLimits d"
      using fold_emit_inv [of emitted "(d\<lparr>hdDecoder := x\<rparr>, fs)"] by simp
    then show ?thesis using r True w
      by (cases "fold (emitField collect) emitted (d\<lparr>hdDecoder := x\<rparr>, fs)")
        (simp add: decoderWrite_def split: if_splits)
  next
    case False
    then show ?thesis using r Cons.prems(1) by (auto simp: decoderWrite_def split: if_splits)
  qed
  then show ?case using Cons.IH [of d1 fs1] Cons.prems r by simp
qed simp

lemma list_size_length: "32 * length fs \<le> list_size fs"
  by (induction fs) (simp_all add: list_size_def)

text \<open>C14: a header block never yields more octets, by the formula of RFC 7541, than the configured number, and never more
  than the configured number of fields, whatever the peer sends, in however many fragments, and whatever the codec
  makes of it. The hypothesis on the codec is that the strings it yields have lengths below 2^62, as every Go string in an
  address space does. The one exception to the second bound is explicit: when the limit is the largest value of a
  \<open>uint32\<close>, the counter wraps around before it can exceed the limit; the number of fields is then still
  bounded unless the limit on the octets is 2^37 or more.\<close>

theorem header_block_bounded:
  assumes "\<And>src d. list_all go_field (fst (snd (hpDecoderWrite hp src d)))"
    and "BeginBlock d = (d1, None)" "decoderWrites hp srcs (d1, []) = (d2, fs)"
  shows "list_size fs \<le> unat (MaxHeaderListBytes (hdLimits d)) \<and>
     (length fs \<le> unat (hlMaxHeaders (hdLimits d)) \<or>
      hlMaxHeaders (hdLimits d) = 0xffffffff \<and> 2 ^ 37 \<le> unat (MaxHeaderListBytes (hdLimits d)))"
proof -
  have d1: "block_inv (d1, [])" "hdLimits d1 = hdLimits d"
    using assms(2) by (auto simp: BeginBlock_def block_inv_def list_size_def split: if_splits)
  have inv: "list_size fs \<le> unat (MaxHeaderListBytes (hdLimits d))"
    "length fs \<le> unat (hlMaxHeaders (hdLimits d)) \<or> hlMaxHeaders (hdLimits d) = 0xffffffff"
    using decoderWrites_inv [OF assms(1) d1(1), of srcs] d1(2) assms(3) by (auto simp: block_inv_def word_le_nat_alt)
  moreover have "length fs \<le> 0xffffffff" if "unat (MaxHeaderListBytes (hdLimits d)) < 2 ^ 37"
    using that inv(1) list_size_length [of fs] by simp
  ultimately show ?thesis by (cases "unat (MaxHeaderListBytes (hdLimits d)) < 2 ^ 37") auto
qed

text \<open>A codec for examples: each octet is a field whose name is that octet.\<close>

definition demo_codec :: "(unit, unit) codec" where
  "demo_codec =
     \<lparr>hpNewDecoder = \<lambda>_. (), hpSetAllowedMaxDynamicTableSize = \<lambda>_ d. d,
      hpSetMaxStringLength = \<lambda>_ d. d,
      hpDecoderWrite = \<lambda>src d. ((), map (\<lambda>b. \<lparr>hfName = [b], hfValue = [], hfSensitive = False\<rparr>) src,
        length src, None),
      hpDecoderClose = \<lambda>d. ((), None), hpNewEncoder = (),
      hpSetMaxDynamicTableSizeLimit = \<lambda>_ e. e, hpSetMaxDynamicTableSize = \<lambda>_ e. e,
      hpWriteField = \<lambda>f e. ((), hfName f)\<rparr>"

definition demo_header_limits :: header_limits where
  "demo_header_limits =
     \<lparr>MaxDynamicTableBytes = 0, MaxFieldBytes = 0, MaxHeaderListBytes = 0, hlMaxHeaders = 2\<rparr>"

theorem header_block_bounded_witness:
  "length (snd (decoderWrites demo_codec [[1, 2], [3]]
     (fst (BeginBlock (NewHeaderDecoder demo_codec demo_header_limits)), []))) \<le> 2"
proof -
  let ?d = "NewHeaderDecoder demo_codec demo_header_limits"
  have "list_all go_field (fst (snd (hpDecoderWrite demo_codec src d)))" for src d
    by (simp add: demo_codec_def go_field_def list_all_iff)
  moreover have "BeginBlock ?d = (fst (BeginBlock ?d), None)"
    by (simp add: BeginBlock_def NewHeaderDecoder_def Let_def)
  moreover have "unat (hlMaxHeaders (hdLimits ?d)) = 2"
    by (simp add: NewHeaderDecoder_def Let_def headerNormalized_def demo_header_limits_def)
  ultimately show ?thesis
    using header_block_bounded [of demo_codec ?d "fst (BeginBlock ?d)" "[[1, 2], [3]]", OF _ _ prod.collapse [symmetric]]
    by (auto simp: word_unat_eq_iff)
qed

end
