(* ===== verification/H2_Headers.thy ===== *)
theory H2_Headers
  imports H2_Hpack
begin

text \<open>
  Field sections (the pure functions of src/http2/session.go): what a section says about its message,
  and which sections the session accepts.
\<close>

subsection \<open>Inspection\<close>

datatype session_role = RoleClient | RoleServer | RoleOther

record section_metadata =
  mdRequest :: bool
  mdResponse :: bool
  mdInformational :: bool
  mdNoBody :: bool
  mdInvalid :: bool
  mdMethod :: bytes
  mdStatus :: bytes
  mdHasContentLength :: bool
  mdContentLength :: u64

definition zero_metadata :: section_metadata where
  "zero_metadata = \<lparr>mdRequest = False, mdResponse = False, mdInformational = False, mdNoBody = False,
     mdInvalid = False, mdMethod = [], mdStatus = [], mdHasContentLength = False, mdContentLength = 0\<rparr>"

fun contentLengthLoop :: "bytes \<Rightarrow> u64 \<Rightarrow> u64 option" where
  "contentLengthLoop [] parsed = Some parsed"
| "contentLengthLoop (b # bs) parsed =
     (if b < b0 \<or> b9 < b then None
      else let digit = ucast (b - b0) in
        if (- 1 - digit) div 10 < parsed then None
        else contentLengthLoop bs (parsed * 10 + digit))"

definition parseSessionContentLength :: "bytes \<Rightarrow> u64 option" where
  "parseSessionContentLength v = (if v = [] then None else contentLengthLoop v 0)"

definition inspectField :: "header_field \<Rightarrow> section_metadata \<Rightarrow> section_metadata" where
  "inspectField f m =
     (if hfName f = lit '':method'' then m\<lparr>mdRequest := True, mdMethod := hfValue f\<rparr>
      else if hfName f = lit '':status'' then
        m\<lparr>mdResponse := True, mdStatus := hfValue f,
          mdInformational := (mdInformational m \<or> length (hfValue f) = 3 \<and> hfValue f ! 0 = 0x31),
          mdNoBody := (hfValue f = lit ''204'' \<or> hfValue f = lit ''304'')\<rparr>
      else if hfName f = lit ''content-length'' then
        (if mdHasContentLength m then m\<lparr>mdInvalid := True\<rparr>
         else case parseSessionContentLength (hfValue f) of
             None \<Rightarrow> m\<lparr>mdInvalid := True\<rparr>
           | Some v \<Rightarrow> m\<lparr>mdHasContentLength := True, mdContentLength := v\<rparr>)
      else m)"

definition inspectHeaderSection :: "header_field list \<Rightarrow> section_metadata" where
  "inspectHeaderSection headers =
     (let m = fold inspectField headers zero_metadata
      in if mdStatus m = lit ''204'' \<and> mdHasContentLength m then m\<lparr>mdInvalid := True\<rparr> else m)"

definition firstNonEmpty :: "bytes \<Rightarrow> bytes \<Rightarrow> bytes" where
  "firstNonEmpty current nxt = (if current \<noteq> [] then current else nxt)"

subsection \<open>Validation\<close>

definition isNameOctet :: "byte \<Rightarrow> bool" where
  "isNameOctet b \<longleftrightarrow> ba \<le> b \<and> b \<le> bz \<or> b0 \<le> b \<and> b \<le> b9 \<or>
     b \<in> set ([0x21, 0x23, 0x24, 0x25, 0x26, 0x27] @ lit ''*+-.^_`|~'')"

definition validSessionHeaderName :: "bytes \<Rightarrow> bool" where
  "validSessionHeaderName name =
     (if name = [] then False
      else if name ! 0 = bCOLON \<and> length name = 1 then False
      else list_all isNameOctet (drop (if name ! 0 = bCOLON then 1 else 0) name))"

definition validSessionHeaderValue :: "bytes \<Rightarrow> bool" where
  "validSessionHeaderValue v =
     (if v \<noteq> [] \<and> (v ! 0 = bSP \<or> v ! 0 = bHT \<or> last v = bSP \<or> last v = bHT) then False
      else list_all (\<lambda>b. \<not> (b \<noteq> bHT \<and> b < 0x20 \<or> b = 0x7f)) v)"

definition isConnectionSpecific :: "bytes \<Rightarrow> bytes \<Rightarrow> bool" where
  "isConnectionSpecific name v =
     (if name \<in> set [lit ''connection'', lit ''proxy-connection'', lit ''keep-alive'',
         lit ''transfer-encoding'', lit ''upgrade''] then True
      else if name = lit ''te'' then v \<noteq> lit ''trailers'' else False)"

text \<open>The variables of the loop of \<open>validateHeaderSection\<close>.\<close>

record section_scan =
  scPseudoDone :: bool
  scSeen :: "bytes list"
  scMethod :: bytes
  scScheme :: bytes
  scAuthority :: bytes
  scPath :: bytes
  scProtocol :: bytes
  scStatus :: bytes

definition zero_scan :: section_scan where
  "zero_scan = \<lparr>scPseudoDone = False, scSeen = [], scMethod = [], scScheme = [], scAuthority = [],
     scPath = [], scProtocol = [], scStatus = []\<rparr>"

definition scanPseudo :: "header_field \<Rightarrow> section_scan \<Rightarrow> section_scan option" where
  "scanPseudo f st =
     (let st = st\<lparr>scSeen := hfName f # scSeen st\<rparr>; v = hfValue f in
      if hfName f = lit '':method'' then Some (st\<lparr>scMethod := v\<rparr>)
      else if hfName f = lit '':scheme'' then Some (st\<lparr>scScheme := v\<rparr>)
      else if hfName f = lit '':authority'' then Some (st\<lparr>scAuthority := v\<rparr>)
      else if hfName f = lit '':path'' then Some (st\<lparr>scPath := v\<rparr>)
      else if hfName f = lit '':protocol'' then Some (st\<lparr>scProtocol := v\<rparr>)
      else if hfName f = lit '':status'' then Some (st\<lparr>scStatus := v\<rparr>)
      else None)"

fun scanFields :: "bool \<Rightarrow> header_field list \<Rightarrow> section_scan \<Rightarrow> section_scan option" where
  "scanFields trailer [] st = Some st"
| "scanFields trailer (f # fs) st =
     (if \<not> validSessionHeaderName (hfName f) \<or> \<not> validSessionHeaderValue (hfValue f) then None
      else if hfName f ! 0 = bCOLON then
        (if trailer \<or> scPseudoDone st \<or> hfName f \<in> set (scSeen st) then None
         else case scanPseudo f st of None \<Rightarrow> None | Some st' \<Rightarrow> scanFields trailer fs st')
      else if isConnectionSpecific (hfName f) (hfValue f) then None
      else scanFields trailer fs (st\<lparr>scPseudoDone := True\<rparr>))"

definition validRequestLine :: "bool \<Rightarrow> section_scan \<Rightarrow> bool" where
  "validRequestLine extendedConnect st =
     (if scMethod st = [] \<or> scStatus st \<noteq> [] then False
      else if scMethod st = lit ''CONNECT'' then
        (if scProtocol st = [] then \<not> (scAuthority st = [] \<or> scScheme st \<noteq> [] \<or> scPath st \<noteq> [])
         else \<not> (\<not> extendedConnect \<or> scAuthority st = [] \<or> scScheme st = [] \<or> scPath st = []))
      else \<not> (scScheme st = [] \<or> scPath st = [] \<or> scProtocol st \<noteq> []))"

definition validStatusLine :: "section_scan \<Rightarrow> bool" where
  "validStatusLine st =
     (if scStatus st = [] \<or> length (scStatus st) \<noteq> 3 \<or> scMethod st \<noteq> [] \<or> scScheme st \<noteq> [] \<or>
         scAuthority st \<noteq> [] \<or> scPath st \<noteq> [] \<or> scProtocol st \<noteq> [] then False
      else if \<not> list_all (\<lambda>b. \<not> (b < b0 \<or> b9 < b)) (scStatus st) then False
      else scStatus st \<noteq> lit ''101'')"

text \<open>\<open>True\<close> is a nil error; the only error is \<open>ErrInvalidHeaders\<close>.\<close>

definition validateHeaderSection ::
  "session_role \<Rightarrow> bool \<Rightarrow> bool \<Rightarrow> header_field list \<Rightarrow> bool \<Rightarrow> bool" where
  "validateHeaderSection role outbound trailer headers extendedConnect =
     (if headers = [] then False
      else if mdInvalid (inspectHeaderSection headers) then False
      else case scanFields trailer headers zero_scan of
          None \<Rightarrow> False
        | Some st \<Rightarrow>
            if trailer then True
            else if role = RoleClient \<and> outbound \<or> role = RoleServer \<and> \<not> outbound
            then validRequestLine extendedConnect st
            else validStatusLine st)"

end
