(* ===== verification/H2_Session.thy ===== *)
theory H2_Session
  imports H2_Headers "HOL-Library.AList" "HOL-Library.Signed_Division"
begin

text \<open>
  The HTTP/2 connection engine (src/http2/session.go). The session is one record; every method is a
  function from the session to the session, with the error it returns. The codec and the order in
  which Go ranges over a map are parameters (\<open>env\<close>). Stream objects are the entries of the map
  of streams: the code never holds one that has left the map, except to read its identifier. Window
  sizes and lengths, \<open>int64\<close> and \<open>int\<close> in the code, are integers.
\<close>

subsection \<open>Data\<close>

datatype stream_state =
    StreamIdle | StreamReservedLocal | StreamReservedRemote | StreamOpen
  | StreamHalfClosedLocal | StreamHalfClosedRemote | StreamClosed

datatype event_type =
    EventSettings | EventSettingsAck | EventHeaders | EventData | EventStreamEnd | EventStreamReset
  | EventPing | EventPingAck | EventGoAway | EventPriority | EventPriorityUpdate
  | EventPushPromise | EventWindowUpdate | EventUnknown

record event =
  evType :: event_type
  evStreamID :: u32
  evEndStream :: bool
  evTrailer :: bool
  evHeaders :: "header_field list"
  evData :: bytes
  evSettings :: "setting_t list"
  evErrorCode :: error_code
  evLastStreamID :: u32
  evWindowIncrement :: u32
  evPriority :: priority_param
  evPing :: bytes

definition zero_event :: "event_type \<Rightarrow> event" where
  "zero_event t = \<lparr>evType = t, evStreamID = 0, evEndStream = False, evTrailer = False, evHeaders = [],
     evData = [], evSettings = [], evErrorCode = 0, evLastStreamID = 0, evWindowIncrement = 0,
     evPriority = \<lparr>StreamDependency = 0, Exclusive = False, Weight = 0\<rparr>, evPing = replicate 8 0\<rparr>"

abbreviation ErrCodeNo :: error_code where "ErrCodeNo \<equiv> 0x0"
abbreviation ErrCodeProtocol :: error_code where "ErrCodeProtocol \<equiv> 0x1"
abbreviation ErrCodeInternal :: error_code where "ErrCodeInternal \<equiv> 0x2"
abbreviation ErrCodeFlowControl :: error_code where "ErrCodeFlowControl \<equiv> 0x3"
abbreviation ErrCodeStreamClosed :: error_code where "ErrCodeStreamClosed \<equiv> 0x5"
abbreviation ErrCodeFrameSize :: error_code where "ErrCodeFrameSize \<equiv> 0x6"
abbreviation ErrCodeRefusedStream :: error_code where "ErrCodeRefusedStream \<equiv> 0x7"
abbreviation ErrCodeCompression :: error_code where "ErrCodeCompression \<equiv> 0x9"
abbreviation ErrCodeEnhanceYourCalm :: error_code where "ErrCodeEnhanceYourCalm \<equiv> 0xb"

definition maxInt32 :: int where "maxInt32 = 2147483647"
definition minInt32 :: int where "minInt32 = - 2147483648"

record session_limits =
  slFrame :: frame_limits
  slHeader :: header_limits
  slMaxConcurrentStreams :: u32
  slMaxStreams :: u32
  slMaxClosedStreams :: u32
  slMaxQueuedOutputBytes :: u32
  slMaxQueuedEventBytes :: u32
  slMaxQueuedEvents :: u32
  slInitialWindowSize :: u32
  slMaxControlFrames :: u32
  slEnablePush :: bool
  slEnableExtendedConnect :: bool

definition defaultSessionConcurrentStreams :: u32 where "defaultSessionConcurrentStreams = 100"
definition defaultSessionMaxStreams :: u32 where "defaultSessionMaxStreams = 1024"
definition defaultSessionClosedStreams :: u32 where "defaultSessionClosedStreams = 256"
definition defaultSessionOutputBytes :: u32 where "defaultSessionOutputBytes = 4194304"
definition defaultSessionEventBytes :: u32 where "defaultSessionEventBytes = 4194304"
definition defaultSessionEvents :: u32 where "defaultSessionEvents = 4096"
definition defaultInitialWindowSize :: u32 where "defaultInitialWindowSize = 65535"
definition defaultMaxControlFrames :: u32 where "defaultMaxControlFrames = 4096"

definition sessionNormalized :: "session_limits \<Rightarrow> session_limits" where
  "sessionNormalized l =
     (let l = l\<lparr>slFrame := frameNormalized (slFrame l), slHeader := headerNormalized (slHeader l)\<rparr>;
          l = (if slMaxConcurrentStreams l = 0
               then l\<lparr>slMaxConcurrentStreams := defaultSessionConcurrentStreams\<rparr> else l);
          l = (if slMaxStreams l = 0 then l\<lparr>slMaxStreams := defaultSessionMaxStreams\<rparr> else l);
          l = (if slMaxStreams l < slMaxConcurrentStreams l
               then l\<lparr>slMaxStreams := slMaxConcurrentStreams l\<rparr> else l);
          l = (if slMaxClosedStreams l = 0
               then l\<lparr>slMaxClosedStreams := defaultSessionClosedStreams\<rparr> else l);
          l = (if slMaxStreams l < slMaxClosedStreams l
               then l\<lparr>slMaxClosedStreams := slMaxStreams l\<rparr> else l);
          l = (if slMaxQueuedOutputBytes l = 0
               then l\<lparr>slMaxQueuedOutputBytes := defaultSessionOutputBytes\<rparr> else l);
          l = (if slMaxQueuedEventBytes l = 0
               then l\<lparr>slMaxQueuedEventBytes := defaultSessionEventBytes\<rparr> else l);
          l = (if slMaxQueuedEvents l = 0 then l\<lparr>slMaxQueuedEvents := defaultSessionEvents\<rparr> else l);
          l = (if slInitialWindowSize l = 0
               then l\<lparr>slInitialWindowSize := defaultInitialWindowSize\<rparr> else l);
          l = (if maxInt32 < uint (slInitialWindowSize l)
               then l\<lparr>slInitialWindowSize := of_int maxInt32\<rparr> else l)
      in if slMaxControlFrames l = 0 then l\<lparr>slMaxControlFrames := defaultMaxControlFrames\<rparr> else l)"

text \<open>The errors of the package, the wrapped code of a frame, the protocol error structure, the errors
  of the header decoder, and the \<open>io\<close> error that is returned. \<open>NoReturn\<close> stands for a loop
  that does not end.\<close>

datatype session_error =
    ErrInvalidRole | ErrSessionClosed | ErrWouldBlock | ErrStreamNotFound | ErrStreamState
  | ErrStreamIDExhausted | ErrStreamLimit | ErrOutputLimit | ErrEventLimit | ErrInvalidHeaders
  | ErrInvalidFrame frame_code | ProtocolError u32 error_code string | ErrHeaderDecoder hpack_error
  | ErrSessionShortBuffer | SessionNoReturn

fun formatUint :: "nat \<Rightarrow> string" where
  "formatUint n =
     (if n < 10 then [char_of (48 + n)] else formatUint (n div 10) @ [char_of (48 + n mod 10)])"

declare formatUint.simps [simp del]

fun hpackErrorText :: "hpack_error \<Rightarrow> string" where
  "hpackErrorText ErrHeaderDecoderState = ''wagohttp/http2: invalid header decoder state''"
| "hpackErrorText ErrHeaderListTooLarge = ''wagohttp/http2: decoded header list too large''"
| "hpackErrorText ErrTooManyHeaders = ''wagohttp/http2: too many decoded headers''"
| "hpackErrorText (HpackError text) = text"

definition protocolErrorText :: "u32 \<Rightarrow> error_code \<Rightarrow> string \<Rightarrow> string" where
  "protocolErrorText streamID c reason =
     (let scope = (if streamID \<noteq> 0 then ''stream '' @ formatUint (unat streamID) else ''connection'') in
      if reason = '''' then ''wagohttp/http2: '' @ scope @ '' error '' @ formatUint (unat c)
      else ''wagohttp/http2: '' @ scope @ '' error: '' @ reason)"

fun sessionErrorText :: "session_error \<Rightarrow> string" where
  "sessionErrorText ErrInvalidRole = ''wagohttp/http2: invalid session role''"
| "sessionErrorText ErrSessionClosed = ''wagohttp/http2: session is closed''"
| "sessionErrorText ErrWouldBlock = ''wagohttp/http2: operation would block''"
| "sessionErrorText ErrStreamNotFound = ''wagohttp/http2: stream not found''"
| "sessionErrorText ErrStreamState = ''wagohttp/http2: invalid stream state''"
| "sessionErrorText ErrStreamIDExhausted = ''wagohttp/http2: stream identifier exhausted''"
| "sessionErrorText ErrStreamLimit = ''wagohttp/http2: stream resource limit''"
| "sessionErrorText ErrOutputLimit = ''wagohttp/http2: queued output limit''"
| "sessionErrorText ErrEventLimit = ''wagohttp/http2: queued event limit''"
| "sessionErrorText ErrInvalidHeaders = ''wagohttp/http2: malformed field section''"
| "sessionErrorText (ErrInvalidFrame c) =
     ''wagohttp/http2: malformed field section: '' @ frameCodeString c"
| "sessionErrorText (ProtocolError i c r) = protocolErrorText i c r"
| "sessionErrorText (ErrHeaderDecoder e) = hpackErrorText e"
| "sessionErrorText ErrSessionShortBuffer = ''short buffer''"
| "sessionErrorText SessionNoReturn = ''''"

record session_stream =
  ssId :: u32
  ssState :: stream_state
  ssLocal :: bool
  ssSendWindow :: int
  ssRecvWindow :: int
  ssSentHeaders :: bool
  ssReceivedHeaders :: bool
  ssSentTrailers :: bool
  ssReceivedTrailers :: bool
  ssMethod :: bytes
  ssReceiveNoBody :: bool
  ssSendNoBody :: bool
  ssReceiveHasLength :: bool
  ssReceiveLength :: u64
  ssReceiveBody :: u64
  ssSendHasLength :: bool
  ssSendLength :: u64
  ssSendBody :: u64

definition newStream :: "u32 \<Rightarrow> stream_state \<Rightarrow> bool \<Rightarrow> int \<Rightarrow> int \<Rightarrow> session_stream" where
  "newStream i st loc send recv =
     \<lparr>ssId = i, ssState = st, ssLocal = loc, ssSendWindow = send, ssRecvWindow = recv,
      ssSentHeaders = False, ssReceivedHeaders = False, ssSentTrailers = False,
      ssReceivedTrailers = False, ssMethod = [], ssReceiveNoBody = False, ssSendNoBody = False,
      ssReceiveHasLength = False, ssReceiveLength = 0, ssReceiveBody = 0, ssSendHasLength = False,
      ssSendLength = 0, ssSendBody = 0\<rparr>"

record append_writer =
  awLimit :: int
  awErr :: "session_error option"

type_synonym stream_map = "(u32 \<times> session_stream) list"

record ('d, 'e) session =
  sRole :: session_role
  sLimits :: session_limits
  sCaps :: session_limits
  sParser :: frame_parser
  sDecoder :: "'d header_decoder"
  sEncoder :: 'e
  sEncoderWriter :: append_writer
  sStreams :: stream_map
  sClosedStreams :: "u32 list"
  sNextLocalStream :: u32
  sLastPeerStream :: u32
  sLastProcessedPeerStream :: u32
  sActiveLocal :: u32
  sActivePeer :: u32
  sPeerMaxConcurrent :: u32
  sPeerMaxFrame :: u32
  sLocalHeaderTable :: u32
  sPeerInitialWindow :: int
  sConnectionSendWindow :: int
  sConnectionRecvWindow :: int
  sPeerEnablePush :: bool
  sPeerEnableConnect :: bool
  sPeerNoPriorities :: bool
  sLocalSettingsOutstanding :: u32
  sControlFrames :: u32
  sStarted :: bool
  sClosed :: bool
  sFailed :: "session_error option"
  sPeerInitialSettings :: bool
  sGoAwayReceived :: bool
  sGoAwaySent :: bool
  sPeerLastStream :: u32
  sPrefacePos :: u8
  sOutput :: bytes
  sEvents :: "event list"
  sEventBytes :: u32
  sHeaderBlock :: bytes
  sCurrentHeaders :: "header_field list"
  sCurrentHeaderStream :: u32
  sCurrentHeaderEventStream :: u32
  sCurrentHeaderEnd :: bool
  sCurrentHeaderTrailer :: bool
  sCurrentHeaderPush :: bool
  sCurrentFrame :: frame_header
  sPendingSettings :: "setting_t list"
  sExtensionPayload :: bytes

text \<open>The parameters: the codec, and the order in which a range over the map of streams visits the
  given keys.\<close>

record ('d, 'e) session_env =
  envCodec :: "('d, 'e) codec"
  envOrder :: "u32 list \<Rightarrow> u32 list"

definition ClientPreface :: bytes where
  "ClientPreface = lit ''PRI * HTTP/2.0'' @ [bCR, bLF, bCR, bLF] @ lit ''SM'' @ [bCR, bLF, bCR, bLF]"

definition canSend :: "stream_state \<Rightarrow> bool" where
  "canSend st \<longleftrightarrow> st = StreamOpen \<or> st = StreamHalfClosedRemote \<or> st = StreamReservedLocal"

definition canReceive :: "stream_state \<Rightarrow> bool" where
  "canReceive st \<longleftrightarrow> st = StreamOpen \<or> st = StreamHalfClosedLocal \<or> st = StreamReservedRemote"

definition frameCodeToError :: "frame_code \<Rightarrow> error_code" where
  "frameCodeToError c =
     (if c = FCodeFrameTooLarge \<or> c = FCodeInvalidFrameSize then ErrCodeFrameSize
      else if c = FCodeInvalidSetting then ErrCodeProtocol
      else if c = FCodeHeaderBlockTooLarge \<or> c = FCodeTooManyContinuations then ErrCodeEnhanceYourCalm
      else ErrCodeProtocol)"

definition boolSetting :: "bool \<Rightarrow> u32" where "boolSetting v = (if v then 1 else 0)"

definition clampUint64To32 :: "u64 \<Rightarrow> u32" where
  "clampUint64To32 v = (if 0xffffffff < v then 0xffffffff else ucast v)"

abbreviation lookupStream :: "u32 \<Rightarrow> ('d, 'e) session \<Rightarrow> session_stream option" where
  "lookupStream i s \<equiv> map_of (sStreams s) i"

definition putStream :: "session_stream \<Rightarrow> ('d, 'e) session \<Rightarrow> ('d, 'e) session" where
  "putStream st s = s\<lparr>sStreams := AList.update (ssId st) st (sStreams s)\<rparr>"

subsection \<open>Output and events\<close>

definition readySession :: "('d, 'e) session \<Rightarrow> session_error option" where
  "readySession s = (if sClosed s then Some ErrSessionClosed else sFailed s)"

definition reserveOutput :: "int \<Rightarrow> ('d, 'e) session \<Rightarrow> bool" where
  "reserveOutput n s \<longleftrightarrow>
     0 \<le> n \<and> n \<le> uint (slMaxQueuedOutputBytes (sLimits s)) - int (length (sOutput s))"

definition appendFrameEvenFailed ::
  "frame_header \<Rightarrow> bytes \<Rightarrow> ('d, 'e) session \<Rightarrow> ('d, 'e) session \<times> session_error option" where
  "appendFrameEvenFailed h payload s =
     (if \<not> reserveOutput (9 + int (length payload)) s then (s, Some ErrOutputLimit)
      else
        (case AppendFrame (sOutput s) h payload of (out, c) \<Rightarrow>
           (s\<lparr>sOutput := out\<rparr>, if c \<noteq> FCodeNone then Some (ErrInvalidFrame c) else None)))"

definition appendFrame ::
  "frame_header \<Rightarrow> bytes \<Rightarrow> ('d, 'e) session \<Rightarrow> ('d, 'e) session \<times> session_error option" where
  "appendFrame h payload s =
     (case readySession s of Some e \<Rightarrow> (s, Some e) | None \<Rightarrow> appendFrameEvenFailed h payload s)"

abbreviation frameOf :: "frame_type \<Rightarrow> frame_flags \<Rightarrow> u32 \<Rightarrow> frame_header" where
  "frameOf typ flags i \<equiv> \<lparr>fhLength = 0, fhType = typ, fhFlags = flags, fhStreamID = i\<rparr>"

definition encodeSettings :: "setting_t list \<Rightarrow> bytes" where
  "encodeSettings settings =
     concat (map (\<lambda>st. PutUint16 (settingID st) @ PutUint32 (settingValue st)) settings)"

definition appendSettings ::
  "setting_t list \<Rightarrow> bool \<Rightarrow> ('d, 'e) session \<Rightarrow> ('d, 'e) session \<times> session_error option" where
  "appendSettings settings ack s =
     (if ack then appendFrameEvenFailed (frameOf FrameSettings FlagACK 0) [] s
      else appendFrameEvenFailed (frameOf FrameSettings 0 0) (encodeSettings settings) s)"

definition appendWindowUpdate ::
  "u32 \<Rightarrow> u32 \<Rightarrow> ('d, 'e) session \<Rightarrow> ('d, 'e) session \<times> session_error option" where
  "appendWindowUpdate i increment s =
     (if increment = 0 \<or> maxInt32 < uint increment then (s, Some ErrStreamState)
      else appendFrameEvenFailed (frameOf FrameWindowUpdate 0 i) (PutUint32 increment) s)"

definition eventRetainedBytes :: "event \<Rightarrow> u32" where
  "eventRetainedBytes ev =
     (let total = of_nat (length (evData ev)) + of_nat (length (evSettings ev)) * 6;
          total = fold (\<lambda>f total. total + (of_nat (length (hfName f)) + of_nat (length (hfValue f)) + 32))
                    (evHeaders ev) total
      in if (0xffffffff :: u64) < total then 0xffffffff else ucast total)"

definition queueEvent :: "event \<Rightarrow> ('d, 'e) session \<Rightarrow> ('d, 'e) session \<times> session_error option" where
  "queueEvent ev s =
     (let n = eventRetainedBytes ev in
      if slMaxQueuedEvents (sLimits s) \<le> of_nat (length (sEvents s)) \<or>
         slMaxQueuedEventBytes (sLimits s) - sEventBytes s < n
      then (s, Some ErrEventLimit)
      else (s\<lparr>sEvents := sEvents s @ [ev], sEventBytes := sEventBytes s + n\<rparr>, None))"

text \<open>A call whose error is discarded.\<close>

abbreviation queueEvent' :: "event \<Rightarrow> ('d, 'e) session \<Rightarrow> ('d, 'e) session" where
  "queueEvent' ev s \<equiv> fst (queueEvent ev s)"

subsection \<open>Failures and the end of streams\<close>

fun evictClosed :: "u32 \<Rightarrow> u32 list \<Rightarrow> stream_map \<Rightarrow> u32 list \<times> stream_map" where
  "evictClosed limit [] m = ([], m)"
| "evictClosed limit (oldest # cs) m =
     (if limit < of_nat (length (oldest # cs))
      then evictClosed limit cs
             (case map_of m oldest of
                None \<Rightarrow> m
              | Some st \<Rightarrow> if ssState st = StreamClosed then AList.delete oldest m else m)
      else (oldest # cs, m))"

definition closeStream :: "u32 \<Rightarrow> ('d, 'e) session \<Rightarrow> ('d, 'e) session" where
  "closeStream i s =
     (case lookupStream i s of
        None \<Rightarrow> s
      | Some st \<Rightarrow>
          if ssState st = StreamClosed then s
          else
            let s = putStream (st\<lparr>ssState := StreamClosed\<rparr>) s;
                s = (if ssLocal st
                     then (if sActiveLocal s \<noteq> 0 then s\<lparr>sActiveLocal := sActiveLocal s - 1\<rparr> else s)
                     else (if sActivePeer s \<noteq> 0 then s\<lparr>sActivePeer := sActivePeer s - 1\<rparr> else s));
                (closed, m) = evictClosed (slMaxClosedStreams (sLimits s)) (sClosedStreams s @ [i])
                                (sStreams s)
            in s\<lparr>sClosedStreams := closed, sStreams := m\<rparr>)"

definition streamError ::
  "u32 \<Rightarrow> error_code \<Rightarrow> string \<Rightarrow> ('d, 'e) session \<Rightarrow> ('d, 'e) session \<times> session_error" where
  "streamError i c reason s =
     (let s = closeStream i s;
          s = fst (appendFrame (frameOf FrameRSTStream 0 i) (PutUint32 c) s);
          s = queueEvent' ((zero_event EventStreamReset)\<lparr>evStreamID := i, evErrorCode := c\<rparr>) s
      in (s, ProtocolError i c reason))"

definition connectionError ::
  "error_code \<Rightarrow> string \<Rightarrow> ('d, 'e) session \<Rightarrow> ('d, 'e) session \<times> session_error" where
  "connectionError c reason s =
     (case sFailed s of
        Some e \<Rightarrow> (s, e)
      | None \<Rightarrow>
          let err = ProtocolError 0 c reason;
              s = s\<lparr>sFailed := Some err, sGoAwaySent := True\<rparr>;
              s = fst (appendFrameEvenFailed (frameOf FrameGoAway 0 0)
                         (PutUint32 (sLastProcessedPeerStream s) @ PutUint32 c) s)
          in (s, err))"

abbreviation streamError' :: "u32 \<Rightarrow> error_code \<Rightarrow> string \<Rightarrow> ('d, 'e) session \<Rightarrow> ('d, 'e) session" where
  "streamError' i c reason s \<equiv> fst (streamError i c reason s)"

abbreviation connectionError' :: "error_code \<Rightarrow> string \<Rightarrow> ('d, 'e) session \<Rightarrow> ('d, 'e) session" where
  "connectionError' c reason s \<equiv> fst (connectionError c reason s)"

definition handleProtocolError :: "session_error \<Rightarrow> ('d, 'e) session \<Rightarrow> ('d, 'e) session" where
  "handleProtocolError err s =
     (case err of
        ProtocolError i c reason \<Rightarrow>
          if i = 0 then connectionError' c reason s else streamError' i c reason s
      | _ \<Rightarrow> connectionError' ErrCodeInternal (sessionErrorText err) s)"

definition localEnd :: "u32 \<Rightarrow> ('d, 'e) session \<Rightarrow> ('d, 'e) session" where
  "localEnd i s =
     (case lookupStream i s of
        None \<Rightarrow> s
      | Some st \<Rightarrow>
          (case ssState st of
             StreamOpen \<Rightarrow> putStream (st\<lparr>ssState := StreamHalfClosedLocal\<rparr>) s
           | StreamHalfClosedRemote \<Rightarrow> closeStream i s
           | StreamReservedLocal \<Rightarrow> putStream (st\<lparr>ssState := StreamHalfClosedRemote\<rparr>) s
           | _ \<Rightarrow> s))"

definition remoteEnd :: "u32 \<Rightarrow> ('d, 'e) session \<Rightarrow> ('d, 'e) session" where
  "remoteEnd i s =
     (case lookupStream i s of
        None \<Rightarrow> s
      | Some st \<Rightarrow>
          if ssReceiveHasLength st \<and> \<not> ssReceiveNoBody st \<and> ssReceiveLength st \<noteq> ssReceiveBody st
          then streamError' i ErrCodeProtocol ''received body does not match Content-Length'' s
          else
            let s = (case ssState st of
                       StreamOpen \<Rightarrow> putStream (st\<lparr>ssState := StreamHalfClosedRemote\<rparr>) s
                     | StreamHalfClosedLocal \<Rightarrow> closeStream i s
                     | StreamReservedRemote \<Rightarrow> putStream (st\<lparr>ssState := StreamHalfClosedLocal\<rparr>) s
                     | _ \<Rightarrow> s)
            in if ssState st \<noteq> StreamClosed
               then let s = queueEvent' ((zero_event EventStreamEnd)\<lparr>evStreamID := i\<rparr>) s
                    in s\<lparr>sLastProcessedPeerStream := max (sLastProcessedPeerStream s) i\<rparr>
               else s)"

subsection \<open>Header blocks\<close>

text \<open>The writer that the encoder writes to: the error of a previous write, then the limit.\<close>

definition appendWriterWrite ::
  "bytes \<Rightarrow> append_writer \<Rightarrow> bytes \<Rightarrow> append_writer \<times> bytes \<times> session_error option" where
  "appendWriterWrite target w src =
     (if awErr w \<noteq> None then (w, target, awErr w)
      else if awLimit w - int (length target) < int (length src)
      then (w\<lparr>awErr := Some ErrOutputLimit\<rparr>, target, Some ErrOutputLimit)
      else (w, target @ src, None))"

fun encodeFields ::
  "('d, 'e) codec \<Rightarrow> header_field list \<Rightarrow> ('d, 'e) session \<Rightarrow> ('d, 'e) session \<times> session_error option" where
  "encodeFields hp [] s = (s, None)"
| "encodeFields hp (f # fs) s =
     (case hpWriteField hp f (sEncoder s) of (e, bs) \<Rightarrow>
      (case appendWriterWrite (sHeaderBlock s) (sEncoderWriter s) bs of (w, block, err) \<Rightarrow>
       let s = s\<lparr>sEncoder := e, sEncoderWriter := w, sHeaderBlock := block\<rparr> in
       case err of Some x \<Rightarrow> (s, Some x) | None \<Rightarrow> encodeFields hp fs s))"

text \<open>The next frame of a block: its header, its payload and how much of the block it takes.\<close>

definition blockFrame ::
  "u32 \<Rightarrow> frame_type \<Rightarrow> u32 \<Rightarrow> u32 \<Rightarrow> bool \<Rightarrow> bool \<Rightarrow> bytes \<Rightarrow> frame_header \<times> bytes \<times> nat" where
  "blockFrame maxFrame typ i promised endStream first block =
     (let prefix = (if first \<and> typ = FramePushPromise then 4 else 0);
          available = uint maxFrame - prefix;
          count = nat (min (int (length block)) available);
          flags = (if count = length block then FlagEndHeaders else 0);
          flags = (if first \<and> endStream \<and> typ = FrameHeaders then flags OR FlagEndStream else flags);
          payload = take count block;
          payload = (if first \<and> typ = FramePushPromise then PutUint32 promised @ payload else payload)
      in (frameOf (if first then typ else FrameContinuation) flags i, payload, count))"

text \<open>The loop that cuts the block into frames; the fuel bounds its iterations.\<close>

primrec appendBlock ::
  "nat \<Rightarrow> frame_type \<Rightarrow> u32 \<Rightarrow> u32 \<Rightarrow> bool \<Rightarrow> bool \<Rightarrow> bytes \<Rightarrow> ('d, 'e) session \<Rightarrow>
     ('d, 'e) session \<times> session_error option" where
  "appendBlock 0 typ i promised endStream first block s = (s, Some SessionNoReturn)"
| "appendBlock (Suc fuel) typ i promised endStream first block s =
     (if first \<or> block \<noteq> [] then
        (case blockFrame (sPeerMaxFrame s) typ i promised endStream first block of (h, payload, count) \<Rightarrow>
         (case appendFrame h payload s of (s, err) \<Rightarrow>
          if err \<noteq> None then (s, err)
          else appendBlock fuel typ i promised endStream False (drop count block) s))
      else (s, None))"

definition encodeAndAppendHeaders ::
  "('d, 'e) session_env \<Rightarrow> frame_type \<Rightarrow> u32 \<Rightarrow> u32 \<Rightarrow> header_field list \<Rightarrow> bool \<Rightarrow> ('d, 'e) session \<Rightarrow>
     ('d, 'e) session \<times> session_error option" where
  "encodeAndAppendHeaders env typ i promised headers endStream s =
     (let maxBlock = sint (MaxHeaderListBytes (slHeader (sLimits s)));
          frameCount = maxBlock sdiv uint (sPeerMaxFrame s) + 2
      in
      if \<not> reserveOutput (maxBlock + frameCount * 9 + 4) s then (s, Some ErrWouldBlock)
      else
        (case encodeFields (envCodec env) headers
                (s\<lparr>sHeaderBlock := [], sEncoderWriter := \<lparr>awLimit = maxBlock, awErr = None\<rparr>\<rparr>) of
           (s, Some e) \<Rightarrow> (s, Some e)
         | (s, None) \<Rightarrow>
             appendBlock (length (sHeaderBlock s) + 2) typ i promised endStream True (sHeaderBlock s) s))"

end
