(* ===== verification/H2_Inbound.thy ===== *)
theory H2_Inbound
  imports H2_Session
begin

text \<open>
  The handlers of the session for what the peer sends (src/http2/session.go): the callbacks that the
  session installs in its frame parser.
\<close>

subsection \<open>Frames\<close>

definition peerMayOpen :: "u32 \<Rightarrow> ('d, 'e) session \<Rightarrow> bool" where
  "peerMayOpen i s =
     (if i = 0 \<or> i \<le> sLastPeerStream s then False
      else if sRole s = RoleServer then i AND 1 = 1
      else i AND 1 = 0 \<and> slEnablePush (sLimits s))"

text \<open>The stream of an inbound field section, opened if the peer may open it.\<close>

definition inboundStream ::
  "u32 \<Rightarrow> ('d, 'e) session \<Rightarrow> (session_error + session_stream) \<times> ('d, 'e) session" where
  "inboundStream i s =
     (case lookupStream i s of
        None \<Rightarrow>
          if \<not> peerMayOpen i s
          then (Inl (ProtocolError 0 ErrCodeProtocol ''peer opened an invalid stream identifier''), s)
          else if slMaxConcurrentStreams (sLimits s) \<le> sActivePeer s
          then (Inl (ProtocolError i ErrCodeRefusedStream ''peer concurrent stream limit exceeded''), s)
          else if slMaxStreams (sLimits s) \<le> of_nat (length (sStreams s))
          then (Inl (ProtocolError i ErrCodeRefusedStream ''stream storage exhausted''), s)
          else
            let st = newStream i StreamOpen False (sPeerInitialWindow s)
                       (uint (slInitialWindowSize (sLimits s)))
            in (Inr st, (putStream st s)\<lparr>sActivePeer := sActivePeer s + 1, sLastPeerStream := i\<rparr>)
      | Some st \<Rightarrow>
          if ssState st = StreamClosed
          then (Inl (ProtocolError 0 ErrCodeStreamClosed ''HEADERS on a closed stream''), s)
          else if \<not> canReceive (ssState st) \<or> ssReceivedTrailers st
          then (Inl (ProtocolError i ErrCodeStreamClosed ''HEADERS in invalid stream state''), s)
          else (Inr st, s))"

definition beginBlock :: "('d, 'e) session \<Rightarrow> ('d, 'e) session \<times> session_error option" where
  "beginBlock s =
     (case BeginBlock (sDecoder s) of (d, err) \<Rightarrow> (s\<lparr>sDecoder := d\<rparr>, map_option ErrHeaderDecoder err))"

definition beginInboundHeaders ::
  "u32 \<Rightarrow> bool \<Rightarrow> ('d, 'e) session \<Rightarrow> ('d, 'e) session \<times> session_error option" where
  "beginInboundHeaders i endStream s =
     (case inboundStream i s of
        (Inl e, s) \<Rightarrow> (s, Some e)
      | (Inr st, s) \<Rightarrow>
          if ssReceivedHeaders st \<and> \<not> endStream
          then (s, Some (ProtocolError i ErrCodeProtocol ''trailing HEADERS omitted END_STREAM''))
          else
            let s = (if ssState st = StreamReservedRemote
                     then putStream (st\<lparr>ssState := StreamHalfClosedLocal\<rparr>) s else s);
                s = s\<lparr>sCurrentHeaders := [], sCurrentHeaderStream := i, sCurrentHeaderEventStream := i,
                      sCurrentHeaderEnd := endStream, sCurrentHeaderTrailer := ssReceivedHeaders st,
                      sCurrentHeaderPush := False\<rparr>
            in beginBlock s)"

definition beginInboundData :: "frame_header \<Rightarrow> ('d, 'e) session \<Rightarrow> ('d, 'e) session" where
  "beginInboundData h s =
     (let i = fhStreamID h; len = uint (fhLength h) in
      case lookupStream i s of
        None \<Rightarrow> streamError' i ErrCodeStreamClosed ''DATA in invalid stream state'' s
      | Some st \<Rightarrow>
          if \<not> canReceive (ssState st) \<or> \<not> ssReceivedHeaders st \<or> ssReceivedTrailers st \<or>
             ssReceiveNoBody st
          then streamError' i ErrCodeStreamClosed ''DATA in invalid stream state'' s
          else if sConnectionRecvWindow s < len
          then connectionError' ErrCodeFlowControl ''connection receive window exceeded'' s
          else if ssRecvWindow st < len
          then streamError' i ErrCodeFlowControl ''stream receive window exceeded'' s
          else (putStream (st\<lparr>ssRecvWindow := ssRecvWindow st - len\<rparr>) s)
                 \<lparr>sConnectionRecvWindow := sConnectionRecvWindow s - len\<rparr>)"

definition onFrameBegin :: "frame_header \<Rightarrow> ('d, 'e) session \<Rightarrow> ('d, 'e) session" where
  "onFrameBegin h s =
     (if sFailed s \<noteq> None then s
      else
        let s = s\<lparr>sCurrentFrame := h\<rparr> in
        if \<not> sPeerInitialSettings s \<and> (fhType h \<noteq> FrameSettings \<or> Has (fhFlags h) FlagACK)
        then connectionError' ErrCodeProtocol ''peer did not begin with SETTINGS'' s
        else if fhType h = FrameHeaders then
          (case beginInboundHeaders (fhStreamID h) (Has (fhFlags h) FlagEndStream) s of
             (s, None) \<Rightarrow> s
           | (s, Some e) \<Rightarrow> handleProtocolError e s)
        else if fhType h = FrameData then beginInboundData h s
        else if fhType h = 0x10 then s\<lparr>sExtensionPayload := []\<rparr>
        else s)"

definition onData :: "u32 \<Rightarrow> bytes \<Rightarrow> bool \<Rightarrow> ('d, 'e) session \<Rightarrow> ('d, 'e) session" where
  "onData i data endStream s =
     (if sFailed s \<noteq> None \<or> data = [] then s
      else case lookupStream i s of
          None \<Rightarrow> s
        | Some st \<Rightarrow>
            if ssReceiveHasLength st \<and> ssReceiveLength st - ssReceiveBody st < of_nat (length data)
            then streamError' i ErrCodeProtocol ''received DATA exceeds Content-Length'' s
            else
              (case queueEvent ((zero_event EventData)\<lparr>evStreamID := i, evEndStream := endStream, evData := data\<rparr>)
                      (putStream (st\<lparr>ssReceiveBody := ssReceiveBody st + of_nat (length data)\<rparr>) s) of
                 (s, None) \<Rightarrow> s
               | (s, Some e) \<Rightarrow> connectionError' ErrCodeEnhanceYourCalm (sessionErrorText e) s))"

definition onDecodedHeader :: "header_field \<Rightarrow> ('d, 'e) session \<Rightarrow> ('d, 'e) session" where
  "onDecodedHeader f s =
     (if sFailed s \<noteq> None then s else s\<lparr>sCurrentHeaders := sCurrentHeaders s @ [f]\<rparr>)"

definition onHeaderBlock ::
  "('d, 'e) session_env \<Rightarrow> u32 \<Rightarrow> bytes \<Rightarrow> ('d, 'e) session \<Rightarrow> ('d, 'e) session" where
  "onHeaderBlock env i fragment s =
     (if sFailed s \<noteq> None \<or> i \<noteq> sCurrentHeaderStream s then s
      else
        (case decoderWrite (envCodec env) (Some onDecodedHeader) fragment (sDecoder s) s of
           (d, s, n, err) \<Rightarrow>
             let s = s\<lparr>sDecoder := d\<rparr> in
             case err of
               None \<Rightarrow> s
             | Some e \<Rightarrow> connectionError' ErrCodeCompression (hpackErrorText e) s))"

text \<open>What a complete and valid field section does to its stream.\<close>

definition commitHeaders ::
  "u32 \<Rightarrow> bool \<Rightarrow> session_stream \<Rightarrow> section_metadata \<Rightarrow> ('d, 'e) session \<Rightarrow> ('d, 'e) session" where
  "commitHeaders i endStream st md s =
     (if sCurrentHeaderPush s then putStream (st\<lparr>ssMethod := mdMethod md\<rparr>) s
      else if \<not> mdInformational md then
        let m = firstNonEmpty (ssMethod st) (mdMethod md);
            st = st\<lparr>ssReceivedHeaders := True, ssMethod := m,
                    ssReceiveNoBody := (mdNoBody md \<or> m = lit ''HEAD'' \<and> mdResponse md),
                    ssReceiveHasLength := mdHasContentLength md,
                    ssReceiveLength := mdContentLength md\<rparr>;
            st = (if sCurrentHeaderTrailer s then st\<lparr>ssReceivedTrailers := True\<rparr> else st);
            s = putStream st s
        in if endStream then remoteEnd i s else s
      else if endStream
      then streamError' i ErrCodeProtocol ''informational response ended stream'' s
      else s)"

definition onHeaderBlockEnd ::
  "('d, 'e) session_env \<Rightarrow> u32 \<Rightarrow> bool \<Rightarrow> ('d, 'e) session \<Rightarrow> ('d, 'e) session" where
  "onHeaderBlockEnd env i endStream s =
     (if sFailed s \<noteq> None \<or> i \<noteq> sCurrentHeaderStream s then s
      else
        (case EndBlock (envCodec env) (sDecoder s) of (d, err) \<Rightarrow>
         let s = s\<lparr>sDecoder := d\<rparr> in
         case err of
           Some e \<Rightarrow> connectionError' ErrCodeCompression (hpackErrorText e) s
         | None \<Rightarrow>
             let j = sCurrentHeaderEventStream s in
             (case lookupStream j s of
                None \<Rightarrow> s
              | Some st \<Rightarrow>
                  let role = (if sCurrentHeaderPush s then RoleServer else sRole s) in
                  if \<not> validateHeaderSection role False (sCurrentHeaderTrailer s) (sCurrentHeaders s)
                       (slEnableExtendedConnect (sLimits s))
                  then streamError' j ErrCodeProtocol (sessionErrorText ErrInvalidHeaders) s
                  else
                    let md = inspectHeaderSection (sCurrentHeaders s);
                        ev = (zero_event (if sCurrentHeaderPush s then EventPushPromise else EventHeaders))
                               \<lparr>evStreamID := j, evEndStream := endStream,
                                evTrailer := sCurrentHeaderTrailer s, evHeaders := sCurrentHeaders s\<rparr>
                    in
                    (case queueEvent ev s of
                       (s, Some e) \<Rightarrow> connectionError' ErrCodeEnhanceYourCalm (sessionErrorText e) s
                     | (s, None) \<Rightarrow>
                         (commitHeaders j endStream st md s)
                           \<lparr>sCurrentHeaderStream := 0, sCurrentHeaderEventStream := 0,
                            sCurrentHeaderPush := False, sCurrentHeaders := []\<rparr>))))"

definition onPriority :: "u32 \<Rightarrow> priority_param \<Rightarrow> ('d, 'e) session \<Rightarrow> ('d, 'e) session" where
  "onPriority i priority s =
     (if sFailed s = None
      then queueEvent' ((zero_event EventPriority)\<lparr>evStreamID := i, evPriority := priority\<rparr>) s else s)"

definition onRSTStream :: "u32 \<Rightarrow> error_code \<Rightarrow> ('d, 'e) session \<Rightarrow> ('d, 'e) session" where
  "onRSTStream i c s =
     (case lookupStream i s of
        None \<Rightarrow>
          if sLastPeerStream s < i
          then connectionError' ErrCodeProtocol ''RST_STREAM on idle stream'' s else s
      | Some st \<Rightarrow>
          queueEvent' ((zero_event EventStreamReset)\<lparr>evStreamID := i, evErrorCode := c\<rparr>) (closeStream i s))"

definition onSetting :: "setting_t \<Rightarrow> ('d, 'e) session \<Rightarrow> ('d, 'e) session" where
  "onSetting st s = s\<lparr>sPendingSettings := sPendingSettings s @ [st]\<rparr>"

text \<open>The range over the streams that shifts their send windows; the boolean says that one of them
  would leave its range, and the streams before it have been changed.\<close>

fun shiftSendWindows :: "int \<Rightarrow> u32 list \<Rightarrow> stream_map \<Rightarrow> stream_map \<times> bool" where
  "shiftSendWindows change [] m = (m, False)"
| "shiftSendWindows change (i # is) m =
     (case map_of m i of
        None \<Rightarrow> shiftSendWindows change is m
      | Some st \<Rightarrow>
          if ssState st = StreamClosed then shiftSendWindows change is m
          else
            let updated = ssSendWindow st + change in
            if maxInt32 < updated \<or> updated < minInt32 then (m, True)
            else shiftSendWindows change is (AList.update i (st\<lparr>ssSendWindow := updated\<rparr>) m))"

definition applyPeerSetting ::
  "('d, 'e) session_env \<Rightarrow> setting_t \<Rightarrow> ('d, 'e) session \<Rightarrow> ('d, 'e) session \<times> session_error option" where
  "applyPeerSetting env st s =
     (let hp = envCodec env; v = settingValue st in
      if settingID st = SettingHeaderTableSize then
        (s\<lparr>sEncoder := hpSetMaxDynamicTableSize hp v (hpSetMaxDynamicTableSizeLimit hp v (sEncoder s))\<rparr>,
         None)
      else if settingID st = SettingEnablePush then
        (if sRole s = RoleClient
         then (s, Some (ProtocolError 0 ErrCodeProtocol ''server sent SETTINGS_ENABLE_PUSH''))
         else (s\<lparr>sPeerEnablePush := (v \<noteq> 0)\<rparr>, None))
      else if settingID st = SettingMaxConcurrentStreams then (s\<lparr>sPeerMaxConcurrent := v\<rparr>, None)
      else if settingID st = SettingInitialWindowSize then
        (case shiftSendWindows (uint v - sPeerInitialWindow s)
                (envOrder env (map fst (sStreams s))) (sStreams s) of
           (m, True) \<Rightarrow>
             (s\<lparr>sStreams := m\<rparr>,
              Some (ProtocolError 0 ErrCodeFlowControl ''SETTINGS_INITIAL_WINDOW_SIZE overflow''))
         | (m, False) \<Rightarrow> (s\<lparr>sStreams := m, sPeerInitialWindow := uint v\<rparr>, None))
      else if settingID st = SettingMaxFrameSize then (s\<lparr>sPeerMaxFrame := v\<rparr>, None)
      else if settingID st = SettingEnableConnectProtocol then (s\<lparr>sPeerEnableConnect := (v \<noteq> 0)\<rparr>, None)
      else if settingID st = SettingNoRFC7540Priorities then
        (if sPeerInitialSettings s \<and> sPeerNoPriorities s \<noteq> (v \<noteq> 0)
         then (s, Some (ProtocolError 0 ErrCodeProtocol
                 ''SETTINGS_NO_RFC7540_PRIORITIES changed after initial SETTINGS''))
         else (s\<lparr>sPeerNoPriorities := (v \<noteq> 0)\<rparr>, None))
      else (s, None))"

fun applyPeerSettings ::
  "('d, 'e) session_env \<Rightarrow> setting_t list \<Rightarrow> ('d, 'e) session \<Rightarrow> ('d, 'e) session \<times> session_error option" where
  "applyPeerSettings env [] s = (s, None)"
| "applyPeerSettings env (st # sts) s =
     (case applyPeerSetting env st s of (s, err) \<Rightarrow>
      if err \<noteq> None then (s, err) else applyPeerSettings env sts s)"

definition onSettingsEnd :: "('d, 'e) session_env \<Rightarrow> bool \<Rightarrow> ('d, 'e) session \<Rightarrow> ('d, 'e) session" where
  "onSettingsEnd env ack s =
     (if sFailed s \<noteq> None then s
      else if ack then
        (if sLocalSettingsOutstanding s = 0
         then connectionError' ErrCodeProtocol ''unexpected SETTINGS acknowledgement'' s
         else queueEvent' (zero_event EventSettingsAck)
                (s\<lparr>sLocalSettingsOutstanding := sLocalSettingsOutstanding s - 1\<rparr>))
      else
        let pending = sPendingSettings s in
        (case applyPeerSettings env pending s of
           (s, Some e) \<Rightarrow> handleProtocolError e s
         | (s, None) \<Rightarrow>
             (case appendSettings [] True (s\<lparr>sPendingSettings := [], sPeerInitialSettings := True\<rparr>) of
                (s, Some e) \<Rightarrow> connectionError' ErrCodeInternal (sessionErrorText e) s
              | (s, None) \<Rightarrow> queueEvent' ((zero_event EventSettings)\<lparr>evSettings := pending\<rparr>) s)))"

definition onPushPromise :: "u32 \<Rightarrow> u32 \<Rightarrow> ('d, 'e) session \<Rightarrow> ('d, 'e) session" where
  "onPushPromise i promised s =
     (if sFailed s \<noteq> None then s
      else if sRole s \<noteq> RoleClient \<or> \<not> slEnablePush (sLimits s) \<or> \<not> sPeerEnablePush s \<or> promised = 0 \<or>
          promised AND 1 \<noteq> 0 \<or> promised \<le> sLastPeerStream s \<or>
          (case lookupStream i s of None \<Rightarrow> True | Some parent \<Rightarrow> \<not> canReceive (ssState parent))
      then connectionError' ErrCodeProtocol ''invalid PUSH_PROMISE'' s
      else if slMaxConcurrentStreams (sLimits s) \<le> sActivePeer s \<or>
          slMaxStreams (sLimits s) \<le> of_nat (length (sStreams s))
      then streamError' promised ErrCodeRefusedStream ''push stream storage exhausted'' s
      else
        let s = putStream (newStream promised StreamReservedRemote False (sPeerInitialWindow s)
                  (uint (slInitialWindowSize (sLimits s)))) s;
            s = s\<lparr>sActivePeer := sActivePeer s + 1, sLastPeerStream := promised, sCurrentHeaders := [],
                  sCurrentHeaderStream := i, sCurrentHeaderEventStream := promised,
                  sCurrentHeaderEnd := False, sCurrentHeaderTrailer := False, sCurrentHeaderPush := True\<rparr>
        in
        (case beginBlock s of
           (s, None) \<Rightarrow> s
         | (s, Some e) \<Rightarrow> connectionError' ErrCodeCompression (sessionErrorText e) s))"

definition onPing :: "bytes \<Rightarrow> bool \<Rightarrow> ('d, 'e) session \<Rightarrow> ('d, 'e) session" where
  "onPing data ack s =
     (if sFailed s \<noteq> None then s
      else if ack then queueEvent' ((zero_event EventPingAck)\<lparr>evPing := data\<rparr>) s
      else
        (case appendFrame (frameOf FramePing FlagACK 0) data s of
           (s, Some e) \<Rightarrow> connectionError' ErrCodeInternal (sessionErrorText e) s
         | (s, None) \<Rightarrow> queueEvent' ((zero_event EventPing)\<lparr>evPing := data\<rparr>) s))"

text \<open>The range over the streams that closes those the peer has not processed.\<close>

definition refuseStream :: "u32 \<Rightarrow> u32 \<Rightarrow> ('d, 'e) session \<Rightarrow> ('d, 'e) session" where
  "refuseStream lastStreamID i s =
     (case lookupStream i s of
        None \<Rightarrow> s
      | Some st \<Rightarrow>
          if ssLocal st \<and> lastStreamID < ssId st \<and> ssState st \<noteq> StreamClosed
          then queueEvent' ((zero_event EventStreamReset)\<lparr>evStreamID := ssId st,
                 evErrorCode := ErrCodeRefusedStream\<rparr>) (closeStream (ssId st) s)
          else s)"

definition onGoAway ::
  "('d, 'e) session_env \<Rightarrow> u32 \<Rightarrow> error_code \<Rightarrow> ('d, 'e) session \<Rightarrow> ('d, 'e) session" where
  "onGoAway env lastStreamID c s =
     (if sGoAwayReceived s \<and> sPeerLastStream s < lastStreamID
      then connectionError' ErrCodeProtocol ''GOAWAY last stream identifier increased'' s
      else
        let s = s\<lparr>sGoAwayReceived := True, sPeerLastStream := lastStreamID\<rparr>;
            s = fold (refuseStream lastStreamID) (envOrder env (map fst (sStreams s))) s
        in queueEvent' ((zero_event EventGoAway)\<lparr>evLastStreamID := lastStreamID, evErrorCode := c\<rparr>) s)"

definition onWindowUpdate :: "u32 \<Rightarrow> u32 \<Rightarrow> ('d, 'e) session \<Rightarrow> ('d, 'e) session" where
  "onWindowUpdate i increment s =
     (if sFailed s \<noteq> None then s
      else if i = 0 then
        (if maxInt32 - uint increment < sConnectionSendWindow s
         then connectionError' ErrCodeFlowControl ''connection send window overflow'' s
         else queueEvent' ((zero_event EventWindowUpdate)\<lparr>evWindowIncrement := increment\<rparr>)
                (s\<lparr>sConnectionSendWindow := sConnectionSendWindow s + uint increment\<rparr>))
      else case lookupStream i s of
          None \<Rightarrow>
            if sLastPeerStream s < i
            then connectionError' ErrCodeProtocol ''WINDOW_UPDATE on idle stream'' s else s
        | Some st \<Rightarrow>
            if ssState st = StreamClosed then s
            else if maxInt32 - uint increment < ssSendWindow st
            then streamError' i ErrCodeFlowControl ''stream send window overflow'' s
            else queueEvent' ((zero_event EventWindowUpdate)\<lparr>evStreamID := i, evWindowIncrement := increment\<rparr>)
                   (putStream (st\<lparr>ssSendWindow := ssSendWindow st + uint increment\<rparr>) s))"

definition onUnknown :: "frame_header \<Rightarrow> bytes \<Rightarrow> ('d, 'e) session \<Rightarrow> ('d, 'e) session" where
  "onUnknown h fragment s =
     (if fhType h = 0x10 then
        if uint (MaxFrameSize (slFrame (sLimits s))) - int (length (sExtensionPayload s)) < int (length fragment)
        then connectionError' ErrCodeFrameSize ''PRIORITY_UPDATE too large'' s
        else s\<lparr>sExtensionPayload := sExtensionPayload s @ fragment\<rparr>
      else s)"

text \<open>The end of a DATA frame: both receive windows are opened again when half of them is used.\<close>

definition refillConnection :: "('d, 'e) session \<Rightarrow> ('d, 'e) session" where
  "refillConnection s =
     (let initial = uint (slInitialWindowSize (sLimits s)) in
      if sConnectionRecvWindow s \<le> initial div 2 then
        let increment = initial - sConnectionRecvWindow s in
        if 0 < increment
        then (fst (appendWindowUpdate 0 (of_int increment) s))
               \<lparr>sConnectionRecvWindow := sConnectionRecvWindow s + increment\<rparr>
        else s
      else s)"

definition refillStream :: "u32 \<Rightarrow> ('d, 'e) session \<Rightarrow> ('d, 'e) session" where
  "refillStream i s =
     (case lookupStream i s of
        None \<Rightarrow> s
      | Some st \<Rightarrow>
          let initial = uint (slInitialWindowSize (sLimits s)) in
          if ssRecvWindow st \<le> initial div 2 then
            let increment = initial - ssRecvWindow st in
            if 0 < increment
            then putStream (st\<lparr>ssRecvWindow := ssRecvWindow st + increment\<rparr>)
                   (fst (appendWindowUpdate i (of_int increment) s))
            else s
          else s)"

definition countControl :: "frame_header \<Rightarrow> ('d, 'e) session \<Rightarrow> ('d, 'e) session \<times> bool" where
  "countControl h s =
     (if fhType h \<noteq> FrameData \<and> fhType h \<noteq> FrameHeaders \<and> fhType h \<noteq> FrameContinuation then
        let s = s\<lparr>sControlFrames := sControlFrames s + 1\<rparr> in
        if slMaxControlFrames (sLimits s) < sControlFrames s
        then (connectionError' ErrCodeEnhanceYourCalm ''control frame quota exceeded'' s, True)
        else (s, False)
      else (s\<lparr>sControlFrames := 0\<rparr>, False))"

definition onFrameComplete :: "frame_header \<Rightarrow> ('d, 'e) session \<Rightarrow> ('d, 'e) session" where
  "onFrameComplete h s =
     (if sFailed s \<noteq> None then s
      else case countControl h s of (s, exceeded) \<Rightarrow>
        if exceeded then s
        else if fhType h = FrameData then
          (if lookupStream (fhStreamID h) s = None then s
           else
             let s = refillStream (fhStreamID h) (refillConnection s) in
             if Has (fhFlags h) FlagEndStream then remoteEnd (fhStreamID h) s else s)
        else if fhType h = 0x10 then
          (if fhStreamID h \<noteq> 0 \<or> length (sExtensionPayload s) < 4
           then connectionError' ErrCodeProtocol ''invalid PRIORITY_UPDATE'' s
           else queueEvent' ((zero_event EventPriorityUpdate)
                  \<lparr>evStreamID := Uint32 (take 4 (sExtensionPayload s)) AND 0x7fffffff,
                   evData := drop 4 (sExtensionPayload s)\<rparr>) s)
        else s)"

end
