(* ===== verification/H2_Api.thy ===== *)
theory H2_Api
  imports H2_Inbound
begin

text \<open>
  The methods of the session that its owner calls (src/http2/session.go): construction, \<open>Feed\<close>,
  the output and event queues, and the stream operations.
\<close>

subsection \<open>Construction\<close>

definition sessionCallbacks :: "('d, 'e) session_env \<Rightarrow> ('d, 'e) session frame_callbacks" where
  "sessionCallbacks env =
     \<lparr>fcFrameBegin = Some (\<lambda>h s. (onFrameBegin h s, False)),
      fcData = Some (\<lambda>i data endStream s. (onData i data endStream s, False)),
      fcHeaderBlock = Some (\<lambda>i fragment s. (onHeaderBlock env i fragment s, False)),
      fcHeaderBlockEnd = Some (\<lambda>i endStream s. (onHeaderBlockEnd env i endStream s, False)),
      fcPriority = Some (\<lambda>i priority s. (onPriority i priority s, False)),
      fcRSTStream = Some (\<lambda>i c s. (onRSTStream i c s, False)),
      fcSetting = Some (\<lambda>st s. (onSetting st s, False)),
      fcSettingsEnd = Some (\<lambda>ack s. (onSettingsEnd env ack s, False)),
      fcPushPromise = Some (\<lambda>i promised s. (onPushPromise i promised s, False)),
      fcPing = Some (\<lambda>data ack s. (onPing data ack s, False)),
      fcGoAway = Some (\<lambda>lastStreamID c s. (onGoAway env lastStreamID c s, False)),
      fcGoAwayDebug = None,
      fcWindowUpdate = Some (\<lambda>i increment s. (onWindowUpdate i increment s, False)),
      fcUnknown = Some (\<lambda>h fragment s. (onUnknown h fragment s, False)),
      fcFrameComplete = Some (\<lambda>h s. (onFrameComplete h s, False))\<rparr>"

definition startSettings :: "session_role \<Rightarrow> session_limits \<Rightarrow> setting_t list" where
  "startSettings role l =
     (let settings =
            [\<lparr>settingID = SettingHeaderTableSize, settingValue = MaxDynamicTableBytes (slHeader l)\<rparr>,
             \<lparr>settingID = SettingEnablePush, settingValue = boolSetting (slEnablePush l)\<rparr>,
             \<lparr>settingID = SettingMaxConcurrentStreams, settingValue = slMaxConcurrentStreams l\<rparr>,
             \<lparr>settingID = SettingInitialWindowSize, settingValue = slInitialWindowSize l\<rparr>,
             \<lparr>settingID = SettingMaxFrameSize, settingValue = MaxFrameSize (slFrame l)\<rparr>,
             \<lparr>settingID = SettingMaxHeaderListSize,
              settingValue = clampUint64To32 (MaxHeaderListBytes (slHeader l))\<rparr>,
             \<lparr>settingID = SettingEnableConnectProtocol,
              settingValue = boolSetting (slEnableExtendedConnect l)\<rparr>,
             \<lparr>settingID = SettingNoRFC7540Priorities, settingValue = 1\<rparr>]
      in if role = RoleServer then take 1 settings @ drop 2 settings else settings)"

definition startSession :: "('d, 'e) session \<Rightarrow> ('d, 'e) session \<times> session_error option" where
  "startSession s =
     (if sStarted s then (s, None)
      else
        let s = s\<lparr>sStarted := True\<rparr> in
        if sRole s = RoleClient \<and> \<not> reserveOutput (int (length ClientPreface)) s
        then (s, Some ErrOutputLimit)
        else
          let s = (if sRole s = RoleClient then s\<lparr>sOutput := sOutput s @ ClientPreface\<rparr> else s) in
          (case appendSettings (startSettings (sRole s) (sLimits s)) False s of
             (s, Some e) \<Rightarrow> (s, Some e)
           | (s, None) \<Rightarrow> (s\<lparr>sLocalSettingsOutstanding := sLocalSettingsOutstanding s + 1\<rparr>, None)))"

definition freshSession :: "('d, 'e) session_env \<Rightarrow> session_role \<Rightarrow> session_limits \<Rightarrow> ('d, 'e) session" where
  "freshSession env role l =
     (let hp = envCodec env in
      \<lparr>sRole = role, sLimits = l, sCaps = l, sParser = NewFrameParser (slFrame l),
       sDecoder = NewHeaderDecoder hp (slHeader l),
       sEncoder = hpSetMaxDynamicTableSizeLimit hp defaultMaxDynamicTableBytes (hpNewEncoder hp),
       sEncoderWriter = \<lparr>awLimit = sint (MaxHeaderListBytes (slHeader l)), awErr = None\<rparr>,
       sStreams = [], sClosedStreams = [], sNextLocalStream = (if role = RoleClient then 1 else 2),
       sLastPeerStream = 0, sLastProcessedPeerStream = 0, sActiveLocal = 0, sActivePeer = 0,
       sPeerMaxConcurrent = 0xffffffff, sPeerMaxFrame = defaultMaxFrameSize,
       sLocalHeaderTable = MaxDynamicTableBytes (slHeader l),
       sPeerInitialWindow = uint defaultInitialWindowSize,
       sConnectionSendWindow = uint defaultInitialWindowSize,
       sConnectionRecvWindow = uint (slInitialWindowSize l),
       sPeerEnablePush = True, sPeerEnableConnect = False, sPeerNoPriorities = False,
       sLocalSettingsOutstanding = 0, sControlFrames = 0, sStarted = False, sClosed = False,
       sFailed = None, sPeerInitialSettings = False, sGoAwayReceived = False, sGoAwaySent = False,
       sPeerLastStream = 0, sPrefacePos = 0, sOutput = [], sEvents = [], sEventBytes = 0,
       sHeaderBlock = [], sCurrentHeaders = [], sCurrentHeaderStream = 0,
       sCurrentHeaderEventStream = 0, sCurrentHeaderEnd = False, sCurrentHeaderTrailer = False,
       sCurrentHeaderPush = False, sCurrentFrame = zero_header, sPendingSettings = [],
       sExtensionPayload = []\<rparr>)"

definition NewSession ::
  "('d, 'e) session_env \<Rightarrow> session_role \<Rightarrow> session_limits \<Rightarrow> session_error + ('d, 'e) session" where
  "NewSession env role l =
     (if role \<noteq> RoleClient \<and> role \<noteq> RoleServer then Inl ErrInvalidRole
      else
        (case startSession (freshSession env role (sessionNormalized l)) of
           (s, Some e) \<Rightarrow> Inl e
         | (s, None) \<Rightarrow> Inr s))"

subsection \<open>Input\<close>

text \<open>The loop over the frames; \<open>None\<close> would be a call of the frame parser that does not
  return. The result is the session, the unread suffix and the error.\<close>

function feedLoop ::
  "('d, 'e) session_env \<Rightarrow> bytes \<Rightarrow> ('d, 'e) session \<Rightarrow>
     (('d, 'e) session \<times> bytes \<times> session_error option) option" where
  "feedLoop env src s =
     (if src = [] then Some (s, [], None)
      else
        (case frameParseOne (Some (sessionCallbacks env)) (sParser s) s src of
           None \<Rightarrow> None
         | Some (p, s, n, complete, c) \<Rightarrow>
             let s = s\<lparr>sParser := p\<rparr>; src' = drop n src in
             if c \<noteq> FCodeNone
             then (case connectionError (frameCodeToError c) (frameCodeString c) s of
                     (s, e) \<Rightarrow> Some (s, src', Some e))
             else if sFailed s \<noteq> None then Some (s, src', sFailed s)
             else if n = 0 then Some (s, src', None)
             else feedLoop env src' s))"
  by pat_completeness auto
termination
  by (relation "measure (\<lambda>(env, src, s). length src)") auto

declare feedLoop.simps [simp del]

text \<open>The client preface: the boolean says that an octet differs.\<close>

fun matchPreface :: "u8 \<Rightarrow> bytes \<Rightarrow> u8 \<times> bytes \<times> bool" where
  "matchPreface pos [] = (pos, [], False)"
| "matchPreface pos (b # bs) =
     (if length ClientPreface \<le> unat pos then (pos, b # bs, False)
      else if b \<noteq> ClientPreface ! unat pos then (pos, b # bs, True)
      else matchPreface (pos + 1) bs)"

definition Feed ::
  "('d, 'e) session_env \<Rightarrow> bytes \<Rightarrow> ('d, 'e) session \<Rightarrow>
     (('d, 'e) session \<times> nat \<times> session_error option) option" where
  "Feed env src s =
     (if sClosed s then Some (s, 0, Some ErrSessionClosed)
      else if sFailed s \<noteq> None then Some (s, 0, sFailed s)
      else if sRole s = RoleServer \<and> unat (sPrefacePos s) < length ClientPreface then
        (case matchPreface (sPrefacePos s) src of (pos, rest, bad) \<Rightarrow>
         let s = s\<lparr>sPrefacePos := pos\<rparr>; consumed = length src - length rest in
         if bad
         then (case connectionError ErrCodeProtocol ''invalid client connection preface'' s of
                 (s, e) \<Rightarrow> Some (s, consumed, Some e))
         else if rest = [] \<or> unat pos < length ClientPreface then Some (s, consumed, None)
         else map_option (\<lambda>(s, rest, err). (s, length src - length rest, err)) (feedLoop env rest s))
      else map_option (\<lambda>(s, rest, err). (s, length src - length rest, err)) (feedLoop env src s))"

definition FinishSession :: "('d, 'e) session \<Rightarrow> ('d, 'e) session \<times> session_error option" where
  "FinishSession s =
     (if sClosed s then (s, Some ErrSessionClosed)
      else if sFailed s \<noteq> None then (s, sFailed s)
      else if sRole s = RoleServer \<and> unat (sPrefacePos s) \<noteq> length ClientPreface
      then (case connectionError ErrCodeProtocol ''truncated client connection preface'' s of
              (s, e) \<Rightarrow> (s, Some e))
      else
        (case frameFinish (sParser s) of (p, c) \<Rightarrow>
         let s = s\<lparr>sParser := p\<rparr> in
         if c \<noteq> FCodeNone
         then (case connectionError (frameCodeToError c) (frameCodeString c) s of
                 (s, e) \<Rightarrow> (s, Some e))
         else (s, None)))"

subsection \<open>Queues\<close>

definition ConsumeOutput :: "int \<Rightarrow> ('d, 'e) session \<Rightarrow> ('d, 'e) session \<times> session_error option" where
  "ConsumeOutput n s =
     (if n < 0 \<or> int (length (sOutput s)) < n then (s, Some ErrSessionShortBuffer)
      else (s\<lparr>sOutput := drop (nat n) (sOutput s)\<rparr>, None))"

definition NextEvent :: "('d, 'e) session \<Rightarrow> ('d, 'e) session \<times> event option" where
  "NextEvent s =
     (case sEvents s of
        [] \<Rightarrow> (s, None)
      | ev # evs \<Rightarrow>
          (s\<lparr>sEvents := evs, sEventBytes := sEventBytes s - eventRetainedBytes ev\<rparr>, Some ev))"

definition StreamState :: "u32 \<Rightarrow> ('d, 'e) session \<Rightarrow> stream_state \<times> bool" where
  "StreamState i s =
     (case lookupStream i s of None \<Rightarrow> (StreamIdle, False) | Some st \<Rightarrow> (ssState st, True))"

subsection \<open>Streams\<close>

text \<open>The checks of \<open>SendHeaders\<close> that depend on the field section.\<close>

definition sendHeadersRefused :: "section_metadata \<Rightarrow> bool \<Rightarrow> bool \<Rightarrow> session_stream \<Rightarrow> bool" where
  "sendHeadersRefused md trailer endStream st \<longleftrightarrow>
     (if mdInformational md then trailer \<or> endStream else mdNoBody md \<and> \<not> endStream) \<or>
     endStream \<and> mdHasContentLength md \<and>
       \<not> (mdNoBody md \<or> ssMethod st = lit ''HEAD'' \<and> mdResponse md) \<and>
       mdContentLength md \<noteq> ssSendBody st"

definition sentHeaders :: "section_metadata \<Rightarrow> bool \<Rightarrow> session_stream \<Rightarrow> session_stream" where
  "sentHeaders md trailer st =
     (let projectedNoBody = (mdNoBody md \<or> ssMethod st = lit ''HEAD'' \<and> mdResponse md);
          st = (if ssState st = StreamReservedLocal then st\<lparr>ssState := StreamHalfClosedRemote\<rparr> else st);
          st = (if \<not> mdInformational md
                then st\<lparr>ssSentHeaders := True, ssMethod := firstNonEmpty (ssMethod st) (mdMethod md),
                        ssSendNoBody := projectedNoBody, ssSendHasLength := mdHasContentLength md,
                        ssSendLength := mdContentLength md\<rparr>
                else st)
      in if trailer then st\<lparr>ssSentTrailers := True\<rparr> else st)"

definition SendHeaders ::
  "('d, 'e) session_env \<Rightarrow> u32 \<Rightarrow> header_field list \<Rightarrow> bool \<Rightarrow> ('d, 'e) session \<Rightarrow>
     ('d, 'e) session \<times> session_error option" where
  "SendHeaders env i headers endStream s =
     (case readySession s of
        Some e \<Rightarrow> (s, Some e)
      | None \<Rightarrow>
          (case lookupStream i s of
             None \<Rightarrow> (s, Some ErrStreamNotFound)
           | Some st \<Rightarrow>
               if \<not> canSend (ssState st) \<or> ssSentTrailers st then (s, Some ErrStreamState)
               else
                 let trailer = ssSentHeaders st; md = inspectHeaderSection headers in
                 if trailer \<and> \<not> endStream then (s, Some ErrInvalidHeaders)
                 else if \<not> validateHeaderSection (sRole s) True trailer headers
                        (slEnableExtendedConnect (sLimits s))
                 then (s, Some ErrInvalidHeaders)
                 else if sendHeadersRefused md trailer endStream st then (s, Some ErrInvalidHeaders)
                 else
                   (case encodeAndAppendHeaders env FrameHeaders i 0 headers endStream s of
                      (s, Some e) \<Rightarrow> (s, Some e)
                    | (s, None) \<Rightarrow>
                        let st = sentHeaders md trailer st; s = putStream st s in
                        if endStream then
                          (if ssSendHasLength st \<and> \<not> ssSendNoBody st \<and> ssSendLength st \<noteq> ssSendBody st
                           then (s, Some ErrInvalidHeaders)
                           else (localEnd i s, None))
                        else (s, None))))"

definition OpenStream ::
  "('d, 'e) session_env \<Rightarrow> header_field list \<Rightarrow> bool \<Rightarrow> ('d, 'e) session \<Rightarrow>
     ('d, 'e) session \<times> (session_error + u32)" where
  "OpenStream env headers endStream s =
     (if sGoAwayReceived s \<or> sGoAwaySent s then (s, Inl ErrSessionClosed)
      else if sRole s \<noteq> RoleClient then (s, Inl ErrStreamState)
      else if sNextLocalStream s = 0 \<or> maxInt32 < uint (sNextLocalStream s)
      then (s, Inl ErrStreamIDExhausted)
      else if sPeerMaxConcurrent s \<le> sActiveLocal s then (s, Inl ErrWouldBlock)
      else if slMaxStreams (sLimits s) \<le> of_nat (length (sStreams s)) then (s, Inl ErrStreamLimit)
      else
        let i = sNextLocalStream s;
            st = newStream i StreamOpen True (sPeerInitialWindow s)
                   (uint (slInitialWindowSize (sLimits s)));
            s = (putStream st s)\<lparr>sNextLocalStream := i + 2, sActiveLocal := sActiveLocal s + 1\<rparr>
        in
        (case SendHeaders env i headers endStream s of
           (s, Some e) \<Rightarrow>
             (s\<lparr>sStreams := AList.delete i (sStreams s), sActiveLocal := sActiveLocal s - 1\<rparr>, Inl e)
         | (s, None) \<Rightarrow> (s, Inr i)))"

definition PushPromise ::
  "('d, 'e) session_env \<Rightarrow> u32 \<Rightarrow> header_field list \<Rightarrow> ('d, 'e) session \<Rightarrow>
     ('d, 'e) session \<times> (session_error + u32)" where
  "PushPromise env parent headers s =
     (if sRole s \<noteq> RoleServer \<or> \<not> slEnablePush (sLimits s) \<or> \<not> sPeerEnablePush s
      then (s, Inl ErrStreamState)
      else if (case lookupStream parent s of None \<Rightarrow> True | Some st \<Rightarrow> \<not> canSend (ssState st))
      then (s, Inl ErrStreamNotFound)
      else if sNextLocalStream s = 0 \<or> maxInt32 < uint (sNextLocalStream s)
      then (s, Inl ErrStreamIDExhausted)
      else if sPeerMaxConcurrent s \<le> sActiveLocal s then (s, Inl ErrWouldBlock)
      else if slMaxStreams (sLimits s) \<le> of_nat (length (sStreams s)) then (s, Inl ErrStreamLimit)
      else if \<not> validateHeaderSection RoleClient True False headers (slEnableExtendedConnect (sLimits s))
      then (s, Inl ErrInvalidHeaders)
      else
        let i = sNextLocalStream s;
            st = (newStream i StreamReservedLocal True (sPeerInitialWindow s)
                   (uint (slInitialWindowSize (sLimits s))))
                   \<lparr>ssMethod := mdMethod (inspectHeaderSection headers)\<rparr>
        in
        (case encodeAndAppendHeaders env FramePushPromise parent i headers False
                (s\<lparr>sNextLocalStream := i + 2\<rparr>) of
           (s, Some e) \<Rightarrow> (s, Inl e)
         | (s, None) \<Rightarrow> ((putStream st s)\<lparr>sActiveLocal := sActiveLocal s + 1\<rparr>, Inr i)))"

definition PriorityUpdate :: "u32 \<Rightarrow> bytes \<Rightarrow> ('d, 'e) session \<Rightarrow> ('d, 'e) session \<times> session_error option" where
  "PriorityUpdate i v s =
     (if uint (sPeerMaxFrame s) - 4 < int (length v) then (s, Some ErrOutputLimit)
      else appendFrame (frameOf 0x10 0 0) (PutUint32 (i AND 0x7fffffff) @ v) s)"

text \<open>How much of the data the frame size and the two windows permit.\<close>

definition sendAvailable :: "bytes \<Rightarrow> session_stream \<Rightarrow> ('d, 'e) session \<Rightarrow> int" where
  "sendAvailable src st s =
     (let available = min (int (length src)) (uint (sPeerMaxFrame s));
          available = (if sConnectionSendWindow s < available then sConnectionSendWindow s else available)
      in if ssSendWindow st < available then ssSendWindow st else available)"

definition SendData ::
  "u32 \<Rightarrow> bytes \<Rightarrow> bool \<Rightarrow> ('d, 'e) session \<Rightarrow> ('d, 'e) session \<times> nat \<times> session_error option" where
  "SendData i src endStream s =
     (case readySession s of
        Some e \<Rightarrow> (s, 0, Some e)
      | None \<Rightarrow>
          (case lookupStream i s of
             None \<Rightarrow> (s, 0, Some ErrStreamNotFound)
           | Some st \<Rightarrow>
               if \<not> ssSentHeaders st \<or> \<not> canSend (ssState st) \<or> ssSentTrailers st \<or> ssSendNoBody st
               then (s, 0, Some ErrStreamState)
               else if ssSendHasLength st \<and> ssSendLength st - ssSendBody st < of_nat (length src)
               then (s, 0, Some ErrInvalidHeaders)
               else if src = [] then
                 (if \<not> endStream then (s, 0, None)
                  else if ssSendHasLength st \<and> ssSendLength st \<noteq> ssSendBody st
                  then (s, 0, Some ErrInvalidHeaders)
                  else
                    (case appendFrame (frameOf FrameData FlagEndStream i) [] s of
                       (s, Some e) \<Rightarrow> (s, 0, Some e)
                     | (s, None) \<Rightarrow> (localEnd i s, 0, None)))
               else
                 let available = sendAvailable src st s in
                 if available \<le> 0 then (s, 0, Some ErrWouldBlock)
                 else
                   let n = nat available; finish = (n = length src \<and> endStream) in
                   if finish \<and> ssSendHasLength st \<and> ssSendBody st + of_nat n \<noteq> ssSendLength st
                   then (s, 0, Some ErrInvalidHeaders)
                   else
                     (case appendFrame (frameOf FrameData (if finish then FlagEndStream else 0) i)
                             (take n src) s of
                        (s, Some e) \<Rightarrow> (s, 0, Some e)
                      | (s, None) \<Rightarrow>
                          let s = (putStream (st\<lparr>ssSendWindow := ssSendWindow st - available,
                                                ssSendBody := ssSendBody st + of_nat n\<rparr>) s)
                                    \<lparr>sConnectionSendWindow := sConnectionSendWindow s - available\<rparr>
                          in (if finish then localEnd i s else s, n, None))))"

definition ResetStream ::
  "u32 \<Rightarrow> error_code \<Rightarrow> ('d, 'e) session \<Rightarrow> ('d, 'e) session \<times> session_error option" where
  "ResetStream i c s =
     (case lookupStream i s of
        None \<Rightarrow> (s, Some ErrStreamNotFound)
      | Some st \<Rightarrow>
          if ssState st = StreamIdle then (s, Some ErrStreamNotFound)
          else
            (case appendFrame (frameOf FrameRSTStream 0 i) (PutUint32 c) s of
               (s, Some e) \<Rightarrow> (s, Some e)
             | (s, None) \<Rightarrow> (closeStream i s, None)))"

subsection \<open>Connection\<close>

text \<open>The values that \<open>UpdateSettings\<close> collects before it applies them.\<close>

record settings_update =
  nuHeaderTable :: u32
  nuEnablePush :: bool
  nuMaxConcurrent :: u32
  nuInitialWindow :: u32
  nuMaxFrame :: u32
  nuEnableConnect :: bool

definition collectSetting ::
  "('d, 'e) session \<Rightarrow> setting_t \<Rightarrow> settings_update \<Rightarrow> settings_update option" where
  "collectSetting s st u =
     (let v = settingValue st in
      if \<not> validSetting st then None
      else if settingID st = SettingHeaderTableSize then
        (if MaxDynamicTableBytes (slHeader (sCaps s)) < v \<or> hdActive (sDecoder s) then None
         else Some (u\<lparr>nuHeaderTable := v\<rparr>))
      else if settingID st = SettingEnablePush then
        (if sRole s \<noteq> RoleClient then None else Some (u\<lparr>nuEnablePush := (v \<noteq> 0)\<rparr>))
      else if settingID st = SettingMaxConcurrentStreams then
        (if slMaxStreams (sCaps s) < v then None else Some (u\<lparr>nuMaxConcurrent := v\<rparr>))
      else if settingID st = SettingInitialWindowSize then Some (u\<lparr>nuInitialWindow := v\<rparr>)
      else if settingID st = SettingMaxFrameSize then
        (if MaxFrameSize (slFrame (sCaps s)) < v then None else Some (u\<lparr>nuMaxFrame := v\<rparr>))
      else if settingID st = SettingMaxHeaderListSize then
        (if MaxHeaderListBytes (slHeader (sCaps s)) < ucast v then None else Some u)
      else if settingID st = SettingEnableConnectProtocol then Some (u\<lparr>nuEnableConnect := (v \<noteq> 0)\<rparr>)
      else if settingID st = SettingNoRFC7540Priorities then (if v \<noteq> 1 then None else Some u)
      else Some u)"

fun collectSettings ::
  "('d, 'e) session \<Rightarrow> setting_t list \<Rightarrow> settings_update \<Rightarrow> settings_update option" where
  "collectSettings s [] u = Some u"
| "collectSettings s (st # sts) u =
     (case collectSetting s st u of None \<Rightarrow> None | Some u' \<Rightarrow> collectSettings s sts u')"

definition UpdateSettings ::
  "('d, 'e) session_env \<Rightarrow> setting_t list \<Rightarrow> ('d, 'e) session \<Rightarrow> ('d, 'e) session \<times> session_error option" where
  "UpdateSettings env settings s =
     (case readySession s of
        Some e \<Rightarrow> (s, Some e)
      | None \<Rightarrow>
          if uint (sPeerMaxFrame s) div 6 < int (length settings) then (s, Some ErrInvalidHeaders)
          else if \<not> reserveOutput (9 + int (length settings) * 6) s then (s, Some ErrOutputLimit)
          else
            (case collectSettings s settings
                    \<lparr>nuHeaderTable = sLocalHeaderTable s, nuEnablePush = slEnablePush (sLimits s),
                     nuMaxConcurrent = slMaxConcurrentStreams (sLimits s),
                     nuInitialWindow = slInitialWindowSize (sLimits s),
                     nuMaxFrame = MaxFrameSize (fLimits (sParser s)),
                     nuEnableConnect = slEnableExtendedConnect (sLimits s)\<rparr> of
               None \<Rightarrow> (s, Some ErrInvalidHeaders)
             | Some u \<Rightarrow>
                 let change = uint (nuInitialWindow u) - uint (slInitialWindowSize (sLimits s)) in
                 if list_ex (\<lambda>(i, st). maxInt32 < ssRecvWindow st + change \<or>
                      ssRecvWindow st + change < minInt32) (sStreams s)
                 then (s, Some ErrStreamState)
                 else
                   (case SetAllowedDynamicTableBytes (envCodec env) (nuHeaderTable u) (sDecoder s) of
                      (d, Some e) \<Rightarrow> (s\<lparr>sDecoder := d\<rparr>, Some (ErrHeaderDecoder e))
                    | (d, None) \<Rightarrow>
                        (case appendSettings settings False (s\<lparr>sDecoder := d\<rparr>) of
                           (s, Some e) \<Rightarrow> (s, Some e)
                         | (s, None) \<Rightarrow>
                             (s\<lparr>sLocalHeaderTable := nuHeaderTable u,
                                sLimits := (sLimits s)
                                  \<lparr>slEnablePush := nuEnablePush u,
                                   slMaxConcurrentStreams := nuMaxConcurrent u,
                                   slInitialWindowSize := nuInitialWindow u,
                                   slEnableExtendedConnect := nuEnableConnect u\<rparr>,
                                sParser := (sParser s)
                                  \<lparr>fLimits := (fLimits (sParser s))\<lparr>MaxFrameSize := nuMaxFrame u\<rparr>\<rparr>,
                                sStreams := map (\<lambda>(i, st).
                                  (i, st\<lparr>ssRecvWindow := ssRecvWindow st + change\<rparr>)) (sStreams s),
                                sLocalSettingsOutstanding := sLocalSettingsOutstanding s + 1\<rparr>, None)))))"

definition PingSession :: "bytes \<Rightarrow> ('d, 'e) session \<Rightarrow> ('d, 'e) session \<times> session_error option" where
  "PingSession data s = appendFrame (frameOf FramePing 0 0) data s"

definition GoAway ::
  "error_code \<Rightarrow> bytes \<Rightarrow> ('d, 'e) session \<Rightarrow> ('d, 'e) session \<times> session_error option" where
  "GoAway c debug s =
     (if sGoAwaySent s then (s, None)
      else
        let debug = (if uint (sPeerMaxFrame s) - 8 < int (length debug)
                     then take (nat (uint (sPeerMaxFrame s) - 8)) debug else debug)
        in
        (case appendFrame (frameOf FrameGoAway 0 0)
                (PutUint32 (sLastProcessedPeerStream s) @ PutUint32 c @ debug) s of
           (s, Some e) \<Rightarrow> (s, Some e)
         | (s, None) \<Rightarrow> (s\<lparr>sGoAwaySent := True\<rparr>, None)))"

definition CloseSession :: "('d, 'e) session \<Rightarrow> ('d, 'e) session" where
  "CloseSession s =
     (if sClosed s then s
      else s\<lparr>sClosed := True, sStreams := [], sEvents := [], sOutput := [], sHeaderBlock := [],
             sCurrentHeaders := []\<rparr>)"

end
