(* ===== verification/H2_Abi.thy ===== *)
theory H2_Abi
  imports H2_Api
begin

text \<open>
  The guest interface of HTTP/2 (src/http2/abi.go, and the bindings of src/http2/http2.go). A manager holds, for
  each instance of the host, the sessions that its guest has opened, by handle. Every import of the module is a
  function of the host module of the call, the parameters, the results and the manager; it returns the manager,
  the memory of the guest and the results. A call is one step: the locks of the manager and of a session only
  order the calls of different instances. Stores to the memory are made one after another, so that ranges of the
  guest may overlap. \<open>None\<close> is a panic, or a call of the session that does not return.
\<close>

subsection \<open>Guest memory\<close>

definition LEUint32 :: "bytes \<Rightarrow> u32" where
  "LEUint32 bs = ucast (bs ! 0) OR push_bit 8 (ucast (bs ! 1)) OR push_bit 16 (ucast (bs ! 2)) OR
     push_bit 24 (ucast (bs ! 3))"

definition LEPutUint32 :: "u32 \<Rightarrow> bytes" where
  "LEPutUint32 v = [ucast v, ucast (drop_bit 8 v), ucast (drop_bit 16 v), ucast (drop_bit 24 v)]"

text \<open>A range of the memory, from its first octet to the octet after its last. The slice expression panics
  when the truncated end is below the pointer.\<close>

datatype mem_range = RangePanic | RangeBad | Range nat nat

definition abiMemory :: "bytes \<Rightarrow> u32 \<Rightarrow> u32 \<Rightarrow> mem_range" where
  "abiMemory memory pointer len =
     (let stop = (ucast pointer + ucast len :: u64) in
      if of_nat (length memory) < stop then RangeBad
      else let e = (ucast stop :: u32) in
        if e < pointer then RangePanic else Range (unat pointer) (unat e))"

abbreviation slice :: "bytes \<Rightarrow> nat \<Rightarrow> nat \<Rightarrow> bytes" where
  "slice memory a b \<equiv> take (b - a) (drop a memory)"

text \<open>\<open>copy(dst, src)\<close> into the range, and a store of 32 bits at its beginning.\<close>

definition storeBytes :: "bytes \<Rightarrow> nat \<Rightarrow> nat \<Rightarrow> bytes \<Rightarrow> bytes" where
  "storeBytes memory a b src = copy_at memory a (take (b - a) src)"

abbreviation storeU32 :: "bytes \<Rightarrow> nat \<Rightarrow> u32 \<Rightarrow> bytes" where
  "storeU32 memory a v \<equiv> copy_at memory a (LEPutUint32 v)"

subsection \<open>Status codes\<close>

text \<open>The codes of wago-net that the sources name. Their numbers are a parameter.\<close>

datatype abi_status =
    StatusOK | StatusAgain | StatusBadHandle | StatusInvalidArgument | StatusInvalidState
  | StatusResourceLimit | StatusMessageTooLarge | StatusIO

text \<open>What \<open>errors.Is\<close> finds: an invalid frame wraps \<open>ErrInvalidHeaders\<close> and a protocol error
  unwraps to \<open>ErrSessionFailed\<close>.\<close>

fun statusForError :: "session_error option \<Rightarrow> abi_status" where
  "statusForError None = StatusOK"
| "statusForError (Some err) =
     (case err of
        ErrWouldBlock \<Rightarrow> StatusAgain
      | ErrStreamNotFound \<Rightarrow> StatusBadHandle
      | ErrInvalidRole \<Rightarrow> StatusInvalidArgument
      | ErrInvalidHeaders \<Rightarrow> StatusInvalidArgument
      | ErrInvalidFrame c \<Rightarrow> StatusInvalidArgument
      | ErrStreamState \<Rightarrow> StatusInvalidState
      | ErrSessionClosed \<Rightarrow> StatusInvalidState
      | ProtocolError i c reason \<Rightarrow> StatusInvalidState
      | ErrStreamLimit \<Rightarrow> StatusResourceLimit
      | ErrOutputLimit \<Rightarrow> StatusResourceLimit
      | ErrEventLimit \<Rightarrow> StatusResourceLimit
      | ErrStreamIDExhausted \<Rightarrow> StatusResourceLimit
      | _ \<Rightarrow> StatusIO)"

subsection \<open>State\<close>

record register_config =
  rcSession :: session_limits
  rcMaxSessions :: u32

text \<open>\<open>asCurrent\<close> is \<open>current\<close> when \<open>hasCurrent\<close> is set.\<close>

record ('d, 'e) abi_session =
  asSession :: "('d, 'e) session"
  asCurrent :: "event option"

record ('d, 'e) abi_instance =
  aiNext :: u32
  aiSessions :: "(u32 \<times> ('d, 'e) abi_session) list"

record ('d, 'e, 'i) abi_manager =
  amConfig :: register_config
  amInstances :: "('i \<times> ('d, 'e) abi_instance) list"

text \<open>The host module of a call: its instance, if it has one, and the memory of the guest.\<close>

record 'i abi_host =
  hostInstance :: "'i option"
  hostMemory :: bytes

text \<open>A call returns the manager, the memory and the results; \<open>None\<close> is a panic.\<close>

type_synonym ('d, 'e, 'i) abi_outcome = "(('d, 'e, 'i) abi_manager \<times> bytes \<times> u64 list) option"

datatype abi_option = WithSessionLimits session_limits | WithMaxSessions u32

fun applyHTTP2 :: "abi_option \<Rightarrow> register_config \<Rightarrow> register_config" where
  "applyHTTP2 (WithSessionLimits l) config = config\<lparr>rcSession := l\<rparr>"
| "applyHTTP2 (WithMaxSessions n) config = config\<lparr>rcMaxSessions := n\<rparr>"

definition newABIManager :: "register_config \<Rightarrow> ('d, 'e, 'i) abi_manager" where
  "newABIManager config =
     (let config = (if rcMaxSessions config = 0 then config\<lparr>rcMaxSessions := 8\<rparr> else config)
      in \<lparr>amConfig = config\<lparr>rcSession := sessionNormalized (rcSession config)\<rparr>, amInstances = []\<rparr>)"

text \<open>The closed sessions are returned beside the manager, which no longer holds them.\<close>

definition closeSessions :: "('d, 'e) abi_instance \<Rightarrow> ('d, 'e) session list" where
  "closeSessions state = map (\<lambda>(handle, a). CloseSession (asSession a)) (aiSessions state)"

definition closeInstance ::
  "'i option \<Rightarrow> ('d, 'e, 'i) abi_manager \<Rightarrow> ('d, 'e, 'i) abi_manager \<times> ('d, 'e) session list" where
  "closeInstance inst m =
     (case inst of
        None \<Rightarrow> (m, [])
      | Some i \<Rightarrow>
          (m\<lparr>amInstances := AList.delete i (amInstances m)\<rparr>,
           case map_of (amInstances m) i of None \<Rightarrow> [] | Some state \<Rightarrow> closeSessions state))"

definition closeAll :: "('d, 'e, 'i) abi_manager \<Rightarrow> ('d, 'e, 'i) abi_manager \<times> ('d, 'e) session list" where
  "closeAll m = (m\<lparr>amInstances := []\<rparr>, concat (map (\<lambda>(i, state). closeSessions state) (amInstances m)))"

text \<open>The instance of the caller, which its first call creates.\<close>

definition abiCaller ::
  "'i abi_host \<Rightarrow> ('d, 'e, 'i) abi_manager \<Rightarrow> ('d, 'e, 'i) abi_manager \<times> (abi_status + 'i \<times> ('d, 'e) abi_instance)" where
  "abiCaller host m =
     (case hostInstance host of
        None \<Rightarrow> (m, Inl StatusInvalidState)
      | Some i \<Rightarrow>
          (case map_of (amInstances m) i of
             Some state \<Rightarrow> (m, Inr (i, state))
           | None \<Rightarrow>
               let state = \<lparr>aiNext = 1, aiSessions = []\<rparr>
               in (m\<lparr>amInstances := AList.update i state (amInstances m)\<rparr>, Inr (i, state))))"

definition putInstance ::
  "'i \<Rightarrow> ('d, 'e) abi_instance \<Rightarrow> ('d, 'e, 'i) abi_manager \<Rightarrow> ('d, 'e, 'i) abi_manager" where
  "putInstance i state m = m\<lparr>amInstances := AList.update i state (amInstances m)\<rparr>"

text \<open>The session of a handle, with a function that stores it back.\<close>

definition abiLookup ::
  "'i abi_host \<Rightarrow> u32 \<Rightarrow> ('d, 'e, 'i) abi_manager \<Rightarrow>
     ('d, 'e, 'i) abi_manager \<times> (abi_status + ('d, 'e) abi_session)" where
  "abiLookup host handle m =
     (case abiCaller host m of
        (m, Inl status) \<Rightarrow> (m, Inl status)
      | (m, Inr (i, state)) \<Rightarrow>
          (case map_of (aiSessions state) handle of
             None \<Rightarrow> (m, Inl StatusBadHandle)
           | Some a \<Rightarrow> (m, Inr a)))"

text \<open>A session object is changed in place: the entry of the caller's instance is replaced.\<close>

definition storeSession ::
  "'i abi_host \<Rightarrow> u32 \<Rightarrow> ('d, 'e) abi_session \<Rightarrow> ('d, 'e, 'i) abi_manager \<Rightarrow> ('d, 'e, 'i) abi_manager" where
  "storeSession host handle a m =
     (case hostInstance host of
        None \<Rightarrow> m
      | Some i \<Rightarrow>
          (case map_of (amInstances m) i of
             None \<Rightarrow> m
           | Some state \<Rightarrow> putInstance i (state\<lparr>aiSessions := AList.update handle a (aiSessions state)\<rparr>) m))"

subsection \<open>Sessions\<close>

abbreviation ABIHeaderV1Size :: u32 where "ABIHeaderV1Size \<equiv> 24"
abbreviation ABIEventV1Size :: u32 where "ABIEventV1Size \<equiv> 32"
abbreviation ABISettingV1Size :: u32 where "ABISettingV1Size \<equiv> 8"
abbreviation ABIFlagEndStream :: u32 where "ABIFlagEndStream \<equiv> 1"
abbreviation ABIFlagSensitive :: u32 where "ABIFlagSensitive \<equiv> 1"

text \<open>A parameter as 32 bits, and the conversion to \<open>Role\<close>, which has 8 bits.\<close>

abbreviation arg :: "u64 list \<Rightarrow> nat \<Rightarrow> u32" where
  "arg params n \<equiv> ucast (params ! n)"

definition abiRole :: "u32 \<Rightarrow> session_role" where
  "abiRole v = (let r = (ucast v :: u8) in if r = 1 then RoleClient else if r = 2 then RoleServer else RoleOther)"

text \<open>The search for a free handle, from \<open>next\<close> and around.\<close>

function findHandle :: "u32 \<Rightarrow> u32 \<Rightarrow> (u32 \<times> ('d, 'e) abi_session) list \<Rightarrow> u32 option" where
  "findHandle handle nxt sessions =
     (if handle = 0 \<or> map_of sessions handle \<noteq> None
      then if handle + 1 = nxt then None else findHandle (handle + 1) nxt sessions
      else Some handle)"
  by auto
termination
proof (relation "measure (\<lambda>(handle, nxt, sessions). unat (nxt - handle - 1))")
  fix handle nxt :: u32 and sessions :: "(u32 \<times> ('d, 'e) abi_session) list"
  assume "handle + 1 \<noteq> nxt"
  then have "nxt - handle - 1 \<noteq> 0" by (simp add: algebra_simps)
  then have "unat (nxt - handle - 1 - 1) < unat (nxt - handle - 1)"
    using word_less_nat_alt [of "nxt - handle - 1 - 1"] measure_unat by blast
  then show "((handle + 1, nxt, sessions), handle, nxt, sessions) \<in> measure (\<lambda>(handle, nxt, sessions). unat (nxt - handle - 1))"
    by (simp add: algebra_simps)
qed simp

declare findHandle.simps [simp del]

definition sessionOpen ::
  "('d, 'e) session_env \<Rightarrow> (abi_status \<Rightarrow> u64) \<Rightarrow> 'i abi_host \<Rightarrow> u64 list \<Rightarrow> u64 list \<Rightarrow>
     ('d, 'e, 'i) abi_manager \<Rightarrow> ('d, 'e, 'i) abi_outcome" where
  "sessionOpen env num host params results m =
     (let memory = hostMemory host in
      if length params \<noteq> 2 \<or> length results \<noteq> 1 then Some (m, memory, results)
      else
        (case abiCaller host m of
           (m, Inl status) \<Rightarrow> Some (m, memory, [num status])
         | (m, Inr (i, state)) \<Rightarrow>
             (case abiMemory memory (arg params 1) 4 of
                RangePanic \<Rightarrow> None
              | RangeBad \<Rightarrow> Some (m, memory, [num StatusInvalidArgument])
              | Range out out_end \<Rightarrow>
                  if rcMaxSessions (amConfig m) \<le> of_nat (length (aiSessions state))
                  then Some (m, memory, [num StatusResourceLimit])
                  else
                    (case NewSession env (abiRole (arg params 0)) (rcSession (amConfig m)) of
                       Inl err \<Rightarrow> Some (m, memory, [num (statusForError (Some err))])
                     | Inr session \<Rightarrow>
                         (case findHandle (aiNext state) (aiNext state) (aiSessions state) of
                            None \<Rightarrow> Some (m, memory, [num StatusResourceLimit])
                          | Some handle \<Rightarrow>
                              Some (putInstance i
                                      \<lparr>aiNext = handle + 1,
                                       aiSessions = AList.update handle \<lparr>asSession = session, asCurrent = None\<rparr>
                                         (aiSessions state)\<rparr> m,
                                    storeU32 memory out handle, [num StatusOK]))))))"

text \<open>The session that is closed, here and when no handle is free, is no longer held by anything: its
  \<open>Close\<close> leaves no trace in the manager.\<close>

definition sessionClose ::
  "(abi_status \<Rightarrow> u64) \<Rightarrow> 'i abi_host \<Rightarrow> u64 list \<Rightarrow> u64 list \<Rightarrow>
     ('d, 'e, 'i) abi_manager \<Rightarrow> ('d, 'e, 'i) abi_outcome" where
  "sessionClose num host params results m =
     (let memory = hostMemory host in
      if length params \<noteq> 1 \<or> length results \<noteq> 1 then Some (m, memory, results)
      else
        (case abiCaller host m of
           (m, Inl status) \<Rightarrow> Some (m, memory, [num status])
         | (m, Inr (i, state)) \<Rightarrow>
             let handle = arg params 0;
                 m = putInstance i (state\<lparr>aiSessions := AList.delete handle (aiSessions state)\<rparr>) m
             in Some (m, memory,
                  [num (if map_of (aiSessions state) handle = None then StatusBadHandle else StatusOK)])))"

definition sessionFeed ::
  "('d, 'e) session_env \<Rightarrow> (abi_status \<Rightarrow> u64) \<Rightarrow> 'i abi_host \<Rightarrow> u64 list \<Rightarrow> u64 list \<Rightarrow>
     ('d, 'e, 'i) abi_manager \<Rightarrow> ('d, 'e, 'i) abi_outcome" where
  "sessionFeed env num host params results m =
     (let memory = hostMemory host in
      if length params \<noteq> 4 \<or> length results \<noteq> 1 then Some (m, memory, results)
      else
        (case abiLookup host (arg params 0) m of
           (m, Inl status) \<Rightarrow> Some (m, memory, [num status])
         | (m, Inr a) \<Rightarrow>
             (case (abiMemory memory (arg params 1) (arg params 2), abiMemory memory (arg params 3) 4) of
                (RangePanic, _) \<Rightarrow> None
              | (_, RangePanic) \<Rightarrow> None
              | (Range src src_end, Range consumed consumed_end) \<Rightarrow>
                  (case Feed env (slice memory src src_end) (asSession a) of
                     None \<Rightarrow> None
                   | Some (s, n, err) \<Rightarrow>
                       Some (storeSession host (arg params 0) (a\<lparr>asSession := s\<rparr>) m,
                             storeU32 memory consumed (of_nat n), [num (statusForError err)]))
              | _ \<Rightarrow> Some (m, memory, [num StatusInvalidArgument]))))"

definition sessionOutput ::
  "(abi_status \<Rightarrow> u64) \<Rightarrow> 'i abi_host \<Rightarrow> u64 list \<Rightarrow> u64 list \<Rightarrow>
     ('d, 'e, 'i) abi_manager \<Rightarrow> ('d, 'e, 'i) abi_outcome" where
  "sessionOutput num host params results m =
     (let memory = hostMemory host in
      if length params \<noteq> 4 \<or> length results \<noteq> 1 then Some (m, memory, results)
      else
        (case abiLookup host (arg params 0) m of
           (m, Inl status) \<Rightarrow> Some (m, memory, [num status])
         | (m, Inr a) \<Rightarrow>
             (case (abiMemory memory (arg params 1) (arg params 2), abiMemory memory (arg params 3) 4) of
                (RangePanic, _) \<Rightarrow> None
              | (_, RangePanic) \<Rightarrow> None
              | (Range dst dst_end, Range written written_end) \<Rightarrow>
                  if sOutput (asSession a) = []
                  then Some (m, storeU32 memory written 0, [num StatusAgain])
                  else
                    let n = min (dst_end - dst) (length (sOutput (asSession a)));
                        memory = storeBytes memory dst dst_end (sOutput (asSession a));
                        s = fst (ConsumeOutput (int n) (asSession a))
                    in Some (storeSession host (arg params 0) (a\<lparr>asSession := s\<rparr>) m,
                             storeU32 memory written (of_nat n), [num StatusOK])
              | _ \<Rightarrow> Some (m, memory, [num StatusInvalidArgument]))))"

subsection \<open>Header tables\<close>

text \<open>The entries from \<open>index\<close> on; the first one that fails decides. The result is a panic, a status or the
  fields.\<close>

primrec readEntries ::
  "nat \<Rightarrow> bytes \<Rightarrow> bytes \<Rightarrow> header_limits \<Rightarrow> u64 \<Rightarrow> (abi_status + header_field list) option" where
  "readEntries 0 encoded memory limits listBytes = Some (Inr [])"
| "readEntries (Suc count) encoded memory limits listBytes =
     (let entry = take 24 encoded in
      case (abiMemory memory (LEUint32 (take 4 entry)) (LEUint32 (take 4 (drop 4 entry))),
            abiMemory memory (LEUint32 (take 4 (drop 8 entry))) (LEUint32 (take 4 (drop 12 entry)))) of
        (RangePanic, _) \<Rightarrow> None
      | (_, RangePanic) \<Rightarrow> None
      | (Range n n_end, Range v v_end) \<Rightarrow>
          if unat (MaxFieldBytes limits) < n_end - n \<or> unat (MaxFieldBytes limits) < v_end - v
          then Some (Inl StatusInvalidArgument)
          else
            let listBytes = listBytes + (of_nat (n_end - n) + of_nat (v_end - v) + 32) in
            if MaxHeaderListBytes limits < listBytes then Some (Inl StatusResourceLimit)
            else
              (case readEntries count (drop 24 encoded) memory limits listBytes of
                 Some (Inr rest) \<Rightarrow>
                   Some (Inr (\<lparr>hfName = slice memory n n_end, hfValue = slice memory v v_end,
                     hfSensitive = LEUint32 (take 4 (drop 16 entry)) AND ABIFlagSensitive \<noteq> 0\<rparr> # rest))
               | r \<Rightarrow> r)
      | _ \<Rightarrow> Some (Inl StatusInvalidArgument))"

definition readABIHeaders ::
  "bytes \<Rightarrow> u32 \<Rightarrow> u32 \<Rightarrow> header_limits \<Rightarrow> (abi_status + header_field list) option" where
  "readABIHeaders memory pointer count limits =
     (let limits = headerNormalized limits in
      if hlMaxHeaders limits < count \<or> (0xffffffff :: u64) < ucast count * ucast ABIHeaderV1Size
      then Some (Inl StatusResourceLimit)
      else
        (case abiMemory memory pointer (count * ABIHeaderV1Size) of
           RangePanic \<Rightarrow> None
         | RangeBad \<Rightarrow> Some (Inl StatusInvalidArgument)
         | Range a b \<Rightarrow> readEntries (unat count) (slice memory a b) memory limits 0))"

subsection \<open>Streams\<close>

definition streamOpen ::
  "('d, 'e) session_env \<Rightarrow> (abi_status \<Rightarrow> u64) \<Rightarrow> 'i abi_host \<Rightarrow> u64 list \<Rightarrow> u64 list \<Rightarrow>
     ('d, 'e, 'i) abi_manager \<Rightarrow> ('d, 'e, 'i) abi_outcome" where
  "streamOpen env num host params results m =
     (let memory = hostMemory host in
      if length params \<noteq> 5 \<or> length results \<noteq> 1 then Some (m, memory, results)
      else
        (case abiLookup host (arg params 0) m of
           (m, Inl status) \<Rightarrow> Some (m, memory, [num status])
         | (m, Inr a) \<Rightarrow>
             (case (readABIHeaders memory (arg params 1) (arg params 2) (slHeader (sLimits (asSession a))),
                    abiMemory memory (arg params 4) 4) of
                (None, _) \<Rightarrow> None
              | (_, RangePanic) \<Rightarrow> None
              | (_, RangeBad) \<Rightarrow> Some (m, memory, [num StatusInvalidArgument])
              | (Some (Inl status), _) \<Rightarrow> Some (m, memory, [num status])
              | (Some (Inr headers), Range out out_end) \<Rightarrow>
                  (case OpenStream env headers (arg params 3 AND ABIFlagEndStream \<noteq> 0) (asSession a) of
                     (s, Inl err) \<Rightarrow>
                       Some (storeSession host (arg params 0) (a\<lparr>asSession := s\<rparr>) m, memory,
                             [num (statusForError (Some err))])
                   | (s, Inr streamID) \<Rightarrow>
                       Some (storeSession host (arg params 0) (a\<lparr>asSession := s\<rparr>) m,
                             storeU32 memory out streamID, [num StatusOK])))))"

definition streamHeaders ::
  "('d, 'e) session_env \<Rightarrow> (abi_status \<Rightarrow> u64) \<Rightarrow> 'i abi_host \<Rightarrow> u64 list \<Rightarrow> u64 list \<Rightarrow>
     ('d, 'e, 'i) abi_manager \<Rightarrow> ('d, 'e, 'i) abi_outcome" where
  "streamHeaders env num host params results m =
     (let memory = hostMemory host in
      if length params \<noteq> 5 \<or> length results \<noteq> 1 then Some (m, memory, results)
      else
        (case abiLookup host (arg params 0) m of
           (m, Inl status) \<Rightarrow> Some (m, memory, [num status])
         | (m, Inr a) \<Rightarrow>
             (case readABIHeaders memory (arg params 2) (arg params 3) (slHeader (sLimits (asSession a))) of
                None \<Rightarrow> None
              | Some (Inl status) \<Rightarrow> Some (m, memory, [num status])
              | Some (Inr headers) \<Rightarrow>
                  (case SendHeaders env (arg params 1) headers (arg params 4 AND ABIFlagEndStream \<noteq> 0) (asSession a) of
                     (s, err) \<Rightarrow>
                       Some (storeSession host (arg params 0) (a\<lparr>asSession := s\<rparr>) m, memory,
                             [num (statusForError err)])))))"

definition streamData ::
  "(abi_status \<Rightarrow> u64) \<Rightarrow> 'i abi_host \<Rightarrow> u64 list \<Rightarrow> u64 list \<Rightarrow>
     ('d, 'e, 'i) abi_manager \<Rightarrow> ('d, 'e, 'i) abi_outcome" where
  "streamData num host params results m =
     (let memory = hostMemory host in
      if length params \<noteq> 6 \<or> length results \<noteq> 1 then Some (m, memory, results)
      else
        (case abiLookup host (arg params 0) m of
           (m, Inl status) \<Rightarrow> Some (m, memory, [num status])
         | (m, Inr a) \<Rightarrow>
             (case (abiMemory memory (arg params 2) (arg params 3), abiMemory memory (arg params 5) 4) of
                (RangePanic, _) \<Rightarrow> None
              | (_, RangePanic) \<Rightarrow> None
              | (Range src src_end, Range consumed consumed_end) \<Rightarrow>
                  (case SendData (arg params 1) (slice memory src src_end)
                          (arg params 4 AND ABIFlagEndStream \<noteq> 0) (asSession a) of
                     (s, n, err) \<Rightarrow>
                       Some (storeSession host (arg params 0) (a\<lparr>asSession := s\<rparr>) m,
                             storeU32 memory consumed (of_nat n), [num (statusForError err)]))
              | _ \<Rightarrow> Some (m, memory, [num StatusInvalidArgument]))))"

definition streamPush ::
  "('d, 'e) session_env \<Rightarrow> (abi_status \<Rightarrow> u64) \<Rightarrow> 'i abi_host \<Rightarrow> u64 list \<Rightarrow> u64 list \<Rightarrow>
     ('d, 'e, 'i) abi_manager \<Rightarrow> ('d, 'e, 'i) abi_outcome" where
  "streamPush env num host params results m =
     (let memory = hostMemory host in
      if length params \<noteq> 5 \<or> length results \<noteq> 1 then Some (m, memory, results)
      else
        (case abiLookup host (arg params 0) m of
           (m, Inl status) \<Rightarrow> Some (m, memory, [num status])
         | (m, Inr a) \<Rightarrow>
             (case (readABIHeaders memory (arg params 2) (arg params 3) (slHeader (sLimits (asSession a))),
                    abiMemory memory (arg params 4) 4) of
                (None, _) \<Rightarrow> None
              | (_, RangePanic) \<Rightarrow> None
              | (_, RangeBad) \<Rightarrow> Some (m, memory, [num StatusInvalidArgument])
              | (Some (Inl status), _) \<Rightarrow> Some (m, memory, [num status])
              | (Some (Inr headers), Range out out_end) \<Rightarrow>
                  (case PushPromise env (arg params 1) headers (asSession a) of
                     (s, Inl err) \<Rightarrow>
                       Some (storeSession host (arg params 0) (a\<lparr>asSession := s\<rparr>) m, memory,
                             [num (statusForError (Some err))])
                   | (s, Inr streamID) \<Rightarrow>
                       Some (storeSession host (arg params 0) (a\<lparr>asSession := s\<rparr>) m,
                             storeU32 memory out streamID, [num StatusOK])))))"

definition streamReset ::
  "(abi_status \<Rightarrow> u64) \<Rightarrow> 'i abi_host \<Rightarrow> u64 list \<Rightarrow> u64 list \<Rightarrow>
     ('d, 'e, 'i) abi_manager \<Rightarrow> ('d, 'e, 'i) abi_outcome" where
  "streamReset num host params results m =
     (let memory = hostMemory host in
      if length params \<noteq> 3 \<or> length results \<noteq> 1 then Some (m, memory, results)
      else
        (case abiLookup host (arg params 0) m of
           (m, Inl status) \<Rightarrow> Some (m, memory, [num status])
         | (m, Inr a) \<Rightarrow>
             (case ResetStream (arg params 1) (arg params 2) (asSession a) of
                (s, err) \<Rightarrow>
                  Some (storeSession host (arg params 0) (a\<lparr>asSession := s\<rparr>) m, memory,
                        [num (statusForError err)]))))"

definition streamPriorityUpdate ::
  "(abi_status \<Rightarrow> u64) \<Rightarrow> 'i abi_host \<Rightarrow> u64 list \<Rightarrow> u64 list \<Rightarrow>
     ('d, 'e, 'i) abi_manager \<Rightarrow> ('d, 'e, 'i) abi_outcome" where
  "streamPriorityUpdate num host params results m =
     (let memory = hostMemory host in
      if length params \<noteq> 4 \<or> length results \<noteq> 1 then Some (m, memory, results)
      else
        (case abiLookup host (arg params 0) m of
           (m, Inl status) \<Rightarrow> Some (m, memory, [num status])
         | (m, Inr a) \<Rightarrow>
             (case abiMemory memory (arg params 2) (arg params 3) of
                RangePanic \<Rightarrow> None
              | RangeBad \<Rightarrow> Some (m, memory, [num StatusInvalidArgument])
              | Range v v_end \<Rightarrow>
                  (case PriorityUpdate (arg params 1) (slice memory v v_end) (asSession a) of
                     (s, err) \<Rightarrow>
                       Some (storeSession host (arg params 0) (a\<lparr>asSession := s\<rparr>) m, memory,
                             [num (statusForError err)])))))"

subsection \<open>Connections\<close>

text \<open>The identifier of a setting has 16 bits; the entry has 32.\<close>

primrec readSettingEntries :: "nat \<Rightarrow> bytes \<Rightarrow> setting_t list" where
  "readSettingEntries 0 encoded = []"
| "readSettingEntries (Suc count) encoded =
     \<lparr>settingID = ucast (LEUint32 (take 4 encoded)), settingValue = LEUint32 (take 4 (drop 4 encoded))\<rparr> #
     readSettingEntries count (drop 8 encoded)"

definition sessionSettings ::
  "('d, 'e) session_env \<Rightarrow> (abi_status \<Rightarrow> u64) \<Rightarrow> 'i abi_host \<Rightarrow> u64 list \<Rightarrow> u64 list \<Rightarrow>
     ('d, 'e, 'i) abi_manager \<Rightarrow> ('d, 'e, 'i) abi_outcome" where
  "sessionSettings env num host params results m =
     (let memory = hostMemory host in
      if length params \<noteq> 3 \<or> length results \<noteq> 1 then Some (m, memory, results)
      else
        (case abiLookup host (arg params 0) m of
           (m, Inl status) \<Rightarrow> Some (m, memory, [num status])
         | (m, Inr a) \<Rightarrow>
             let count = arg params 2 in
             if 64 < count then Some (m, memory, [num StatusResourceLimit])
             else
               (case abiMemory memory (arg params 1) (count * ABISettingV1Size) of
                  RangePanic \<Rightarrow> None
                | RangeBad \<Rightarrow> Some (m, memory, [num StatusInvalidArgument])
                | Range e e_end \<Rightarrow>
                    (case UpdateSettings env (readSettingEntries (unat count) (slice memory e e_end)) (asSession a) of
                       (s, err) \<Rightarrow>
                         Some (storeSession host (arg params 0) (a\<lparr>asSession := s\<rparr>) m, memory,
                               [num (statusForError err)])))))"

definition sessionPing ::
  "(abi_status \<Rightarrow> u64) \<Rightarrow> 'i abi_host \<Rightarrow> u64 list \<Rightarrow> u64 list \<Rightarrow>
     ('d, 'e, 'i) abi_manager \<Rightarrow> ('d, 'e, 'i) abi_outcome" where
  "sessionPing num host params results m =
     (let memory = hostMemory host in
      if length params \<noteq> 2 \<or> length results \<noteq> 1 then Some (m, memory, results)
      else
        (case abiLookup host (arg params 0) m of
           (m, Inl status) \<Rightarrow> Some (m, memory, [num status])
         | (m, Inr a) \<Rightarrow>
             (case abiMemory memory (arg params 1) 8 of
                RangePanic \<Rightarrow> None
              | RangeBad \<Rightarrow> Some (m, memory, [num StatusInvalidArgument])
              | Range d d_end \<Rightarrow>
                  (case PingSession (slice memory d d_end) (asSession a) of
                     (s, err) \<Rightarrow>
                       Some (storeSession host (arg params 0) (a\<lparr>asSession := s\<rparr>) m, memory,
                             [num (statusForError err)])))))"

definition sessionGoAway ::
  "(abi_status \<Rightarrow> u64) \<Rightarrow> 'i abi_host \<Rightarrow> u64 list \<Rightarrow> u64 list \<Rightarrow>
     ('d, 'e, 'i) abi_manager \<Rightarrow> ('d, 'e, 'i) abi_outcome" where
  "sessionGoAway num host params results m =
     (let memory = hostMemory host in
      if length params \<noteq> 4 \<or> length results \<noteq> 1 then Some (m, memory, results)
      else
        (case abiLookup host (arg params 0) m of
           (m, Inl status) \<Rightarrow> Some (m, memory, [num status])
         | (m, Inr a) \<Rightarrow>
             (case abiMemory memory (arg params 2) (arg params 3) of
                RangePanic \<Rightarrow> None
              | RangeBad \<Rightarrow> Some (m, memory, [num StatusInvalidArgument])
              | Range d d_end \<Rightarrow>
                  (case GoAway (arg params 1) (slice memory d d_end) (asSession a) of
                     (s, err) \<Rightarrow>
                       Some (storeSession host (arg params 0) (a\<lparr>asSession := s\<rparr>) m, memory,
                             [num (statusForError err)])))))"

subsection \<open>Events\<close>

fun eventNumber :: "event_type \<Rightarrow> u32" where
  "eventNumber EventSettings = 1"
| "eventNumber EventSettingsAck = 2"
| "eventNumber EventHeaders = 3"
| "eventNumber EventData = 4"
| "eventNumber EventStreamEnd = 5"
| "eventNumber EventStreamReset = 6"
| "eventNumber EventPing = 7"
| "eventNumber EventPingAck = 8"
| "eventNumber EventGoAway = 9"
| "eventNumber EventPriority = 10"
| "eventNumber EventPriorityUpdate = 11"
| "eventNumber EventPushPromise = 12"
| "eventNumber EventWindowUpdate = 13"
| "eventNumber EventUnknown = 14"

definition abiEventDataLength :: "event \<Rightarrow> u32" where
  "abiEventDataLength ev =
     (if evType ev = EventPing \<or> evType ev = EventPingAck then 8
      else clampUint64To32 (of_nat (length (evData ev))))"

text \<open>The 32 octets of an event; the range is cleared and then filled with eight words.\<close>

definition encodeEvent :: "event \<Rightarrow> bytes" where
  "encodeEvent ev =
     LEPutUint32 (eventNumber (evType ev)) @ LEPutUint32 (evStreamID ev) @
     LEPutUint32 ((if evEndStream ev then ABIFlagEndStream else 0) OR (if evTrailer ev then 2 else 0)) @
     LEPutUint32 (evErrorCode ev) @
     LEPutUint32 (if evType ev = EventWindowUpdate then evWindowIncrement ev else evLastStreamID ev) @
     LEPutUint32 (abiEventDataLength ev) @
     LEPutUint32 (of_nat (length (evHeaders ev))) @ LEPutUint32 (of_nat (length (evSettings ev)))"

definition eventNext ::
  "(abi_status \<Rightarrow> u64) \<Rightarrow> 'i abi_host \<Rightarrow> u64 list \<Rightarrow> u64 list \<Rightarrow>
     ('d, 'e, 'i) abi_manager \<Rightarrow> ('d, 'e, 'i) abi_outcome" where
  "eventNext num host params results m =
     (let memory = hostMemory host in
      if length params \<noteq> 2 \<or> length results \<noteq> 1 then Some (m, memory, results)
      else
        (case abiLookup host (arg params 0) m of
           (m, Inl status) \<Rightarrow> Some (m, memory, [num status])
         | (m, Inr a) \<Rightarrow>
             (case abiMemory memory (arg params 1) ABIEventV1Size of
                RangePanic \<Rightarrow> None
              | RangeBad \<Rightarrow> Some (m, memory, [num StatusInvalidArgument])
              | Range dst dst_end \<Rightarrow>
                  (case NextEvent (asSession a) of
                     (s, None) \<Rightarrow> Some (m, memory, [num StatusAgain])
                   | (s, Some ev) \<Rightarrow>
                       Some (storeSession host (arg params 0) (a\<lparr>asSession := s, asCurrent := Some ev\<rparr>) m,
                             copy_at memory dst (encodeEvent ev), [num StatusOK])))))"

definition eventData ::
  "(abi_status \<Rightarrow> u64) \<Rightarrow> 'i abi_host \<Rightarrow> u64 list \<Rightarrow> u64 list \<Rightarrow>
     ('d, 'e, 'i) abi_manager \<Rightarrow> ('d, 'e, 'i) abi_outcome" where
  "eventData num host params results m =
     (let memory = hostMemory host in
      if length params \<noteq> 4 \<or> length results \<noteq> 1 then Some (m, memory, results)
      else
        (case abiLookup host (arg params 0) m of
           (m, Inl status) \<Rightarrow> Some (m, memory, [num status])
         | (m, Inr a) \<Rightarrow>
             (case asCurrent a of
                None \<Rightarrow> Some (m, memory, [num StatusInvalidState])
              | Some ev \<Rightarrow>
                  (case (abiMemory memory (arg params 1) (arg params 2), abiMemory memory (arg params 3) 4) of
                     (RangePanic, _) \<Rightarrow> None
                   | (_, RangePanic) \<Rightarrow> None
                   | (Range dst dst_end, Range written written_end) \<Rightarrow>
                       let data = (if evType ev = EventPing \<or> evType ev = EventPingAck then evPing ev else evData ev);
                           n = min (dst_end - dst) (length data)
                       in Some (m, storeU32 (storeBytes memory dst dst_end data) written (of_nat n), [num StatusOK])
                   | _ \<Rightarrow> Some (m, memory, [num StatusInvalidArgument])))))"

definition eventHeader ::
  "(abi_status \<Rightarrow> u64) \<Rightarrow> 'i abi_host \<Rightarrow> u64 list \<Rightarrow> u64 list \<Rightarrow>
     ('d, 'e, 'i) abi_manager \<Rightarrow> ('d, 'e, 'i) abi_outcome" where
  "eventHeader num host params results m =
     (let memory = hostMemory host in
      if length params \<noteq> 8 \<or> length results \<noteq> 1 then Some (m, memory, results)
      else
        (case abiLookup host (arg params 0) m of
           (m, Inl status) \<Rightarrow> Some (m, memory, [num status])
         | (m, Inr a) \<Rightarrow>
             let index = arg params 1; headers = (case asCurrent a of None \<Rightarrow> [] | Some ev \<Rightarrow> evHeaders ev) in
             if asCurrent a = None \<or> of_nat (length headers) \<le> index
             then Some (m, memory, [num StatusInvalidArgument])
             else
               let field = headers ! unat index;
                   nameR = abiMemory memory (arg params 2) (arg params 3);
                   nameLenR = abiMemory memory (arg params 4) 4;
                   valueR = abiMemory memory (arg params 5) (arg params 6);
                   valueLenR = abiMemory memory (arg params 7) 4
               in
               if RangePanic \<in> set [nameR, nameLenR, valueR, valueLenR] then None
               else
                 (case (nameR, nameLenR, valueR, valueLenR) of
                    (Range n n_end, Range nl nl_end, Range v v_end, Range vl vl_end) \<Rightarrow>
                      let memory = storeBytes memory n n_end (hfName field);
                          memory = storeBytes memory v v_end (hfValue field);
                          memory = storeU32 memory nl (of_nat (length (hfName field)));
                          memory = storeU32 memory vl (of_nat (length (hfValue field)))
                      in Some (m, memory,
                           [num (if n_end - n < length (hfName field) \<or> v_end - v < length (hfValue field)
                                 then StatusMessageTooLarge else StatusOK)])
                  | _ \<Rightarrow> Some (m, memory, [num StatusInvalidArgument]))))"

definition eventSetting ::
  "(abi_status \<Rightarrow> u64) \<Rightarrow> 'i abi_host \<Rightarrow> u64 list \<Rightarrow> u64 list \<Rightarrow>
     ('d, 'e, 'i) abi_manager \<Rightarrow> ('d, 'e, 'i) abi_outcome" where
  "eventSetting num host params results m =
     (let memory = hostMemory host in
      if length params \<noteq> 3 \<or> length results \<noteq> 1 then Some (m, memory, results)
      else
        (case abiLookup host (arg params 0) m of
           (m, Inl status) \<Rightarrow> Some (m, memory, [num status])
         | (m, Inr a) \<Rightarrow>
             let index = arg params 1; settings = (case asCurrent a of None \<Rightarrow> [] | Some ev \<Rightarrow> evSettings ev) in
             if asCurrent a = None \<or> of_nat (length settings) \<le> index
             then Some (m, memory, [num StatusInvalidArgument])
             else
               (case abiMemory memory (arg params 2) ABISettingV1Size of
                  RangePanic \<Rightarrow> None
                | RangeBad \<Rightarrow> Some (m, memory, [num StatusInvalidArgument])
                | Range dst dst_end \<Rightarrow>
                    let setting = settings ! unat index in
                    Some (m, copy_at memory dst (LEPutUint32 (ucast (settingID setting)) @
                            LEPutUint32 (settingValue setting)), [num StatusOK]))))"

subsection \<open>The imports of the module\<close>

definition h2AbiVersion :: "u64 list \<Rightarrow> u64 list \<Rightarrow> u64 list" where
  "h2AbiVersion params results = (if params = [] \<and> length results = 1 then [0x00010000] else results)"

definition abiFeatureFlags :: "u64 list \<Rightarrow> u64 list \<Rightarrow> u64 list" where
  "abiFeatureFlags params results =
     (if params = [] \<and> length results = 1 then [1 OR 2 OR 4 OR 8 OR 16 OR 32] else results)"

text \<open>The bindings of \<open>RegisterWithOptions\<close>, by the name of the import.\<close>

datatype abi_import =
    imp_abi_version | imp_feature_flags | imp_session_open | imp_session_close | imp_session_feed | imp_session_output
  | imp_stream_open | imp_stream_headers | imp_stream_data | imp_stream_push | imp_stream_reset | imp_stream_priority_update
  | imp_session_settings | imp_session_ping | imp_session_goaway | imp_event_next | imp_event_data | imp_event_header | imp_event_setting

fun abiCall ::
  "('d, 'e) session_env \<Rightarrow> (abi_status \<Rightarrow> u64) \<Rightarrow> abi_import \<Rightarrow> 'i abi_host \<Rightarrow> u64 list \<Rightarrow> u64 list \<Rightarrow>
     ('d, 'e, 'i) abi_manager \<Rightarrow> ('d, 'e, 'i) abi_outcome" where
  "abiCall env num imp_abi_version host params results m = Some (m, hostMemory host, h2AbiVersion params results)"
| "abiCall env num imp_feature_flags host params results m = Some (m, hostMemory host, abiFeatureFlags params results)"
| "abiCall env num imp_session_open host params results m = sessionOpen env num host params results m"
| "abiCall env num imp_session_close host params results m = sessionClose num host params results m"
| "abiCall env num imp_session_feed host params results m = sessionFeed env num host params results m"
| "abiCall env num imp_session_output host params results m = sessionOutput num host params results m"
| "abiCall env num imp_stream_open host params results m = streamOpen env num host params results m"
| "abiCall env num imp_stream_headers host params results m = streamHeaders env num host params results m"
| "abiCall env num imp_stream_data host params results m = streamData num host params results m"
| "abiCall env num imp_stream_push host params results m = streamPush env num host params results m"
| "abiCall env num imp_stream_reset host params results m = streamReset num host params results m"
| "abiCall env num imp_stream_priority_update host params results m = streamPriorityUpdate num host params results m"
| "abiCall env num imp_session_settings host params results m = sessionSettings env num host params results m"
| "abiCall env num imp_session_ping host params results m = sessionPing num host params results m"
| "abiCall env num imp_session_goaway host params results m = sessionGoAway num host params results m"
| "abiCall env num imp_event_next host params results m = eventNext num host params results m"
| "abiCall env num imp_event_data host params results m = eventData num host params results m"
| "abiCall env num imp_event_header host params results m = eventHeader num host params results m"
| "abiCall env num imp_event_setting host params results m = eventSetting num host params results m"

text \<open>The registration: the options that are not nil are applied in order to the zero configuration.\<close>

definition zero_register_config :: register_config where
  "zero_register_config =
     \<lparr>rcSession = \<lparr>slFrame = \<lparr>MaxFrameSize = 0, MaxHeaderBlockBytes = 0, MaxContinuationFrames = 0\<rparr>,
        slHeader = \<lparr>MaxDynamicTableBytes = 0, MaxFieldBytes = 0, MaxHeaderListBytes = 0, hlMaxHeaders = 0\<rparr>,
        slMaxConcurrentStreams = 0, slMaxStreams = 0, slMaxClosedStreams = 0, slMaxQueuedOutputBytes = 0,
        slMaxQueuedEventBytes = 0, slMaxQueuedEvents = 0, slInitialWindowSize = 0, slMaxControlFrames = 0,
        slEnablePush = False, slEnableExtendedConnect = False\<rparr>, rcMaxSessions = 0\<rparr>"

definition RegisterWithOptions :: "abi_option option list \<Rightarrow> ('d, 'e, 'i) abi_manager" where
  "RegisterWithOptions options =
     newABIManager (fold (\<lambda>opt config. case opt of None \<Rightarrow> config | Some x \<Rightarrow> applyHTTP2 x config) options
       zero_register_config)"

end
