(* ===== verification/H2_Frame_Inv.thy ===== *)
theory H2_Frame_Inv
  imports H2_Frame
begin

text \<open>
  The invariant of the HTTP/2 frame parser inside a payload, and that every payload function keeps
  it: each one consumes all the input, or exactly up to the end of the payload, and the position in
  the payload determines what is left of its prefix, content and padding.
\<close>

subsection \<open>Generic facts\<close>

lemma length_copy_at [simp]: "length (copy_at dst off src) = length dst"
  by (simp add: copy_at_def Let_def)

subsection \<open>Callbacks\<close>

text \<open>A callback leaves every field of the parser alone but the code.\<close>

lemma fire_frame [simp]:
  "fLimits (fst (fire cb sel p s)) = fLimits p"
  "fParsing (fst (fire cb sel p s)) = fParsing p"
  "fPauseAfterFrame (fst (fire cb sel p s)) = fPauseAfterFrame p"
  "fPaused (fst (fire cb sel p s)) = fPaused p"
  "fHeader (fst (fire cb sel p s)) = fHeader p"
  "fHeaderN (fst (fire cb sel p s)) = fHeaderN p"
  "fCurrent (fst (fire cb sel p s)) = fCurrent p"
  "fPayloadN (fst (fire cb sel p s)) = fPayloadN p"
  "fState (fst (fire cb sel p s)) = fState p"
  "fPrefix (fst (fire cb sel p s)) = fPrefix p"
  "fPrefixN (fst (fire cb sel p s)) = fPrefixN p"
  "fPrefixNeed (fst (fire cb sel p s)) = fPrefixNeed p"
  "fPadLength (fst (fire cb sel p s)) = fPadLength p"
  "fContentN (fst (fire cb sel p s)) = fContentN p"
  "fContinuationStream (fst (fire cb sel p s)) = fContinuationStream p"
  "fContinuationCount (fst (fire cb sel p s)) = fContinuationCount p"
  "fHeaderBlockBytes (fst (fire cb sel p s)) = fHeaderBlockBytes p"
  "fHeaderBlockEndStream (fst (fire cb sel p s)) = fHeaderBlockEndStream p"
  by (simp_all add: fire_def invoke_def frameFail_def split: option.split prod.split)

lemma fail_frame [simp]:
  "fLimits (frameFail c p) = fLimits p"
  "fParsing (frameFail c p) = fParsing p"
  "fPauseAfterFrame (frameFail c p) = fPauseAfterFrame p"
  "fPaused (frameFail c p) = fPaused p"
  "fHeader (frameFail c p) = fHeader p"
  "fHeaderN (frameFail c p) = fHeaderN p"
  "fCurrent (frameFail c p) = fCurrent p"
  "fPayloadN (frameFail c p) = fPayloadN p"
  "fState (frameFail c p) = fState p"
  "fPrefix (frameFail c p) = fPrefix p"
  "fPrefixN (frameFail c p) = fPrefixN p"
  "fPrefixNeed (frameFail c p) = fPrefixNeed p"
  "fPadLength (frameFail c p) = fPadLength p"
  "fContentN (frameFail c p) = fContentN p"
  "fContinuationStream (frameFail c p) = fContinuationStream p"
  "fContinuationCount (frameFail c p) = fContinuationCount p"
  "fHeaderBlockBytes (frameFail c p) = fHeaderBlockBytes p"
  "fHeaderBlockEndStream (frameFail c p) = fHeaderBlockEndStream p"
  by (simp_all add: frameFail_def)

lemma frame_fail_code [simp]: "c \<noteq> FCodeNone \<Longrightarrow> fCode (frameFail c p) \<noteq> FCodeNone"
  by (simp add: frameFail_def)

subsection \<open>The invariant\<close>

abbreviation payLen :: "frame_parser \<Rightarrow> nat" where "payLen p \<equiv> unat (fhLength (fCurrent p))"
abbreviation payPos :: "frame_parser \<Rightarrow> nat" where "payPos p \<equiv> unat (fPayloadN p)"

text \<open>The position inside a payload determines what is left of its content and its padding.\<close>

definition content_inv :: "frame_parser \<Rightarrow> bool" where
  "content_inv p \<longleftrightarrow>
     (case fState p of
        payloadStart \<Rightarrow> payPos p = 0 \<and> fPadLength p = 0 \<and> fPrefixN p = 0
      | payloadPrefix \<Rightarrow> False
      | payloadContent \<Rightarrow> payPos p + unat (fContentN p) + unat (fPadLength p) = payLen p \<and> fContentN p \<noteq> 0
      | payloadPadding \<Rightarrow> True)"

definition prefix_inv :: "nat \<Rightarrow> frame_parser \<Rightarrow> bool" where
  "prefix_inv need p \<longleftrightarrow>
     (if fState p = payloadPrefix
      then unat (fPrefixNeed p) = need \<and> unat (fPrefixN p) < need \<and>
        payPos p + (need - unat (fPrefixN p)) + unat (fPadLength p) \<le> payLen p
      else content_inv p)"

definition payload_inv :: "frame_parser \<Rightarrow> bool" where
  "payload_inv p \<longleftrightarrow>
     (let typ = fhType (fCurrent p) in
      if typ = FrameData then content_inv p
      else if typ = FrameHeaders then prefix_inv 5 p
      else if typ = FramePushPromise then prefix_inv 4 p
      else if typ = FramePriority \<or> typ = FrameRSTStream \<or> typ = FramePing \<or> typ = FrameWindowUpdate
      then unat (fPrefixN p) = payPos p
      else if typ = FrameSettings then unat (fPrefixN p) = payPos p mod 6
      else if typ = FrameGoAway then payPos p < 8 \<longrightarrow> unat (fPrefixN p) = payPos p
      else if typ = FrameContinuation then fState p = payloadStart
      else True)"

text \<open>What no payload function changes.\<close>

definition frame_env :: "frame_parser \<Rightarrow> frame_limits \<times> frame_header \<times> u8 \<times> bytes \<times> nat \<times> u32 \<times> u32 \<times> bool \<times> bool \<times> bool \<times> bool" where
  "frame_env p = (fLimits p, fCurrent p, fHeaderN p, fHeader p, length (fPrefix p),
     fContinuationStream p, fContinuationCount p, fHeaderBlockEndStream p, fPaused p, fPauseAfterFrame p, fParsing p)"

definition in_payload :: "frame_parser \<Rightarrow> bool" where
  "in_payload p \<longleftrightarrow> validateFrameHeader (fCurrent p) = FCodeNone \<and> payPos p < payLen p \<and> payLen p < 2 ^ 24 \<and>
     length (fPrefix p) = 8 \<and> fHeaderBlockBytes p \<le> MaxHeaderBlockBytes (fLimits p) \<and> payload_inv p"

text \<open>A payload function consumes all the input, or up to the end of the payload.\<close>

definition advanced :: "frame_parser \<Rightarrow> bytes \<Rightarrow> frame_parser \<Rightarrow> bytes \<Rightarrow> bool" where
  "advanced p src q rest \<longleftrightarrow>
     (let k = min (payLen p - payPos p) (length src) in
      rest = drop k src \<and> payPos q = payPos p + k \<and> frame_env q = frame_env p)"

definition ok_with :: "(frame_parser \<Rightarrow> bool) \<Rightarrow> frame_parser \<Rightarrow> bytes \<Rightarrow> 's payload_result \<Rightarrow> bool" where
  "ok_with I p src r \<longleftrightarrow>
     (case r of (q, s, rest, finished, c) \<Rightarrow>
        frame_env q = frame_env p \<and> fHeaderBlockBytes q \<le> MaxHeaderBlockBytes (fLimits q) \<and>
        (if c = FCodeNone
         then advanced p src q rest \<and> finished = frameDone q \<and> (payPos q < payLen q \<longrightarrow> I q)
         else fCode q = c \<and> \<not> finished \<and> suffix rest src))"

abbreviation payload_ok :: "frame_parser \<Rightarrow> bytes \<Rightarrow> 's payload_result \<Rightarrow> bool" where
  "payload_ok \<equiv> ok_with payload_inv"

lemma frameDone_nat: "frameDone p \<longleftrightarrow> payPos p = payLen p"
  by (simp add: frameDone_def word_unat_eq_iff)

lemma fire_env [simp]: "frame_env (fst (fire cb sel p s)) = frame_env p"
  by (simp add: frame_env_def)

lemma fixed_ok:
  assumes "in_payload p" "payLen p \<le> 8" "src \<noteq> []"
    and "unat need = payLen p" "unat (fPrefixN p) = payPos p"
    and "\<And>q. fCurrent q = fCurrent p \<Longrightarrow> unat (fPrefixN q) = payPos q \<Longrightarrow> payload_inv q"
  shows "payload_ok p src (parseFixed p s src need)"
proof -
  have pos: "payPos p < payLen p" using assms(1) by (simp add: in_payload_def)
  define k where "k = min (payLen p - payPos p) (length src)"
  have need: "unat (need - fPrefixN p) = payLen p - payPos p"
    using assms(4,5) pos by (simp add: unat_minus_le)
  have n1: "unat (fPrefixN p + of_nat k) = payPos p + k"
    using assms(2,5) pos unat_plus_of_nat [of "fPrefixN p" k] by (simp add: k_def)
  have n2: "unat (fPayloadN p + of_nat k) = payPos p + k"
    using assms(2) pos unat_plus_of_nat [of "fPayloadN p" k] by (simp add: k_def)
  show ?thesis
    using assms(1) n1 n2
    by (simp add: ok_with_def advanced_def parseFixed_def copyPrefix_def Let_def need frameDone_nat
        frame_env_def in_payload_def assms(6) flip: k_def)
qed

subsection \<open>Content and padding\<close>

definition content_pre :: "frame_parser \<Rightarrow> bool" where
  "content_pre p \<longleftrightarrow> payLen p < 2 ^ 24 \<and>
     (fState p = payloadContent \<and> payPos p + unat (fContentN p) + unat (fPadLength p) = payLen p \<or>
      fState p = payloadPadding \<and> payPos p \<le> payLen p)"

lemma skipPadding_env [simp]:
  "frame_env (fst (skipPadding p src)) = frame_env p"
  "fHeaderBlockBytes (fst (skipPadding p src)) = fHeaderBlockBytes p"
  "fCode (fst (skipPadding p src)) = fCode p"
  "fPadLength (fst (skipPadding p src)) = fPadLength p"
  "fPrefixN (fst (skipPadding p src)) = fPrefixN p"
  by (simp_all add: skipPadding_def Let_def frame_env_def)

lemma payLen_env: "frame_env q = frame_env p \<Longrightarrow> payLen q = payLen p"
  by (simp add: frame_env_def)

lemma skip_in_padding:
  assumes "fState p = payloadPadding \<or> fState p = payloadContent \<and> fContentN p = 0"
    and "payPos p \<le> payLen p" "payLen p < 2 ^ 24"
  shows "advanced p src (fst (skipPadding p src)) (snd (skipPadding p src)) \<and>
     fState (fst (skipPadding p src)) = payloadPadding"
proof -
  have d: "unat (fhLength (fCurrent p) - fPayloadN p) = payLen p - payPos p"
    using assms(2) by (simp add: unat_minus_le)
  define k where "k = min (payLen p - payPos p) (length src)"
  have "payPos p + k < 2 ^ 32" using assms(2,3) by (simp add: k_def)
  then have n: "unat (fPayloadN p + of_nat k) = payPos p + k"
    using unat_plus_of_nat [of "fPayloadN p" k] by simp
  show ?thesis
  proof (cases "src = []")
    case True
    then show ?thesis using assms(1)
      by (auto simp: advanced_def skipPadding_def frame_env_def)
  next
    case False
    have q: "skipPadding p src =
        (p\<lparr>fState := payloadPadding, fPayloadN := fPayloadN p + of_nat k\<rparr>, drop k src)"
      using assms(1) False by (auto simp: skipPadding_def Let_def d k_def)
    show ?thesis unfolding q advanced_def Let_def fst_conv snd_conv k_def [symmetric]
      using n by (simp add: frame_env_def)
  qed
qed

lemma skip_in_content:
  "fState p = payloadContent \<Longrightarrow> fContentN p \<noteq> 0 \<Longrightarrow> skipPadding p src = (p, src)"
  by (simp add: skipPadding_def)

text \<open>A consumer of content: \<open>deliverData\<close> and the fragment of a header block have the same
  effect on the position.\<close>

definition took :: "frame_parser \<Rightarrow> bytes \<Rightarrow> frame_parser \<Rightarrow> bytes \<Rightarrow> bool" where
  "took p src q rest \<longleftrightarrow>
     (let j = min (unat (fContentN p)) (length src) in
      rest = drop j src \<and> payPos q = payPos p + j \<and> unat (fContentN q) = unat (fContentN p) - j \<and>
      frame_env q = frame_env p \<and> fState q = payloadContent \<and> fPadLength q = fPadLength p)"

lemma take_then_skip:
  assumes t: "took p src q rest" and p: "content_pre p" "fState p = payloadContent"
  shows "advanced p src (fst (skipPadding q rest)) (snd (skipPadding q rest)) \<and>
     (payPos p + min (payLen p - payPos p) (length src) < payLen p \<longrightarrow>
        content_inv (fst (skipPadding q rest)))"
proof -
  define c where "c = unat (fContentN p)"
  define j where "j = min c (length src)"
  have L: "payPos p + c + unat (fPadLength p) = payLen p" "payLen p < 2 ^ 24"
    using p by (auto simp: content_pre_def c_def)
  have q: "rest = drop j src" "payPos q = payPos p + j" "unat (fContentN q) = c - j"
    "frame_env q = frame_env p" "fState q = payloadContent" "fPadLength q = fPadLength p"
    using t by (simp_all add: took_def Let_def flip: c_def j_def)
  note Lq = payLen_env [OF q(4)]
  show ?thesis
  proof (cases "j = c")
    case True
    then have "fContentN q = 0" using q(3) by (simp add: unat_eq_0)
    then have s: "advanced q rest (fst (skipPadding q rest)) (snd (skipPadding q rest))"
      "fState (fst (skipPadding q rest)) = payloadPadding"
      using skip_in_padding [of q rest] q L Lq True by auto
    have k: "min (payLen p - payPos p) (length src) = c + min (payLen p - (payPos p + c)) (length src - c)"
      using L True j_def by linarith
    have "advanced p src (fst (skipPadding q rest)) (snd (skipPadding q rest))"
      using s(1) q(1,2,4) Lq True unfolding advanced_def Let_def k by (simp add: add.commute)
    moreover have "content_inv (fst (skipPadding q rest))" using s(2) by (simp add: content_inv_def)
    ultimately show ?thesis by simp
  next
    case False
    then have j: "j = length src" "j < c" using j_def by linarith+
    then have c: "fContentN q \<noteq> 0" using q(3) by (metis unat_0 zero_less_diff less_irrefl)
    note s = skip_in_content [OF q(5) c, of rest]
    have k: "min (payLen p - payPos p) (length src) = j" using L j by linarith
    have "payPos q + unat (fContentN q) + unat (fPadLength q) = payLen q"
      using q(2,3) Lq L(1) j(2) by (simp add: q(6))
    then have "content_inv q" using q(5) c by (simp add: content_inv_def)
    then show ?thesis unfolding s fst_conv snd_conv advanced_def Let_def k using q by simp
  qed
qed

lemma deliver_took:
  assumes "fState p = payloadContent" "payPos p + unat (fContentN p) < 2 ^ 32"
  shows "took p src (fst (deliverData cb p s src)) (snd (snd (deliverData cb p s src))) \<and>
     fHeaderBlockBytes (fst (deliverData cb p s src)) = fHeaderBlockBytes p"
proof (cases "fContentN p \<noteq> 0 \<and> src \<noteq> []")
  case True
  define j where "j = min (unat (fContentN p)) (length src)"
  have j: "j \<le> unat (fContentN p)" by (simp add: j_def)
  have "j < 2 ^ 32" using j assms(2) by linarith
  then have "unat (of_nat j :: u32) = j" by (simp add: unat_of_nat take_bit_nat_eq_self)
  then have n: "unat (fContentN p - of_nat j) = unat (fContentN p) - j"
    "unat (fPayloadN p + of_nat j) = payPos p + j"
    using j assms(2) unat_minus_le [of "of_nat j" "fContentN p"] unat_plus_of_nat [of "fPayloadN p" j]
    by simp_all
  then show ?thesis using True assms(1)
    by (simp add: deliverData_def took_def Let_def case_prod_beta frame_env_def flip: j_def)
next
  case False
  then show ?thesis using assms(1) by (auto simp: deliverData_def took_def)
qed

lemma deliver_padding:
  "fState p \<noteq> payloadContent \<Longrightarrow> deliverData cb p s src = (p, s, src)"
  by (simp add: deliverData_def)

lemma data_tail:
  fixes cb s p src
  defines "r \<equiv> (case deliverData cb p s src of (p', s', src') \<Rightarrow>
     (case skipPadding p' src' of (q, rest) \<Rightarrow> (q, s', rest, frameDone q, FCodeNone)))"
  assumes p: "content_pre p"
  shows "advanced p src (fst r) (fst (snd (snd r))) \<and> snd (snd (snd r)) = (frameDone (fst r), FCodeNone) \<and>
     fHeaderBlockBytes (fst r) = fHeaderBlockBytes p \<and>
     (payPos (fst r) < payLen (fst r) \<longrightarrow> content_inv (fst r))"
proof (cases "fState p = payloadContent")
  case True
  obtain p' s' src' where d: "deliverData cb p s src = (p', s', src')" by (cases "deliverData cb p s src")
  have "payPos p + unat (fContentN p) < 2 ^ 32" using p True by (auto simp: content_pre_def)
  from deliver_took [OF True this, of src cb s] d
  have t: "took p src p' src'" "fHeaderBlockBytes p' = fHeaderBlockBytes p" by simp_all
  note k = take_then_skip [OF t(1) p True]
  have "payPos (fst (skipPadding p' src')) = payPos p + min (payLen p - payPos p) (length src)"
    "payLen (fst (skipPadding p' src')) = payLen p"
    using k by (simp_all add: advanced_def Let_def frame_env_def)
  then show ?thesis using k t(2) by (simp add: r_def d case_prod_beta)
next
  case False
  then have s: "fState p = payloadPadding" "payPos p \<le> payLen p" "payLen p < 2 ^ 24"
    using p by (auto simp: content_pre_def)
  then show ?thesis using skip_in_padding [of p src]
    by (simp add: r_def deliver_padding case_prod_beta content_inv_def)
qed

lemma ok_advanced:
  assumes "advanced p src q rest" "fHeaderBlockBytes q \<le> MaxHeaderBlockBytes (fLimits q)"
    and "payPos q < payLen q \<longrightarrow> I q"
  shows "ok_with I p src (q, s, rest, frameDone q, FCodeNone)"
  using assms by (simp add: ok_with_def advanced_def Let_def)

lemma ok_failed:
  assumes "frame_env q = frame_env p" "fHeaderBlockBytes q \<le> MaxHeaderBlockBytes (fLimits q)"
    and "suffix rest src" "fCode q \<noteq> FCodeNone"
  shows "ok_with I p src (q, s, rest, False, fCode q)"
  using assms by (simp add: ok_with_def)

lemma advanced_drop:
  assumes "advanced p1 (drop e src) q rest" "frame_env p1 = frame_env p" "payPos p1 = payPos p + e"
    and "e \<le> length src" "e \<le> payLen p - payPos p" "payPos p \<le> payLen p"
  shows "advanced p src q rest"
proof -
  have k: "min (payLen p - payPos p) (length src) =
      e + min (payLen p - (payPos p + e)) (length src - e)"
    using assms(4-6) by linarith
  show ?thesis using assms(1-3) payLen_env [OF assms(2)] unfolding advanced_def Let_def k
    by (simp add: add.commute)
qed

lemma ok_shift:
  assumes "ok_with I p1 (drop e src) r" "frame_env p1 = frame_env p" "payPos p1 = payPos p + e"
    and "e \<le> length src" "e \<le> payLen p - payPos p" "payPos p \<le> payLen p"
  shows "ok_with I p src r"
proof -
  obtain q s rest f c where r: "r = (q, s, rest, f, c)" by (rule prod_cases5)
  have "suffix rest src" if "suffix rest (drop e src)"
    using that suffix_drop [of e src] by (rule suffix_order.trans)
  then show ?thesis using assms(1,2) advanced_drop [OF _ assms(2-6), of q rest]
    unfolding r ok_with_def by (simp split: if_splits)
qed

lemma ok_mono:
  assumes "ok_with I p src r" "\<And>q. fCurrent q = fCurrent p \<Longrightarrow> I q \<Longrightarrow> J q"
  shows "ok_with J p src r"
proof -
  obtain q s rest f c where r: "r = (q, s, rest, f, c)" by (rule prod_cases5)
  have "fCurrent q = fCurrent p" using assms(1) by (simp add: r ok_with_def frame_env_def)
  from assms(2) [OF this] show ?thesis using assms(1) unfolding r ok_with_def by auto
qed

lemma env_limits: "frame_env q = frame_env p \<Longrightarrow> fLimits q = fLimits p"
  by (simp add: frame_env_def)

lemma env_current: "frame_env q = frame_env p \<Longrightarrow> fCurrent q = fCurrent p"
  by (simp add: frame_env_def)

lemma fail_env [simp]: "frame_env (frameFail c p) = frame_env p"
  by (simp add: frame_env_def)

lemma payload_inv_type:
  "fhType (fCurrent p) = FrameData \<Longrightarrow> payload_inv p = content_inv p"
  "fhType (fCurrent p) = FrameHeaders \<Longrightarrow> payload_inv p = prefix_inv 5 p"
  "fhType (fCurrent p) = FramePushPromise \<Longrightarrow> payload_inv p = prefix_inv 4 p"
  by (simp_all add: payload_inv_def)

lemma content_prefix_inv: "content_inv p \<Longrightarrow> prefix_inv k p"
  by (auto simp: prefix_inv_def content_inv_def)

text \<open>The octet that gives the length of the padding.\<close>

abbreviation padOctets :: "frame_parser \<Rightarrow> nat" where
  "padOctets p \<equiv> (if Has (fhFlags (fCurrent p)) FlagPadded then 1 else 0)"

lemma pad_length:
  assumes p: "payPos p = 0" "fPadLength p = 0" "padOctets p + unat m \<le> payLen p" "src \<noteq> []"
    and r: "readPadLength m p src = (q, rest, bad)"
  shows "frame_env q = frame_env p \<and> fHeaderBlockBytes q = fHeaderBlockBytes p \<and>
     rest = drop (padOctets p) src \<and> payPos q = padOctets p \<and>
     fState q = fState p \<and> fPrefixN q = fPrefixN p \<and>
     (if bad then fCode q \<noteq> FCodeNone
      else payPos q + unat m + unat (fPadLength q) \<le> payLen q)"
proof (cases "Has (fhFlags (fCurrent p)) FlagPadded")
  case True
  define p1 where "p1 = p\<lparr>fPadLength := ucast (hd src), fPayloadN := fPayloadN p + 1\<rparr>"
  have one: "payPos p1 = 1" using p(1) by (simp add: p1_def unat_eq_0)
  have "unat (fhLength (fCurrent p) - 1) = payLen p - 1"
    using p(3) True by (simp add: unat_minus_le)
  then have lim: "unat (fhLength (fCurrent p1) - fPayloadN p1 - m) = payLen p - 1 - unat m"
    using p(1,3) True by (simp add: p1_def unat_eq_0 unat_minus_le)
  have r1: "(q, rest, bad) =
      (if fhLength (fCurrent p1) - fPayloadN p1 - m < fPadLength p1
       then (frameFail FCodeInvalidPadding p1, tl src, True) else (p1, tl src, False))"
    using r True unfolding readPadLength_def Let_def p1_def by (auto split: if_splits)
  have env: "frame_env p1 = frame_env p" "fHeaderBlockBytes p1 = fHeaderBlockBytes p"
    "fState p1 = fState p" "fPrefixN p1 = fPrefixN p" "payLen p1 = payLen p"
    by (simp_all add: p1_def frame_env_def)
  show ?thesis
  proof (cases "fhLength (fCurrent p1) - fPayloadN p1 - m < fPadLength p1")
    case bad: True
    then show ?thesis using r1 env one True by (simp add: drop_Suc)
  next
    case False
    then have "unat (fPadLength p1) \<le> payLen p - 1 - unat m"
      using lim by (simp add: not_less word_le_nat_alt)
    moreover have "1 + unat m \<le> payLen p" using p(3) True by simp
    ultimately have "1 + unat m + unat (fPadLength p1) \<le> payLen p" by linarith
    then show ?thesis using False r1 env one True by (simp add: drop_Suc)
  qed
next
  case False
  then show ?thesis using r p by (auto simp: readPadLength_def)
qed

lemma begin_content:
  assumes "payPos p + unat (fPadLength p) \<le> payLen p" "payLen p < 2 ^ 24"
  shows "content_pre (beginContent p) \<and> frame_env (beginContent p) = frame_env p \<and>
     payPos (beginContent p) = payPos p \<and> fHeaderBlockBytes (beginContent p) = fHeaderBlockBytes p \<and>
     fState (beginContent p) = payloadContent"
proof -
  have "unat (fhLength (fCurrent p) - fPayloadN p) = payLen p - payPos p"
    using assms(1) by (simp add: unat_minus_le)
  then have "unat (fhLength (fCurrent p) - fPayloadN p - fPadLength p) =
      payLen p - payPos p - unat (fPadLength p)"
    using assms(1) by (simp add: unat_minus_le)
  then show ?thesis using assms by (simp add: beginContent_def content_pre_def frame_env_def)
qed

lemma content_pre_inv:
  "content_inv p \<Longrightarrow> fState p \<noteq> payloadStart \<Longrightarrow> payPos p \<le> payLen p \<Longrightarrow> payLen p < 2 ^ 24 \<Longrightarrow>
     content_pre p"
  by (cases "fState p") (simp_all add: content_inv_def content_pre_def)

text \<open>Each payload function keeps the invariant and consumes up to the end of the payload.\<close>

lemma parseData_ok:
  assumes p: "in_payload p" "fhType (fCurrent p) = FrameData" "src \<noteq> []"
  shows "payload_ok p src (parseData cb p s src)"
proof -
  have inv: "content_inv p" and L: "payPos p < payLen p" "payLen p < 2 ^ 24"
    and hb: "fHeaderBlockBytes p \<le> MaxHeaderBlockBytes (fLimits p)"
    and v: "validateFrameHeader (fCurrent p) = FCodeNone"
    using p by (simp_all add: in_payload_def payload_inv_def)
  have tail: "payload_ok p src (case deliverData cb p1 s src1 of (p', s', src') \<Rightarrow>
       (case skipPadding p' src' of (q, rest) \<Rightarrow> (q, s', rest, frameDone q, FCodeNone)))"
    (is "payload_ok p src ?r")
    if "content_pre p1" "frame_env p1 = frame_env p" "payPos p1 = payPos p + e"
      "src1 = drop e src" "e \<le> length src" "e \<le> payLen p - payPos p"
      "fHeaderBlockBytes p1 = fHeaderBlockBytes p" for p1 src1 e
  proof -
    obtain q s' rest f c where r: "?r = (q, s', rest, f, c)" by (rule prod_cases5)
    have t: "advanced p1 src1 q rest" "f = frameDone q" "c = FCodeNone"
      "fHeaderBlockBytes q = fHeaderBlockBytes p1" "payPos q < payLen q \<longrightarrow> content_inv q"
      using data_tail [OF that(1), where cb = cb and s = s and src = src1] unfolding r by simp_all
    have a: "advanced p src q rest"
      by (rule advanced_drop [of p1 e]) (use t that L in auto)
    then have env: "frame_env q = frame_env p" by (simp add: advanced_def Let_def)
    have "payload_ok p src (q, s', rest, frameDone q, FCodeNone)"
    proof (rule ok_advanced [OF a])
      show "fHeaderBlockBytes q \<le> MaxHeaderBlockBytes (fLimits q)"
        using t(4) that(7) hb env_limits [OF env] by simp
      show "payPos q < payLen q \<longrightarrow> payload_inv q"
        using t(5) p(2) env_current [OF env] payload_inv_type(1) [of q] by simp
    qed
    then show ?thesis unfolding r t(2,3) .
  qed
  show ?thesis
  proof (cases "fState p = payloadStart")
    case True
    then have p0: "payPos p = 0" "fPadLength p = 0" using inv by (simp_all add: content_inv_def)
    obtain p1 src1 bad where r: "readPadLength 0 p src = (p1, src1, bad)"
      by (cases "readPadLength 0 p src")
    have "padOctets p + unat (0 :: u32) \<le> payLen p" using L(1) by simp
    note pl = pad_length [OF p0 this p(3) r]
    then have env: "frame_env p1 = frame_env p" by simp
    show ?thesis
    proof (cases bad)
      case bad: True
      have "payload_ok p src (p1, s, src1, False, fCode p1)"
        by (rule ok_failed [OF env]) (use pl bad hb env_limits [OF env] in \<open>simp_all add: suffix_drop\<close>)
      then show ?thesis using True r bad by (simp add: parseData_def)
    next
      case False
      have "payLen p1 = payLen p" using payLen_env [OF env] .
      then have "payPos p1 + unat (fPadLength p1) \<le> payLen p1" "payLen p1 < 2 ^ 24"
        using pl False L by simp_all
      note b = begin_content [OF this]
      have "padOctets p \<le> payLen p - payPos p" "padOctets p \<le> length src"
        using L(1) p(3) p0(1) by (simp_all add: Suc_le_eq)
      then have "payload_ok p src (case deliverData cb (beginContent p1) s src1 of (p', s', src') \<Rightarrow>
          (case skipPadding p' src' of (q, rest) \<Rightarrow> (q, s', rest, frameDone q, FCodeNone)))"
        by (intro tail [of _ "padOctets p"]) (use b pl p0 in simp_all)
      then show ?thesis using True r False by (simp add: parseData_def)
    qed
  next
    case False
    have "content_pre p" using content_pre_inv inv False L by simp
    then show ?thesis using tail [of p 0 src] False by (simp add: parseData_def)
  qed
qed

lemma fragment_took:
  assumes p: "fState p = payloadContent" "payPos p + unat (fContentN p) < 2 ^ 32"
      "fContentN p \<noteq> 0" "src \<noteq> []" "fHeaderBlockBytes p \<le> MaxHeaderBlockBytes (fLimits p)"
    and r: "parseHeaderFragment cb p s src (fContentN p) = (q, s', rest, fin, c)"
  shows "frame_env q = frame_env p \<and> fHeaderBlockBytes q \<le> MaxHeaderBlockBytes (fLimits q) \<and>
     (if c = FCodeNone then took p src q rest \<and> (fin \<longleftrightarrow> fContentN q = 0)
      else fCode q = c \<and> \<not> fin \<and> rest = src)"
proof -
  define j where "j = min (unat (fContentN p)) (length src)"
  have j: "j \<le> unat (fContentN p)" "j \<noteq> 0" using p(3,4) by (simp_all add: j_def unat_gt_0)
  have "j < 2 ^ 32" using j(1) p(2) by linarith
  then have o: "unat (of_nat j :: u32) = j" by (simp add: unat_of_nat take_bit_nat_eq_self)
  then have n: "unat (fContentN p - of_nat j) = unat (fContentN p) - j"
    "unat (fPayloadN p + of_nat j) = payPos p + j"
    using j p(2) unat_minus_le [of "of_nat j" "fContentN p"] unat_plus_of_nat [of "fPayloadN p" j]
    by simp_all
  have e: "(of_nat j = fContentN p) = (fContentN p - of_nat j = 0)" by auto
  show ?thesis
  proof (cases "MaxHeaderBlockBytes (fLimits p) < fHeaderBlockBytes p + of_nat j")
    case True
    then show ?thesis using r j(2) p(5) unfolding parseHeaderFragment_def j_def [symmetric] Let_def
      by auto
  next
    case False
    then have "q = (fst (fire cb (\<lambda>t. map_option (\<lambda>f. f (fhStreamID (fCurrent p)) (take j src))
          (fcHeaderBlock t)) p s))\<lparr>fHeaderBlockBytes := fHeaderBlockBytes p + of_nat j,
          fPayloadN := fPayloadN p + of_nat j, fContentN := fContentN p - of_nat j\<rparr>"
      "rest = drop j src" "fin = (of_nat j = fContentN p)" "c = FCodeNone"
      using r j(2) p(1) unfolding parseHeaderFragment_def j_def [symmetric] Let_def
      by (simp_all add: case_prod_beta)
    moreover have "fHeaderBlockBytes p + of_nat j \<le> MaxHeaderBlockBytes (fLimits p)"
      using False by (simp add: not_less)
    ultimately show ?thesis unfolding took_def Let_def j_def [symmetric] e
      using n p(1) by (simp add: frame_env_def)
  qed
qed

lemma skip_marked:
  assumes "fState q = payloadContent" "fContentN q = 0"
  shows "skipPadding (q\<lparr>fContentN := 0, fState := payloadPadding\<rparr>) rest = skipPadding q rest"
proof -
  have "q\<lparr>fContentN := 0, fState := payloadPadding\<rparr> = q\<lparr>fState := payloadPadding\<rparr>"
    using assms(2) by (cases q) simp
  then have "skipPadding (q\<lparr>fContentN := 0, fState := payloadPadding\<rparr>) rest =
      skipPadding (q\<lparr>fState := payloadPadding\<rparr>) rest" by (rule arg_cong)
  also have "\<dots> = skipPadding q rest" using assms by (simp add: skipPadding_def)
  finally show ?thesis .
qed

lemma header_tail:
  assumes p: "content_pre p" "fHeaderBlockBytes p \<le> MaxHeaderBlockBytes (fLimits p)"
  shows "ok_with content_inv p src (parseHeaderContentAndPadding cb p s src)"
proof (cases "fState p = payloadContent \<and> fContentN p \<noteq> 0 \<and> src \<noteq> []")
  case True
  obtain q s' rest fin c where r: "parseHeaderFragment cb p s src (fContentN p) = (q, s', rest, fin, c)"
    by (rule prod_cases5)
  have "payPos p + unat (fContentN p) < 2 ^ 32" using p True by (auto simp: content_pre_def)
  note t = fragment_took [OF _ this _ _ p(2) r]
  show ?thesis
  proof (cases "c = FCodeNone")
    case ok: True
    with t True have q: "frame_env q = frame_env p" "took p src q rest" "fin \<longleftrightarrow> fContentN q = 0"
      "fHeaderBlockBytes q \<le> MaxHeaderBlockBytes (fLimits q)" "fState q = payloadContent"
      by (simp_all add: took_def Let_def)
    note k = take_then_skip [OF q(2) p(1)]
    define q2 where "q2 = fst (skipPadding q rest)"
    have pos: "payPos q2 = payPos p + min (payLen p - payPos p) (length src)" "payLen q2 = payLen p"
      "frame_env q2 = frame_env p"
      using k True by (simp_all add: advanced_def Let_def frame_env_def q2_def)
    show ?thesis
    proof (cases fin)
      case fin: True
      then have "parseHeaderContentAndPadding cb p s src =
          (q2, s', snd (skipPadding q rest), frameDone q2, FCodeNone)"
        using True r ok q(3,5) skip_marked [of q rest]
        by (simp add: parseHeaderContentAndPadding_def case_prod_beta q2_def)
      then show ?thesis using k True pos q(1,4) env_limits [OF pos(3)] env_limits [OF q(1)]
        by (simp add: ok_with_def q2_def)
    next
      case more: False
      then have c0: "fContentN q \<noteq> 0" using q(3) by simp
      then have sk: "skipPadding q rest = (q, rest)" using skip_in_content q(5) by simp
      then have q2: "q2 = q" by (simp add: q2_def)
      have "parseHeaderContentAndPadding cb p s src = (q, s', rest, False, FCodeNone)"
        using True r ok more by (simp add: parseHeaderContentAndPadding_def)
      moreover have lt: "payPos q < payLen q"
      proof -
        have "payPos p + unat (fContentN p) + unat (fPadLength p) = payLen p"
          using p(1) True by (simp add: content_pre_def)
        moreover have "payPos q = payPos p + min (unat (fContentN p)) (length src)"
          "unat (fContentN q) = unat (fContentN p) - min (unat (fContentN p)) (length src)"
          using q(2) by (simp_all add: took_def Let_def)
        moreover have "unat (fContentN q) \<noteq> 0" using c0 by (simp add: unat_eq_0)
        ultimately show ?thesis using payLen_env [OF q(1)] by linarith
      qed
      moreover have "\<not> frameDone q" using lt by (simp add: frameDone_nat)
      ultimately show ?thesis using k True q(1,4) pos(1,2) unfolding sk fst_conv snd_conv
        by (simp add: ok_with_def q2)
    qed
  next
    case False
    then have "parseHeaderContentAndPadding cb p s src = (q, s', rest, False, c)"
      using True r by (simp add: parseHeaderContentAndPadding_def)
    then show ?thesis using False t True by (simp add: ok_with_def)
  qed
next
  case False
  have "parseHeaderContentAndPadding cb p s src =
      (case skipPadding p src of (q, rest) \<Rightarrow> (q, s, rest, frameDone q, FCodeNone))"
    unfolding parseHeaderContentAndPadding_def if_not_P [OF False] by simp
  also have "\<dots> = (fst (skipPadding p src), s, snd (skipPadding p src), frameDone (fst (skipPadding p src)), FCodeNone)"
    by (simp add: case_prod_beta)
  finally have r: "parseHeaderContentAndPadding cb p s src = \<dots>" .
  show ?thesis
  proof (cases "fState p = payloadContent \<and> fContentN p \<noteq> 0")
    case True
    then have src: "src = []" using False by blast
    have "content_inv p" using True p(1) by (simp add: content_pre_def content_inv_def)
    then show ?thesis using r True p(2) src skip_in_content [of p "[]"]
      by (simp add: ok_with_def advanced_def)
  next
    case pad: False
    then have "fState p = payloadPadding \<or> fState p = payloadContent \<and> fContentN p = 0"
      "payPos p \<le> payLen p" "payLen p < 2 ^ 24"
      using p(1) by (auto simp: content_pre_def)
    note k = skip_in_padding [OF this, of src]
    have env: "frame_env (fst (skipPadding p src)) = frame_env p" by simp
    show ?thesis using r k p(2) env_limits [OF env] by (simp add: ok_with_def content_inv_def)
  qed
qed

lemma prefix_copied:
  assumes p: "fState p = payloadPrefix" "prefix_inv need p" "payLen p < 2 ^ 24" "need \<le> 8"
    and r: "copyPrefix p src = (q, rest)"
  defines "j \<equiv> min (need - unat (fPrefixN p)) (length src)"
  shows "frame_env q = frame_env p \<and> fHeaderBlockBytes q = fHeaderBlockBytes p \<and>
     rest = drop j src \<and> payPos q = payPos p + j \<and> unat (fPrefixN q) = unat (fPrefixN p) + j \<and>
     fState q = payloadPrefix \<and> fPadLength q = fPadLength p \<and> fPrefixNeed q = fPrefixNeed p \<and>
     (fPrefixN q < fPrefixNeed q \<longleftrightarrow> unat (fPrefixN p) + j < need)"
proof -
  have i: "unat (fPrefixNeed p) = need" "unat (fPrefixN p) < need"
    "payPos p + (need - unat (fPrefixN p)) + unat (fPadLength p) \<le> payLen p"
    using p(1,2) unfolding prefix_inv_def by presburger+
  have need: "unat (fPrefixNeed p - fPrefixN p) = need - unat (fPrefixN p)"
    using i by (simp add: unat_minus_le)
  have "unat (fPrefixN p + of_nat j) = unat (fPrefixN p) + j"
    using unat_plus_of_nat [of "fPrefixN p" j] i(2) p(4) by (simp add: j_def)
  moreover have "unat (fPayloadN p + of_nat j) = payPos p + j"
    using unat_plus_of_nat [of "fPayloadN p" j] i(2,3) p(3) by (simp add: j_def)
  moreover have "q = p\<lparr>fPrefix := copy_at (fPrefix p) (unat (fPrefixN p)) (take j src),
      fPrefixN := fPrefixN p + of_nat j, fPayloadN := fPayloadN p + of_nat j\<rparr>" "rest = drop j src"
    using r by (simp_all add: copyPrefix_def Let_def need j_def)
  ultimately show ?thesis using p(1) i(1) by (simp add: frame_env_def word_less_nat_alt)
qed

subsection \<open>Frames with a prefix\<close>

text \<open>HEADERS with a priority section and PUSH_PROMISE collect a prefix, check it, report it, and go
  on with the content.\<close>

definition prefixStep where
  "prefixStep bad c sel cb p s src =
     (case copyPrefix p src of (p, src) \<Rightarrow>
      if fPrefixN p < fPrefixNeed p then (p, s, src, False, FCodeNone)
      else if bad p then (let p = frameFail c p in (p, s, src, False, fCode p))
      else (case fire cb (sel p) p s of (p, s) \<Rightarrow>
              parseHeaderContentAndPadding cb (beginContent p) s src))"

lemma prefixStep_ok:
  assumes p: "fState p = payloadPrefix" "prefix_inv need p" "payLen p < 2 ^ 24" "need \<le> 8"
      "fHeaderBlockBytes p \<le> MaxHeaderBlockBytes (fLimits p)" "c \<noteq> FCodeNone"
  shows "ok_with (prefix_inv need) p src (prefixStep bad c sel cb p s src)"
proof -
  obtain q rest where r: "copyPrefix p src = (q, rest)" by (cases "copyPrefix p src")
  define j where "j = min (need - unat (fPrefixN p)) (length src)"
  have i: "unat (fPrefixNeed p) = need" "unat (fPrefixN p) < need"
    "payPos p + (need - unat (fPrefixN p)) + unat (fPadLength p) \<le> payLen p"
    using p(1,2) unfolding prefix_inv_def by presburger+
  have q: "frame_env q = frame_env p" "fHeaderBlockBytes q = fHeaderBlockBytes p"
    "rest = drop j src" "payPos q = payPos p + j" "unat (fPrefixN q) = unat (fPrefixN p) + j"
    "fState q = payloadPrefix" "fPadLength q = fPadLength p" "fPrefixNeed q = fPrefixNeed p"
    "fPrefixN q < fPrefixNeed q \<longleftrightarrow> unat (fPrefixN p) + j < need"
    using prefix_copied [OF p(1-4) r] unfolding j_def by blast+
  note L = payLen_env [OF q(1)]
  have hb: "fHeaderBlockBytes q \<le> MaxHeaderBlockBytes (fLimits q)"
    using q(2) p(5) env_limits [OF q(1)] by simp
  show ?thesis
  proof (cases "fPrefixN q < fPrefixNeed q")
    case True
    then have lt: "unat (fPrefixN p) + j < need" using q(9) by blast
    then have j: "j = length src" "j < need - unat (fPrefixN p)" using j_def by linarith+
    have k: "min (payLen p - payPos p) (length src) = j" using i j by linarith
    have pos: "payPos q < payLen q" using i j(2) L q(4) by linarith
    have "payPos q + (need - unat (fPrefixN q)) + unat (fPadLength q) \<le> payLen q"
      using i(3) j(2) L q(4,5) unfolding q(7) by linarith
    then have "prefix_inv need q" using lt q(5,6,8) i(1) by (simp add: prefix_inv_def)
    then have "ok_with (prefix_inv need) p src (q, s, rest, frameDone q, FCodeNone)"
      using hb q by (intro ok_advanced) (simp_all add: advanced_def Let_def k)
    moreover have "frameDone q = False" using pos by (simp add: frameDone_nat)
    ultimately show ?thesis using True r by (simp add: prefixStep_def)
  next
    case full: False
    then have j: "j = need - unat (fPrefixN p)" "j \<le> length src" using q(9) i(2) j_def by linarith+
    show ?thesis
    proof (cases "bad q")
      case True
      have "ok_with (prefix_inv need) p src (frameFail c q, s, rest, False, fCode (frameFail c q))"
        using q hb p(6) by (intro ok_failed) (simp_all add: suffix_drop)
      then show ?thesis using full True r by (simp add: prefixStep_def Let_def)
    next
      case False
      define q1 where "q1 = fst (fire cb (sel q) q s)"
      define s1 where "s1 = snd (fire cb (sel q) q s)"
      have "payPos q1 + unat (fPadLength q1) \<le> payLen q1" "payLen q1 < 2 ^ 24"
        using i(2,3) j L q(4) p(3) by (simp_all add: q1_def q(7))
      note b = begin_content [OF this]
      have b': "frame_env (beginContent q1) = frame_env p" "payPos (beginContent q1) = payPos p + j"
        "fHeaderBlockBytes (beginContent q1) \<le> MaxHeaderBlockBytes (fLimits (beginContent q1))"
        using b q(1,4) hb env_limits [of "beginContent q1" q1] by (simp_all add: q1_def)
      have "ok_with content_inv (beginContent q1) (drop j src)
          (parseHeaderContentAndPadding cb (beginContent q1) s1 rest)"
        unfolding q(3) by (rule header_tail [OF _ b'(3)]) (use b in simp)
      then have "ok_with content_inv p src (parseHeaderContentAndPadding cb (beginContent q1) s1 rest)"
        by (rule ok_shift [OF _ b'(1,2) j(2)]) (use i j in linarith)+
      then have "ok_with (prefix_inv need) p src (parseHeaderContentAndPadding cb (beginContent q1) s1 rest)"
        by (rule ok_mono) (rule content_prefix_inv)
      then show ?thesis using full False r
        by (simp add: prefixStep_def case_prod_beta q1_def s1_def)
    qed
  qed
qed

lemma valid_lengths:
  assumes "validateFrameHeader (fCurrent p) = FCodeNone"
  shows "fhType (fCurrent p) = FrameHeaders \<Longrightarrow>
      padOctets p + (if Has (fhFlags (fCurrent p)) FlagPriority then 5 else 0) \<le> payLen p"
    "fhType (fCurrent p) = FramePushPromise \<Longrightarrow> padOctets p + 4 \<le> payLen p"
    "fhType (fCurrent p) = FramePriority \<Longrightarrow> payLen p = 5"
    "fhType (fCurrent p) = FrameRSTStream \<Longrightarrow> payLen p = 4"
    "fhType (fCurrent p) = FramePing \<Longrightarrow> payLen p = 8"
    "fhType (fCurrent p) = FrameWindowUpdate \<Longrightarrow> payLen p = 4"
    "fhType (fCurrent p) = FrameGoAway \<Longrightarrow> 8 \<le> payLen p"
    "fhType (fCurrent p) = FrameSettings \<Longrightarrow> payLen p mod 6 = 0"
  using assms
  by (auto simp: validateFrameHeader_def Let_def word_less_nat_alt word_unat_eq_iff unat_mod
      not_less split: if_splits)

lemma parseHeadersFrame_prefixStep:
  "parseHeadersFrame cb p s src =
     (case (if fState p = payloadStart then startHeaders p src else (p, src, False)) of
        (p, src, bad) \<Rightarrow>
      if bad then (p, s, src, False, fCode p)
      else if fState p = payloadPrefix then
        prefixStep (\<lambda>p. StreamDependency (decodePriority (take 5 (fPrefix p))) = fhStreamID (fCurrent p))
          FCodeInvalidPriority (\<lambda>p t. map_option (\<lambda>f. f (fhStreamID (fCurrent p))
            (decodePriority (take 5 (fPrefix p)))) (fcPriority t)) cb p s src
      else parseHeaderContentAndPadding cb p s src)"
  by (simp add: parseHeadersFrame_def prefixStep_def Let_def cong: if_cong)

lemma parsePushPromise_prefixStep:
  "parsePushPromise cb p s src =
     (case (if fState p = payloadStart then startPushPromise p src else (p, src, False)) of
        (p, src, bad) \<Rightarrow>
      if bad then (p, s, src, False, fCode p)
      else if fState p = payloadPrefix then
        prefixStep (\<lambda>p. Uint32 (take 4 (fPrefix p)) AND 0x7fffffff = 0)
          FCodeInvalidStreamID (\<lambda>p t. map_option (\<lambda>f. f (fhStreamID (fCurrent p))
            (Uint32 (take 4 (fPrefix p)) AND 0x7fffffff)) (fcPushPromise t)) cb p s src
      else parseHeaderContentAndPadding cb p s src)"
  by (simp add: parsePushPromise_def prefixStep_def Let_def cong: if_cong)

text \<open>After the start, both kinds are in the prefix or in the content.\<close>

definition prefix_pre :: "nat \<Rightarrow> frame_parser \<Rightarrow> bool" where
  "prefix_pre need p \<longleftrightarrow> fHeaderBlockBytes p \<le> MaxHeaderBlockBytes (fLimits p) \<and> payLen p < 2 ^ 24 \<and>
     (if fState p = payloadPrefix then prefix_inv need p else content_pre p)"

lemma prefix_or_content:
  assumes "prefix_pre need p" "need \<le> 8" "c \<noteq> FCodeNone"
  shows "ok_with (prefix_inv need) p src
     (if fState p = payloadPrefix then prefixStep bad c sel cb p s src
      else parseHeaderContentAndPadding cb p s src)"
proof (cases "fState p = payloadPrefix")
  case True
  then show ?thesis using assms prefixStep_ok [of p need c src bad sel cb s] by (simp add: prefix_pre_def)
next
  case False
  then have "ok_with content_inv p src (parseHeaderContentAndPadding cb p s src)"
    using assms(1) by (intro header_tail) (simp_all add: prefix_pre_def)
  then have "ok_with (prefix_inv need) p src (parseHeaderContentAndPadding cb p s src)"
    by (rule ok_mono) (rule content_prefix_inv)
  then show ?thesis using False by simp
qed

lemma start_prefix:
  assumes p: "fState p = payloadStart" "content_inv p" "payLen p < 2 ^ 24"
      "fHeaderBlockBytes p \<le> MaxHeaderBlockBytes (fLimits p)" "src \<noteq> []"
    and m: "padOctets p + unat m \<le> payLen p"
    and r: "readPadLength m p src = (p1, src1, bad)"
  shows "frame_env p1 = frame_env p \<and> src1 = drop (padOctets p) src \<and>
     payPos p1 = payPos p + padOctets p \<and> fHeaderBlockBytes p1 = fHeaderBlockBytes p \<and>
     (bad \<longrightarrow> fCode p1 \<noteq> FCodeNone) \<and>
     (\<not> bad \<longrightarrow> prefix_pre need (beginContent p1)) \<and>
     (\<not> bad \<longrightarrow> 0 < unat n \<longrightarrow> unat n \<le> unat m \<longrightarrow>
        prefix_pre (unat n) (p1\<lparr>fPrefixNeed := n, fState := payloadPrefix\<rparr>))"
proof -
  have p0: "payPos p = 0" "fPadLength p = 0" "fPrefixN p = 0" using p(1,2) by (simp_all add: content_inv_def)
  note pl = pad_length [OF p0(1,2) m p(5) r]
  then have env: "frame_env p1 = frame_env p" by blast
  note L = payLen_env [OF env] and lim = env_limits [OF env]
  have "prefix_pre need (beginContent p1)" if "\<not> bad"
  proof -
    have "payPos p1 + unat (fPadLength p1) \<le> payLen p1" "payLen p1 < 2 ^ 24"
      using pl that L p(3) by simp_all
    note b = begin_content [OF this]
    then have "payLen (beginContent p1) = payLen p1" "fLimits (beginContent p1) = fLimits p1"
      by (simp_all add: frame_env_def)
    then show ?thesis using b p(3,4) pl L lim by (simp add: prefix_pre_def)
  qed
  moreover have "prefix_pre (unat n) (p1\<lparr>fPrefixNeed := n, fState := payloadPrefix\<rparr>)"
    if "\<not> bad" "0 < unat n" "unat n \<le> unat m"
    using that pl p(3,4) L lim p0 by (simp add: prefix_pre_def prefix_inv_def)
  ultimately show ?thesis using pl p0 by simp
qed

lemma prefixed_ok:
  fixes need :: u8 and m :: u32
  assumes p: "prefix_inv (unat need) p" "payPos p < payLen p" "payLen p < 2 ^ 24"
      "fHeaderBlockBytes p \<le> MaxHeaderBlockBytes (fLimits p)" "src \<noteq> []"
    and m: "padOctets p + unat m \<le> payLen p" "wants \<Longrightarrow> unat need \<le> unat m"
    and need: "0 < unat need" "unat need \<le> 8" "c \<noteq> FCodeNone"
    and start: "start = (case readPadLength m p src of (p1, src1, bad) \<Rightarrow>
      (if bad then p1
       else if wants then p1\<lparr>fPrefixNeed := need, fState := payloadPrefix\<rparr>
       else beginContent p1, src1, bad))"
  shows "ok_with (prefix_inv (unat need)) p src
     (case (if fState p = payloadStart then start else (p, src, False)) of (p, src, bad) \<Rightarrow>
        if bad then (p, s, src, False, fCode p)
        else if fState p = payloadPrefix then prefixStep B c sel cb p s src
        else parseHeaderContentAndPadding cb p s src)"
proof (cases "fState p = payloadStart")
  case True
  obtain p1 src1 bad where r: "readPadLength m p src = (p1, src1, bad)"
    by (cases "readPadLength m p src")
  have ci: "content_inv p" using p(1) True by (simp add: prefix_inv_def)
  note st = start_prefix [OF True ci p(3-5) m(1) r, of "unat need" need]
  then have env: "frame_env p1 = frame_env p" by blast
  define p2 where "p2 = (if wants then p1\<lparr>fPrefixNeed := need, fState := payloadPrefix\<rparr> else beginContent p1)"
  have sh: "start = (if bad then p1 else p2, src1, bad)"
    unfolding start r p2_def by simp
  show ?thesis
  proof (cases bad)
    case bad: True
    have "ok_with (prefix_inv (unat need)) p src (p1, s, src1, False, fCode p1)"
      by (rule ok_failed [OF env]) (use st bad p(4) env_limits [OF env] in \<open>simp_all add: suffix_drop\<close>)
    then show ?thesis using True bad by (simp add: sh)
  next
    case False
    have p2: "prefix_pre (unat need) p2" using st False m(2) need(1) by (simp add: p2_def)
    have "frame_env p2 = frame_env p1" "payPos p2 = payPos p1"
      by (simp_all add: p2_def beginContent_def frame_env_def)
    then have e: "frame_env p2 = frame_env p" "payPos p2 = payPos p + padOctets p" using st by simp_all
    have d: "src1 = drop (padOctets p) src" using st by blast
    have le: "padOctets p \<le> length src" "padOctets p \<le> payLen p - payPos p" "payPos p \<le> payLen p"
      using p(2,5) by (simp_all add: Suc_le_eq)
    show ?thesis
      unfolding if_P [OF True] sh if_not_P [OF False] prod.case
      by (rule ok_shift [OF _ e le, folded d]) (rule prefix_or_content [OF p2 need(2,3)])
  qed
next
  case False
  have "prefix_pre (unat need) p"
    using p(1-4) False content_pre_inv [of p] by (auto simp: prefix_pre_def prefix_inv_def)
  then show ?thesis
    unfolding if_not_P [OF False] prod.case if_False by (rule prefix_or_content [OF _ need(2,3)])
qed

lemma parseHeadersFrame_ok:
  assumes p: "in_payload p" "fhType (fCurrent p) = FrameHeaders" "src \<noteq> []"
  shows "payload_ok p src (parseHeadersFrame cb p s src)"
proof -
  define m :: u32 where "m = (if Has (fhFlags (fCurrent p)) FlagPriority then 5 else 0)"
  have inv: "prefix_inv (unat (5 :: u8)) p" "payPos p < payLen p" "payLen p < 2 ^ 24"
    "fHeaderBlockBytes p \<le> MaxHeaderBlockBytes (fLimits p)"
    and v: "validateFrameHeader (fCurrent p) = FCodeNone"
    using p by (simp_all add: in_payload_def payload_inv_def)
  have m: "padOctets p + unat m \<le> payLen p"
    using valid_lengths(1) [OF v p(2)] by (simp add: m_def split: if_splits)
  have st: "startHeaders p src = (case readPadLength m p src of (p1, src1, bad) \<Rightarrow>
      (if bad then p1
       else if Has (fhFlags (fCurrent p)) FlagPriority
       then p1\<lparr>fPrefixNeed := 5, fState := payloadPrefix\<rparr> else beginContent p1, src1, bad))"
  proof -
    obtain p1 src1 bad where r: "readPadLength m p src = (p1, src1, bad)"
      by (cases "readPadLength m p src")
    then have "fCurrent p1 = fCurrent p"
      unfolding readPadLength_def Let_def by (auto split: if_splits)
    then show ?thesis using r by (simp add: startHeaders_def m_def)
  qed
  have "ok_with (prefix_inv (unat (5 :: u8))) p src (parseHeadersFrame cb p s src)"
    unfolding parseHeadersFrame_prefixStep
    by (rule prefixed_ok [OF inv p(3) m _ _ _ _ st]) (simp_all add: m_def)
  then show ?thesis by (rule ok_mono) (simp add: payload_inv_type(2) p(2))
qed

lemma parsePushPromise_ok:
  assumes p: "in_payload p" "fhType (fCurrent p) = FramePushPromise" "src \<noteq> []"
  shows "payload_ok p src (parsePushPromise cb p s src)"
proof -
  have inv: "prefix_inv (unat (4 :: u8)) p" "payPos p < payLen p" "payLen p < 2 ^ 24"
    "fHeaderBlockBytes p \<le> MaxHeaderBlockBytes (fLimits p)"
    and v: "validateFrameHeader (fCurrent p) = FCodeNone"
    using p by (simp_all add: in_payload_def payload_inv_def)
  have m: "padOctets p + unat (4 :: u32) \<le> payLen p" using valid_lengths(2) [OF v p(2)] by simp
  have "ok_with (prefix_inv (unat (4 :: u8))) p src (parsePushPromise cb p s src)"
    unfolding parsePushPromise_prefixStep
    by (rule prefixed_ok [OF inv p(3) m, where wants = True])
      (simp_all add: startPushPromise_def case_prod_beta)
  then show ?thesis by (rule ok_mono) (simp add: payload_inv_type(3) p(2))
qed

subsection \<open>SETTINGS, GOAWAY and the other frames\<close>

abbreviation settings_inv :: "frame_parser \<Rightarrow> bool" where
  "settings_inv p \<equiv> unat (fPrefixN p) = payPos p mod 6"

lemma multiple_room:
  fixes n l :: nat
  assumes "n < l" "l mod 6 = 0"
  shows "n + (6 - n mod 6) \<le> l"
proof -
  obtain c where l: "l = 6 * c" using assms(2) by auto
  then have "n div 6 < c" using assms(1) by (simp add: div_less_iff_less_mult mult.commute)
  then have "6 * (n div 6) + 6 \<le> l" using l by simp
  moreover have "n = 6 * (n div 6) + n mod 6" "n mod 6 < 6" by simp_all
  ultimately show ?thesis by linarith
qed

lemma settingsLoop_ok:
  assumes "payPos p \<le> payLen p" "payLen p < 2 ^ 24" "payLen p mod 6 = 0" "settings_inv p"
    and "unat (fPrefixNeed p) = 6" "fHeaderBlockBytes p \<le> MaxHeaderBlockBytes (fLimits p)"
    and "length src < fuel"
  shows "\<exists>r. settingsLoop fuel cb p s src = Some r \<and> ok_with settings_inv p src r"
  using assms
proof (induction fuel arbitrary: p s src)
  case 0
  then show ?case by simp
next
  case (Suc fuel)
  show ?case
  proof (cases "src \<noteq> [] \<and> fPayloadN p < fhLength (fCurrent p)")
    case False
    then have "min (payLen p - payPos p) (length src) = 0"
      using Suc.prems(1) by (auto simp: word_less_nat_alt)
    then have "ok_with settings_inv p src (p, s, src, frameDone p, FCodeNone)"
      using Suc.prems by (intro ok_advanced) (simp_all add: advanced_def)
    then show ?thesis unfolding settingsLoop.simps if_not_P [OF False] by blast
  next
    case True
    then have lt: "payPos p < payLen p" "src \<noteq> []" by (simp_all add: word_less_nat_alt)
    define j where "j = min (6 - unat (fPrefixN p)) (length src)"
    have m: "unat (fPrefixN p) < 6" using Suc.prems(4) by simp
    have room: "payPos p + (6 - unat (fPrefixN p)) \<le> payLen p"
      using multiple_room [OF lt(1) Suc.prems(3)] Suc.prems(4) by simp
    have need: "unat (fPrefixNeed p - fPrefixN p) = 6 - unat (fPrefixN p)"
      using m Suc.prems(5) by (simp add: unat_minus_le)
    define q where "q = p\<lparr>fPrefix := copy_at (fPrefix p) (unat (fPrefixN p)) (take j src),
      fPrefixN := fPrefixN p + of_nat j, fPayloadN := fPayloadN p + of_nat j\<rparr>"
    have c: "copyPrefix p src = (q, drop j src)"
      by (simp add: copyPrefix_def Let_def need j_def q_def)
    have q: "unat (fPrefixN q) = unat (fPrefixN p) + j" "payPos q = payPos p + j"
      "frame_env q = frame_env p" "fHeaderBlockBytes q = fHeaderBlockBytes p" "payLen q = payLen p"
      "fPrefixNeed q = fPrefixNeed p" "fLimits q = fLimits p"
      using unat_plus_of_nat [of "fPrefixN p" j] unat_plus_of_nat [of "fPayloadN p" j] m room Suc.prems(2)
      by (simp_all add: q_def frame_env_def j_def)
    show ?thesis
    proof (cases "fPrefixN q < 6")
      case part: True
      then have "unat (fPrefixN p) + j < 6" using q(1) by (simp add: word_less_nat_alt)
      then have j: "j = length src" "j < 6 - unat (fPrefixN p)" using j_def by linarith+
      have k: "min (payLen p - payPos p) (length src) = j" using room j by linarith
      have "(payPos p + j) mod 6 = (payPos p mod 6 + j) mod 6" by (simp only: mod_add_left_eq)
      also have "\<dots> = payPos p mod 6 + j" using j(2) Suc.prems(4) by (intro mod_less) linarith
      finally have "(payPos p + j) mod 6 = payPos p mod 6 + j" .
      then have "ok_with settings_inv p src (q, s, drop j src, frameDone q, FCodeNone)"
        using q Suc.prems(4,6) by (intro ok_advanced) (simp_all add: advanced_def Let_def k)
      then show ?thesis using True part c by simp
    next
      case full: False
      then have "6 \<le> unat (fPrefixN p) + j" using q(1) by (simp add: word_less_nat_alt not_less)
      then have j: "j = 6 - unat (fPrefixN p)" "j \<le> length src" "j \<noteq> 0" using j_def m by linarith+
      show ?thesis
      proof (cases "validSetting (decodeSetting (fPrefix q))")
        case False
        have "ok_with settings_inv p src
            (frameFail FCodeInvalidSetting q, s, drop j src, False, fCode (frameFail FCodeInvalidSetting q))"
          using q Suc.prems(6) by (intro ok_failed) (simp_all add: suffix_drop)
        then show ?thesis using True full False c by (simp add: Let_def)
      next
        case valid: True
        define f where "f = fire cb (\<lambda>t. map_option (\<lambda>f. f (decodeSetting (fPrefix q))) (fcSetting t)) q s"
        define p' where "p' = (fst f)\<lparr>fPrefixN := 0\<rparr>"
        have e: "settingsLoop (Suc fuel) cb p s src = settingsLoop fuel cb p' (snd f) (drop j src)"
          using True full valid c by (simp add: Let_def case_prod_beta f_def p'_def)
        have p': "payPos p' = payPos p + j" "payLen p' = payLen p" "frame_env p' = frame_env p"
          "fPrefixNeed p' = fPrefixNeed p" "fHeaderBlockBytes p' = fHeaderBlockBytes p"
          "fLimits p' = fLimits p" "fPrefixN p' = 0"
          using q by (simp_all add: p'_def f_def frame_env_def)
        have "payPos p = 6 * (payPos p div 6) + unat (fPrefixN p)"
          using Suc.prems(4) by simp
        then have "payPos p + j = 6 * (payPos p div 6 + 1)" using j(1) m by simp
        then have "(payPos p + j) mod 6 = 0" by simp
        moreover have "length (drop j src) < fuel" using Suc.prems(7) j(2,3) by simp
        moreover have "payPos p + j \<le> payLen p" using room j(1) by simp
        ultimately have "\<exists>r. settingsLoop fuel cb p' (snd f) (drop j src) = Some r \<and>
            ok_with settings_inv p' (drop j src) r"
          using Suc.prems(2,3,5,6) by (intro Suc.IH) (simp_all add: p')
        then obtain r where "settingsLoop fuel cb p' (snd f) (drop j src) = Some r"
          "ok_with settings_inv p' (drop j src) r" by blast
        moreover from this(2) have "ok_with settings_inv p src r"
          by (rule ok_shift [OF _ p'(3,1) j(2)]) (use room j(1) Suc.prems(1) in linarith)+
        ultimately show ?thesis using e by simp
      qed
    qed
  qed
qed

lemma parseSettings_ok:
  assumes p: "in_payload p" "fhType (fCurrent p) = FrameSettings" "src \<noteq> []"
  shows "\<exists>r. parseSettings cb p s src = Some r \<and> payload_ok p src r"
proof -
  have v: "validateFrameHeader (fCurrent p) = FCodeNone" and inv: "settings_inv p"
    "payPos p < payLen p" "payLen p < 2 ^ 24" "fHeaderBlockBytes p \<le> MaxHeaderBlockBytes (fLimits p)"
    using p by (simp_all add: in_payload_def payload_inv_def)
  obtain r where r: "parseSettings cb p s src = Some r"
    "ok_with settings_inv (p\<lparr>fPrefixNeed := 6\<rparr>) src r"
    using settingsLoop_ok [of "p\<lparr>fPrefixNeed := 6\<rparr>" src "Suc (length src)" cb s]
      inv valid_lengths(8) [OF v p(2)]
    by (auto simp: parseSettings_def)
  have "ok_with settings_inv p src r"
    using ok_shift [of settings_inv "p\<lparr>fPrefixNeed := 6\<rparr>" 0 src r p] r(2) inv(2)
    by (simp add: frame_env_def)
  then have "payload_ok p src r" by (rule ok_mono) (simp add: payload_inv_def p(2))
  then show ?thesis using r(1) by blast
qed

lemma take_rest:
  assumes "payPos p \<le> payLen p" "payLen p < 2 ^ 24"
    and "fHeaderBlockBytes p \<le> MaxHeaderBlockBytes (fLimits p)" "frame_env q = frame_env p"
    and "fHeaderBlockBytes q = fHeaderBlockBytes p"
    and "k = min (unat (fhLength (fCurrent p) - fPayloadN p)) (length src)"
    and "fPayloadN q = fPayloadN p + of_nat k" "payPos q < payLen q \<longrightarrow> I q"
  shows "ok_with I p src (q, s, drop k src, frameDone q, FCodeNone)"
proof -
  have k: "k = min (payLen p - payPos p) (length src)" using assms(1,6) by (simp add: unat_minus_le)
  have "payPos q = payPos p + k"
    unfolding assms(7) using unat_plus_of_nat [of "fPayloadN p" k] assms(1,2) k by simp
  then have "advanced p src q (drop k src)" using assms(4) by (simp add: advanced_def Let_def k)
  then show ?thesis using assms(3,5,8) env_limits [OF assms(4)] by (intro ok_advanced) simp_all
qed

lemma parseUnknown_ok:
  assumes p: "in_payload p" "src \<noteq> []" "\<And>q. fCurrent q = fCurrent p \<Longrightarrow> payload_inv q"
  shows "payload_ok p src (parseUnknown cb p s src)"
proof -
  define k where "k = min (unat (fhLength (fCurrent p) - fPayloadN p)) (length src)"
  define f where "f = fire cb (\<lambda>t. map_option (\<lambda>f. f (fCurrent p) (take k src)) (fcUnknown t)) p s"
  define q where "q = (fst f)\<lparr>fPayloadN := fPayloadN p + of_nat k\<rparr>"
  have "parseUnknown cb p s src = (q, snd f, drop k src, frameDone q, FCodeNone)"
    by (simp add: parseUnknown_def Let_def case_prod_beta k_def f_def q_def)
  moreover have "payload_ok p src (q, snd f, drop k src, frameDone q, FCodeNone)"
    by (rule take_rest [OF _ _ _ _ _ k_def])
      (use p in \<open>simp_all add: in_payload_def q_def f_def frame_env_def\<close>)
  ultimately show ?thesis by simp
qed

lemma ok_here:
  assumes "payPos p = payLen p \<or> src = []" "fHeaderBlockBytes p \<le> MaxHeaderBlockBytes (fLimits p)"
    and "payPos p < payLen p \<longrightarrow> I p"
  shows "ok_with I p src (p, s, src, frameDone p, FCodeNone)"
proof -
  have "min (payLen p - payPos p) (length src) = 0" using assms(1) by auto
  then show ?thesis using assms(2,3) by (intro ok_advanced) (simp_all add: advanced_def)
qed

abbreviation goaway_inv :: "frame_parser \<Rightarrow> bool" where
  "goaway_inv p \<equiv> payPos p < 8 \<longrightarrow> unat (fPrefixN p) = payPos p"

lemma goaway_debug:
  assumes "payPos p \<le> payLen p" "payLen p < 2 ^ 24" "8 \<le> payPos p"
    and "fHeaderBlockBytes p \<le> MaxHeaderBlockBytes (fLimits p)"
  shows "ok_with goaway_inv p src
     (if fPayloadN p < fhLength (fCurrent p) \<and> src \<noteq> [] then
        let count = min (unat (fhLength (fCurrent p) - fPayloadN p)) (length src);
            (q, s) = fire cb (\<lambda>t. map_option (\<lambda>f. f (take count src)) (fcGoAwayDebug t)) p s;
            q = q\<lparr>fPayloadN := fPayloadN q + of_nat count\<rparr>
        in (q, s, drop count src, frameDone q, FCodeNone)
      else (p, s, src, frameDone p, FCodeNone))"
proof (cases "fPayloadN p < fhLength (fCurrent p) \<and> src \<noteq> []")
  case True
  define k where "k = min (unat (fhLength (fCurrent p) - fPayloadN p)) (length src)"
  define f where "f = fire cb (\<lambda>t. map_option (\<lambda>f. f (take k src)) (fcGoAwayDebug t)) p s"
  define q where "q = (fst f)\<lparr>fPayloadN := fPayloadN p + of_nat k\<rparr>"
  have "unat (fPayloadN p + of_nat k) = payPos p + k"
    using unat_plus_of_nat [of "fPayloadN p" k] assms(1,2) by (simp add: k_def unat_minus_le)
  then have "ok_with goaway_inv p src (q, snd f, drop k src, frameDone q, FCodeNone)"
    by (intro take_rest [OF assms(1,2,4) _ _ k_def])
      (use assms(3) in \<open>simp_all add: q_def f_def frame_env_def\<close>)
  then show ?thesis using True by (simp add: Let_def case_prod_beta k_def f_def q_def)
next
  case False
  then have "payPos p = payLen p \<or> src = []" using assms(1) by (auto simp: word_less_nat_alt)
  then show ?thesis unfolding if_not_P [OF False] using assms(3,4) by (intro ok_here) auto
qed

lemma parseGoAway_ok:
  assumes p: "in_payload p" "fhType (fCurrent p) = FrameGoAway" "src \<noteq> []"
  shows "payload_ok p src (parseGoAway cb p s src)"
proof -
  have v: "validateFrameHeader (fCurrent p) = FCodeNone" and inv: "goaway_inv p"
    "payPos p < payLen p" "payLen p < 2 ^ 24" "fHeaderBlockBytes p \<le> MaxHeaderBlockBytes (fLimits p)"
    using p by (simp_all add: in_payload_def payload_inv_def)
  have L: "8 \<le> payLen p" using valid_lengths(7) [OF v p(2)] .
  have "ok_with goaway_inv p src (parseGoAway cb p s src)"
  proof (cases "fPayloadN p < 8")
    case True
    then have lt: "payPos p < 8" by (simp add: word_less_nat_alt)
    define j where "j = min (8 - payPos p) (length src)"
    have pn: "unat (fPrefixN p) = payPos p" using inv(1) lt by simp
    have need: "unat (8 - fPrefixN p) = 8 - payPos p" using pn lt by (simp add: unat_minus_le)
    define q where "q = p\<lparr>fPrefixNeed := 8, fPrefix := copy_at (fPrefix p) (unat (fPrefixN p)) (take j src),
      fPrefixN := fPrefixN p + of_nat j, fPayloadN := fPayloadN p + of_nat j\<rparr>"
    have c: "copyPrefix (p\<lparr>fPrefixNeed := 8\<rparr>) src = (q, drop j src)"
      by (simp add: copyPrefix_def Let_def need j_def q_def)
    have q: "unat (fPrefixN q) = payPos p + j" "payPos q = payPos p + j"
      "frame_env q = frame_env p" "fHeaderBlockBytes q = fHeaderBlockBytes p" "payLen q = payLen p"
      "fLimits q = fLimits p"
      using unat_plus_of_nat [of "fPrefixN p" j] unat_plus_of_nat [of "fPayloadN p" j] lt pn
      by (simp_all add: q_def frame_env_def j_def)
    show ?thesis
    proof (cases "fPrefixN q < 8")
      case part: True
      then have "payPos p + j < 8" using q(1) by (simp add: word_less_nat_alt)
      then have j: "j = length src" "payPos q < payLen q" using j_def L q(2,5) by linarith+
      have k: "min (payLen p - payPos p) (length src) = j" using j L \<open>payPos p + j < 8\<close> by linarith
      have "ok_with goaway_inv p src (q, s, drop j src, frameDone q, FCodeNone)"
        using q inv(4) by (intro ok_advanced) (simp_all add: advanced_def Let_def k)
      moreover have "frameDone q = False" using j(2) by (simp add: frameDone_nat)
      ultimately show ?thesis using True part c by (simp add: parseGoAway_def)
    next
      case False
      then have "8 \<le> payPos p + j" using q(1) by (simp add: word_less_nat_alt not_less)
      then have j: "payPos p + j = 8" "j \<le> length src" using j_def lt by linarith+
      have r: "parseGoAway cb p s src =
        (if fPayloadN q < fhLength (fCurrent q) \<and> drop j src \<noteq> [] then
          let count = min (unat (fhLength (fCurrent q) - fPayloadN q)) (length (drop j src));
              (q, s) = fire cb (\<lambda>t. map_option (\<lambda>f. f (take count (drop j src))) (fcGoAwayDebug t)) q s;
              q = q\<lparr>fPayloadN := fPayloadN q + of_nat count\<rparr>
          in (q, s, drop count (drop j src), frameDone q, FCodeNone)
        else (q, s, drop j src, frameDone q, FCodeNone))"
        unfolding parseGoAway_def if_P [OF True] c prod.case using False by (simp cong: if_cong)
      have "ok_with goaway_inv q (drop j src) (parseGoAway cb p s src)"
        unfolding r by (rule goaway_debug) (use q j L inv in simp_all)
      then show ?thesis by (rule ok_shift [OF _ q(3,2) j(2)]) (use j L inv in linarith)+
    qed
  next
    case False
    then have ge: "8 \<le> payPos p" by (simp add: word_less_nat_alt not_less)
    have r: "parseGoAway cb p s src =
        (if fPayloadN p < fhLength (fCurrent p) \<and> src \<noteq> [] then
          let count = min (unat (fhLength (fCurrent p) - fPayloadN p)) (length src);
              (q, s) = fire cb (\<lambda>t. map_option (\<lambda>f. f (take count src)) (fcGoAwayDebug t)) p s;
              q = q\<lparr>fPayloadN := fPayloadN q + of_nat count\<rparr>
          in (q, s, drop count src, frameDone q, FCodeNone)
        else (p, s, src, frameDone p, FCodeNone))"
      unfolding parseGoAway_def if_not_P [OF False] prod.case using False by (simp cong: if_cong)
    show ?thesis unfolding r by (rule goaway_debug [OF _ inv(3) ge inv(4)]) (use inv(2) in simp)
  qed
  then show ?thesis by (rule ok_mono) (simp add: payload_inv_def p(2))
qed

lemma parseContinuation_ok:
  assumes p: "in_payload p" "fhType (fCurrent p) = FrameContinuation" "src \<noteq> []"
  shows "payload_ok p src (parseHeaderFragment cb p s src (fhLength (fCurrent p) - fPayloadN p))"
proof -
  have inv: "fState p = payloadStart" "payPos p < payLen p" "payLen p < 2 ^ 24"
    "fHeaderBlockBytes p \<le> MaxHeaderBlockBytes (fLimits p)"
    using p by (simp_all add: in_payload_def payload_inv_def)
  define m where "m = fhLength (fCurrent p) - fPayloadN p"
  define k where "k = min (unat m) (length src)"
  have m: "unat m = payLen p - payPos p" using inv(2) by (simp add: m_def unat_minus_le)
  have k: "k \<noteq> 0" "k \<le> unat m" "payPos p + k < 2 ^ 32" using m inv(2,3) p(3) by (simp_all add: k_def)
  show ?thesis
  proof (cases "MaxHeaderBlockBytes (fLimits p) < fHeaderBlockBytes p + of_nat k")
    case True
    have "payload_ok p src (frameFail FCodeHeaderBlockTooLarge p, s, src, False,
        fCode (frameFail FCodeHeaderBlockTooLarge p))"
      using inv(4) by (intro ok_failed) simp_all
    then show ?thesis using True k(1)
      unfolding parseHeaderFragment_def m_def [symmetric] k_def [symmetric] Let_def by simp
  next
    case False
    define f where "f = fire cb (\<lambda>t. map_option (\<lambda>f. f (fhStreamID (fCurrent p)) (take k src))
       (fcHeaderBlock t)) p s"
    define q where "q = (fst f)\<lparr>fHeaderBlockBytes := fHeaderBlockBytes p + of_nat k,
       fPayloadN := fPayloadN p + of_nat k\<rparr>"
    have r: "parseHeaderFragment cb p s src m = (q, snd f, drop k src, of_nat k = m, FCodeNone)"
      using False k(1) inv(1)
      unfolding parseHeaderFragment_def k_def [symmetric] Let_def
      by (simp add: case_prod_beta f_def q_def)
    have pos: "payPos q = payPos p + k" "payLen q = payLen p"
      using unat_plus_of_nat [of "fPayloadN p" k] k(3) by (simp_all add: q_def f_def)
    have "k < 2 ^ 32" using k(3) by linarith
    then have "unat (of_nat k :: u32) = k" by (simp add: unat_of_nat take_bit_nat_eq_self)
    then have fin: "(of_nat k = m) = frameDone q"
      using pos m inv(2) k(2) by (simp add: frameDone_nat word_unat_eq_iff) linarith
    have "fState q = payloadStart" "fhType (fCurrent q) = FrameContinuation"
      using inv(1) p(2) by (simp_all add: q_def f_def)
    then have "payload_inv q" by (simp add: payload_inv_def)
    moreover have env: "frame_env q = frame_env p" by (simp add: q_def f_def frame_env_def)
    moreover have "fHeaderBlockBytes q \<le> MaxHeaderBlockBytes (fLimits q)"
      using False by (simp add: q_def f_def)
    ultimately have "payload_ok p src (q, snd f, drop k src, frameDone q, FCodeNone)"
      using pos m by (intro ok_advanced) (simp_all add: advanced_def Let_def k_def)
    then show ?thesis unfolding m_def [symmetric] r fin .
  qed
qed

lemma parseByType_ok:
  assumes p: "in_payload p" "src \<noteq> []"
  shows "\<exists>r. parseByType cb p s src = Some r \<and> payload_ok p src r"
proof -
  have v: "validateFrameHeader (fCurrent p) = FCodeNone" and i: "payload_inv p"
    using p by (simp_all add: in_payload_def)
  note len = valid_lengths [OF v]
  have fixed: "payload_ok p src (parseFixed p s src need)"
    if t: "fhType (fCurrent p) \<in> {FramePriority, FrameRSTStream, FramePing, FrameWindowUpdate}"
      and n: "payLen p = unat need" "payLen p \<le> 8" for need
    by (rule fixed_ok) (use p i n t in \<open>auto simp: payload_inv_def\<close>)
  consider "fhType (fCurrent p) = FrameData" | "fhType (fCurrent p) = FrameHeaders"
    | "fhType (fCurrent p) = FramePriority" | "fhType (fCurrent p) = FrameRSTStream"
    | "fhType (fCurrent p) = FrameSettings" | "fhType (fCurrent p) = FramePushPromise"
    | "fhType (fCurrent p) = FramePing" | "fhType (fCurrent p) = FrameGoAway"
    | "fhType (fCurrent p) = FrameWindowUpdate" | "fhType (fCurrent p) = FrameContinuation"
    | "fhType (fCurrent p) \<notin> {FrameData, FrameHeaders, FramePriority, FrameRSTStream, FrameSettings,
         FramePushPromise, FramePing, FrameGoAway, FrameWindowUpdate, FrameContinuation}"
    by blast
  then show ?thesis
  proof cases
    case 1
    then show ?thesis using parseData_ok [OF p(1) _ p(2)] by (simp add: parseByType_def)
  next
    case 2
    then show ?thesis using parseHeadersFrame_ok [OF p(1) _ p(2)] by (simp add: parseByType_def)
  next
    case 3
    then show ?thesis using fixed [of 5] len(3) by (simp add: parseByType_def)
  next
    case 4
    then show ?thesis using fixed [of 4] len(4) by (simp add: parseByType_def)
  next
    case 5
    then show ?thesis using parseSettings_ok [OF p(1) _ p(2)] by (simp add: parseByType_def)
  next
    case 6
    then show ?thesis using parsePushPromise_ok [OF p(1) _ p(2)] by (simp add: parseByType_def)
  next
    case 7
    then show ?thesis using fixed [of 8] len(5) by (simp add: parseByType_def)
  next
    case 8
    then show ?thesis using parseGoAway_ok [OF p(1) _ p(2)] by (simp add: parseByType_def)
  next
    case 9
    then show ?thesis using fixed [of 4] len(6) by (simp add: parseByType_def)
  next
    case 10
    then show ?thesis using parseContinuation_ok [OF p(1) _ p(2)] by (simp add: parseByType_def)
  next
    case 11
    have "payload_inv q" if "fCurrent q = fCurrent p" for q
      using 11 that by (simp add: payload_inv_def)
    then show ?thesis using 11 parseUnknown_ok [OF p] by (simp add: parseByType_def)
  qed
qed

end
