(* ===== verification/H2_Frame_Safety.thy ===== *)
theory H2_Frame_Safety
  imports H2_Frame_Inv
begin

text \<open>
  The frame parser as its clients see it: the loop ends within one iteration per octet, every call
  returns, the invariant holds after any sequence of calls, and a failure is final.
\<close>

subsection \<open>The whole payload\<close>

lemma ok_suffix: "ok_with I p src (q, s, rest, fin, c) \<Longrightarrow> suffix rest src"
  by (auto simp: ok_with_def advanced_def Let_def suffix_drop split: if_splits)

lemma parsePayload_ok:
  assumes p: "in_payload p" "src \<noteq> []"
  shows "\<exists>q s' rest fin c. parsePayload cb p s src = Some (q, s', rest, fin, c) \<and>
     payload_ok p src (q, s', rest, fin, c)"
proof -
  obtain q s' rest fin c where r: "parseByType cb p s src = Some (q, s', rest, fin, c)"
    "payload_ok p src (q, s', rest, fin, c)"
    using parseByType_ok [OF p, of cb s] by (metis prod_cases5)
  have lt: "fPayloadN p < fhLength (fCurrent p)" using p(1) by (simp add: in_payload_def word_less_nat_alt)
  have "payloadLoop (Suc (length src)) cb p s src = Some (q, s', rest, fin, c)"
  proof (cases "c \<noteq> FCodeNone \<or> fin")
    case True
    then show ?thesis using r(1) p(2) lt by (auto simp del: length_greater_0_conv)
  next
    case False
    then have a: "advanced p src q rest" "fin = frameDone q" "c = FCodeNone" "\<not> frameDone q"
      using r(2) by (simp_all add: ok_with_def)
    have "payLen q = payLen p" using a(1) by (simp add: advanced_def Let_def frame_env_def)
    then have "payPos p + min (payLen p - payPos p) (length src) \<noteq> payLen p"
      using a(1,4) by (simp add: advanced_def Let_def frameDone_nat)
    then have "rest = []" using a(1) p(1) by (auto simp: advanced_def Let_def in_payload_def min_def split: if_splits)
    moreover obtain n where "length src = Suc n" using p(2) by (cases src) simp_all
    ultimately show ?thesis using False r(1) p(2) lt a by simp
  qed
  then show ?thesis using r(2) unfolding parsePayload_def by blast
qed

subsection \<open>Frames\<close>

text \<open>The invariant of the parser between calls, while it has not failed.\<close>

definition frame_inv :: "frame_parser \<Rightarrow> bool" where
  "frame_inv p \<longleftrightarrow> length (fHeader p) = 9 \<and> length (fPrefix p) = 8 \<and> fHeaderN p \<le> 9 \<and>
     fHeaderBlockBytes p \<le> MaxHeaderBlockBytes (fLimits p) \<and> (fHeaderN p = 9 \<longrightarrow> in_payload p)"

lemma decode_length: "unat (fhLength (decodeHeader h)) < 2 ^ 24"
proof -
  let ?x = "fhLength (decodeHeader h)"
  have "take_bit 24 ?x = ?x"
    by (rule bit_word_eqI) (auto simp: decodeHeader_def bit_simps dest: bit_imp_le_length)
  then have "unat ?x = take_bit 24 (unat ?x)" by (metis unsigned_take_bit_eq)
  then show ?thesis by (metis take_bit_nat_less_exp)
qed

text \<open>What a frame leaves alone: the limits, the arrays' lengths and the flags of the call.\<close>

definition frame_conf :: "frame_parser \<Rightarrow> frame_limits \<times> nat \<times> nat \<times> bool \<times> bool" where
  "frame_conf p = (fLimits p, length (fHeader p), length (fPrefix p), fPauseAfterFrame p, fParsing p)"

lemma fire_conf [simp]: "frame_conf (fst (fire cb sel p s)) = frame_conf p"
  by (simp add: frame_conf_def)

lemma fail_conf [simp]: "frame_conf (frameFail c p) = frame_conf p"
  by (simp add: frame_conf_def)

lemma env_conf: "frame_env q = frame_env p \<Longrightarrow> frame_conf q = frame_conf p"
  by (simp add: frame_env_def frame_conf_def)

lemma finishPayload_frame:
  assumes "finishPayload cb p s = (q, s', early)"
  shows "frame_env q = frame_env p \<and> fHeaderBlockBytes q = fHeaderBlockBytes p \<and>
     (early \<longrightarrow> fCode q \<noteq> FCodeNone)"
  using assms unfolding finishPayload_def Let_def
  by (auto simp: frame_env_def case_prod_beta split: if_splits)

lemma finishHeaderBlock_frame:
  assumes "finishHeaderBlock cb p s = (q, s')"
  shows "frame_conf q = frame_conf p \<and> (fHeaderBlockBytes q = fHeaderBlockBytes p \<or> fHeaderBlockBytes q = 0)"
  using assms unfolding finishHeaderBlock_def Let_def
  by (auto simp: frame_conf_def case_prod_beta split: if_splits)

lemma finishFrame_ok:
  assumes "length (fHeader p) = 9" "length (fPrefix p) = 8"
    and "fHeaderBlockBytes p \<le> MaxHeaderBlockBytes (fLimits p)" "finishFrame cb p s = (q, s')"
  shows "frame_conf q = frame_conf p \<and>
     (fCode q = FCodeNone \<longrightarrow> frame_inv q \<and> fHeaderN q = 0 \<and> fPaused q = fPauseAfterFrame q)"
proof -
  obtain p1 s1 early where f1: "finishPayload cb p s = (p1, s1, early)" by (rule prod_cases3)
  obtain p2 s2 where f2: "finishHeaderBlock cb p1 s1 = (p2, s2)" by (cases "finishHeaderBlock cb p1 s1")
  define f where "f = fire cb (\<lambda>t. map_option (\<lambda>f. f (fCurrent p)) (fcFrameComplete t)) p2 s2"
  note a = finishPayload_frame [OF f1] and b = finishHeaderBlock_frame [OF f2]
  have e1: "frame_conf p1 = frame_conf p" using a env_conf by blast
  have hb: "fHeaderBlockBytes (fst f) \<le> MaxHeaderBlockBytes (fLimits (fst f))"
    using a b e1 assms(3) by (auto simp: f_def frame_conf_def)
  have conf: "frame_conf (fst f) = frame_conf p" using e1 b by (simp add: f_def)
  show ?thesis
  proof (cases early)
    case True
    then show ?thesis using assms(4) f1 a e1 by (auto simp: finishFrame_def)
  next
    case False
    have "finishFrame cb p s = (if fCode (fst f) \<noteq> FCodeNone then f
        else ((fst f)\<lparr>fHeaderN := 0, fCurrent := zero_header, fPayloadN := 0, fPrefixN := 0,
          fPrefixNeed := 0, fState := payloadStart, fPaused := fPauseAfterFrame (fst f)\<rparr>, snd f))"
      unfolding finishFrame_def Let_def f1 prod.case if_not_P [OF False] f2 f_def [symmetric]
      by (simp add: case_prod_beta)
    then show ?thesis using assms(1,2,4) conf hb
      by (cases "fCode (fst f) = FCodeNone") (auto simp: frame_conf_def frame_inv_def)
  qed
qed

lemma beginFrame_ok:
  assumes "length (fHeader p) = 9" "length (fPrefix p) = 8" "fHeaderN p = 9"
    and "fHeaderBlockBytes p \<le> MaxHeaderBlockBytes (fLimits p)" "beginFrame cb p s = (q, s')"
  shows "frame_conf q = frame_conf p \<and> fPaused q = fPaused p \<and> fHeaderN q = 9 \<and>
     fHeaderBlockBytes q = fHeaderBlockBytes p \<and>
     (fCode q = FCodeNone \<longrightarrow> fhLength (fCurrent q) \<noteq> 0 \<longrightarrow> in_payload q)"
proof -
  define cur where "cur = decodeHeader (fHeader p)"
  define b where "b = p\<lparr>fCurrent := cur, fPayloadN := 0, fState := payloadStart, fPrefixN := 0,
      fPrefixNeed := 0, fPadLength := 0, fContentN := 0\<rparr>"
  have core: "in_payload x" if "fCurrent x = cur" "fPayloadN x = 0" "fState x = payloadStart"
      "fPrefixN x = 0" "fPadLength x = 0" "fHeaderBlockBytes x = fHeaderBlockBytes p"
      "fLimits x = fLimits p" "length (fPrefix x) = 8" "validateFrameHeader cur = FCodeNone"
      "fhLength cur \<noteq> 0" for x
    using that assms(4) decode_length [of "fHeader p"]
    by (simp add: in_payload_def payload_inv_def content_inv_def prefix_inv_def cur_def unat_gt_0)
  define b2 where "b2 = (if fContinuationStream b \<noteq> 0
      then b\<lparr>fContinuationCount := fContinuationCount b + 1\<rparr> else b)"
  define b3 where "b3 = (if fhType cur = FrameHeaders \<and> fContinuationStream b2 = 0
      then b2\<lparr>fHeaderBlockEndStream := Has (fhFlags cur) FlagEndStream\<rparr> else b2)"
  define good where "good x \<longleftrightarrow> frame_conf x = frame_conf p \<and> fPaused x = fPaused p \<and> fHeaderN x = 9 \<and>
      fHeaderBlockBytes x = fHeaderBlockBytes p" for x
  have fail: "good (frameFail c x) \<and> fCode (frameFail c x) \<noteq> FCodeNone"
    if "good x" "c \<noteq> FCodeNone" for x c
    using that by (simp add: good_def)
  have g: "good b" "good b2" "good b3"
    using assms(3) by (simp_all add: good_def b_def b2_def b3_def frame_conf_def)
  have "q = fst (beginFrame cb p s)" using assms(5) by simp
  note q = this [unfolded beginFrame_def Let_def, folded cur_def, folded b_def, folded b2_def,
      folded b3_def]
  have "good q \<and> (fCode q \<noteq> FCodeNone \<or> validateFrameHeader cur = FCodeNone \<and>
      q = fst (fire cb (\<lambda>t. map_option (\<lambda>f. f cur) (fcFrameBegin t)) b3 s))"
    unfolding q using g fail by (simp add: good_def)
  moreover have "in_payload (fst (fire cb sel b3 s))"
    if "validateFrameHeader cur = FCodeNone" "fhLength cur \<noteq> 0" for sel
    by (rule core) (use that assms(2) in \<open>simp_all add: b_def b2_def b3_def\<close>)
  moreover have "fCurrent b3 = cur" by (simp add: b_def b2_def b3_def)
  ultimately show ?thesis unfolding good_def by auto
qed

subsection \<open>The loop\<close>

text \<open>An iteration on input that is left consumes some of it, and keeps the invariant or fails.\<close>

definition step_ok ::
  "frame_parser \<Rightarrow> bytes \<Rightarrow> frame_parser \<times> 's \<times> bytes \<times> bool \<times> frame_code \<Rightarrow> bool" where
  "step_ok p src r \<longleftrightarrow>
     (case r of (q, s, rest, stop, c) \<Rightarrow>
        frame_conf q = frame_conf p \<and> suffix rest src \<and> c = fCode q \<and>
        (if c = FCodeNone
         then frame_inv q \<and> length rest < length src \<and> (stop \<longrightarrow> rest = []) \<and>
           (fPaused q \<longrightarrow> fPaused p \<or> fPauseAfterFrame p)
         else stop))"

lemma framePayloadStep_ok:
  assumes "frame_inv p" "fHeaderN p = 9" "src \<noteq> []" "fCode p = FCodeNone"
  shows "\<exists>r. framePayloadStep cb p s src = Some r \<and> step_ok p src r"
proof -
  have p: "in_payload p" using assms(1,2) by (simp add: frame_inv_def)
  obtain q s' rest fin c where r: "parsePayload cb p s src = Some (q, s', rest, fin, c)"
    "payload_ok p src (q, s', rest, fin, c)"
    using parsePayload_ok [OF p assms(3), of cb s] by blast
  have env: "frame_env q = frame_env p" "fHeaderBlockBytes q \<le> MaxHeaderBlockBytes (fLimits q)"
    using r(2) by (simp_all add: ok_with_def)
  note conf = env_conf [OF env(1)] and suf = ok_suffix [OF r(2)]
  have len: "length (fHeader q) = 9" "length (fPrefix q) = 8" "fHeaderN q = 9" "fPaused q = fPaused p"
    "validateFrameHeader (fCurrent q) = FCodeNone" "payLen q < 2 ^ 24"
    using env(1) assms(1,2) p by (simp_all add: frame_env_def frame_inv_def in_payload_def)
  show ?thesis
  proof (cases "c = FCodeNone")
    case False
    then have "step_ok p src (q, s', rest, True, c)"
      using r(2) conf suf by (simp add: step_ok_def ok_with_def)
    then show ?thesis using False r(1) by (simp add: framePayloadStep_def)
  next
    case ok: True
    have a: "advanced p src q rest" "fin = frameDone q" "payPos q < payLen q \<longrightarrow> payload_inv q"
      using r(2) ok by (simp_all add: ok_with_def)
    have lt: "payPos p < payLen p" "payLen q = payLen p"
      using p payLen_env [OF env(1)] by (simp_all add: in_payload_def)
    then have shrink: "length rest < length src"
      using a(1) assms(3) by (simp add: advanced_def Let_def)
    show ?thesis
    proof (cases "fCode q = FCodeNone")
      case False
      then have "step_ok p src (q, s', rest, True, fCode q)" using conf suf by (simp add: step_ok_def)
      then show ?thesis using False ok r(1) by (simp add: framePayloadStep_def)
    next
      case code: True
      show ?thesis
      proof (cases fin)
        case False
        then have "payPos p + min (payLen p - payPos p) (length src) \<noteq> payLen p"
          using a(1,2) lt(2) by (simp add: advanced_def Let_def frameDone_nat)
        then have e: "min (payLen p - payPos p) (length src) = length src" using lt(1) by linarith
        then have "rest = []" using a(1) by (simp add: advanced_def Let_def)
        moreover have "payPos q < payLen q"
          using False a(1,2) lt by (simp add: advanced_def Let_def frameDone_nat)
        then have "frame_inv q" using a(3) len env(2) by (simp add: frame_inv_def in_payload_def)
        ultimately have "step_ok p src (q, s', rest, True, FCodeNone)"
          using conf suf code len(4) assms(3) by (simp add: step_ok_def)
        then show ?thesis using False ok code r(1) by (simp add: framePayloadStep_def)
      next
        case True
        obtain q2 s2 where f: "finishFrame cb q s' = (q2, s2)" by (cases "finishFrame cb q s'")
        note g = finishFrame_ok [OF len(1,2) env(2) f]
        have "fPauseAfterFrame q2 = fPauseAfterFrame p" using g conf by (simp add: frame_conf_def)
        then have "step_ok p src (q2, s2, rest, fCode q2 \<noteq> FCodeNone, fCode q2)"
          using g conf suf shrink by (simp add: step_ok_def)
        then show ?thesis using True ok code r(1) f by (simp add: framePayloadStep_def)
      qed
    qed
  qed
qed

lemma step_ok_shift:
  assumes "step_ok b src' (q, s, rest, stop, c)" "frame_conf b = frame_conf p" "suffix src' src"
    and "fPaused b = fPaused p"
  shows "step_ok p src (q, s, rest, stop, c)"
proof -
  have "suffix rest src'" "length src' \<le> length src"
    using assms(1,3) by (simp_all add: step_ok_def suffix_length_le)
  then have "suffix rest src" "length rest < length src' \<longrightarrow> length rest < length src"
    using assms(3) suffix_order.trans by auto
  moreover have "fPauseAfterFrame b = fPauseAfterFrame p" using assms(2) by (simp add: frame_conf_def)
  ultimately show ?thesis using assms(1,2,4) by (simp add: step_ok_def split: if_splits)
qed

lemma frameStep_ok:
  assumes p: "frame_inv p" "src \<noteq> []" "fCode p = FCodeNone" "\<not> fPaused p"
  shows "\<exists>r. frameStep cb p s src = Some r \<and> step_ok p src r"
proof (cases "fHeaderN p < 9")
  case True
  then have lt: "unat (fHeaderN p) < 9" by (simp add: word_less_nat_alt)
  define j where "j = min (9 - unat (fHeaderN p)) (length src)"
  define h where "h = p\<lparr>fHeader := copy_at (fHeader p) (unat (fHeaderN p)) src,
      fHeaderN := fHeaderN p + of_nat j\<rparr>"
  have c: "copyHeader p src = (h, drop j src)" by (simp add: copyHeader_def Let_def h_def j_def)
  have n: "unat (fHeaderN h) = unat (fHeaderN p) + j"
    using unat_plus_of_nat [of "fHeaderN p" j] lt by (simp add: h_def j_def)
  have j: "0 < j" "j \<le> length src" using lt p(2) by (simp_all add: j_def)
  have len: "length (fHeader h) = 9" "length (fPrefix h) = 8" "fCode h = FCodeNone" "\<not> fPaused h"
    "fHeaderBlockBytes h \<le> MaxHeaderBlockBytes (fLimits h)"
    and conf: "frame_conf h = frame_conf p"
    using p by (simp_all add: h_def frame_inv_def frame_conf_def)
  have suf: "suffix (drop j src) src" by (rule suffix_drop)
  show ?thesis
  proof (cases "fHeaderN h < 9")
    case part: True
    then have "drop j src = []" using n by (simp add: j_def word_less_nat_alt)
    moreover have "frame_inv h" using len part by (auto simp: frame_inv_def)
    ultimately have "step_ok p src (h, s, drop j src, True, FCodeNone)"
      using conf len j p(2) by (simp add: step_ok_def)
    then show ?thesis using True part c p(4) by (simp add: frameStep_def)
  next
    case False
    then have nine: "fHeaderN h = 9"
      using n lt j_def by (simp add: word_unat_eq_iff word_less_nat_alt)
    obtain b s1 where bf: "beginFrame cb h s = (b, s1)" by (cases "beginFrame cb h s")
    note bg = beginFrame_ok [OF len(1,2) nine len(5) bf]
    have blen: "length (fHeader b) = 9" "length (fPrefix b) = 8" "fLimits b = fLimits h"
      using bg len by (simp_all add: frame_conf_def)
    have bhb: "fHeaderBlockBytes b \<le> MaxHeaderBlockBytes (fLimits b)" using bg len(5) blen(3) by simp
    show ?thesis
    proof (cases "fCode b = FCodeNone")
      case bad: False
      then have "step_ok p src (b, s1, drop j src, True, fCode b)"
        using bg conf suf by (simp add: step_ok_def)
      then show ?thesis using True False bad c bf p(4) by (simp add: frameStep_def)
    next
      case ok: True
      show ?thesis
      proof (cases "fhLength (fCurrent b) = 0")
        case empty: True
        obtain f s2 where ff: "finishFrame cb b s1 = (f, s2)" by (cases "finishFrame cb b s1")
        note g = finishFrame_ok [OF blen(1,2) bhb ff]
        have "fPauseAfterFrame f = fPauseAfterFrame p" using g bg conf by (simp add: frame_conf_def)
        then have "step_ok p src (f, s2, drop j src, fCode f \<noteq> FCodeNone, fCode f)"
          using g bg conf suf j p(2) by (simp add: step_ok_def)
        then show ?thesis using True False ok empty c bf ff p(4) by (simp add: frameStep_def)
      next
        case full: False
        have inv: "frame_inv b" using bg ok full blen bhb by (simp add: frame_inv_def)
        have eq: "frameStep cb p s src = framePayloadStep cb b s1 (drop j src)"
          using True False ok full c bf p(4) by (simp add: frameStep_def)
        show ?thesis
        proof (cases "drop j src = []")
          case True
          have "framePayloadStep cb b s1 [] = Some (b, s1, [], True, FCodeNone)"
            using ok full inv bg
            by (simp add: framePayloadStep_def parsePayload_def frameDone_nat frame_inv_def in_payload_def)
          moreover have "step_ok p src (b, s1, [], True, FCodeNone)"
            using bg conf ok inv p(2,4) len(4) by (simp add: step_ok_def)
          ultimately show ?thesis using eq True by simp
        next
          case False
          have nine: "fHeaderN b = 9" using bg by blast
          from framePayloadStep_ok [OF inv nine False ok, of cb s1] obtain r where
            r: "framePayloadStep cb b s1 (drop j src) = Some r" "step_ok b (drop j src) r" by blast
          obtain q s2 rest stop c where t: "r = (q, s2, rest, stop, c)" by (rule prod_cases5)
          have "fPaused b = fPaused p" using bg len(4) p(4) by blast
          moreover have "frame_conf b = frame_conf p" using bg conf by (elim conjE) (rule trans)
          ultimately have "step_ok p src r"
            using step_ok_shift [OF r(2) [unfolded t] _ suf] unfolding t by blast
          then show ?thesis using eq r(1) by simp
        qed
      qed
    qed
  qed
next
  case False
  then have nine: "fHeaderN p = 9" using p(1) by (simp add: frame_inv_def)
  then show ?thesis using framePayloadStep_ok [OF p(1) nine p(2,3), of cb s] p(4) by (simp add: frameStep_def)
qed

definition loop_ok ::
  "frame_parser \<Rightarrow> bytes \<Rightarrow> frame_parser \<times> 's \<times> bytes \<times> frame_code \<Rightarrow> bool" where
  "loop_ok p src r \<longleftrightarrow>
     (case r of (q, s, rest, c) \<Rightarrow>
        frame_conf q = frame_conf p \<and> suffix rest src \<and> c = fCode q \<and>
        (c = FCodeNone \<longrightarrow> frame_inv q \<and> (rest = [] \<or> fPaused q)) \<and>
        (c = FCodeNone \<longrightarrow> fPaused q \<longrightarrow> fPaused p \<or> fPauseAfterFrame p) \<and>
        (c = FCodeNone \<longrightarrow> src \<noteq> [] \<longrightarrow> \<not> fPaused p \<longrightarrow> length rest < length src))"

lemma frameLoop_ok:
  assumes "frame_inv p" "fCode p = FCodeNone" "length src < fuel"
  shows "\<exists>r. frameLoop fuel cb p s src = Some r \<and> loop_ok p src r"
  using assms
proof (induction fuel arbitrary: p s src)
  case 0
  then show ?case by simp
next
  case (Suc fuel)
  show ?case
  proof (cases src)
    case Nil
    then show ?thesis using Suc.prems by (simp add: loop_ok_def)
  next
    case (Cons b bs)
    show ?thesis
    proof (cases "fPaused p")
      case True
      then show ?thesis using Suc.prems Cons by (simp add: frameStep_def loop_ok_def)
    next
      case False
      obtain q s1 rest stop c where st: "frameStep cb p s src = Some (q, s1, rest, stop, c)"
        "step_ok p src (q, s1, rest, stop, c)"
        using frameStep_ok [OF Suc.prems(1) _ Suc.prems(2) False, of src cb s] Cons
        by (metis list.distinct(1) prod_cases5)
      show ?thesis
      proof (cases stop)
        case True
        have "loop_ok p src (q, s1, rest, c)" using st(2) True by (auto simp: step_ok_def loop_ok_def split: if_splits)
        then show ?thesis using st(1) True Cons by simp
      next
        case go: False
        then have n: "c = FCodeNone" "fCode q = FCodeNone" "frame_inv q" "length rest < length src"
          using st(2) by (auto simp: step_ok_def split: if_splits)
        have "length rest < fuel" using n(4) Suc.prems(3) by simp
        from Suc.IH [OF n(3,2) this, of s1] obtain r where
          r: "frameLoop fuel cb q s1 rest = Some r" "loop_ok q rest r" by blast
        obtain q2 s2 rest2 c2 where t: "r = (q2, s2, rest2, c2)" by (rule prod_cases4)
        have "frame_conf q = frame_conf p" "suffix rest src"
          "fPaused q \<longrightarrow> fPaused p \<or> fPauseAfterFrame p" "fPauseAfterFrame q = fPauseAfterFrame p"
          using st(2) n(1) by (simp_all add: step_ok_def frame_conf_def)
        moreover have "suffix rest2 rest" using r(2) unfolding t loop_ok_def by simp
        ultimately have "suffix rest2 src" "length rest2 < length src"
          using n(4) suffix_length_le [of rest2 rest] suffix_order.trans [of rest2 rest src] by simp_all
        moreover note \<open>frame_conf q = frame_conf p\<close> \<open>fPaused q \<longrightarrow> fPaused p \<or> fPauseAfterFrame p\<close>
          \<open>fPauseAfterFrame q = fPauseAfterFrame p\<close>
        ultimately have "loop_ok p src r" using r(2) unfolding t loop_ok_def by simp blast
        then show ?thesis using r(1) st(1) go Cons by simp
      qed
    qed
  qed
qed

subsection \<open>The API\<close>

text \<open>The calls of a client that owns the parser, in any order, with any input. \<open>None\<close> would
  be a call that does not return.\<close>

datatype frame_call =
    CallInit frame_limits | CallReset | CallParse bytes | CallParseOne bytes | CallFinish

fun frameCall ::
  "'s frame_callbacks option \<Rightarrow> frame_call \<Rightarrow> frame_parser \<times> 's \<Rightarrow> (frame_parser \<times> 's) option" where
  "frameCall cb (CallInit l) (p, s) = Some (frameInit l p, s)"
| "frameCall cb CallReset (p, s) = Some (frameReset p, s)"
| "frameCall cb (CallParse src) (p, s) =
     map_option (\<lambda>(q, s', n, c). (q, s')) (frameParse cb p s src)"
| "frameCall cb (CallParseOne src) (p, s) =
     map_option (\<lambda>(q, s', n, complete, c). (q, s')) (frameParseOne cb p s src)"
| "frameCall cb CallFinish (p, s) = Some (fst (frameFinish p), s)"

fun frameCalls ::
  "'s frame_callbacks option \<Rightarrow> frame_call list \<Rightarrow> frame_parser \<times> 's \<Rightarrow> (frame_parser \<times> 's) option" where
  "frameCalls cb [] st = Some st"
| "frameCalls cb (c # cs) st =
     (case frameCall cb c st of None \<Rightarrow> None | Some st' \<Rightarrow> frameCalls cb cs st')"

definition frame_ok :: "frame_parser \<Rightarrow> bool" where
  "frame_ok p \<longleftrightarrow> \<not> fParsing p \<and> (fCode p = FCodeNone \<longrightarrow> frame_inv p)"

lemma inv_flags [simp]:
  "content_inv (p\<lparr>fParsing := a\<rparr>) = content_inv p"
  "content_inv (p\<lparr>fPauseAfterFrame := b\<rparr>) = content_inv p"
  "content_inv (p\<lparr>fPaused := c\<rparr>) = content_inv p"
  "payload_inv (p\<lparr>fParsing := a\<rparr>) = payload_inv p"
  "payload_inv (p\<lparr>fPauseAfterFrame := b\<rparr>) = payload_inv p"
  "payload_inv (p\<lparr>fPaused := c\<rparr>) = payload_inv p"
proof -
  show a: "content_inv (p\<lparr>fParsing := a\<rparr>) = content_inv p"
    "content_inv (p\<lparr>fPauseAfterFrame := b\<rparr>) = content_inv p"
    "content_inv (p\<lparr>fPaused := c\<rparr>) = content_inv p"
    by (cases "fState p"; simp add: content_inv_def)+
  show "payload_inv (p\<lparr>fParsing := a\<rparr>) = payload_inv p"
    "payload_inv (p\<lparr>fPauseAfterFrame := b\<rparr>) = payload_inv p"
    "payload_inv (p\<lparr>fPaused := c\<rparr>) = payload_inv p"
    by (simp_all add: payload_inv_def prefix_inv_def Let_def a)
qed

lemma frame_inv_flags [simp]:
  "frame_inv (p\<lparr>fParsing := a\<rparr>) = frame_inv p"
  "frame_inv (p\<lparr>fPauseAfterFrame := b\<rparr>) = frame_inv p"
  "frame_inv (p\<lparr>fPaused := c\<rparr>) = frame_inv p"
  by (simp_all add: frame_inv_def in_payload_def)

lemma frameRunParse_total:
  assumes "frame_ok p"
  shows "\<exists>q s' n c. frameRunParse pause cb p s src = Some (q, s', n, c) \<and> frame_ok q \<and>
     n \<le> length src \<and> c = fCode q \<and> (c = FCodeNone \<longrightarrow> n = length src \<or> fPaused q \<and> pause) \<and>
     (c = FCodeNone \<longrightarrow> src \<noteq> [] \<longrightarrow> 0 < n)"
proof (cases "fCode p = FCodeNone")
  case False
  then show ?thesis using assms by (simp add: frameRunParse_def frame_ok_def)
next
  case True
  define e where "e = p\<lparr>fParsing := True, fPauseAfterFrame := pause, fPaused := False\<rparr>"
  have e: "frame_inv e" "fCode e = FCodeNone" "\<not> fPaused e" "fPauseAfterFrame e = pause"
    using True assms by (simp_all add: e_def frame_ok_def)
  obtain q s' rest c where r: "frameLoop (Suc (length src)) cb e s src = Some (q, s', rest, c)"
    "loop_ok e src (q, s', rest, c)"
    using frameLoop_ok [OF e(1,2) lessI, of src cb s] by (metis prod_cases4)
  define x where "x = q\<lparr>fParsing := False, fPauseAfterFrame := False\<rparr>"
  have "frameRunParse pause cb p s src = Some (x, s', length src - length rest, c)"
    using True assms r(1) by (simp add: frameRunParse_def frame_ok_def e_def x_def)
  moreover have "frame_ok x"
    using r(2) by (simp add: x_def frame_ok_def loop_ok_def)
  moreover have "c = fCode x" "c = FCodeNone \<longrightarrow> rest = [] \<or> fPaused x \<and> pause"
    "c = FCodeNone \<longrightarrow> src \<noteq> [] \<longrightarrow> length rest < length src"
    using r(2) e(3,4) by (auto simp: loop_ok_def x_def)
  ultimately show ?thesis by auto
qed

lemma frame_ok_new: "frame_ok (NewFrameParser l)"
  by (simp add: frame_ok_def NewFrameParser_def frameInit_def zero_frame_parser_def frame_inv_def)

lemma frame_ok_init: "frame_ok p \<Longrightarrow> frame_ok (frameInit l p)"
  by (simp add: frame_ok_def frameInit_def zero_frame_parser_def frame_inv_def)

lemma frame_ok_finish: "frame_ok p \<Longrightarrow> frame_ok (fst (frameFinish p))"
  by (simp add: frame_ok_def frameFinish_def Let_def)

lemma frameCall_ok:
  assumes "frame_ok p"
  shows "\<exists>q s'. frameCall cb c (p, s) = Some (q, s') \<and> frame_ok q"
proof (cases c)
  case (CallInit l)
  then show ?thesis using frame_ok_init [OF assms] by simp
next
  case CallReset
  then show ?thesis using frame_ok_init [OF assms] assms by (simp add: frameReset_def frame_ok_def)
next
  case (CallParse src)
  then show ?thesis using frameRunParse_total [OF assms, of False cb s src] by (auto simp: frameParse_def)
next
  case (CallParseOne src)
  then show ?thesis using frameRunParse_total [OF assms, of True cb s src] by (auto simp: frameParseOne_def)
next
  case CallFinish
  then show ?thesis using frame_ok_finish [OF assms] by simp
qed

lemma frameCalls_ok:
  "frame_ok p \<Longrightarrow> \<exists>q s'. frameCalls cb cs (p, s) = Some (q, s') \<and> frame_ok q"
proof (induction cs arbitrary: p s)
  case (Cons c cs)
  obtain q s' where "frameCall cb c (p, s) = Some (q, s')" "frame_ok q"
    using frameCall_ok [OF Cons.prems, of cb c s] by blast
  then show ?case using Cons.IH [of q s'] by simp
qed simp

abbreviation default_frame_limits :: frame_limits where
  "default_frame_limits \<equiv> \<lparr>MaxFrameSize = 0, MaxHeaderBlockBytes = 0, MaxContinuationFrames = 0\<rparr>"

text \<open>C10: whatever sequence of calls a client makes on a new frame parser, with any callbacks, every
  call returns, and the parser it leaves is not inside a call and, unless it has failed, satisfies the
  representation invariant: the collected header and prefix are within their arrays, the header block
  is within its limit, and inside a frame the header is valid and the position agrees with the state
  of the payload.\<close>

theorem frame_calls_return:
  "\<exists>q s'. frameCalls cb calls (NewFrameParser l, s) = Some (q, s') \<and>
     \<not> fParsing q \<and> (fCode q = FCodeNone \<longrightarrow> frame_inv q)"
  using frameCalls_ok [OF frame_ok_new, of cb calls l s] by (simp add: frame_ok_def)

theorem frame_calls_return_witness:
  "\<exists>q s'. frameCalls (None :: unit frame_callbacks option) [CallParse [0, 0], CallReset]
     (NewFrameParser default_frame_limits, ()) = Some (q, s') \<and> \<not> fParsing q"
  using frame_calls_return [of None "[CallParse [0, 0], CallReset]" default_frame_limits "()"] by blast

lemma frameCalls_frame_ok:
  assumes "frameCalls cb calls (NewFrameParser l, s) = Some (p, s1)"
  shows "frame_ok p"
  using frameCalls_ok [OF frame_ok_new, of cb calls l s] assms by auto



text \<open>C30: a failure is final. Once the frame parser has recorded a code, parsing consumes nothing and
  calls nothing back, and every call reports that code, until \<open>Reset\<close> or \<open>Init\<close>.\<close>

theorem frame_failure_final:
  assumes "frameCalls cb calls (NewFrameParser l, s) = Some (p, s1)" "fCode p \<noteq> FCodeNone"
  shows "frameParse cb p s1 src = Some (p, s1, 0, fCode p) \<and>
     frameParseOne cb p s1 src = Some (p, s1, 0, fPaused p, fCode p) \<and>
     frameFinish p = (p, fCode p) \<and> fCode (frameReset p) = FCodeNone \<and> fCode (frameInit l' p) = FCodeNone"
proof -
  have "\<not> fParsing p" using frameCalls_frame_ok [OF assms(1)] by (simp add: frame_ok_def)
  then show ?thesis using assms(2)
    by (simp add: frameParse_def frameParseOne_def frameRunParse_def frameFinish_def frameReset_def
        frameInit_def zero_frame_parser_def)
qed

theorem frame_failure_final_witness:
  "\<exists>p. frameCalls (None :: unit frame_callbacks option) [CallParse [0, 0], CallFinish]
       (NewFrameParser default_frame_limits, ()) = Some (p, ()) \<and>
     frameParse None p () [1, 2, 3] = Some (p, (), 0, FCodeUnexpectedEOF)"
proof -
  have "map_option (\<lambda>(q, s). fCode q) (frameCalls (None :: unit frame_callbacks option)
      [CallParse [0, 0], CallFinish] (NewFrameParser default_frame_limits, ())) = Some FCodeUnexpectedEOF"
    by code_simp
  then obtain p where r: "frameCalls (None :: unit frame_callbacks option) [CallParse [0, 0], CallFinish]
      (NewFrameParser default_frame_limits, ()) = Some (p, ())" "fCode p = FCodeUnexpectedEOF"
    by (auto simp del: frameCalls.simps)
  have "frameParse None p () [1, 2, 3] = Some (p, (), 0, FCodeUnexpectedEOF)"
    using frame_failure_final [OF r(1), of "[1, 2, 3]"] r(2) by simp
  with r(1) show ?thesis by blast
qed

end
