(* ===== verification/H2_Frame_Client.thy ===== *)
theory H2_Frame_Client
  imports H2_Frame_Safety
begin

text \<open>
  The contract between the frame parser and its client: a property of the client's state that every
  callback keeps, for the arguments that the parser may pass, is kept by every call of the parser.
\<close>

locale frame_client =
  fixes cb :: "'s frame_callbacks option" and K :: "'s \<Rightarrow> bool"
  assumes begin_keeps: "cb = Some t \<Longrightarrow> fcFrameBegin t = Some f \<Longrightarrow> K s \<Longrightarrow> K (fst (f h s))"
    and data_keeps: "cb = Some t \<Longrightarrow> fcData t = Some fd \<Longrightarrow> K s \<Longrightarrow> K (fst (fd i data e s))"
    and block_keeps: "cb = Some t \<Longrightarrow> fcHeaderBlock t = Some fb \<Longrightarrow> K s \<Longrightarrow> K (fst (fb i data s))"
    and block_end_keeps: "cb = Some t \<Longrightarrow> fcHeaderBlockEnd t = Some fe \<Longrightarrow> K s \<Longrightarrow> K (fst (fe i e s))"
    and priority_keeps: "cb = Some t \<Longrightarrow> fcPriority t = Some fp \<Longrightarrow> K s \<Longrightarrow> K (fst (fp i pr s))"
    and reset_keeps: "cb = Some t \<Longrightarrow> fcRSTStream t = Some fr \<Longrightarrow> K s \<Longrightarrow> K (fst (fr i c s))"
    and setting_keeps: "cb = Some t \<Longrightarrow> fcSetting t = Some fs \<Longrightarrow> validSetting st \<Longrightarrow> K s \<Longrightarrow> K (fst (fs st s))"
    and settings_end_keeps: "cb = Some t \<Longrightarrow> fcSettingsEnd t = Some fq \<Longrightarrow> K s \<Longrightarrow> K (fst (fq e s))"
    and push_keeps: "cb = Some t \<Longrightarrow> fcPushPromise t = Some fu \<Longrightarrow> K s \<Longrightarrow> K (fst (fu i j s))"
    and ping_keeps: "cb = Some t \<Longrightarrow> fcPing t = Some fg \<Longrightarrow> K s \<Longrightarrow> K (fst (fg data e s))"
    and goaway_keeps: "cb = Some t \<Longrightarrow> fcGoAway t = Some fa \<Longrightarrow> K s \<Longrightarrow> K (fst (fa i c s))"
    and debug_keeps: "cb = Some t \<Longrightarrow> fcGoAwayDebug t = Some fx \<Longrightarrow> K s \<Longrightarrow> K (fst (fx data s))"
    and window_keeps: "cb = Some t \<Longrightarrow> fcWindowUpdate t = Some fw \<Longrightarrow> j \<noteq> 0 \<Longrightarrow> K s \<Longrightarrow> K (fst (fw i j s))"
    and unknown_keeps: "cb = Some t \<Longrightarrow> fcUnknown t = Some fk \<Longrightarrow> K s \<Longrightarrow> K (fst (fk h data s))"
    and complete_keeps: "cb = Some t \<Longrightarrow> fcFrameComplete t = Some fz \<Longrightarrow> K s \<Longrightarrow> K (fst (fz h s))"
begin

lemma fire_keeps:
  assumes "K s" "\<And>t f. cb = Some t \<Longrightarrow> sel t = Some f \<Longrightarrow> K (fst (f s))"
  shows "K (snd (fire cb sel p s))"
  using assms by (auto simp: fire_def invoke_def case_prod_beta split: option.splits)

lemma beginFrame_keeps: "K s \<Longrightarrow> K (snd (beginFrame cb p s))"
  unfolding beginFrame_def Let_def by (auto intro!: fire_keeps begin_keeps)

lemma deliverData_keeps: "K s \<Longrightarrow> K (fst (snd (deliverData cb p s src)))"
  unfolding deliverData_def Let_def by (auto simp: case_prod_beta intro!: fire_keeps data_keeps)

lemma parseData_keeps: "K s \<Longrightarrow> K (fst (snd (parseData cb p s src)))"
  unfolding parseData_def by (auto simp: case_prod_beta deliverData_keeps)

lemma fragment_keeps: "K s \<Longrightarrow> K (fst (snd (parseHeaderFragment cb p s src n)))"
  unfolding parseHeaderFragment_def Let_def by (auto simp: case_prod_beta intro!: fire_keeps block_keeps)

lemma content_keeps: "K s \<Longrightarrow> K (fst (snd (parseHeaderContentAndPadding cb p s src)))"
  unfolding parseHeaderContentAndPadding_def by (simp add: case_prod_beta fragment_keeps)

lemma headers_keeps: "K s \<Longrightarrow> K (fst (snd (parseHeadersFrame cb p s src)))"
  unfolding parseHeadersFrame_def Let_def
  by (auto simp: case_prod_beta intro!: content_keeps fire_keeps priority_keeps)

lemma pushPromise_keeps: "K s \<Longrightarrow> K (fst (snd (parsePushPromise cb p s src)))"
  unfolding parsePushPromise_def Let_def
  by (auto simp: case_prod_beta intro!: content_keeps fire_keeps push_keeps)

lemma settingsLoop_keeps: "K s \<Longrightarrow> settingsLoop fuel cb p s src = Some (q, s', r) \<Longrightarrow> K s'"
proof (induction fuel arbitrary: p s src)
  case (Suc fuel)
  obtain p1 src1 where c: "copyPrefix p src = (p1, src1)" by (cases "copyPrefix p src")
  define st where "st = decodeSetting (fPrefix p1)"
  show ?case
  proof (cases "src \<noteq> [] \<and> fPayloadN p < fhLength (fCurrent p) \<and> \<not> fPrefixN p1 < 6 \<and> validSetting st")
    case False
    then show ?thesis using Suc.prems
      by (auto simp: c st_def Let_def split: if_splits)
  next
    case True
    define f where "f = fire cb (\<lambda>t. map_option (\<lambda>f. f st) (fcSetting t)) p1 s"
    have "K (snd f)" unfolding f_def
      by (rule fire_keeps) (use Suc.prems(1) True setting_keeps in auto)
    moreover have "settingsLoop fuel cb ((fst f)\<lparr>fPrefixN := 0\<rparr>) (snd f) src1 = Some (q, s', r)"
      using Suc.prems(2) True by (simp add: c st_def f_def Let_def case_prod_beta)
    ultimately show ?thesis by (rule Suc.IH)
  qed
qed simp

lemma goAwayFrame_keeps: "K s \<Longrightarrow> K (fst (snd (parseGoAway cb p s src)))"
  unfolding parseGoAway_def Let_def by (auto simp: case_prod_beta intro!: fire_keeps debug_keeps)

lemma unknownFrame_keeps: "K s \<Longrightarrow> K (fst (snd (parseUnknown cb p s src)))"
  unfolding parseUnknown_def Let_def by (auto simp: case_prod_beta intro!: fire_keeps unknown_keeps)

lemma fixed_state: "fst (snd (parseFixed p s src n)) = s"
  by (simp add: parseFixed_def case_prod_beta)

lemma parseByType_keeps:
  assumes "K s" "parseByType cb p s src = Some (q, s', r)"
  shows "K s'"
proof (cases "fhType (fCurrent p) = FrameSettings")
  case True
  then show ?thesis using assms settingsLoop_keeps [OF assms(1)] by (simp add: parseByType_def parseSettings_def del: settingsLoop.simps)
next
  case False
  then have "K (fst (snd (the (parseByType cb p s src))))"
    using assms(1) by (simp add: parseByType_def Let_def parseData_keeps headers_keeps pushPromise_keeps
        goAwayFrame_keeps unknownFrame_keeps fragment_keeps fixed_state)
  then show ?thesis using assms(2) by simp
qed

lemma payloadLoop_keeps: "K s \<Longrightarrow> payloadLoop fuel cb p s src = Some (q, s', r) \<Longrightarrow> K s'"
proof (induction fuel arbitrary: p s src)
  case (Suc fuel)
  show ?case
  proof (cases "src \<noteq> [] \<and> fPayloadN p < fhLength (fCurrent p)")
    case False
    then show ?thesis using Suc.prems by (auto split: if_splits)
  next
    case True
    then obtain p1 s1 src1 fin c where t: "parseByType cb p s src = Some (p1, s1, src1, fin, c)"
      using Suc.prems(2) by (cases "parseByType cb p s src") (simp, metis prod_cases5)
    have "K s1" using parseByType_keeps [OF Suc.prems(1) t] .
    then show ?thesis using Suc.IH [of s1 p1 src1] Suc.prems(2) True t by (auto split: if_splits)
  qed
qed simp

lemma finishPayload_keeps: "K s \<Longrightarrow> K (fst (snd (finishPayload cb p s)))"
  unfolding finishPayload_def Let_def
  by (auto simp: case_prod_beta intro!: fire_keeps
      elim: priority_keeps reset_keeps settings_end_keeps ping_keeps goaway_keeps window_keeps)

lemma finishHeaderBlock_keeps: "K s \<Longrightarrow> K (snd (finishHeaderBlock cb p s))"
  unfolding finishHeaderBlock_def Let_def by (auto simp: case_prod_beta intro!: fire_keeps block_end_keeps)

lemma finishFrame_keeps: "K s \<Longrightarrow> K (snd (finishFrame cb p s))"
proof -
  assume "K s"
  obtain p1 s1 early where f1: "finishPayload cb p s = (p1, s1, early)" by (rule prod_cases3)
  obtain p2 s2 where f2: "finishHeaderBlock cb p1 s1 = (p2, s2)" by (cases "finishHeaderBlock cb p1 s1")
  have "K s1" using finishPayload_keeps [OF \<open>K s\<close>, of p] f1 by simp
  moreover from this have "K s2" using finishHeaderBlock_keeps [of s1 p1] f2 by simp
  ultimately show ?thesis unfolding finishFrame_def Let_def f1 prod.case f2
    by (auto simp: case_prod_beta intro!: fire_keeps complete_keeps)
qed

lemma framePayloadStep_keeps:
  assumes "K s" "framePayloadStep cb p s src = Some (q, s', r)"
  shows "K s'"
proof -
  obtain p1 s1 src1 fin c where t: "parsePayload cb p s src = Some (p1, s1, src1, fin, c)"
    using assms(2) by (cases "parsePayload cb p s src") (simp add: framePayloadStep_def, metis prod_cases5)
  have "K s1" using payloadLoop_keeps [OF assms(1)] t by (simp add: parsePayload_def del: payloadLoop.simps)
  then show ?thesis using assms(2) finishFrame_keeps [of s1 p1] t
    by (auto simp: framePayloadStep_def case_prod_beta split: if_splits)
qed

lemma frameStep_keeps:
  assumes "K s" "frameStep cb p s src = Some (q, s', r)"
  shows "K s'"
proof -
  obtain p1 src1 where c: "copyHeader p src = (p1, src1)" by (cases "copyHeader p src")
  obtain p2 s2 where b: "beginFrame cb p1 s = (p2, s2)" by (cases "beginFrame cb p1 s")
  have "K s2" using beginFrame_keeps [OF assms(1), of p1] b by simp
  then show ?thesis
    using assms finishFrame_keeps [of s2 p2] framePayloadStep_keeps [of s2 p2 src1 q s' r]
      framePayloadStep_keeps [of s p src q s' r]
    by (auto simp: frameStep_def c b case_prod_beta split: if_splits)
qed

lemma frameLoop_keeps: "K s \<Longrightarrow> frameLoop fuel cb p s src = Some (q, s', r) \<Longrightarrow> K s'"
proof (induction fuel arbitrary: p s src)
  case 0
  then show ?case by (cases src) auto
next
  case (Suc fuel)
  show ?case
  proof (cases src)
    case Nil
    then show ?thesis using Suc.prems by simp
  next
    case (Cons b bs)
    then obtain p1 s1 src1 stop c where t: "frameStep cb p s src = Some (p1, s1, src1, stop, c)"
      using Suc.prems(2) by (cases "frameStep cb p s src") (simp, metis prod_cases5)
    have "K s1" using frameStep_keeps [OF Suc.prems(1) t] .
    then show ?thesis using Suc.IH [of s1 p1 src1] Suc.prems(2) Cons t by (auto split: if_splits)
  qed
qed

lemma frameParseOne_keeps:
  assumes "K s" "frameParseOne cb p s src = Some (q, s', r)"
  shows "K s'"
proof -
  define e where "e = p\<lparr>fParsing := True, fPauseAfterFrame := True, fPaused := False\<rparr>"
  have *: "K (fst (snd x))" if "frameLoop (Suc (length src)) cb e s src = Some x" for x
    using frameLoop_keeps [OF assms(1), of "Suc (length src)" e src "fst x" "fst (snd x)" "snd (snd x)"] that
    by simp
  show ?thesis
    using assms * by (auto simp: frameParseOne_def frameRunParse_def e_def [symmetric] Let_def split: if_splits)
qed

end

end
