(* ===== verification/H2_Session_Inv.thy ===== *)
theory H2_Session_Inv
  imports H2_Api H2_Frame_Client
begin

text \<open>
The invariant of the HTTP/2 session (src/http2/session.go) and that the operations on its queues and its map of streams keep it.
\<close>

subsection \<open>Stream maps\<close>

text \<open>How many entries of an association list satisfy a predicate.\<close>

definition count_if :: "('a \<Rightarrow> bool) \<Rightarrow> ('k \<times> 'a) list \<Rightarrow> nat" where
  "count_if P m = length (filter (\<lambda>(k, v). P v) m)"

lemma count_simps [simp]:
  "count_if P [] = 0" "count_if P ((k, v) # m) = (if P v then Suc (count_if P m) else count_if P m)"
  by (simp_all add: count_if_def)

lemma count_le: "count_if P m \<le> length m"
  by (simp add: count_if_def)

lemma count_pos: "map_of m k = Some v \<Longrightarrow> P v \<Longrightarrow> 0 < count_if P m"
  by (induction m) (auto split: if_splits)

lemma count_update_new: "map_of m k = None \<Longrightarrow> count_if P (AList.update k v m) = count_if P m + (if P v then 1 else 0)"
  by (induction m) (auto split: if_splits)

lemma count_update_old:
  assumes "map_of m k = Some w"
  shows "count_if P (AList.update k v m) + (if P w then 1 else 0) = count_if P m + (if P v then 1 else 0)"
  using assms by (induction m) (auto split: if_splits)

lemma count_delete:
  assumes "distinct (map fst m)" "map_of m k = Some w"
  shows "count_if P (AList.delete k m) + (if P w then 1 else 0) = count_if P m"
  using assms
proof (induction m)
  case (Cons x m)
  obtain j v where x: "x = (j, v)" by (cases x)
  show ?case
  proof (cases "j = k")
    case True
    then have "k \<notin> fst ` set m" using Cons.prems(1) x by simp
    then have "AList.delete k m = m" by (auto simp: AList.delete_eq filter_id_conv image_iff)
    then show ?thesis using Cons.prems True x by (simp add: AList.delete_eq)
  next
    case False
    then show ?thesis using Cons x by (simp add: AList.delete_eq)
  qed
qed simp

lemma update_length_new: "map_of m k = None \<Longrightarrow> length (AList.update k v m) = Suc (length m)"
  by (induction m) (auto split: if_splits)

lemma update_length_old: "map_of m k \<noteq> None \<Longrightarrow> length (AList.update k v m) = length m"
  by (induction m) (auto split: if_splits)

lemma delete_length_le: "length (AList.delete k m) \<le> length m"
  by (simp add: AList.delete_eq)

lemma distinct_map_of_iff: "distinct (map fst m) \<Longrightarrow> (k, v) \<in> set m \<longleftrightarrow> map_of m k = Some v"
  by (simp add: distinct_map map_of_eq_Some_iff)

lemma unat_u32: "unat (x :: u32) < 2 ^ 32"
  using unsigned_less [of x, where 'a = nat] by simp

lemma unat_of_length:
  "length xs \<le> unat (x :: u32) \<Longrightarrow> unat (of_nat (length xs) :: u32) = length xs"
  using unat_u32 [of x] by (simp add: unat_of_nat take_bit_nat_eq_self)

subsection \<open>The invariant\<close>

definition live :: "bool \<Rightarrow> session_stream \<Rightarrow> bool" where
  "live loc st \<longleftrightarrow> ssLocal st = loc \<and> ssState st \<noteq> StreamClosed"

definition windows_ok :: "session_stream \<Rightarrow> bool" where
  "windows_ok st \<longleftrightarrow> minInt32 \<le> ssSendWindow st \<and> ssSendWindow st \<le> maxInt32 \<and>
     minInt32 \<le> ssRecvWindow st \<and> ssRecvWindow st \<le> maxInt32"

text \<open>The identifier of a stream says who opened it, and that it is one of those already used.\<close>

definition id_ok :: "session_role \<Rightarrow> u32 \<Rightarrow> u32 \<Rightarrow> u32 \<Rightarrow> session_stream \<Rightarrow> bool" where
  "id_ok role lastPeer nextLocal i st \<longleftrightarrow>
     ssId st = i \<and> i \<noteq> 0 \<and> ssLocal st = (odd (unat i) = (role = RoleClient)) \<and>
     (if ssLocal st then i < nextLocal else i \<le> lastPeer)"

text \<open>The map of streams: its keys, its size, the counters of the streams that are not closed, and the
  list of the closed ones.\<close>

definition streams_inv ::
  "session_role \<Rightarrow> session_limits \<Rightarrow> u32 \<Rightarrow> u32 \<Rightarrow> u32 \<Rightarrow> u32 \<Rightarrow> u32 list \<Rightarrow> bool \<Rightarrow> stream_map \<Rightarrow> bool" where
  "streams_inv role l lastPeer nextLocal activeLocal activePeer closed off m \<longleftrightarrow>
     distinct (map fst m) \<and>
     (\<forall>i st. map_of m i = Some st \<longrightarrow> id_ok role lastPeer nextLocal i st \<and> windows_ok st \<and>
        (ssState st = StreamClosed \<longrightarrow> i \<in> set closed)) \<and>
     length m \<le> unat (slMaxStreams l) \<and> length closed \<le> unat (slMaxClosedStreams l) \<and>
     (role = RoleClient \<or> role = RoleServer) \<and> (odd (unat nextLocal) \<longleftrightarrow> role = RoleClient) \<and>
     (off \<longrightarrow> m = []) \<and>
     (\<not> off \<longrightarrow> unat activeLocal = count_if (live True) m \<and> unat activePeer = count_if (live False) m)"

text \<open>The queues stay within their limits.\<close>

definition event_total :: "event list \<Rightarrow> nat" where
  "event_total evs = sum_list (map (\<lambda>ev. unat (eventRetainedBytes ev)) evs)"

definition queues_inv :: "session_limits \<Rightarrow> bytes \<Rightarrow> event list \<Rightarrow> u32 \<Rightarrow> bool \<Rightarrow> bool" where
  "queues_inv l out evs n off \<longleftrightarrow>
     length out \<le> unat (slMaxQueuedOutputBytes l) \<and> length evs \<le> unat (slMaxQueuedEvents l) \<and>
     n \<le> slMaxQueuedEventBytes l \<and> event_total evs \<le> unat n \<and> (\<not> off \<longrightarrow> event_total evs = unat n)"

text \<open>The windows of the connection and the parameters of the peer.\<close>

definition connection_inv :: "session_limits \<Rightarrow> int \<Rightarrow> int \<Rightarrow> int \<Rightarrow> u32 \<Rightarrow> setting_t list \<Rightarrow> bool" where
  "connection_inv l send recv initial peerMax pending \<longleftrightarrow>
     0 \<le> send \<and> send \<le> maxInt32 \<and> 0 \<le> recv \<and> recv \<le> maxInt32 \<and> 0 \<le> initial \<and> initial \<le> maxInt32 \<and>
     uint (slInitialWindowSize l) \<le> maxInt32 \<and> defaultMaxFrameSize \<le> peerMax \<and> peerMax \<le> maxFrameSize \<and>
     list_all validSetting pending"

definition session_inv :: "('d, 'e) session \<Rightarrow> bool" where
  "session_inv s \<longleftrightarrow>
     streams_inv (sRole s) (sLimits s) (sLastPeerStream s) (sNextLocalStream s) (sActiveLocal s)
       (sActivePeer s) (sClosedStreams s) (sClosed s) (sStreams s) \<and>
     queues_inv (sLimits s) (sOutput s) (sEvents s) (sEventBytes s) (sClosed s) \<and>
     connection_inv (sLimits s) (sConnectionSendWindow s) (sConnectionRecvWindow s)
       (sPeerInitialWindow s) (sPeerMaxFrame s) (sPendingSettings s) \<and>
     unat (slMaxClosedStreams (sLimits s)) < 2 ^ 32 - 1 \<and> slMaxClosedStreams (sLimits s) \<noteq> 0"

subsection \<open>Queues\<close>

lemma reserve_bound:
  "reserveOutput n s \<longleftrightarrow> 0 \<le> n \<and> int (length (sOutput s)) + n \<le> uint (slMaxQueuedOutputBytes (sLimits s))"
  by (auto simp: reserveOutput_def)

lemma AppendFrame_length: "length (fst (AppendFrame dst h payload)) \<le> length dst + 9 + length payload"
  by (simp add: AppendFrame_def Let_def encodeHeader_def PutUint32_def)

text \<open>What appending a frame can do to the session: only the output changes, within its limit.\<close>

lemma append_frame_shape:
  assumes "appendFrameEvenFailed h payload s = (s', err)"
  shows "\<exists>out. s' = s\<lparr>sOutput := out\<rparr> \<and>
     (length (sOutput s) \<le> unat (slMaxQueuedOutputBytes (sLimits s)) \<longrightarrow>
        length out \<le> unat (slMaxQueuedOutputBytes (sLimits s)))"
proof (cases "reserveOutput (9 + int (length payload)) s")
  case True
  then have "int (length (sOutput s)) + 9 + int (length payload) \<le> int (unat (slMaxQueuedOutputBytes (sLimits s)))"
    by (simp add: reserve_bound)
  then have "length (fst (AppendFrame (sOutput s) h payload)) \<le> unat (slMaxQueuedOutputBytes (sLimits s))"
    using AppendFrame_length [of "sOutput s" h payload] by linarith
  moreover have "s' = s\<lparr>sOutput := fst (AppendFrame (sOutput s) h payload)\<rparr>"
    using assms True by (simp add: appendFrameEvenFailed_def case_prod_beta)
  ultimately show ?thesis by blast
next
  case False
  then have "s' = s\<lparr>sOutput := sOutput s\<rparr>" using assms by (simp add: appendFrameEvenFailed_def)
  then show ?thesis by blast
qed

lemma inv_output:
  "session_inv s \<Longrightarrow> length out \<le> unat (slMaxQueuedOutputBytes (sLimits s)) \<Longrightarrow> session_inv (s\<lparr>sOutput := out\<rparr>)"
  by (simp add: session_inv_def queues_inv_def)

lemma inv_appendEvenFailed:
  assumes "session_inv s"
  shows "session_inv (fst (appendFrameEvenFailed h payload s))"
proof -
  obtain s' err where r: "appendFrameEvenFailed h payload s = (s', err)"
    by (cases "appendFrameEvenFailed h payload s")
  then show ?thesis using append_frame_shape [OF r] assms inv_output [OF assms]
    by (auto simp: session_inv_def queues_inv_def)
qed

lemma inv_appendFrame: "session_inv s \<Longrightarrow> session_inv (fst (appendFrame h payload s))"
  by (simp add: appendFrame_def inv_appendEvenFailed split: option.split)

lemma inv_appendSettings: "session_inv s \<Longrightarrow> session_inv (fst (appendSettings settings ack s))"
  by (simp add: appendSettings_def inv_appendEvenFailed)

lemma inv_appendWindowUpdate: "session_inv s \<Longrightarrow> session_inv (fst (appendWindowUpdate i n s))"
  by (simp add: appendWindowUpdate_def inv_appendEvenFailed)

lemma inv_queueEvent:
  assumes "session_inv s"
  shows "session_inv (fst (queueEvent ev s))"
proof (cases "slMaxQueuedEvents (sLimits s) \<le> of_nat (length (sEvents s)) \<or>
    slMaxQueuedEventBytes (sLimits s) - sEventBytes s < eventRetainedBytes ev")
  case True
  then show ?thesis using assms by (simp add: queueEvent_def Let_def)
next
  case False
  let ?k = "eventRetainedBytes ev"
  have q: "length (sEvents s) \<le> unat (slMaxQueuedEvents (sLimits s))"
    "sEventBytes s \<le> slMaxQueuedEventBytes (sLimits s)" "event_total (sEvents s) \<le> unat (sEventBytes s)"
    "\<not> sClosed s \<Longrightarrow> event_total (sEvents s) = unat (sEventBytes s)"
    using assms by (simp_all add: session_inv_def queues_inv_def)
  have n: "length (sEvents s) < unat (slMaxQueuedEvents (sLimits s))"
    using False unat_of_length [OF q(1)] by (simp add: not_le word_less_nat_alt)
  have "unat (slMaxQueuedEventBytes (sLimits s) - sEventBytes s) =
      unat (slMaxQueuedEventBytes (sLimits s)) - unat (sEventBytes s)"
    using q(2) by (simp add: unat_minus_le word_le_nat_alt)
  then have b: "unat (sEventBytes s) + unat ?k \<le> unat (slMaxQueuedEventBytes (sLimits s))"
    using False q(2) by (simp add: not_less word_le_nat_alt) linarith
  then have "unat (sEventBytes s) + unat ?k < 2 ^ 32"
    using unat_u32 [of "slMaxQueuedEventBytes (sLimits s)"] by simp
  then have u: "unat (sEventBytes s + ?k) = unat (sEventBytes s) + unat ?k"
    using unat_plus_of_nat [of "sEventBytes s" "unat ?k"] by simp
  have "fst (queueEvent ev s) = s\<lparr>sEvents := sEvents s @ [ev], sEventBytes := sEventBytes s + ?k\<rparr>"
    using False by (simp add: queueEvent_def Let_def)
  then show ?thesis using assms n b u q
    by (simp add: session_inv_def queues_inv_def event_total_def word_le_nat_alt)
qed

lemma inv_connectionError: "session_inv s \<Longrightarrow> session_inv (fst (connectionError c reason s))"
proof -
  assume "session_inv s"
  then have "session_inv (s\<lparr>sFailed := x, sGoAwaySent := True\<rparr>)" for x by (simp add: session_inv_def)
  then show ?thesis using \<open>session_inv s\<close>
    by (auto simp: connectionError_def Let_def intro!: inv_appendEvenFailed split: option.split)
qed

subsection \<open>Streams\<close>

lemmas alist_simps = update_conv' delete_conv' distinct_update distinct_delete

lemma streams_update:
  assumes "streams_inv r l lp nl al ap cs off m" "map_of m i = Some st"
    and "ssId st' = ssId st" "ssLocal st' = ssLocal st" "windows_ok st'"
    and "ssState st' = StreamClosed \<longleftrightarrow> ssState st = StreamClosed"
  shows "streams_inv r l lp nl al ap cs off (AList.update i st' m)"
proof -
  have "count_if (live loc) (AList.update i st' m) = count_if (live loc) m" for loc
    using count_update_old [OF assms(2), of "live loc" st'] assms(4,6) by (auto simp: live_def split: if_splits)
  moreover have "length (AList.update i st' m) = length m" using assms(2) by (simp add: update_length_old)
  moreover have "\<not> off" using assms(1,2) by (auto simp: streams_inv_def)
  ultimately show ?thesis using assms by (auto simp: streams_inv_def alist_simps id_ok_def)
qed

lemma streams_room:
  assumes "streams_inv r l lp nl al ap cs off m" "\<not> slMaxStreams l \<le> of_nat (length m)"
  shows "length m < unat (slMaxStreams l)"
proof -
  have "length m \<le> unat (slMaxStreams l)" using assms(1) by (simp add: streams_inv_def)
  from unat_of_length [OF this] assms(2) show ?thesis by (simp add: not_le word_less_nat_alt)
qed

lemma unat_suc: "n < unat (y :: u32) \<Longrightarrow> unat (x :: u32) \<le> n \<Longrightarrow> unat (x + 1) = unat x + 1"
  using unat_u32 [of y] unat_plus_of_nat [of x 1] by simp

lemma streams_insert:
  assumes inv: "streams_inv r l lp nl al ap cs False m" and new: "map_of m (ssId st) = None"
    and room: "length m < unat (slMaxStreams l)" and st: "windows_ok st" "ssState st \<noteq> StreamClosed"
    and ids: "id_ok r lp' nl' (ssId st) st" "lp \<le> lp'" "nl \<le> nl'" "odd (unat nl') \<longleftrightarrow> odd (unat nl)"
  shows "streams_inv r l lp' nl' (if ssLocal st then al + 1 else al) (if ssLocal st then ap else ap + 1)
     cs False (AList.update (ssId st) st m)"
proof -
  have c: "unat al = count_if (live True) m" "unat ap = count_if (live False) m"
    using inv by (simp_all add: streams_inv_def)
  have "unat (al + 1) = unat al + 1" "unat (ap + 1) = unat ap + 1"
    using unat_suc [OF room] count_le [of "live True" m] count_le [of "live False" m] c by simp_all
  moreover have "id_ok r lp' nl' i x" if "id_ok r lp nl i x" for i x
    using that ids(2,3) by (auto simp: id_ok_def split: if_splits)
  ultimately show ?thesis using inv new room st ids c
    by (auto simp: streams_inv_def alist_simps count_update_new update_length_new live_def)
qed

lemma map_le_lookup: "m \<subseteq>\<^sub>m n \<Longrightarrow> m k = Some v \<Longrightarrow> n k = Some v"
  by (auto simp: map_le_def dom_def)

lemma evict_inv:
  assumes "\<forall>i st. map_of m i = Some st \<longrightarrow> ssState st = StreamClosed \<longrightarrow> i \<in> set cs"
    and "distinct (map fst m)" "length cs < 2 ^ 32" "evictClosed lim cs m = (cs', m')"
  shows "length cs' \<le> unat lim \<and> distinct (map fst m') \<and> length m' \<le> length m \<and>
     map_of m' \<subseteq>\<^sub>m map_of m \<and> (\<forall>loc. count_if (live loc) m' = count_if (live loc) m) \<and>
     (\<forall>i st. map_of m' i = Some st \<longrightarrow> ssState st = StreamClosed \<longrightarrow> i \<in> set cs')"
  using assms
proof (induction lim cs m rule: evictClosed.induct)
  case (2 lim oldest cs m)
  have len: "length (oldest # cs) < 2 ^ 32" by (rule 2(4))
  show ?case
  proof (cases "lim < of_nat (length (oldest # cs))")
    case False
    have "unat (of_nat (length (oldest # cs)) :: u32) = length (oldest # cs)"
      using len by (simp only: unat_of_nat take_bit_nat_eq_self len_num1 len_bit0) (simp add: take_bit_nat_eq_self)
    then have "length (oldest # cs) \<le> unat lim" using False by (simp add: not_less word_le_nat_alt)
    then show ?thesis using False 2(2,3,5) by auto
  next
    case True
    define n where "n = (case map_of m oldest of None \<Rightarrow> m
        | Some st \<Rightarrow> if ssState st = StreamClosed then AList.delete oldest m else m)"
    have n: "distinct (map fst n)" "length n \<le> length m" "map_of n \<subseteq>\<^sub>m map_of m"
      using 2(3) delete_length_le [of oldest m]
      by (auto simp: n_def alist_simps map_le_def split: option.split)
    have c: "count_if (live loc) n = count_if (live loc) m" for loc
      using count_delete [OF 2(3), of oldest _ "live loc"] by (auto simp: n_def live_def split: option.split)
    have m: "\<forall>i st. map_of n i = Some st \<longrightarrow> ssState st = StreamClosed \<longrightarrow> i \<in> set cs"
    proof (intro allI impI)
      fix i st
      assume i: "map_of n i = Some st" "ssState st = StreamClosed"
      have "i \<noteq> oldest"
        using i by (auto simp: n_def alist_simps split: option.splits if_splits)
      moreover have "map_of m i = Some st" by (rule map_le_lookup [OF n(3) i(1)])
      ultimately show "i \<in> set cs" using 2(2) i(2) by auto
    qed
    have e: "evictClosed lim cs n = (cs', m')" using 2(5) True by (simp add: n_def)
    have "length cs' \<le> unat lim \<and> distinct (map fst m') \<and> length m' \<le> length n \<and>
     map_of m' \<subseteq>\<^sub>m map_of n \<and> (\<forall>loc. count_if (live loc) m' = count_if (live loc) n) \<and>
     (\<forall>i st. map_of m' i = Some st \<longrightarrow> ssState st = StreamClosed \<longrightarrow> i \<in> set cs')"
      by (rule 2(1) [OF True, folded n_def]) (use m n(1) len e in auto)
    then show ?thesis using n c map_le_trans by (metis order.trans)
  qed
qed auto

subsection \<open>Operations on streams\<close>

text \<open>The fields that the invariant does not mention.\<close>

lemma inv_other [simp]:
  "session_inv (sCaps_update f0 s) = session_inv s"
  "session_inv (sParser_update f1 s) = session_inv s"
  "session_inv (sDecoder_update f2 s) = session_inv s"
  "session_inv (sEncoder_update f3 s) = session_inv s"
  "session_inv (sEncoderWriter_update f4 s) = session_inv s"
  "session_inv (sLastProcessedPeerStream_update f5 s) = session_inv s"
  "session_inv (sPeerMaxConcurrent_update f6 s) = session_inv s"
  "session_inv (sLocalHeaderTable_update f7 s) = session_inv s"
  "session_inv (sPeerEnablePush_update f8 s) = session_inv s"
  "session_inv (sPeerEnableConnect_update f9 s) = session_inv s"
  "session_inv (sPeerNoPriorities_update f10 s) = session_inv s"
  "session_inv (sLocalSettingsOutstanding_update f11 s) = session_inv s"
  "session_inv (sControlFrames_update f12 s) = session_inv s"
  "session_inv (sStarted_update f13 s) = session_inv s"
  "session_inv (sFailed_update f14 s) = session_inv s"
  "session_inv (sPeerInitialSettings_update f15 s) = session_inv s"
  "session_inv (sGoAwayReceived_update f16 s) = session_inv s"
  "session_inv (sGoAwaySent_update f17 s) = session_inv s"
  "session_inv (sPeerLastStream_update f18 s) = session_inv s"
  "session_inv (sPrefacePos_update f19 s) = session_inv s"
  "session_inv (sHeaderBlock_update f20 s) = session_inv s"
  "session_inv (sCurrentHeaders_update f21 s) = session_inv s"
  "session_inv (sCurrentHeaderStream_update f22 s) = session_inv s"
  "session_inv (sCurrentHeaderEventStream_update f23 s) = session_inv s"
  "session_inv (sCurrentHeaderEnd_update f24 s) = session_inv s"
  "session_inv (sCurrentHeaderTrailer_update f25 s) = session_inv s"
  "session_inv (sCurrentHeaderPush_update f26 s) = session_inv s"
  "session_inv (sCurrentFrame_update f27 s) = session_inv s"
  "session_inv (sExtensionPayload_update f28 s) = session_inv s"
  by (simp_all add: session_inv_def)

lemma inv_streams:
  "session_inv s \<Longrightarrow> streams_inv (sRole s) (sLimits s) (sLastPeerStream s) (sNextLocalStream s)
     (sActiveLocal s) (sActivePeer s) (sClosedStreams s) (sClosed s) (sStreams s)"
  by (simp add: session_inv_def)

lemma inv_lookup:
  assumes "session_inv s" "lookupStream i s = Some st"
  shows "ssId st = i" "windows_ok st" "\<not> sClosed s" "distinct (map fst (sStreams s))" "i \<noteq> 0"
  using inv_streams [OF assms(1)] assms(2) by (auto simp: streams_inv_def id_ok_def)

lemma inv_put:
  assumes "session_inv s" "lookupStream i s = Some st"
    and "ssId st' = ssId st" "ssLocal st' = ssLocal st" "windows_ok st'"
    and "ssState st' = StreamClosed \<longleftrightarrow> ssState st = StreamClosed"
  shows "session_inv (putStream st' s)"
  using streams_update [OF inv_streams [OF assms(1)] assms(2-6)] inv_lookup(1) [OF assms(1,2)] assms(1,3)
  by (simp add: session_inv_def putStream_def)

lemma inv_closeStream:
  assumes "session_inv s"
  shows "session_inv (closeStream i s)"
proof (cases "\<exists>st. lookupStream i s = Some st \<and> ssState st \<noteq> StreamClosed")
  case False
  then show ?thesis using assms by (auto simp: closeStream_def split: option.split)
next
  case True
  then obtain st where st: "lookupStream i s = Some st" "ssState st \<noteq> StreamClosed" by blast
  define m where "m = AList.update i (st\<lparr>ssState := StreamClosed\<rparr>) (sStreams s)"
  define lim where "lim = slMaxClosedStreams (sLimits s)"
  obtain cs' m' where e: "evictClosed lim (sClosedStreams s @ [i]) m = (cs', m')"
    by (cases "evictClosed lim (sClosedStreams s @ [i]) m")
  note S = inv_streams [OF assms]
  have id: "ssId st = i" "\<not> sClosed s" using inv_lookup [OF assms st(1)] by simp_all
  have mm: "map_of m = (map_of (sStreams s))(i \<mapsto> st\<lparr>ssState := StreamClosed\<rparr>)"
    by (simp add: m_def update_conv')
  have dm: "distinct (map fst m)" using S by (simp add: m_def streams_inv_def distinct_update)
  have lm: "length m = length (sStreams s)" using st(1) by (simp add: m_def update_length_old)
  have len: "length (sClosedStreams s @ [i]) < 2 ^ 32"
    using S assms by (simp add: streams_inv_def session_inv_def)
  have cl: "\<forall>j x. map_of m j = Some x \<longrightarrow> ssState x = StreamClosed \<longrightarrow> j \<in> set (sClosedStreams s @ [i])"
    using S by (auto simp: mm streams_inv_def)
  note E = evict_inv [OF cl dm len e]
  have cnt: "count_if (live loc) m' + (if ssLocal st = loc then 1 else 0) = count_if (live loc) (sStreams s)" for loc
    using E count_update_old [OF st(1), of "live loc" "st\<lparr>ssState := StreamClosed\<rparr>"] st(2)
    by (simp add: m_def live_def)
  have ids: "id_ok (sRole s) (sLastPeerStream s) (sNextLocalStream s) j x \<and> windows_ok x"
    if "map_of m' j = Some x" for j x
  proof -
    have sub: "map_of m' \<subseteq>\<^sub>m map_of m" using E by blast
    have old: "id_ok (sRole s) (sLastPeerStream s) (sNextLocalStream s) k y \<and> windows_ok y"
      if "map_of (sStreams s) k = Some y" for k y
      using S that by (simp add: streams_inv_def)
    show ?thesis
      using map_le_lookup [OF sub that] old [OF st(1)] old [of j x]
      by (auto simp: mm id_ok_def windows_ok_def split: if_splits)
  qed
  have act: "unat (sActiveLocal s) = count_if (live True) (sStreams s)"
    "unat (sActivePeer s) = count_if (live False) (sStreams s)"
    using S id(2) by (simp_all add: streams_inv_def)
  define al ap where "al = (if ssLocal st then sActiveLocal s - 1 else sActiveLocal s)"
    and "ap = (if ssLocal st then sActivePeer s else sActivePeer s - 1)"
  have nz: "ssLocal st \<Longrightarrow> sActiveLocal s \<noteq> 0" "\<not> ssLocal st \<Longrightarrow> sActivePeer s \<noteq> 0"
    using act cnt [of "ssLocal st"] by auto
  have "unat al = count_if (live True) m'" "unat ap = count_if (live False) m'"
    using act cnt [of True] cnt [of False] nz by (auto simp: al_def ap_def unat_minus_le)
  moreover have "closeStream i s =
      s\<lparr>sStreams := m', sActiveLocal := al, sActivePeer := ap, sClosedStreams := cs'\<rparr>"
    using st nz e by (cases "ssLocal st") (simp_all add: closeStream_def putStream_def id(1) m_def lim_def
        al_def ap_def Let_def)
  ultimately show ?thesis using assms S E lm ids id(2)
    by (auto simp: session_inv_def streams_inv_def lim_def)
qed

end
