(* ===== verification/H2_Session_Frames.thy ===== *)
theory H2_Session_Frames
  imports H2_Session_Inv
begin

text \<open>
  Every callback that the session installs in its frame parser keeps the invariant of the session; with
  the contract of the frame parser, feeding the session returns and keeps the invariant.
\<close>

subsection \<open>Failures and the end of streams\<close>

lemma inv_streamError: "session_inv s \<Longrightarrow> session_inv (fst (streamError i c reason s))"
  by (simp add: streamError_def Let_def inv_queueEvent inv_appendFrame inv_closeStream)

lemma inv_handleProtocolError: "session_inv s \<Longrightarrow> session_inv (handleProtocolError e s)"
  by (simp add: handleProtocolError_def inv_connectionError inv_streamError split: session_error.split)

lemma inv_state:
  assumes "session_inv s" "lookupStream i s = Some st" "ssState st \<noteq> StreamClosed" "x \<noteq> StreamClosed"
  shows "session_inv (putStream (st\<lparr>ssState := x\<rparr>) s)"
  using inv_put [OF assms(1,2), of "st\<lparr>ssState := x\<rparr>"] inv_lookup(2) [OF assms(1,2)] assms(3,4)
  by (simp add: windows_ok_def)

lemma inv_localEnd: "session_inv s \<Longrightarrow> session_inv (localEnd i s)"
  by (auto simp: localEnd_def inv_closeStream intro!: inv_state split: option.split stream_state.split)

lemma inv_remoteEnd:
  assumes "session_inv s"
  shows "session_inv (remoteEnd i s)"
proof (cases "lookupStream i s")
  case None
  then show ?thesis using assms by (simp add: remoteEnd_def)
next
  case (Some st)
  define s1 where "s1 = (case ssState st of
      StreamOpen \<Rightarrow> putStream (st\<lparr>ssState := StreamHalfClosedRemote\<rparr>) s
    | StreamHalfClosedLocal \<Rightarrow> closeStream i s
    | StreamReservedRemote \<Rightarrow> putStream (st\<lparr>ssState := StreamHalfClosedLocal\<rparr>) s
    | _ \<Rightarrow> s)"
  have "session_inv s1" using inv_state [OF assms Some] inv_closeStream [OF assms] assms
    by (cases "ssState st") (simp_all add: s1_def)
  then show ?thesis using Some inv_streamError [OF assms]
    by (simp add: remoteEnd_def Let_def s1_def [symmetric] inv_queueEvent)
qed

subsection \<open>Header blocks\<close>

lemma encodeFields_shape:
  "\<exists>e w b. fst (encodeFields hp fs s) = s\<lparr>sEncoder := e, sEncoderWriter := w, sHeaderBlock := b\<rparr>"
proof (induction fs arbitrary: s)
  case Nil
  have "s = s\<lparr>sEncoder := sEncoder s, sEncoderWriter := sEncoderWriter s, sHeaderBlock := sHeaderBlock s\<rparr>" by simp
  then show ?case by (simp only: encodeFields.simps fst_conv) blast
next
  case (Cons f fs)
  obtain e bs where w: "hpWriteField hp f (sEncoder s) = (e, bs)" by (cases "hpWriteField hp f (sEncoder s)")
  obtain aw block err where a: "appendWriterWrite (sHeaderBlock s) (sEncoderWriter s) bs = (aw, block, err)"
    by (rule prod_cases3)
  show ?case
  proof (cases err)
    case None
    then show ?thesis
      using Cons.IH [of "s\<lparr>sEncoder := e, sEncoderWriter := aw, sHeaderBlock := block\<rparr>"] w a by simp
  next
    case (Some x)
    then show ?thesis using w a by (simp add: Let_def) blast
  qed
qed

lemma inv_encodeFields: "session_inv s \<Longrightarrow> session_inv (fst (encodeFields hp fs s))"
  using encodeFields_shape [of hp fs s] by auto

lemma inv_appendBlock: "session_inv s \<Longrightarrow> session_inv (fst (appendBlock fuel typ i j e first block s))"
proof (induction fuel arbitrary: first block s)
  case (Suc fuel)
  obtain h payload n where b: "blockFrame (sPeerMaxFrame s) typ i j e first block = (h, payload, n)"
    by (rule prod_cases3)
  obtain s1 err where a: "appendFrame h payload s = (s1, err)" by (cases "appendFrame h payload s")
  have "session_inv s1" using inv_appendFrame [OF Suc.prems, of h payload] a by simp
  then show ?case using Suc.IH [of s1] Suc.prems b a by simp
qed simp

lemma inv_encodeAndAppendHeaders:
  assumes "session_inv s"
  shows "session_inv (fst (encodeAndAppendHeaders env typ i j headers e s))"
proof -
  define n where "n = sint (MaxHeaderListBytes (slHeader (sLimits s)))"
  obtain s1 err where f: "encodeFields (envCodec env) headers
      (s\<lparr>sHeaderBlock := [], sEncoderWriter := \<lparr>awLimit = n, awErr = None\<rparr>\<rparr>) = (s1, err)"
    by (cases "encodeFields (envCodec env) headers
      (s\<lparr>sHeaderBlock := [], sEncoderWriter := \<lparr>awLimit = n, awErr = None\<rparr>\<rparr>)")
  have "session_inv s1"
    using inv_encodeFields [of "s\<lparr>sHeaderBlock := [], sEncoderWriter := \<lparr>awLimit = n, awErr = None\<rparr>\<rparr>"
        "envCodec env" headers] assms f by simp
  then show ?thesis using assms f inv_appendBlock [of s1]
    by (simp add: encodeAndAppendHeaders_def Let_def n_def [symmetric] del: appendBlock.simps split: option.split)
qed

subsection \<open>Inbound frames\<close>

lemma inv_recv:
  "session_inv s \<Longrightarrow> 0 \<le> w \<Longrightarrow> w \<le> maxInt32 \<Longrightarrow> session_inv (s\<lparr>sConnectionRecvWindow := w\<rparr>)"
  by (simp add: session_inv_def connection_inv_def)

lemma inv_send:
  "session_inv s \<Longrightarrow> 0 \<le> w \<Longrightarrow> w \<le> maxInt32 \<Longrightarrow> session_inv (s\<lparr>sConnectionSendWindow := w\<rparr>)"
  by (simp add: session_inv_def connection_inv_def)

lemma inv_windows:
  assumes "session_inv s"
  shows "0 \<le> sConnectionSendWindow s" "sConnectionSendWindow s \<le> maxInt32" "0 \<le> sConnectionRecvWindow s"
    "sConnectionRecvWindow s \<le> maxInt32" "0 \<le> sPeerInitialWindow s" "sPeerInitialWindow s \<le> maxInt32"
    "uint (slInitialWindowSize (sLimits s)) \<le> maxInt32"
  using assms by (simp_all add: session_inv_def connection_inv_def)

lemma put_simps [simp]:
  "sConnectionRecvWindow (putStream st s) = sConnectionRecvWindow s"
  "sConnectionSendWindow (putStream st s) = sConnectionSendWindow s"
  "sLimits (putStream st s) = sLimits s" "sFailed (putStream st s) = sFailed s"
  "sClosed (putStream st s) = sClosed s"
  "lookupStream i (putStream st s) = (if i = ssId st then Some st else lookupStream i s)"
  by (simp_all add: putStream_def update_conv')

lemma uint_nonnegative: "0 \<le> uint x"
  by simp

lemma and_1_odd: "(i :: u32) AND 1 = (if odd (unat i) then 1 else 0)"
  by (simp add: and_one_eq word_unat_eq_iff unat_mod_distrib odd_iff_mod_2_eq_one)

lemma newStream_ok [simp]:
  "session_inv s \<Longrightarrow> windows_ok (newStream i x loc (sPeerInitialWindow s) (uint (slInitialWindowSize (sLimits s))))"
  using inv_windows [of s] order.trans [OF _ uint_nonnegative, of "- 2147483648" "slInitialWindowSize (sLimits s)"]
  by (auto simp: windows_ok_def newStream_def minInt32_def)

lemma newStream_sel [simp]:
  "ssId (newStream i x loc a b) = i" "ssState (newStream i x loc a b) = x"
  "ssLocal (newStream i x loc a b) = loc" "ssReceivedHeaders (newStream i x loc a b) = False"
  by (simp_all add: newStream_def)

text \<open>A stream that the peer opens or promises.\<close>

lemma inv_insert_peer:
  assumes "session_inv s" "\<not> sClosed s" "sLastPeerStream s < i" "odd (unat i) \<longleftrightarrow> sRole s \<noteq> RoleClient"
    and "\<not> slMaxStreams (sLimits s) \<le> of_nat (length (sStreams s))" "x \<noteq> StreamClosed"
  shows "lookupStream i s = None"
    and "session_inv ((putStream (newStream i x False (sPeerInitialWindow s)
       (uint (slInitialWindowSize (sLimits s)))) s)\<lparr>sActivePeer := sActivePeer s + 1, sLastPeerStream := i\<rparr>)"
proof -
  note S = inv_streams [OF assms(1)]
  show new: "lookupStream i s = None"
  proof (rule ccontr)
    assume "\<not> ?thesis"
    then obtain st where "lookupStream i s = Some st" by blast
    then have "id_ok (sRole s) (sLastPeerStream s) (sNextLocalStream s) i st"
      using S by (simp add: streams_inv_def)
    then show False using assms(3,4) by (auto simp: id_ok_def split: if_splits)
  qed
  let ?st = "newStream i x False (sPeerInitialWindow s) (uint (slInitialWindowSize (sLimits s)))"
  have "streams_inv (sRole s) (sLimits s) i (sNextLocalStream s) (if ssLocal ?st then sActiveLocal s + 1 else sActiveLocal s)
      (if ssLocal ?st then sActivePeer s else sActivePeer s + 1) (sClosedStreams s) False
      (AList.update (ssId ?st) ?st (sStreams s))"
  proof (rule streams_insert)
    show "streams_inv (sRole s) (sLimits s) (sLastPeerStream s) (sNextLocalStream s) (sActiveLocal s)
        (sActivePeer s) (sClosedStreams s) False (sStreams s)" using S assms(2) by simp
    show "length (sStreams s) < unat (slMaxStreams (sLimits s))" by (rule streams_room [OF S assms(5)])
    show "id_ok (sRole s) i (sNextLocalStream s) (ssId ?st) ?st"
      using assms(3,4) by (auto simp: id_ok_def)
  qed (use new assms in simp_all)
  then show "session_inv ((putStream ?st s)\<lparr>sActivePeer := sActivePeer s + 1, sLastPeerStream := i\<rparr>)"
    using assms(1,2) by (simp add: session_inv_def putStream_def)
qed

text \<open>The primitives neither close the session nor change its role and limits.\<close>

definition session_conf :: "('d, 'e) session \<Rightarrow> bool \<times> session_role \<times> session_limits \<times> session_limits" where
  "session_conf s = (sClosed s, sRole s, sLimits s, sCaps s)"

lemma conf_append [simp]: "session_conf (fst (appendFrameEvenFailed h payload s)) = session_conf s"
  by (simp add: appendFrameEvenFailed_def session_conf_def case_prod_beta)

lemma conf_appendFrame [simp]: "session_conf (fst (appendFrame h payload s)) = session_conf s"
  by (simp add: appendFrame_def split: option.split)

lemma conf_appendSettings [simp]: "session_conf (fst (appendSettings settings ack s)) = session_conf s"
  by (simp add: appendSettings_def)

lemma conf_appendWindowUpdate [simp]: "session_conf (fst (appendWindowUpdate i n s)) = session_conf s"
  by (simp add: appendWindowUpdate_def)

lemma conf_queueEvent [simp]: "session_conf (fst (queueEvent ev s)) = session_conf s"
  by (simp add: queueEvent_def Let_def session_conf_def)

lemma conf_connectionError [simp]: "session_conf (fst (connectionError c reason s)) = session_conf s"
proof -
  have "session_conf (s\<lparr>sFailed := x, sGoAwaySent := True\<rparr>) = session_conf s" for x
    by (simp add: session_conf_def)
  then show ?thesis by (simp add: connectionError_def Let_def split: option.split)
qed

lemma conf_put [simp]: "session_conf (putStream st s) = session_conf s"
  by (simp add: putStream_def session_conf_def)

lemma conf_closeStream [simp]: "session_conf (closeStream i s) = session_conf s"
  by (simp add: closeStream_def Let_def putStream_def session_conf_def case_prod_beta split: option.split)

lemma conf_streamError [simp]: "session_conf (fst (streamError i c reason s)) = session_conf s"
  by (simp add: streamError_def Let_def)

lemma conf_handle [simp]: "session_conf (handleProtocolError e s) = session_conf s"
  by (simp add: handleProtocolError_def split: session_error.split)

lemma conf_remoteEnd [simp]: "session_conf (remoteEnd i s) = session_conf s"
proof -
  have *: "session_conf (s\<lparr>sLastProcessedPeerStream := x\<rparr>) = session_conf s" for x and s :: "('d, 'e) session"
    by (simp add: session_conf_def)
  show ?thesis by (simp add: remoteEnd_def Let_def * split: option.split stream_state.split)
qed

lemma conf_localEnd [simp]: "session_conf (localEnd i s) = session_conf s"
  by (simp add: localEnd_def split: option.split stream_state.split)

lemma conf_closed: "session_conf t = session_conf s \<Longrightarrow> sClosed t = sClosed s"
  by (simp add: session_conf_def)

text \<open>The state of the session while it handles a frame.\<close>

definition session_open :: "('d, 'e) session \<Rightarrow> bool" where
  "session_open s \<longleftrightarrow> session_inv s \<and> \<not> sClosed s"

lemma openI: "session_open s \<Longrightarrow> (session_inv s \<Longrightarrow> session_inv t) \<Longrightarrow> session_conf t = session_conf s \<Longrightarrow> session_open t"
  by (simp add: session_open_def session_conf_def)

lemma open_connectionError: "session_open s \<Longrightarrow> session_open (fst (connectionError c reason s))"
  by (erule openI) (simp_all add: inv_connectionError)

lemma open_streamError: "session_open s \<Longrightarrow> session_open (fst (streamError i c reason s))"
  by (erule openI) (simp_all add: inv_streamError)

lemma open_handle: "session_open s \<Longrightarrow> session_open (handleProtocolError e s)"
  by (erule openI) (simp_all add: inv_handleProtocolError)

lemma open_queueEvent: "session_open s \<Longrightarrow> session_open (fst (queueEvent ev s))"
  by (erule openI) (simp_all add: inv_queueEvent)

lemma open_closeStream: "session_open s \<Longrightarrow> session_open (closeStream i s)"
  by (erule openI) (simp_all add: inv_closeStream)

lemma open_remoteEnd: "session_open s \<Longrightarrow> session_open (remoteEnd i s)"
  by (erule openI) (simp_all add: inv_remoteEnd)

lemma open_appendFrame: "session_open s \<Longrightarrow> session_open (fst (appendFrame h payload s))"
  by (erule openI) (simp_all add: inv_appendFrame)

lemma open_appendSettings: "session_open s \<Longrightarrow> session_open (fst (appendSettings settings ack s))"
  by (erule openI) (simp_all add: inv_appendSettings)

lemma open_put:
  assumes "session_open s" "lookupStream i s = Some st"
    and "ssId st' = ssId st" "ssLocal st' = ssLocal st" "windows_ok st'"
    and "ssState st' = StreamClosed \<longleftrightarrow> ssState st = StreamClosed"
  shows "session_open (putStream st' s)"
  using inv_put [OF _ assms(2-6)] assms(1) by (simp add: session_open_def)

lemmas open_primitives = open_connectionError open_streamError open_handle open_queueEvent
  open_closeStream open_remoteEnd open_appendFrame open_appendSettings

subsection \<open>Field sections\<close>

lemma open_inboundStream:
  assumes "session_open s" "inboundStream i s = (r, t)"
  shows "session_open t \<and> (\<forall>st. r = Inr st \<longrightarrow> lookupStream i t = Some st \<and> ssState st \<noteq> StreamClosed)"
proof (cases "lookupStream i s")
  case (Some st)
  then show ?thesis using assms by (auto simp: inboundStream_def split: if_splits)
next
  case None
  let ?st = "newStream i StreamOpen False (sPeerInitialWindow s) (uint (slInitialWindowSize (sLimits s)))"
  show ?thesis
  proof (cases "peerMayOpen i s \<and> \<not> slMaxConcurrentStreams (sLimits s) \<le> sActivePeer s \<and>
      \<not> slMaxStreams (sLimits s) \<le> of_nat (length (sStreams s))")
    case False
    then show ?thesis using assms None by (auto simp: inboundStream_def split: if_splits)
  next
    case True
    have inv: "session_inv s" "\<not> sClosed s" using assms(1) by (simp_all add: session_open_def)
    have role: "sRole s = RoleClient \<or> sRole s = RoleServer"
      using inv_streams [OF inv(1)] by (simp add: streams_inv_def)
    have i: "sLastPeerStream s < i" "odd (unat i) \<longleftrightarrow> sRole s \<noteq> RoleClient"
      using True role by (auto simp: peerMayOpen_def and_1_odd split: if_splits)
    have "t = (putStream ?st s)\<lparr>sActivePeer := sActivePeer s + 1, sLastPeerStream := i\<rparr>" "r = Inr ?st"
      using assms(2) None True by (simp_all add: inboundStream_def Let_def)
    moreover have "session_inv ((putStream ?st s)\<lparr>sActivePeer := sActivePeer s + 1, sLastPeerStream := i\<rparr>)"
      by (rule inv_insert_peer(2)) (use inv i True in simp_all)
    ultimately show ?thesis using inv(2) by (simp add: session_open_def putStream_def update_conv')
  qed
qed

lemma open_other [simp]:
  "session_open (s\<lparr>sDecoder := d\<rparr>) = session_open s" "session_open (s\<lparr>sCurrentFrame := h\<rparr>) = session_open s"
  "session_open (s\<lparr>sCurrentHeaders := hs\<rparr>) = session_open s"
  "session_open (s\<lparr>sCurrentHeaderStream := i\<rparr>) = session_open s"
  "session_open (s\<lparr>sCurrentHeaderEventStream := i\<rparr>) = session_open s"
  "session_open (s\<lparr>sCurrentHeaderEnd := e\<rparr>) = session_open s"
  "session_open (s\<lparr>sCurrentHeaderTrailer := e\<rparr>) = session_open s"
  "session_open (s\<lparr>sCurrentHeaderPush := e\<rparr>) = session_open s"
  "session_open (s\<lparr>sExtensionPayload := x\<rparr>) = session_open s"
  "session_open (s\<lparr>sControlFrames := n\<rparr>) = session_open s"
  "session_open (s\<lparr>sLocalSettingsOutstanding := n\<rparr>) = session_open s"
  "session_open (s\<lparr>sPeerInitialSettings := e\<rparr>) = session_open s"
  "session_open (s\<lparr>sGoAwayReceived := e\<rparr>) = session_open s"
  "session_open (s\<lparr>sPeerLastStream := n\<rparr>) = session_open s"
  "session_open (s\<lparr>sParser := p\<rparr>) = session_open s"
  "session_open (s\<lparr>sPrefacePos := b\<rparr>) = session_open s"
  "session_open (s\<lparr>sEncoder := en\<rparr>) = session_open s"
  "session_open (s\<lparr>sPeerEnablePush := e\<rparr>) = session_open s"
  "session_open (s\<lparr>sPeerMaxConcurrent := n\<rparr>) = session_open s"
  "session_open (s\<lparr>sPeerEnableConnect := e\<rparr>) = session_open s"
  "session_open (s\<lparr>sPeerNoPriorities := e\<rparr>) = session_open s"
  by (simp_all add: session_open_def)

lemma open_beginBlock: "session_open s \<Longrightarrow> session_open (fst (beginBlock s))"
  by (simp add: beginBlock_def case_prod_beta)

lemma open_beginInboundHeaders:
  assumes "session_open s"
  shows "session_open (fst (beginInboundHeaders i e s))"
proof -
  obtain r t where b: "inboundStream i s = (r, t)" by (cases "inboundStream i s")
  note o = open_inboundStream [OF assms b]
  show ?thesis
  proof (cases r)
    case (Inl x)
    then show ?thesis using o b by (simp add: beginInboundHeaders_def)
  next
    case (Inr st)
    have "session_open (if ssState st = StreamReservedRemote then putStream (st\<lparr>ssState := StreamHalfClosedLocal\<rparr>) t else t)"
      using o Inr inv_state [of t i st StreamHalfClosedLocal] by (auto simp: session_open_def)
    then show ?thesis using o b Inr by (simp add: beginInboundHeaders_def Let_def open_beginBlock)
  qed
qed

lemma open_beginInboundData:
  assumes "session_open s"
  shows "session_open (beginInboundData h s)"
proof (cases "lookupStream (fhStreamID h) s")
  case None
  then show ?thesis using assms by (simp add: beginInboundData_def Let_def open_streamError)
next
  case (Some st)
  define len where "len = uint (fhLength h)"
  have pos: "0 \<le> len" by (simp add: len_def)
  have "session_open ((putStream (st\<lparr>ssRecvWindow := ssRecvWindow st - len\<rparr>) s)
      \<lparr>sConnectionRecvWindow := sConnectionRecvWindow s - len\<rparr>)"
    if "len \<le> sConnectionRecvWindow s" "len \<le> ssRecvWindow st"
  proof -
    have w: "windows_ok st" "session_inv s" using inv_lookup(2) [OF _ Some] assms by (simp_all add: session_open_def)
    have "windows_ok (st\<lparr>ssRecvWindow := ssRecvWindow st - len\<rparr>)"
      using w(1) that(2) pos by (auto simp: windows_ok_def minInt32_def)
    then have "session_open (putStream (st\<lparr>ssRecvWindow := ssRecvWindow st - len\<rparr>) s)"
      by (intro open_put [OF assms Some]) simp_all
    then show ?thesis
      using that(1) inv_windows(4) [OF w(2)] pos by (auto simp: session_open_def intro!: inv_recv)
  qed
  then show ?thesis using assms Some
    by (simp add: beginInboundData_def Let_def open_streamError open_connectionError not_less len_def [symmetric])
qed

lemma open_onFrameBegin: "session_open s \<Longrightarrow> session_open (onFrameBegin h s)"
proof -
  assume a: "session_open s"
  obtain t err where b: "beginInboundHeaders (fhStreamID h) (Has (fhFlags h) FlagEndStream) (s\<lparr>sCurrentFrame := h\<rparr>) = (t, err)"
    by (cases "beginInboundHeaders (fhStreamID h) (Has (fhFlags h) FlagEndStream) (s\<lparr>sCurrentFrame := h\<rparr>)")
  have "session_open t"
    using open_beginInboundHeaders [of "s\<lparr>sCurrentFrame := h\<rparr>" "fhStreamID h" "Has (fhFlags h) FlagEndStream"] a b
    by simp
  then show ?thesis using a b
    by (simp add: onFrameBegin_def Let_def open_connectionError open_handle open_beginInboundData split: option.split)
qed

lemma open_onData:
  assumes "session_open s"
  shows "session_open (onData i data e s)"
proof (cases "lookupStream i s")
  case None
  then show ?thesis using assms by (simp add: onData_def)
next
  case (Some st)
  let ?t = "putStream (st\<lparr>ssReceiveBody := ssReceiveBody st + of_nat (length data)\<rparr>) s"
  have "session_open ?t"
    using inv_lookup(2) [OF _ Some] assms by (intro open_put [OF assms Some]) (simp_all add: session_open_def windows_ok_def)
  then have "session_open (fst (queueEvent ev ?t))" for ev by (rule open_queueEvent)
  then show ?thesis using assms Some
    by (simp add: onData_def open_streamError open_connectionError case_prod_beta split: option.split)
qed

lemma emit_keeps:
  assumes "K (snd ds)" "\<And>f s. K s \<Longrightarrow> K (emit f s)"
  shows "K (snd (fold (emitField (Some emit)) fs ds))"
  using assms(1)
proof (induction fs arbitrary: ds)
  case (Cons f fs)
  have "K (snd (emitField (Some emit) f ds))"
    using Cons.prems assms(2) by (simp add: emitField_def Let_def case_prod_beta)
  then show ?case using Cons.IH by simp
qed simp

lemma decoderWrite_keeps:
  assumes "K s" "\<And>f s. K s \<Longrightarrow> K (emit f s)"
  shows "K (fst (snd (decoderWrite hp (Some emit) src d s)))"
proof -
  obtain x emitted n err where w: "hpDecoderWrite hp src (hdDecoder d) = (x, emitted, n, err)" by (rule prod_cases4)
  have "K (snd (fold (emitField (Some emit)) emitted (d\<lparr>hdDecoder := x\<rparr>, s)))"
    by (rule emit_keeps) (use assms in simp_all)
  then show ?thesis using assms(1) by (simp add: decoderWrite_def w case_prod_beta)
qed

lemma open_onDecodedHeader: "session_open s \<Longrightarrow> session_open (onDecodedHeader f s)"
  by (simp add: onDecodedHeader_def)

lemma open_onHeaderBlock:
  assumes "session_open s"
  shows "session_open (onHeaderBlock env i fragment s)"
proof -
  obtain d t n err where w: "decoderWrite (envCodec env) (Some onDecodedHeader) fragment (sDecoder s) s = (d, t, n, err)"
    by (rule prod_cases4)
  have "session_open t"
    using decoderWrite_keeps [of session_open s onDecodedHeader "envCodec env" fragment "sDecoder s", OF assms]
      open_onDecodedHeader w by (metis fst_conv snd_conv)
  then show ?thesis using assms by (simp add: onHeaderBlock_def w Let_def open_connectionError split: option.split)
qed

lemma open_commitHeaders:
  assumes "session_open s" "lookupStream i s = Some st"
  shows "session_open (commitHeaders i e st md s)"
proof -
  define st' where "st' = st\<lparr>ssReceivedHeaders := True, ssMethod := firstNonEmpty (ssMethod st) (mdMethod md),
      ssReceiveNoBody := (mdNoBody md \<or> firstNonEmpty (ssMethod st) (mdMethod md) = lit ''HEAD'' \<and> mdResponse md),
      ssReceiveHasLength := mdHasContentLength md, ssReceiveLength := mdContentLength md\<rparr>"
  define st'' where "st'' = (if sCurrentHeaderTrailer s then st'\<lparr>ssReceivedTrailers := True\<rparr> else st')"
  have w: "windows_ok st" using inv_lookup(2) [OF _ assms(2)] assms(1) by (simp add: session_open_def)
  have "session_open (putStream (st\<lparr>ssMethod := m\<rparr>) s)" for m
    using w by (intro open_put [OF assms]) (simp_all add: windows_ok_def)
  moreover have "session_open (putStream st'' s)"
    using w by (intro open_put [OF assms]) (simp_all add: windows_ok_def st''_def st'_def)
  ultimately show ?thesis using assms(1) unfolding commitHeaders_def Let_def st'_def [symmetric] st''_def [symmetric]
    by (simp add: open_remoteEnd open_streamError)
qed

lemma queueEvent_streams [simp]:
  "sStreams (fst (queueEvent ev s)) = sStreams s"
  "sCurrentHeaderPush (fst (queueEvent ev s)) = sCurrentHeaderPush s"
  by (simp_all add: queueEvent_def Let_def)

lemma open_onHeaderBlockEnd:
  assumes "session_open s"
  shows "session_open (onHeaderBlockEnd env i e s)"
proof (cases "sFailed s \<noteq> None \<or> i \<noteq> sCurrentHeaderStream s")
  case True
  then show ?thesis using assms by (simp add: onHeaderBlockEnd_def)
next
  case False
  obtain d err where b: "EndBlock (envCodec env) (sDecoder s) = (d, err)" by (cases "EndBlock (envCodec env) (sDecoder s)")
  define t where "t = s\<lparr>sDecoder := d\<rparr>"
  have t: "session_open t" using assms by (simp add: t_def)
  define j where "j = sCurrentHeaderEventStream t"
  define ev where "ev = (zero_event (if sCurrentHeaderPush t then EventPushPromise else EventHeaders))
      \<lparr>evStreamID := j, evEndStream := e, evTrailer := sCurrentHeaderTrailer t, evHeaders := sCurrentHeaders t\<rparr>"
  obtain u qe where q: "queueEvent ev t = (u, qe)" by (cases "queueEvent ev t")
  have u: "session_open u" "sStreams u = sStreams t"
    using open_queueEvent [OF t, of ev] queueEvent_streams(1) [of ev t] q by simp_all
  show ?thesis
  proof (cases "err = None \<and> lookupStream j t \<noteq> None")
    case False
    then show ?thesis using assms b t \<open>\<not> (sFailed s \<noteq> None \<or> _)\<close>
      by (auto simp: onHeaderBlockEnd_def t_def [symmetric] j_def [symmetric] Let_def open_connectionError split: option.split)
  next
    case ok: True
    then obtain st where st: "lookupStream j t = Some st" by blast
    have c: "session_open (commitHeaders j e st md u)" for md
      using open_commitHeaders [OF u(1), of j st] st u(2) by simp
    show ?thesis
      using False ok b st t u(1) c unfolding onHeaderBlockEnd_def Let_def b prod.case t_def [symmetric] j_def [symmetric]
        ev_def [symmetric] q
      by (simp add: open_streamError open_connectionError split: option.split)
  qed
qed

lemma open_onPriority: "session_open s \<Longrightarrow> session_open (onPriority i p s)"
  by (simp add: onPriority_def open_queueEvent)

lemma open_onRSTStream: "session_open s \<Longrightarrow> session_open (onRSTStream i c s)"
  by (simp add: onRSTStream_def open_queueEvent open_connectionError open_closeStream split: option.split)

lemma inv_settings:
  assumes "session_inv s"
  shows "list_all validSetting xs \<Longrightarrow> session_inv (s\<lparr>sPendingSettings := xs\<rparr>)"
    and "0 \<le> w \<Longrightarrow> w \<le> maxInt32 \<Longrightarrow> session_inv (s\<lparr>sPeerInitialWindow := w\<rparr>)"
    and "defaultMaxFrameSize \<le> n \<Longrightarrow> n \<le> maxFrameSize \<Longrightarrow> session_inv (s\<lparr>sPeerMaxFrame := n\<rparr>)"
    and "streams_inv (sRole s) (sLimits s) (sLastPeerStream s) (sNextLocalStream s) (sActiveLocal s)
      (sActivePeer s) (sClosedStreams s) (sClosed s) m \<Longrightarrow> session_inv (s\<lparr>sStreams := m\<rparr>)"
    and "list_all validSetting (sPendingSettings s)"
  using assms by (simp_all add: session_inv_def connection_inv_def)

lemma open_onSetting: "session_open s \<Longrightarrow> validSetting st \<Longrightarrow> session_open (onSetting st s)"
  by (simp add: session_open_def onSetting_def inv_settings)

lemma shift_streams:
  assumes "streams_inv r l lp nl al ap cs off m"
  shows "streams_inv r l lp nl al ap cs off (fst (shiftSendWindows change is m))"
  using assms
proof (induction change "is" m rule: shiftSendWindows.induct)
  case (2 change i "is" m)
  show ?case
  proof (cases "\<exists>st. map_of m i = Some st \<and> ssState st \<noteq> StreamClosed \<and> minInt32 \<le> ssSendWindow st + change \<and>
      ssSendWindow st + change \<le> maxInt32")
    case False
    then show ?thesis using 2 by (auto simp: Let_def split: option.split)
  next
    case True
    then obtain st where st: "map_of m i = Some st" "ssState st \<noteq> StreamClosed"
      "minInt32 \<le> ssSendWindow st + change" "ssSendWindow st + change \<le> maxInt32" by blast
    have "windows_ok st" using 2(4) st(1) by (simp add: streams_inv_def)
    then have "streams_inv r l lp nl al ap cs off (AList.update i (st\<lparr>ssSendWindow := ssSendWindow st + change\<rparr>) m)"
      using st by (intro streams_update [OF 2(4) st(1)]) (simp_all add: windows_ok_def)
    then show ?thesis using 2(3) [OF st(1) st(2) refl] st by (simp add: Let_def not_less)
  qed
qed simp

lemma open_applyPeerSetting:
  assumes "session_open s" "validSetting st"
  shows "session_open (fst (applyPeerSetting env st s))"
proof -
  let ?v = "settingValue st"
  obtain m bad where sh: "shiftSendWindows (uint ?v - sPeerInitialWindow s)
      (envOrder env (map fst (sStreams s))) (sStreams s) = (m, bad)"
    by (cases "shiftSendWindows (uint ?v - sPeerInitialWindow s) (envOrder env (map fst (sStreams s))) (sStreams s)")
  have inv: "session_inv s" "\<not> sClosed s" using assms(1) by (simp_all add: session_open_def)
  have "streams_inv (sRole s) (sLimits s) (sLastPeerStream s) (sNextLocalStream s) (sActiveLocal s)
      (sActivePeer s) (sClosedStreams s) (sClosed s) m"
    using shift_streams [OF inv_streams [OF inv(1)]] sh by (metis fst_conv)
  then have m: "session_open (s\<lparr>sStreams := m\<rparr>)" using inv by (simp add: session_open_def inv_settings(4))
  have w: "session_open (s\<lparr>sStreams := m, sPeerInitialWindow := uint ?v\<rparr>)"
    if "settingID st = SettingInitialWindowSize"
  proof -
    have "?v \<le> 0x7fffffff" using that assms(2) by (simp add: validSetting_def)
    then have "uint ?v \<le> maxInt32" by (simp add: word_le_def maxInt32_def)
    then show ?thesis using m inv_settings(2) [of "s\<lparr>sStreams := m\<rparr>"] by (simp add: session_open_def)
  qed
  have f: "session_open (s\<lparr>sPeerMaxFrame := ?v\<rparr>)" if "settingID st = SettingMaxFrameSize"
    using that assms by (simp add: validSetting_def session_open_def inv_settings(3))
  show ?thesis using assms(1) m w f sh by (simp add: applyPeerSetting_def Let_def split: bool.split)
qed

lemma open_applyPeerSettings:
  "session_open s \<Longrightarrow> list_all validSetting sts \<Longrightarrow> session_open (fst (applyPeerSettings env sts s))"
proof (induction sts arbitrary: s)
  case (Cons st sts)
  obtain t err where a: "applyPeerSetting env st s = (t, err)" by (cases "applyPeerSetting env st s")
  have "session_open t" using open_applyPeerSetting [of s st env] Cons.prems a by simp
  then show ?case using Cons a by simp
qed simp

lemma open_pending: "session_open s \<Longrightarrow> session_open (s\<lparr>sPendingSettings := []\<rparr>)"
  by (simp add: session_open_def inv_settings(1))

lemma open_onSettingsEnd:
  assumes "session_open s"
  shows "session_open (onSettingsEnd env ack s)"
proof -
  obtain t err where a: "applyPeerSettings env (sPendingSettings s) s = (t, err)"
    by (cases "applyPeerSettings env (sPendingSettings s) s")
  have "list_all validSetting (sPendingSettings s)"
    using assms by (simp add: session_open_def inv_settings(5))
  then have t: "session_open t" using open_applyPeerSettings [OF assms, of "sPendingSettings s" env] a by simp
  obtain u e where b: "appendSettings [] True (t\<lparr>sPendingSettings := [], sPeerInitialSettings := True\<rparr>) = (u, e)"
    by (cases "appendSettings [] True (t\<lparr>sPendingSettings := [], sPeerInitialSettings := True\<rparr>)")
  have "session_open u"
    using open_appendSettings [of "t\<lparr>sPendingSettings := [], sPeerInitialSettings := True\<rparr>" "[]" True] open_pending [OF t] b
    by simp
  then show ?thesis using assms t a b
    by (simp add: onSettingsEnd_def Let_def open_connectionError open_queueEvent open_handle split: option.split)
qed

lemma open_onPushPromise:
  assumes "session_open s"
  shows "session_open (onPushPromise i j s)"
proof (cases "sFailed s \<noteq> None \<or> sRole s \<noteq> RoleClient \<or> \<not> slEnablePush (sLimits s) \<or> \<not> sPeerEnablePush s \<or>
    j = 0 \<or> j AND 1 \<noteq> 0 \<or> j \<le> sLastPeerStream s \<or>
    (case lookupStream i s of None \<Rightarrow> True | Some parent \<Rightarrow> \<not> canReceive (ssState parent)) \<or>
    slMaxConcurrentStreams (sLimits s) \<le> sActivePeer s \<or>
    slMaxStreams (sLimits s) \<le> of_nat (length (sStreams s))")
  case True
  then show ?thesis using assms unfolding onPushPromise_def
    by (smt (verit, best) open_connectionError open_streamError)
next
  case False
  let ?st = "newStream j StreamReservedRemote False (sPeerInitialWindow s) (uint (slInitialWindowSize (sLimits s)))"
  have "session_inv ((putStream ?st s)\<lparr>sActivePeer := sActivePeer s + 1, sLastPeerStream := j\<rparr>)"
    by (rule inv_insert_peer(2)) (use assms False in \<open>auto simp: session_open_def and_1_odd split: if_splits\<close>)
  then have "session_open ((putStream ?st s)\<lparr>sActivePeer := sActivePeer s + 1, sLastPeerStream := j\<rparr>)"
    using assms by (simp add: session_open_def putStream_def)
  then have b: "session_open (fst (beginBlock ((putStream ?st s)\<lparr>sActivePeer := sActivePeer s + 1, sLastPeerStream := j,
      sCurrentHeaders := [], sCurrentHeaderStream := i, sCurrentHeaderEventStream := j,
      sCurrentHeaderEnd := False, sCurrentHeaderTrailer := False, sCurrentHeaderPush := True\<rparr>)))" (is "session_open (fst ?b)")
    by (intro open_beginBlock) simp
  have "sActivePeer (putStream ?st s) = sActivePeer s" by (simp add: putStream_def)
  then have "onPushPromise i j s = (case ?b of (s, None) \<Rightarrow> s
      | (s, Some e) \<Rightarrow> connectionError' ErrCodeCompression (sessionErrorText e) s)"
    using False unfolding onPushPromise_def by (simp add: Let_def)
  then show ?thesis using b by (simp add: case_prod_beta open_connectionError split: option.split)
qed

lemma open_onPing:
  assumes "session_open s"
  shows "session_open (onPing data ack s)"
proof -
  obtain t err where a: "appendFrame (frameOf FramePing FlagACK 0) data s = (t, err)"
    by (cases "appendFrame (frameOf FramePing FlagACK 0) data s")
  have "session_open t" using open_appendFrame [OF assms, of "frameOf FramePing FlagACK 0" data] a by simp
  then show ?thesis using assms a
    by (simp add: onPing_def open_queueEvent open_connectionError split: option.split)
qed

lemma open_onGoAway:
  assumes "session_open s"
  shows "session_open (onGoAway env lastID c s)"
proof -
  have "session_open (fold (refuseStream lastID) ks t)" if "session_open t" for ks and t :: "('a, 'b) session"
    using that by (induction ks arbitrary: t) (simp_all add: refuseStream_def open_queueEvent open_closeStream split: option.split)
  then show ?thesis using assms by (simp add: onGoAway_def Let_def open_connectionError open_queueEvent)
qed

lemma open_onWindowUpdate:
  assumes "session_open s"
  shows "session_open (onWindowUpdate i n s)"
proof -
  define k where "k = uint n"
  have k: "0 \<le> k" by (simp add: k_def)
  have inv: "session_inv s" "\<not> sClosed s" using assms by (simp_all add: session_open_def)
  have a: "session_open (s\<lparr>sConnectionSendWindow := sConnectionSendWindow s + k\<rparr>)"
    if "\<not> maxInt32 - k < sConnectionSendWindow s"
    using that k inv inv_windows(1) [OF inv(1)] by (simp add: session_open_def inv_send)
  have b: "session_open (putStream (st\<lparr>ssSendWindow := ssSendWindow st + k\<rparr>) s)"
    if "\<not> maxInt32 - k < ssSendWindow st" "lookupStream i s = Some st" for st
    using that k inv_lookup(2) [OF inv(1) that(2)] by (intro open_put [OF assms that(2)]) (simp_all add: windows_ok_def)
  show ?thesis using assms a b
    by (simp add: onWindowUpdate_def k_def [symmetric] open_connectionError open_queueEvent open_streamError split: option.split)
qed

lemma open_onUnknown: "session_open s \<Longrightarrow> session_open (onUnknown h fragment s)"
  by (simp add: onUnknown_def open_connectionError)

lemma windowUpdate_simps [simp]:
  "sConnectionRecvWindow (fst (appendWindowUpdate i n s)) = sConnectionRecvWindow s"
  "sStreams (fst (appendWindowUpdate i n s)) = sStreams s"
  by (simp_all add: appendWindowUpdate_def appendFrameEvenFailed_def case_prod_beta)

lemma open_appendWindowUpdate: "session_open s \<Longrightarrow> session_open (fst (appendWindowUpdate i n s))"
  by (erule openI) (simp_all add: inv_appendWindowUpdate)

lemma open_refillConnection:
  assumes "session_open s"
  shows "session_open (refillConnection s)"
proof -
  have t: "session_open (fst (appendWindowUpdate 0 n s))" for n using assms by (rule open_appendWindowUpdate)
  have "0 \<le> uint (slInitialWindowSize (sLimits s)) \<and> uint (slInitialWindowSize (sLimits s)) \<le> maxInt32"
    using assms by (simp add: session_open_def inv_windows)
  then show ?thesis using assms t by (simp add: refillConnection_def Let_def session_open_def inv_recv)
qed

lemma open_refillStream:
  assumes "session_open s"
  shows "session_open (refillStream i s)"
proof (cases "lookupStream i s")
  case None
  then show ?thesis using assms by (simp add: refillStream_def)
next
  case (Some st)
  define w where "w = uint (slInitialWindowSize (sLimits s))"
  have w: "0 \<le> w" "w \<le> maxInt32" using assms by (simp_all add: session_open_def inv_windows w_def)
  have st: "windows_ok st" using assms inv_lookup(2) [OF _ Some] by (simp add: session_open_def)
  have t: "session_open (fst (appendWindowUpdate i n s))" for n using assms by (rule open_appendWindowUpdate)
  have "session_open (putStream (st\<lparr>ssRecvWindow := w\<rparr>) (fst (appendWindowUpdate i n s)))" for n
    using st w by (intro open_put [where i = i and st = st]) (simp_all add: t Some windows_ok_def minInt32_def)
  then show ?thesis using assms Some by (simp add: refillStream_def Let_def w_def [symmetric])
qed

lemma open_onFrameComplete:
  assumes "session_open s"
  shows "session_open (onFrameComplete h s)"
proof -
  obtain t exceeded where c: "countControl h s = (t, exceeded)" by (cases "countControl h s")
  have t: "session_open t" using assms c
    by (auto simp: countControl_def Let_def open_connectionError split: if_splits)
  then show ?thesis using assms
    by (simp add: onFrameComplete_def c Let_def open_refillConnection open_refillStream open_remoteEnd
        open_connectionError open_queueEvent)
qed

subsection \<open>The session as a client of the frame parser\<close>

interpretation session_frames: frame_client "Some (sessionCallbacks env)" session_open
  for env :: "('d, 'e) session_env"
  by unfold_locales
    (auto simp: sessionCallbacks_def open_onFrameBegin open_onData open_onHeaderBlock open_onHeaderBlockEnd
      open_onPriority open_onRSTStream open_onSetting open_onSettingsEnd open_onPushPromise open_onPing
      open_onGoAway open_onWindowUpdate open_onUnknown open_onFrameComplete)

text \<open>Between the calls of its owner the session satisfies its invariant, and so does its parser.\<close>

definition session_ok :: "('d, 'e) session \<Rightarrow> bool" where
  "session_ok s \<longleftrightarrow> session_inv s \<and> frame_ok (sParser s)"

lemma connectionError_parser [simp]: "sParser (fst (connectionError c reason s)) = sParser s"
  by (simp add: connectionError_def Let_def appendFrameEvenFailed_def case_prod_beta split: option.split)

lemma feedLoop_ok:
  assumes "session_open s" "frame_ok (sParser s)"
  shows "\<exists>t rest err. feedLoop env src s = Some (t, rest, err) \<and> session_open t \<and> frame_ok (sParser t) \<and>
     suffix rest src \<and> (err = None \<longrightarrow> rest = [])"
  using assms
proof (induction src arbitrary: s rule: length_induct)
  case (1 src)
  show ?case
  proof (cases "src = []")
    case True
    then show ?thesis using "1.prems" by (simp add: feedLoop.simps)
  next
    case False
    obtain p s1 n c where r: "frameRunParse True (Some (sessionCallbacks env)) (sParser s) s src = Some (p, s1, n, c)"
      "frame_ok p" "n \<le> length src" "c = fCode p" "c = FCodeNone \<Longrightarrow> 0 < n"
      using frameRunParse_total [OF "1.prems"(2), of True "Some (sessionCallbacks env)" s src] False by blast
    have one: "frameParseOne (Some (sessionCallbacks env)) (sParser s) s src = Some (p, s1, n, fPaused p, c)"
      using r(1) by (simp add: frameParseOne_def)
    have s1: "session_open (s1\<lparr>sParser := p\<rparr>)"
      using session_frames.frameParseOne_keeps [OF "1.prems"(1) one] by simp
    show ?thesis
    proof (cases "c = FCodeNone \<and> sFailed s1 = None")
      case True
      have "length (drop n src) < length src" using r(5) True False by simp
      from "1.IH" [rule_format, OF this, of "s1\<lparr>sParser := p\<rparr>"] s1 r(2) obtain t rest err where
        t: "feedLoop env (drop n src) (s1\<lparr>sParser := p\<rparr>) = Some (t, rest, err)" "session_open t"
        "frame_ok (sParser t)" "suffix rest (drop n src)" "err = None \<longrightarrow> rest = []" by auto
      have "suffix rest src" using t(4) suffix_drop suffix_order.trans by blast
      then show ?thesis using t True r(5) False one
        by (simp add: feedLoop.simps [of env src s])
    next
      case stop: False
      obtain t e where ce: "connectionError (frameCodeToError c) (frameCodeString c) (s1\<lparr>sParser := p\<rparr>) = (t, e)"
        by (cases "connectionError (frameCodeToError c) (frameCodeString c) (s1\<lparr>sParser := p\<rparr>)")
      have t: "session_open t" "sParser t = p"
        using open_connectionError [OF s1, of "frameCodeToError c" "frameCodeString c"]
          connectionError_parser [of "frameCodeToError c" "frameCodeString c" "s1\<lparr>sParser := p\<rparr>"] ce by simp_all
      show ?thesis
      proof (cases "c = FCodeNone")
        case True
        then show ?thesis using stop one s1 r(2) False
          by (auto simp: feedLoop.simps [of env src s] suffix_drop)
      next
        case code: False
        then show ?thesis using one t r(2) False ce
          by (simp add: feedLoop.simps [of env src s] suffix_drop)
      qed
    qed
  qed
qed

end
