(* ===== verification/H2_Session_Calls.thy ===== *)
theory H2_Session_Calls
  imports H2_Session_Frames
begin

text \<open>
  Every operation of the session returns and keeps the invariant, and so does every sequence of calls
  of its owner; what \<open>SendHeaders\<close> and \<open>SendData\<close> do on each of their branches.
\<close>

subsection \<open>The operations of the owner\<close>

lemma frame_ok_limits: "frame_ok p \<Longrightarrow> MaxHeaderBlockBytes l = MaxHeaderBlockBytes (fLimits p) \<Longrightarrow> frame_ok (p\<lparr>fLimits := l\<rparr>)"
proof -
  assume a: "frame_ok p" "MaxHeaderBlockBytes l = MaxHeaderBlockBytes (fLimits p)"
  have c: "content_inv (p\<lparr>fLimits := l\<rparr>) = content_inv p" by (cases "fState p"; simp add: content_inv_def)
  have "payload_inv (p\<lparr>fLimits := l\<rparr>) = payload_inv p"
    by (simp add: payload_inv_def prefix_inv_def Let_def c)
  then show ?thesis using a by (simp add: frame_ok_def frame_inv_def in_payload_def)
qed

lemma matchPreface_ok:
  "matchPreface pos src = (pos', rest, bad) \<Longrightarrow>
     suffix rest src \<and> (\<not> bad \<longrightarrow> unat pos' < length ClientPreface \<longrightarrow> rest = [])"
  by (induction pos src rule: matchPreface.induct) (auto split: if_splits intro: suffix_ConsI)

lemma Feed_ok:
  assumes "session_ok s"
  shows "\<exists>t n err. Feed env src s = Some (t, n, err) \<and> session_ok t \<and> n \<le> length src \<and>
     (err = None \<longrightarrow> n = length src)"
proof (cases "sClosed s \<or> sFailed s \<noteq> None")
  case True
  then show ?thesis using assms by (auto simp: Feed_def)
next
  case False
  have loop: "\<exists>t rest err. feedLoop env src' u = Some (t, rest, err) \<and> session_ok t \<and> suffix rest src' \<and>
      (err = None \<longrightarrow> rest = [])" if "session_ok u" "\<not> sClosed u" for u :: "('a, 'b) session" and src'
    using feedLoop_ok [of u env src'] that by (auto simp: session_ok_def session_open_def)
  show ?thesis
  proof (cases "sRole s = RoleServer \<and> unat (sPrefacePos s) < length ClientPreface")
    case True
    obtain pos rest bad where m: "matchPreface (sPrefacePos s) src = (pos, rest, bad)" by (rule prod_cases3)
    note mp = matchPreface_ok [OF m]
    define u where "u = s\<lparr>sPrefacePos := pos\<rparr>"
    have u: "session_ok u" "\<not> sClosed u" using assms False by (simp_all add: u_def session_ok_def)
    obtain t e where ce: "connectionError ErrCodeProtocol ''invalid client connection preface'' u = (t, e)"
      by (cases "connectionError ErrCodeProtocol ''invalid client connection preface'' u")
    have t: "session_ok t"
      using inv_connectionError [of u ErrCodeProtocol "''invalid client connection preface''"] u(1) ce
        connectionError_parser [of ErrCodeProtocol "''invalid client connection preface''" u] by (simp add: session_ok_def)
    obtain v r err where l: "feedLoop env rest u = Some (v, r, err)" "session_ok v" "suffix r rest"
      "err = None \<longrightarrow> r = []" using loop [OF u, of rest] by blast
    show ?thesis
    proof (cases "bad \<or> rest = [] \<or> unat pos < length ClientPreface")
      case stop: True
      then show ?thesis using True False m ce t u(1) mp
        by (cases bad) (auto simp: Feed_def Let_def u_def [symmetric])
    next
      case go: False
      then have "Feed env src s = Some (v, length src - length r, err)"
        using True False m l(1) by (simp add: Feed_def Let_def u_def [symmetric])
      then show ?thesis using l(2,4) by auto
    qed
  next
    case role: False
    obtain t r err where "feedLoop env src s = Some (t, r, err)" "session_ok t" "suffix r src"
      "err = None \<longrightarrow> r = []" using loop [OF assms, of src] False by blast
    then show ?thesis using False role by (auto simp: Feed_def)
  qed
qed

lemma ok_conf:
  "session_ok s \<Longrightarrow> (session_inv s \<Longrightarrow> session_inv t) \<Longrightarrow> sParser t = sParser s \<Longrightarrow> session_ok t"
  by (simp add: session_ok_def)

lemma FinishSession_ok:
  assumes "session_ok s"
  shows "session_ok (fst (FinishSession s))"
proof -
  have e: "session_ok (fst (connectionError c reason u))" if "session_ok u" for c reason and u :: "('a, 'b) session"
    by (rule ok_conf [OF that]) (simp_all add: inv_connectionError)
  obtain p c where f: "frameFinish (sParser s) = (p, c)" by (cases "frameFinish (sParser s)")
  have "frame_ok p" using frame_ok_finish [of "sParser s"] assms f by (simp add: session_ok_def)
  then have "session_ok (s\<lparr>sParser := p\<rparr>)" using assms by (simp add: session_ok_def)
  then show ?thesis using assms e f by (simp add: FinishSession_def Let_def case_prod_beta)
qed

lemma ConsumeOutput_ok:
  assumes "session_ok s"
  shows "session_ok (fst (ConsumeOutput n s))"
proof -
  have "length (drop (nat n) (sOutput s)) \<le> unat (slMaxQueuedOutputBytes (sLimits s))"
    using assms by (auto simp: session_ok_def session_inv_def queues_inv_def)
  then show ?thesis using assms inv_output [of s "drop (nat n) (sOutput s)"]
    by (simp add: ConsumeOutput_def session_ok_def)
qed

lemma NextEvent_ok:
  assumes "session_ok s"
  shows "session_ok (fst (NextEvent s))"
proof (cases "sEvents s")
  case Nil
  then show ?thesis using assms by (simp add: NextEvent_def)
next
  case (Cons ev evs)
  have q: "queues_inv (sLimits s) (sOutput s) (ev # evs) (sEventBytes s) (sClosed s)"
    using assms Cons by (simp add: session_ok_def session_inv_def)
  then have "unat (sEventBytes s - eventRetainedBytes ev) = unat (sEventBytes s) - unat (eventRetainedBytes ev)"
    by (intro unat_minus_le) (simp add: queues_inv_def event_total_def word_le_nat_alt)
  then have "queues_inv (sLimits s) (sOutput s) evs (sEventBytes s - eventRetainedBytes ev) (sClosed s)"
    using q by (auto simp: queues_inv_def event_total_def word_le_nat_alt)
  then show ?thesis using assms Cons by (simp add: NextEvent_def session_ok_def session_inv_def)
qed

subsection \<open>Sending\<close>

text \<open>What encoding a field section may change: the output, and the state of the encoder.\<close>

definition outside_output :: "('d, 'e) session \<Rightarrow> ('d, 'e) session" where
  "outside_output s = s\<lparr>sOutput := [], sEncoder := undefined, sEncoderWriter := undefined, sHeaderBlock := []\<rparr>"

lemma outside_append [simp]: "outside_output (fst (appendFrameEvenFailed h payload s)) = outside_output s"
  by (simp add: appendFrameEvenFailed_def outside_output_def case_prod_beta)

lemma outside_appendFrame [simp]: "outside_output (fst (appendFrame h payload s)) = outside_output s"
  by (simp add: appendFrame_def split: option.split)

lemma outside_appendBlock [simp]:
  "outside_output (fst (appendBlock fuel typ i j e first block s)) = outside_output s"
proof (induction fuel arbitrary: first block s)
  case (Suc fuel)
  obtain h payload n where b: "blockFrame (sPeerMaxFrame s) typ i j e first block = (h, payload, n)"
    by (rule prod_cases3)
  obtain s1 err where a: "appendFrame h payload s = (s1, err)" by (cases "appendFrame h payload s")
  have "outside_output s1 = outside_output s" using outside_appendFrame [of h payload s] a by simp
  then show ?case using Suc.IH b a by simp
qed simp

lemma outside_encode [simp]:
  "outside_output (fst (encodeAndAppendHeaders env typ i j headers e s)) = outside_output s"
proof -
  define n where "n = sint (MaxHeaderListBytes (slHeader (sLimits s)))"
  define s0 where "s0 = s\<lparr>sHeaderBlock := [], sEncoderWriter := \<lparr>awLimit = n, awErr = None\<rparr>\<rparr>"
  obtain s1 err where f: "encodeFields (envCodec env) headers s0 = (s1, err)"
    by (cases "encodeFields (envCodec env) headers s0")
  have "outside_output s1 = outside_output s0"
    using encodeFields_shape [of "envCodec env" headers s0] f by (auto simp: outside_output_def)
  then have "outside_output s1 = outside_output s" by (simp add: s0_def outside_output_def)
  then show ?thesis using f
    by (simp add: encodeAndAppendHeaders_def Let_def n_def [symmetric] s0_def [symmetric]
        del: appendBlock.simps split: option.split)
qed

lemma outside_sel:
  assumes "outside_output t = outside_output s"
  shows "sStreams t = sStreams s" "sParser t = sParser s" "sActiveLocal t = sActiveLocal s"
    "sClosed t = sClosed s" "sLimits t = sLimits s" "sNextLocalStream t = sNextLocalStream s"
    "sConnectionSendWindow t = sConnectionSendWindow s" "sPeerMaxFrame t = sPeerMaxFrame s"
    "sRole t = sRole s" "sFailed t = sFailed s" "sEvents t = sEvents s"
  using arg_cong [OF assms, of sStreams] arg_cong [OF assms, of sParser] arg_cong [OF assms, of sActiveLocal]
    arg_cong [OF assms, of sClosed] arg_cong [OF assms, of sLimits] arg_cong [OF assms, of sNextLocalStream]
    arg_cong [OF assms, of sConnectionSendWindow] arg_cong [OF assms, of sPeerMaxFrame]
    arg_cong [OF assms, of sRole] arg_cong [OF assms, of sFailed] arg_cong [OF assms, of sEvents]
  by (simp_all add: outside_output_def)

lemma sentHeaders_sel [simp]:
  "ssId (sentHeaders md trailer st) = ssId st" "ssLocal (sentHeaders md trailer st) = ssLocal st"
  "ssSendWindow (sentHeaders md trailer st) = ssSendWindow st"
  "ssRecvWindow (sentHeaders md trailer st) = ssRecvWindow st"
  "ssSendBody (sentHeaders md trailer st) = ssSendBody st"
  "ssState (sentHeaders md trailer st) =
     (if ssState st = StreamReservedLocal then StreamHalfClosedRemote else ssState st)"
  by (simp_all add: sentHeaders_def Let_def)

text \<open>The check of the content length after a field section has been sent never fails: the check before
  it was sent is the same.\<close>

lemma late_check:
  assumes "\<not> sendHeadersRefused md trailer e st" e
  shows "\<not> (ssSendHasLength (sentHeaders md trailer st) \<and> \<not> ssSendNoBody (sentHeaders md trailer st) \<and>
     ssSendLength (sentHeaders md trailer st) \<noteq> ssSendBody (sentHeaders md trailer st))"
  using assms by (auto simp: sendHeadersRefused_def sentHeaders_def Let_def split: if_splits)

lemma canSend_open: "canSend x \<Longrightarrow> x \<noteq> StreamClosed"
  by (auto simp: canSend_def)

text \<open>\<open>SendHeaders\<close> either fails, and then only the output and the encoder may have changed, or
  the stream has sent the section and, at its end, is closed on this side.\<close>

lemma SendHeaders_cases:
  assumes "SendHeaders env i headers e s = (t, err)"
  obtains (error) x where "err = Some x" "outside_output t = outside_output s"
      "t = s \<or> (\<exists>y st. encodeAndAppendHeaders env FrameHeaders i 0 headers e s = (t, Some y) \<and> lookupStream i s = Some st)"
    | (sent) st md trailer u where "err = None" "lookupStream i s = Some st" "canSend (ssState st)"
      "encodeAndAppendHeaders env FrameHeaders i 0 headers e s = (u, None)"
      "t = (if e then localEnd i (putStream (sentHeaders md trailer st) u) else putStream (sentHeaders md trailer st) u)"
proof (cases "readySession s")
  case (Some x)
  then show ?thesis using assms error [of x] by (simp add: SendHeaders_def)
next
  case ready: None
  show ?thesis
  proof (cases "lookupStream i s")
    case None
    then show ?thesis using assms ready error [of ErrStreamNotFound] by (simp add: SendHeaders_def)
  next
    case found: (Some st)
    define md where "md = inspectHeaderSection headers"
    define trailer where "trailer = ssSentHeaders st"
    obtain u ee where enc: "encodeAndAppendHeaders env FrameHeaders i 0 headers e s = (u, ee)"
      by (cases "encodeAndAppendHeaders env FrameHeaders i 0 headers e s")
    show ?thesis
    proof (cases "\<not> canSend (ssState st) \<or> ssSentTrailers st \<or> trailer \<and> \<not> e \<or>
        \<not> validateHeaderSection (sRole s) True trailer headers (slEnableExtendedConnect (sLimits s)) \<or>
        sendHeadersRefused md trailer e st")
      case True
      then have "t = s \<and> err \<noteq> None" using assms ready found
        by (auto simp: SendHeaders_def Let_def md_def trailer_def split: if_splits)
      then show ?thesis using error by auto
    next
      case False
      then have ok: "(\<not> canSend (ssState st) \<or> ssSentTrailers st) = False" "(trailer \<and> \<not> e) = False"
        "(\<not> validateHeaderSection (sRole s) True trailer headers (slEnableExtendedConnect (sLimits s))) = False"
        "sendHeadersRefused md trailer e st = False" by blast+
      have eq: "SendHeaders env i headers e s = (case ee of Some x \<Rightarrow> (u, Some x) | None \<Rightarrow>
          let st = sentHeaders md trailer st; s = putStream st u in
          if e then if ssSendHasLength st \<and> \<not> ssSendNoBody st \<and> ssSendLength st \<noteq> ssSendBody st
            then (s, Some ErrInvalidHeaders) else (localEnd i s, None) else (s, None))"
        using ready found enc ok
        by (cases ee) (simp_all only: SendHeaders_def Let_def md_def [symmetric] trailer_def [symmetric] option.case
            prod.case if_False)
      show ?thesis
      proof (cases ee)
        case (Some x)
        then show ?thesis using eq assms error [of x] outside_encode [of env FrameHeaders i 0 headers e s] enc found by simp
      next
        case None
        have "t = (if e then localEnd i (putStream (sentHeaders md trailer st) u)
            else putStream (sentHeaders md trailer st) u) \<and> err = None"
          using eq assms None late_check [of md trailer e st] False by (auto simp: Let_def split: if_splits)
        then show ?thesis using sent [of st u md trailer] False found enc None by simp
      qed
    qed
  qed
qed

lemma localEnd_parser [simp]: "sParser (localEnd i s) = sParser s"
  by (simp add: localEnd_def closeStream_def putStream_def Let_def case_prod_beta
      split: option.split stream_state.split)

lemma closeStream_parser [simp]: "sParser (closeStream i s) = sParser s"
  by (simp add: closeStream_def putStream_def Let_def case_prod_beta split: option.split)

lemma put_parser [simp]: "sParser (putStream st s) = sParser s"
  by (simp add: putStream_def)

lemma ok_encode:
  assumes "session_ok s"
  shows "session_ok (fst (encodeAndAppendHeaders env typ i j headers e s))"
  by (rule ok_conf [OF assms inv_encodeAndAppendHeaders outside_sel(2) [OF outside_encode]])

lemma SendHeaders_ok:
  assumes "session_ok s"
  shows "session_ok (fst (SendHeaders env i headers e s))"
proof -
  obtain t err where r: "SendHeaders env i headers e s = (t, err)" by (cases "SendHeaders env i headers e s")
  from r show ?thesis
  proof (cases rule: SendHeaders_cases)
    case (error x)
    then show ?thesis using assms ok_encode [OF assms, of env FrameHeaders i 0 headers e] r by auto
  next
    case (sent st md trailer u)
    have u: "session_ok u" "sStreams u = sStreams s"
      using ok_encode [OF assms, of env FrameHeaders i 0 headers e]
        outside_sel(1) [OF outside_encode, of env FrameHeaders i 0 headers e s] sent(4) by simp_all
    have l: "lookupStream i u = Some st" using sent(2) u(2) by simp
    have w: "windows_ok st" using inv_lookup(2) [OF _ l] u(1) by (simp add: session_ok_def)
    have "session_inv (putStream (sentHeaders md trailer st) u)"
      using u(1) w canSend_open [OF sent(3)]
      by (intro inv_put [OF _ l]) (simp_all add: session_ok_def windows_ok_def)
    then show ?thesis using u(1) r sent(5) by (simp add: session_ok_def inv_localEnd)
  qed
qed

lemma uint_le_unat: "uint (x :: u32) \<le> 2147483647 \<longleftrightarrow> unat x \<le> 2147483647"
proof -
  have "int (unat x) = uint x" by simp
  then show ?thesis by linarith
qed

lemma streams_delete:
  assumes "streams_inv r l lp nl al ap cs False m" "map_of m i = Some st" "ssState st \<noteq> StreamClosed" "ssLocal st"
  shows "streams_inv r l lp nl (al - 1) ap cs False (AList.delete i m)"
proof -
  have d: "distinct (map fst m)" using assms(1) by (simp add: streams_inv_def)
  have "count_if (live True) (AList.delete i m) + 1 = count_if (live True) m"
    "count_if (live False) (AList.delete i m) = count_if (live False) m"
    using count_delete [OF d assms(2), of "live True"] count_delete [OF d assms(2), of "live False"] assms(3,4)
    by (simp_all add: live_def)
  moreover from this have "unat (al - 1) = unat al - 1"
    using assms(1) unat_minus_le [of 1 al] by (simp add: streams_inv_def word_le_nat_alt)
  ultimately show ?thesis using assms(1) delete_length_le [of i m]
    by (auto simp: streams_inv_def alist_simps)
qed

lemma inv_insert_local:
  assumes "session_inv s" "\<not> sClosed s" "sNextLocalStream s \<noteq> 0" "uint (sNextLocalStream s) \<le> maxInt32"
    and "\<not> slMaxStreams (sLimits s) \<le> of_nat (length (sStreams s))"
    and "ssId st = sNextLocalStream s" "ssLocal st" "ssState st \<noteq> StreamClosed" "windows_ok st"
  shows "lookupStream (sNextLocalStream s) s = None"
    and "session_inv ((putStream st s)\<lparr>sNextLocalStream := sNextLocalStream s + 2, sActiveLocal := sActiveLocal s + 1\<rparr>)"
proof -
  note S = inv_streams [OF assms(1)]
  define i where "i = sNextLocalStream s"
  have par: "odd (unat i) \<longleftrightarrow> sRole s = RoleClient" using S by (simp add: streams_inv_def i_def)
  show new: "lookupStream (sNextLocalStream s) s = None"
  proof (rule ccontr)
    assume "\<not> ?thesis"
    then obtain x where "lookupStream i s = Some x" by (auto simp: i_def)
    then have "id_ok (sRole s) (sLastPeerStream s) i i x" using S by (simp add: streams_inv_def i_def)
    then show False using par by (auto simp: id_ok_def)
  qed
  have "unat i \<le> 2147483647" using assms(4) by (simp add: i_def maxInt32_def uint_le_unat)
  then have u: "unat (i + 2) = unat i + 2" using unat_plus_of_nat [of i 2] by simp
  have "streams_inv (sRole s) (sLimits s) (sLastPeerStream s) (i + 2) (if ssLocal st then sActiveLocal s + 1 else sActiveLocal s)
      (if ssLocal st then sActivePeer s else sActivePeer s + 1) (sClosedStreams s) False
      (AList.update (ssId st) st (sStreams s))"
  proof (rule streams_insert)
    show "streams_inv (sRole s) (sLimits s) (sLastPeerStream s) (sNextLocalStream s) (sActiveLocal s)
        (sActivePeer s) (sClosedStreams s) False (sStreams s)" using S assms(2) by simp
    show "length (sStreams s) < unat (slMaxStreams (sLimits s))" by (rule streams_room [OF S assms(5)])
    show "id_ok (sRole s) (sLastPeerStream s) (i + 2) (ssId st) st"
      using assms(3,6,7) par u by (auto simp: id_ok_def i_def word_less_nat_alt)
    show "sNextLocalStream s \<le> i + 2" using u by (simp add: i_def word_le_nat_alt)
    show "odd (unat (i + 2)) \<longleftrightarrow> odd (unat (sNextLocalStream s))" using u by (simp add: i_def)
  qed (use new assms in simp_all)
  then show "session_inv ((putStream st s)\<lparr>sNextLocalStream := sNextLocalStream s + 2, sActiveLocal := sActiveLocal s + 1\<rparr>)"
    using assms(1,2,7) by (simp add: session_inv_def putStream_def i_def)
qed

lemma inv_next:
  assumes "session_inv s" "uint (sNextLocalStream s) \<le> maxInt32"
  shows "session_inv (s\<lparr>sNextLocalStream := sNextLocalStream s + 2\<rparr>)"
proof -
  define i where "i = sNextLocalStream s"
  have "unat i \<le> 2147483647" using assms(2) by (simp add: i_def maxInt32_def uint_le_unat)
  then have u: "unat (i + 2) = unat i + 2" using unat_plus_of_nat [of i 2] by simp
  have "id_ok r lp (i + 2) j x" if "id_ok r lp i j x" for r lp j x
    using that u by (auto simp: id_ok_def word_less_nat_alt)
  then have "streams_inv (sRole s) (sLimits s) (sLastPeerStream s) (i + 2) (sActiveLocal s)
      (sActivePeer s) (sClosedStreams s) (sClosed s) (sStreams s)"
    using inv_streams [OF assms(1)] u by (simp add: streams_inv_def i_def [symmetric])
  then show ?thesis using assms(1) by (simp add: session_inv_def i_def)
qed

lemma OpenStream_ok:
  assumes "session_ok s"
  shows "session_ok (fst (OpenStream env headers e s))"
proof (cases "sGoAwayReceived s \<or> sGoAwaySent s \<or> sRole s \<noteq> RoleClient \<or> sNextLocalStream s = 0 \<or>
    maxInt32 < uint (sNextLocalStream s) \<or> sPeerMaxConcurrent s \<le> sActiveLocal s \<or>
    slMaxStreams (sLimits s) \<le> of_nat (length (sStreams s))")
  case True
  then have "fst (OpenStream env headers e s) = s" unfolding OpenStream_def by auto
  then show ?thesis using assms by simp
next
  case False
  define i where "i = sNextLocalStream s"
  define st where "st = newStream i StreamOpen True (sPeerInitialWindow s) (uint (slInitialWindowSize (sLimits s)))"
  define u where "u = (putStream st s)\<lparr>sNextLocalStream := i + 2, sActiveLocal := sActiveLocal s + 1\<rparr>"
  obtain t err where r: "SendHeaders env i headers e u = (t, err)" by (cases "SendHeaders env i headers e u")
  have inv: "session_inv s" using assms by (simp add: session_ok_def)
  have eq: "fst (OpenStream env headers e s) =
      (case err of Some x \<Rightarrow> t\<lparr>sStreams := AList.delete i (sStreams t), sActiveLocal := sActiveLocal t - 1\<rparr> | None \<Rightarrow> t)"
    using False r unfolding OpenStream_def by (simp add: Let_def i_def st_def u_def split: option.split)
  show ?thesis
  proof (cases "sClosed s")
    case True
    then have "t = u" "err = Some ErrSessionClosed" "sStreams s = []"
      using r inv_streams [OF inv] by (simp_all add: SendHeaders_def readySession_def u_def streams_inv_def)
    then have "fst (OpenStream env headers e s) = s\<lparr>sNextLocalStream := i + 2\<rparr>"
      using eq by (simp add: u_def putStream_def st_def AList.delete_eq)
    then show ?thesis using inv_next [OF inv] False assms by (simp add: i_def session_ok_def)
  next
    case open_s: False
    have "session_inv u" unfolding u_def i_def
      by (rule inv_insert_local(2)) (use inv open_s False in \<open>simp_all add: st_def i_def\<close>)
    then have u: "session_ok u" using assms by (simp add: session_ok_def u_def)
    have t: "session_ok t" using SendHeaders_ok [OF u, of env i headers e] r by simp
    show ?thesis
    proof (cases err)
      case None
      then show ?thesis using eq t by simp
    next
      case (Some x)
      from r Some have out: "outside_output t = outside_output u" by (cases rule: SendHeaders_cases) auto
      have l: "lookupStream i t = Some st" "\<not> sClosed t"
        using outside_sel(1,4) [OF out] open_s by (simp_all add: u_def st_def putStream_def update_conv')
      have "streams_inv (sRole t) (sLimits t) (sLastPeerStream t) (sNextLocalStream t) (sActiveLocal t - 1)
          (sActivePeer t) (sClosedStreams t) False (AList.delete i (sStreams t))"
        using inv_streams [of t] t l by (intro streams_delete [where st = st]) (simp_all add: session_ok_def st_def)
      then show ?thesis using eq Some t l(2) by (simp add: session_ok_def session_inv_def)
    qed
  qed
qed

lemma PushPromise_ok:
  assumes "session_ok s"
  shows "session_ok (fst (PushPromise env parent headers s))"
proof (cases "sRole s \<noteq> RoleServer \<or> \<not> slEnablePush (sLimits s) \<or> \<not> sPeerEnablePush s \<or>
    (case lookupStream parent s of None \<Rightarrow> True | Some st \<Rightarrow> \<not> canSend (ssState st)) \<or> sNextLocalStream s = 0 \<or>
    maxInt32 < uint (sNextLocalStream s) \<or> sPeerMaxConcurrent s \<le> sActiveLocal s \<or>
    slMaxStreams (sLimits s) \<le> of_nat (length (sStreams s)) \<or>
    \<not> validateHeaderSection RoleClient True False headers (slEnableExtendedConnect (sLimits s))")
  case True
  then have "fst (PushPromise env parent headers s) = s" unfolding PushPromise_def by auto
  then show ?thesis using assms by simp
next
  case False
  define i where "i = sNextLocalStream s"
  define st where "st = (newStream i StreamReservedLocal True (sPeerInitialWindow s)
      (uint (slInitialWindowSize (sLimits s))))\<lparr>ssMethod := mdMethod (inspectHeaderSection headers)\<rparr>"
  define u where "u = s\<lparr>sNextLocalStream := i + 2\<rparr>"
  obtain t err where r: "encodeAndAppendHeaders env FramePushPromise parent i headers False u = (t, err)"
    by (cases "encodeAndAppendHeaders env FramePushPromise parent i headers False u")
  have inv: "session_inv s" using assms by (simp add: session_ok_def)
  have eq: "fst (PushPromise env parent headers s) =
      (case err of Some x \<Rightarrow> t | None \<Rightarrow> (putStream st t)\<lparr>sActiveLocal := sActiveLocal t + 1\<rparr>)"
    using False r unfolding PushPromise_def by (simp add: Let_def i_def st_def u_def split: option.split)
  have u: "session_ok u" using inv_next [OF inv] False assms by (simp add: u_def i_def session_ok_def)
  have t: "session_ok t" using ok_encode [OF u, of env FramePushPromise parent i headers False] r by simp
  have open_s: "\<not> sClosed s" using inv_streams [OF inv] False by (auto simp: streams_inv_def)
  have out: "outside_output t = outside_output u" using outside_encode [of env FramePushPromise parent i headers False u] r by simp
  have ins: "session_inv ((putStream st s)\<lparr>sNextLocalStream := i + 2, sActiveLocal := sActiveLocal s + 1\<rparr>)"
    unfolding i_def
  proof (rule inv_insert_local(2))
    show "windows_ok st" using newStream_ok [OF inv, of i StreamReservedLocal True]
      by (simp add: st_def windows_ok_def)
  qed (use inv open_s False in \<open>simp_all add: st_def i_def\<close>)
  have "session_inv ((putStream st t)\<lparr>sActiveLocal := sActiveLocal t + 1\<rparr>)"
    using ins t outside_sel [OF out] arg_cong [OF out, of sLastPeerStream] arg_cong [OF out, of sActivePeer]
      arg_cong [OF out, of sClosedStreams] open_s
    by (simp add: session_ok_def session_inv_def putStream_def u_def outside_output_def)
  then show ?thesis using eq t by (simp add: session_ok_def split: option.split)
qed

lemma outside_parser: "outside_output t = outside_output s \<Longrightarrow> session_inv t \<Longrightarrow> session_ok s \<Longrightarrow> session_ok t"
  using outside_sel(2) [of t s] by (simp add: session_ok_def)

lemma ok_appendFrame: "session_ok s \<Longrightarrow> session_ok (fst (appendFrame h payload s))"
  by (rule outside_parser [OF outside_appendFrame]) (simp_all add: session_ok_def inv_appendFrame)

lemma ok_localEnd: "session_ok s \<Longrightarrow> session_ok (localEnd i s)"
  by (simp add: session_ok_def inv_localEnd)

text \<open>\<open>SendData\<close> either fails and sends nothing, or sends an empty frame that ends the stream, or
  sends as much as the windows and the frame size permit.\<close>

definition dataFrame :: "u32 \<Rightarrow> bool \<Rightarrow> bytes \<Rightarrow> bytes" where
  "dataFrame i finish payload =
     encodeHeader \<lparr>fhLength = of_nat (length payload), fhType = FrameData,
       fhFlags = (if finish then FlagEndStream else 0), fhStreamID = i\<rparr> @ payload"

lemma appendFrame_None:
  assumes "appendFrame h payload s = (t, None)" "fhLength h = 0"
  shows "t = s\<lparr>sOutput := sOutput s @ encodeHeader (h\<lparr>fhLength := of_nat (length payload)\<rparr>) @ payload\<rparr>"
    and "readySession s = None" "int (length payload) \<le> uint maxFrameSize"
    and "length (sOutput t) \<le> unat (slMaxQueuedOutputBytes (sLimits s))"
proof -
  have r: "readySession s = None" "reserveOutput (9 + int (length payload)) s"
    "AppendFrame (sOutput s) h payload = (sOutput t, FCodeNone)" "t = s\<lparr>sOutput := sOutput t\<rparr>"
    using assms by (auto simp: appendFrame_def appendFrameEvenFailed_def case_prod_beta prod_eq_iff
      split: option.splits if_splits)
  show "t = s\<lparr>sOutput := sOutput s @ encodeHeader (h\<lparr>fhLength := of_nat (length payload)\<rparr>) @ payload\<rparr>"
    "int (length payload) \<le> uint maxFrameSize"
    using r(3,4) assms(2) by (auto simp: AppendFrame_def Let_def split: if_splits)
  show "readySession s = None" by (rule r(1))
  have "int (length (sOutput s)) + (9 + int (length payload)) \<le> int (unat (slMaxQueuedOutputBytes (sLimits s)))"
    using r(2) by (simp add: reserve_bound)
  then show "length (sOutput t) \<le> unat (slMaxQueuedOutputBytes (sLimits s))"
    using AppendFrame_length [of "sOutput s" h payload] unfolding r(3) fst_conv by linarith
qed

lemma SendData_cases:
  assumes "SendData i src e s = (t, n, err)"
  obtains (error) x where "err = Some x" "n = 0" "outside_output t = outside_output s"
      "t = s \<or> (\<exists>h payload. t = fst (appendFrame h payload s))"
    | (noop) "err = None" "n = 0" "t = s" "src = []" "\<not> e"
    | (finish) st where "err = None" "n = 0" "src = []" e "lookupStream i s = Some st" "canSend (ssState st)"
      "readySession s = None" "t = localEnd i (s\<lparr>sOutput := sOutput s @ dataFrame i True []\<rparr>)"
      "length (sOutput s @ dataFrame i True []) \<le> unat (slMaxQueuedOutputBytes (sLimits s))"
    | (sent) st fin where "err = None" "0 < n" "lookupStream i s = Some st" "canSend (ssState st)" "readySession s = None"
      "n = nat (sendAvailable src st s)" "fin = (n = length src \<and> e)"
      "t = (if fin then localEnd i else id)
         ((putStream (st\<lparr>ssSendWindow := ssSendWindow st - int n, ssSendBody := ssSendBody st + of_nat n\<rparr>)
            (s\<lparr>sOutput := sOutput s @ dataFrame i fin (take n src)\<rparr>))
           \<lparr>sConnectionSendWindow := sConnectionSendWindow s - int n\<rparr>)"
      "length (sOutput s @ dataFrame i fin (take n src)) \<le> unat (slMaxQueuedOutputBytes (sLimits s))"
proof (cases "readySession s")
  case (Some x)
  then show ?thesis using assms error [of x] by (simp add: SendData_def)
next
  case ready: None
  show ?thesis
  proof (cases "lookupStream i s")
    case None
    then show ?thesis using assms ready error [of ErrStreamNotFound] by (simp add: SendData_def)
  next
    case (Some st)
    show ?thesis
    proof (cases "\<not> ssSentHeaders st \<or> \<not> canSend (ssState st) \<or> ssSentTrailers st \<or> ssSendNoBody st \<or>
        ssSendHasLength st \<and> ssSendLength st - ssSendBody st < of_nat (length src)")
      case True
      then have "t = s \<and> n = 0 \<and> err \<noteq> None" using assms ready Some
        by (auto simp: SendData_def split: if_splits)
      then show ?thesis using error by auto
    next
      case False
      then have g: "(\<not> ssSentHeaders st \<or> \<not> canSend (ssState st) \<or> ssSentTrailers st \<or> ssSendNoBody st) = False"
        "(ssSendHasLength st \<and> ssSendLength st - ssSendBody st < of_nat (length src)) = False" "canSend (ssState st)"
        by blast+
      note eq = assms [unfolded SendData_def ready Some option.case g if_False]
      show ?thesis
      proof (cases "src = []")
        case True
        obtain u ee where a: "appendFrame (frameOf FrameData FlagEndStream i) [] s = (u, ee)"
          by (cases "appendFrame (frameOf FrameData FlagEndStream i) [] s")
        show ?thesis
        proof (cases "\<not> e \<or> ssSendHasLength st \<and> ssSendLength st \<noteq> ssSendBody st")
          case stop: True
          show ?thesis
          proof (cases e)
            case e: True
            then have "t = s" "n = 0" "err = Some ErrInvalidHeaders" using eq True stop by auto
            then show ?thesis using error [of ErrInvalidHeaders] by simp
          next
            case e: False
            have "err = None" "n = 0" "t = s" using eq True e by auto
            then show ?thesis using noop True e by simp
          qed
        next
          case go: False
          show ?thesis
          proof (cases ee)
            case None
            then have "u = s\<lparr>sOutput := sOutput s @ dataFrame i True []\<rparr>"
              using appendFrame_None(1) [of "frameOf FrameData FlagEndStream i" "[]" s u] a by (simp add: dataFrame_def)
            moreover from this have "length (sOutput s @ dataFrame i True []) \<le> unat (slMaxQueuedOutputBytes (sLimits s))"
              using appendFrame_None(4) [of "frameOf FrameData FlagEndStream i" "[]" s u] a None by simp
            ultimately show ?thesis using None eq True go a finish [of st] Some ready g(3) by (auto split: if_splits)
          next
            case (Some x)
            have tn: "t = u" "n = 0" "err = Some x" using eq True go a Some by (auto split: if_splits)
            have o: "outside_output u = outside_output s"
              using outside_appendFrame [of "frameOf FrameData FlagEndStream i" "[]" s] a by simp
            have "t = fst (appendFrame (frameOf FrameData FlagEndStream i) [] s)" using a tn(1) by simp
            then show ?thesis using error [OF tn(3,2)] o tn(1) by blast
          qed
        qed
      next
        case data: False
        define av where "av = sendAvailable src st s"
        define k where "k = nat av"
        define fin where "fin = (k = length src \<and> e)"
        define h where "h = frameOf FrameData (if fin then FlagEndStream else 0) i"
        obtain u ee where a: "appendFrame h (take k src) s = (u, ee)" by (cases "appendFrame h (take k src) s")
        note eq2 = eq [unfolded data if_False av_def [symmetric] Let_def k_def [symmetric] fin_def [symmetric]
            h_def [symmetric] a prod.case]
        show ?thesis
        proof (cases "av \<le> 0 \<or> fin \<and> ssSendHasLength st \<and> ssSendBody st + of_nat k \<noteq> ssSendLength st")
          case True
          then have "t = s \<and> n = 0 \<and> err \<noteq> None" using eq2 data by (auto split: if_splits)
          then show ?thesis using error by auto
        next
          case go: False
          then have eq3: "(case ee of None \<Rightarrow>
              (if fin then localEnd i ((putStream (st\<lparr>ssSendWindow := ssSendWindow st - av, ssSendBody := ssSendBody st + of_nat k\<rparr>) u)
                \<lparr>sConnectionSendWindow := sConnectionSendWindow u - av\<rparr>)
               else ((putStream (st\<lparr>ssSendWindow := ssSendWindow st - av, ssSendBody := ssSendBody st + of_nat k\<rparr>) u)
                \<lparr>sConnectionSendWindow := sConnectionSendWindow u - av\<rparr>), k, None)
              | Some x \<Rightarrow> (u, 0, Some x)) = (t, n, err)"
            using eq2 data by (auto split: if_splits option.splits)
          have k: "0 < k" "int k = av" using go by (simp_all add: k_def)
          show ?thesis
          proof (cases ee)
            case None
            have u: "u = s\<lparr>sOutput := sOutput s @ dataFrame i fin (take k src)\<rparr>"
              using appendFrame_None(1) [of h "take k src" s u] a None by (simp add: h_def dataFrame_def)
            have n: "n = k" "err = None" using eq3 None by auto
            have len: "length (sOutput s @ dataFrame i fin (take k src)) \<le> unat (slMaxQueuedOutputBytes (sLimits s))"
              using appendFrame_None(4) [of h "take k src" s u] a None u by (simp add: h_def)
            show ?thesis
            proof (rule sent [of st fin])
              show "t = (if fin then localEnd i else id)
                 ((putStream (st\<lparr>ssSendWindow := ssSendWindow st - int n, ssSendBody := ssSendBody st + of_nat n\<rparr>)
                    (s\<lparr>sOutput := sOutput s @ dataFrame i fin (take n src)\<rparr>))
                   \<lparr>sConnectionSendWindow := sConnectionSendWindow s - int n\<rparr>)"
                using eq3 None u n k(2) by (cases fin) simp_all
            qed (use n k Some g(3) ready len in \<open>simp_all add: k_def av_def fin_def\<close>)
          next
            case (Some x)
            have tn: "t = u" "n = 0" "err = Some x" using eq3 Some by auto
            have o: "outside_output u = outside_output s" using outside_appendFrame [of h "take k src" s] a by simp
            have "t = fst (appendFrame h (take k src) s)" using a tn(1) by simp
            then show ?thesis using error [OF tn(3,2)] o tn(1) by blast
          qed
        qed
      qed
    qed
  qed
qed

lemma sendAvailable_bounds:
  "sendAvailable src st s \<le> int (length src)" "sendAvailable src st s \<le> uint (sPeerMaxFrame s)"
  "sendAvailable src st s \<le> sConnectionSendWindow s" "sendAvailable src st s \<le> ssSendWindow st"
  by (auto simp: sendAvailable_def Let_def)

lemma ready_open: "readySession s = None \<Longrightarrow> \<not> sClosed s \<and> sFailed s = None"
  by (simp add: readySession_def split: if_splits)

lemma SendData_ok:
  assumes "session_ok s"
  shows "session_ok (fst (SendData i src e s))"
proof -
  obtain t n err where r: "SendData i src e s = (t, n, err)" by (rule prod_cases3)
  have inv: "session_inv s" using assms by (simp add: session_ok_def)
  from r show ?thesis
  proof (cases rule: SendData_cases)
    case (error x)
    then show ?thesis using r assms ok_appendFrame [OF assms] by auto
  next
    case noop
    then show ?thesis using r assms by simp
  next
    case (finish st)
    then show ?thesis using r assms inv_localEnd [OF inv_output [OF inv finish(9)], of i] by (simp add: session_ok_def)
  next
    case (sent st fin)
    define u where "u = s\<lparr>sOutput := sOutput s @ dataFrame i fin (take n src)\<rparr>"
    have u: "session_inv u" using inv_output [OF inv sent(9)] by (simp add: u_def)
    have l: "lookupStream i u = Some st" using sent(3) by (simp add: u_def)
    have n: "int n \<le> sConnectionSendWindow s" "int n \<le> ssSendWindow st"
      using sendAvailable_bounds(3,4) [of src st s] sent(2,6) by simp_all
    have "session_inv (putStream (st\<lparr>ssSendWindow := ssSendWindow st - int n, ssSendBody := ssSendBody st + of_nat n\<rparr>) u)"
      using n(2) inv_lookup(2) [OF u l] by (intro inv_put [OF u l]) (simp_all add: windows_ok_def minInt32_def)
    then have "session_inv ((putStream (st\<lparr>ssSendWindow := ssSendWindow st - int n, ssSendBody := ssSendBody st + of_nat n\<rparr>) u)
        \<lparr>sConnectionSendWindow := sConnectionSendWindow s - int n\<rparr>)"
      using n(1) inv_windows(2) [OF inv] by (intro inv_send) simp_all
    then show ?thesis using r assms sent(8) by (simp add: u_def [symmetric] session_ok_def inv_localEnd) (simp add: u_def)
  qed
qed


lemma ResetStream_ok:
  assumes "session_ok s"
  shows "session_ok (fst (ResetStream i c s))"
proof -
  obtain t err where a: "appendFrame (frameOf FrameRSTStream 0 i) (PutUint32 c) s = (t, err)"
    by (cases "appendFrame (frameOf FrameRSTStream 0 i) (PutUint32 c) s")
  have "session_ok t" using ok_appendFrame [OF assms, of "frameOf FrameRSTStream 0 i" "PutUint32 c"] a by simp
  moreover from this have "session_ok (closeStream i t)" by (simp add: session_ok_def inv_closeStream)
  ultimately show ?thesis using assms a by (simp add: ResetStream_def split: option.split)
qed

lemma GoAway_ok:
  assumes "session_ok s"
  shows "session_ok (fst (GoAway c debug s))"
proof -
  have "session_ok (fst (appendFrame h payload s))" for h payload by (rule ok_appendFrame [OF assms])
  moreover have "session_ok (t\<lparr>sGoAwaySent := True\<rparr>) = session_ok t" for t :: "('a, 'b) session"
    by (simp add: session_ok_def)
  ultimately show ?thesis using assms by (simp add: GoAway_def Let_def case_prod_beta split: option.split)
qed

lemma CloseSession_ok:
  assumes "session_ok s"
  shows "session_ok (CloseSession s)"
proof -
  have "session_inv (s\<lparr>sClosed := True, sStreams := [], sEvents := [], sOutput := []\<rparr>)"
    using assms by (auto simp: session_ok_def session_inv_def streams_inv_def queues_inv_def event_total_def)
  then show ?thesis using assms by (simp add: CloseSession_def session_ok_def)
qed

lemma collect_initial:
  assumes "collectSettings s sts u = Some v" "nuInitialWindow u \<le> 0x7fffffff"
  shows "nuInitialWindow v \<le> 0x7fffffff"
  using assms
proof (induction sts arbitrary: u)
  case (Cons st sts)
  then obtain w where w: "collectSetting s st u = Some w" "collectSettings s sts w = Some v"
    by (auto split: option.splits)
  have "nuInitialWindow w \<le> 0x7fffffff" using w(1) Cons.prems(2)
    by (auto simp: collectSetting_def validSetting_def Let_def split: if_splits)
  then show ?case using Cons.IH w(2) by blast
qed simp

lemma streams_shift:
  assumes "streams_inv r l lp nl al ap cs off m"
    and "\<not> list_ex (\<lambda>(i, st). maxInt32 < ssRecvWindow st + d \<or> ssRecvWindow st + d < minInt32) m"
    and "slMaxStreams l' = slMaxStreams l" "slMaxClosedStreams l' = slMaxClosedStreams l"
  shows "streams_inv r l' lp nl al ap cs off (map (\<lambda>(i, st). (i, st\<lparr>ssRecvWindow := ssRecvWindow st + d\<rparr>)) m)"
proof -
  let ?f = "\<lambda>st. st\<lparr>ssRecvWindow := ssRecvWindow st + d\<rparr>"
  define n where "n = map (\<lambda>(i, st). (i, ?f st)) m"
  have mo: "map_of n i = map_option ?f (map_of m i)" for i unfolding n_def by (induction m) auto
  have c: "count_if (live loc) n = count_if (live loc) m" for loc unfolding n_def by (induction m) (auto simp: live_def)
  have fst: "map fst n = map fst m" unfolding n_def by (induction m) auto
  have len: "length n = length m" by (simp add: n_def)
  have "windows_ok (?f st)" if "map_of m i = Some st" for i st
  proof -
    have "(i, st) \<in> set m" using that by (rule map_of_SomeD)
    then have "minInt32 \<le> ssRecvWindow st + d" "ssRecvWindow st + d \<le> maxInt32"
      using assms(2) by (auto simp: list_ex_iff not_less)
    then show ?thesis using assms(1) that by (auto simp: streams_inv_def windows_ok_def)
  qed
  note w = this
  have old: "id_ok r lp nl i st \<and> (ssState st = StreamClosed \<longrightarrow> i \<in> set cs)" if "map_of m i = Some st" for i st
    using assms(1) that by (simp add: streams_inv_def)
  have "\<forall>i st. map_of n i = Some st \<longrightarrow> id_ok r lp nl i st \<and> windows_ok st \<and> (ssState st = StreamClosed \<longrightarrow> i \<in> set cs)"
    using w old unfolding mo by (fastforce simp: id_ok_def)
  moreover have "n = [] \<longleftrightarrow> m = []" using len by auto
  ultimately show ?thesis using assms(1,3,4) unfolding n_def [symmetric] streams_inv_def c fst len by simp
qed

lemma appendSettings_sel:
  assumes "appendSettings settings ack s = (t, err)"
  shows "\<exists>out. t = s\<lparr>sOutput := out\<rparr>"
proof -
  have "\<exists>out. fst (appendFrameEvenFailed h payload s) = s\<lparr>sOutput := out\<rparr>" for h payload
    using append_frame_shape [of h payload s "fst (appendFrameEvenFailed h payload s)" "snd (appendFrameEvenFailed h payload s)"]
    by auto
  then show ?thesis using assms by (metis appendSettings_def fst_conv)
qed

lemma UpdateSettings_ok:
  assumes "session_ok s"
  shows "session_ok (fst (UpdateSettings env settings s))"
proof (cases "fst (UpdateSettings env settings s) = s")
  case True
  then show ?thesis using assms by simp
next
  case False
  define u0 where "u0 = \<lparr>nuHeaderTable = sLocalHeaderTable s, nuEnablePush = slEnablePush (sLimits s),
      nuMaxConcurrent = slMaxConcurrentStreams (sLimits s), nuInitialWindow = slInitialWindowSize (sLimits s),
      nuMaxFrame = MaxFrameSize (fLimits (sParser s)), nuEnableConnect = slEnableExtendedConnect (sLimits s)\<rparr>"
  obtain u where u: "collectSettings s settings u0 = Some u"
    using False by (cases "collectSettings s settings u0") (auto simp: UpdateSettings_def u0_def [symmetric] split: option.splits if_splits)
  define d where "d = uint (nuInitialWindow u) - uint (slInitialWindowSize (sLimits s))"
  have shift: "\<not> list_ex (\<lambda>(i, st). maxInt32 < ssRecvWindow st + d \<or> ssRecvWindow st + d < minInt32) (sStreams s)"
    using False u by (auto simp: UpdateSettings_def u0_def [symmetric] d_def Let_def split: option.splits if_splits)
  obtain dec de where dec: "SetAllowedDynamicTableBytes (envCodec env) (nuHeaderTable u) (sDecoder s) = (dec, de)"
    by (cases "SetAllowedDynamicTableBytes (envCodec env) (nuHeaderTable u) (sDecoder s)")
  define s1 where "s1 = s\<lparr>sDecoder := dec\<rparr>"
  obtain t err where a: "appendSettings settings False s1 = (t, err)" by (cases "appendSettings settings False s1")
  obtain out where t: "t = s1\<lparr>sOutput := out\<rparr>" using appendSettings_sel [OF a] by blast
  have inv: "session_inv s1" "session_inv t"
    using assms inv_appendSettings [of s1 settings False] a by (simp_all add: s1_def session_ok_def)
  define v where "v = t\<lparr>sLocalHeaderTable := nuHeaderTable u,
      sLimits := (sLimits t)\<lparr>slEnablePush := nuEnablePush u, slMaxConcurrentStreams := nuMaxConcurrent u,
        slInitialWindowSize := nuInitialWindow u, slEnableExtendedConnect := nuEnableConnect u\<rparr>,
      sParser := (sParser t)\<lparr>fLimits := (fLimits (sParser t))\<lparr>MaxFrameSize := nuMaxFrame u\<rparr>\<rparr>,
      sStreams := map (\<lambda>(i, st). (i, st\<lparr>ssRecvWindow := ssRecvWindow st + d\<rparr>)) (sStreams t),
      sLocalSettingsOutstanding := sLocalSettingsOutstanding t + 1\<rparr>"
  have cases: "fst (UpdateSettings env settings s) \<in> {s1, t, v}"
    using False u shift dec a
    by (auto simp: UpdateSettings_def u0_def [symmetric] d_def [symmetric] s1_def [symmetric] v_def Let_def
        split: option.splits if_splits)
  have iw: "nuInitialWindow u \<le> 0x7fffffff"
  proof (rule collect_initial [OF u])
    have "uint (slInitialWindowSize (sLimits s)) \<le> maxInt32" using assms by (simp add: session_ok_def inv_windows)
    then show "nuInitialWindow u0 \<le> 0x7fffffff" by (simp add: u0_def word_le_def maxInt32_def)
  qed
  then have "uint (nuInitialWindow u) \<le> maxInt32" by (simp add: word_le_def maxInt32_def)
  moreover have "streams_inv (sRole v) (sLimits v) (sLastPeerStream v) (sNextLocalStream v) (sActiveLocal v)
      (sActivePeer v) (sClosedStreams v) (sClosed v) (sStreams v)"
    using streams_shift [OF inv_streams [OF inv(2)], of d "sLimits v"] shift by (simp add: v_def t s1_def)
  ultimately have "session_inv v"
    using inv(2) by (simp add: session_inv_def v_def queues_inv_def connection_inv_def)
  moreover have "frame_ok (sParser v)"
    using assms frame_ok_limits [of "sParser s" "(fLimits (sParser s))\<lparr>MaxFrameSize := nuMaxFrame u\<rparr>"]
    by (simp add: v_def t s1_def session_ok_def)
  ultimately have "session_ok v" by (simp add: session_ok_def)
  moreover have "session_ok s1" "session_ok t" using inv assms by (simp_all add: session_ok_def t s1_def)
  ultimately show ?thesis using cases by auto
qed

subsection \<open>New sessions\<close>

lemma let_intro: "(\<And>x. x = t \<Longrightarrow> P (f x)) \<Longrightarrow> P (Let t f)"
  by simp

definition limits_sane :: "session_limits \<Rightarrow> bool" where
  "limits_sane l \<longleftrightarrow> slMaxClosedStreams l \<noteq> 0 \<and> uint (slInitialWindowSize l) \<le> maxInt32"

lemma normalized_limits: "limits_sane (sessionNormalized l)"
  unfolding sessionNormalized_def
proof (rule let_intro [where P = limits_sane])+
  fix l1 l2 l3 l4 l5 l6 l7 l8 l9 l10 l11 :: session_limits
  assume l3: "l3 = (if slMaxStreams l2 = 0 then l2\<lparr>slMaxStreams := defaultSessionMaxStreams\<rparr> else l2)"
    and l4: "l4 = (if slMaxStreams l3 < slMaxConcurrentStreams l3
      then l3\<lparr>slMaxStreams := slMaxConcurrentStreams l3\<rparr> else l3)"
    and l5: "l5 = (if slMaxClosedStreams l4 = 0
      then l4\<lparr>slMaxClosedStreams := defaultSessionClosedStreams\<rparr> else l4)"
    and l6: "l6 = (if slMaxStreams l5 < slMaxClosedStreams l5
      then l5\<lparr>slMaxClosedStreams := slMaxStreams l5\<rparr> else l5)"
    and l7: "l7 = (if slMaxQueuedOutputBytes l6 = 0
      then l6\<lparr>slMaxQueuedOutputBytes := defaultSessionOutputBytes\<rparr> else l6)"
    and l8: "l8 = (if slMaxQueuedEventBytes l7 = 0
      then l7\<lparr>slMaxQueuedEventBytes := defaultSessionEventBytes\<rparr> else l7)"
    and l9: "l9 = (if slMaxQueuedEvents l8 = 0 then l8\<lparr>slMaxQueuedEvents := defaultSessionEvents\<rparr> else l8)"
    and l10: "l10 = (if slInitialWindowSize l9 = 0
      then l9\<lparr>slInitialWindowSize := defaultInitialWindowSize\<rparr> else l9)"
    and l11: "l11 = (if maxInt32 < uint (slInitialWindowSize l10)
      then l10\<lparr>slInitialWindowSize := of_int maxInt32\<rparr> else l10)"
  have "slMaxStreams l3 \<noteq> 0" by (simp add: l3 defaultSessionMaxStreams_def)
  moreover have "slMaxStreams l4 \<noteq> 0 \<or> slMaxStreams l3 = 0"
    unfolding l4 by (cases "slMaxStreams l3 < slMaxConcurrentStreams l3") auto
  ultimately have "slMaxStreams l5 \<noteq> 0" "slMaxClosedStreams l5 \<noteq> 0"
    by (simp_all add: l5 defaultSessionClosedStreams_def)
  then have "slMaxClosedStreams l6 \<noteq> 0" by (simp add: l6)
  then have "slMaxClosedStreams l9 \<noteq> 0" by (simp add: l7 l8 l9)
  then have "slMaxClosedStreams l11 \<noteq> 0" by (simp add: l10 l11)
  moreover have "uint (slInitialWindowSize l11) \<le> maxInt32" by (simp add: l11 maxInt32_def)
  ultimately show "limits_sane (if slMaxControlFrames l11 = 0
        then l11\<lparr>slMaxControlFrames := defaultMaxControlFrames\<rparr> else l11)"
    by (simp add: limits_sane_def)
qed

lemma fresh_ok:
  assumes "role = RoleClient \<or> role = RoleServer" "unat (slMaxClosedStreams l) < 2 ^ 32 - 1"
    and "slMaxClosedStreams l \<noteq> 0" "uint (slInitialWindowSize l) \<le> maxInt32"
  shows "session_ok (freshSession env role l)"
  using assms
  by (auto simp: session_ok_def session_inv_def streams_inv_def queues_inv_def connection_inv_def event_total_def
      freshSession_def Let_def frame_ok_new defaultInitialWindowSize_def maxInt32_def defaultMaxFrameSize_def maxFrameSize_def)

lemma start_ok:
  assumes "session_ok s" "startSession s = (t, err)"
  shows "session_ok t"
proof -
  let ?s = "s\<lparr>sStarted := True\<rparr>"
  have s: "session_ok ?s" using assms(1) by (simp add: session_ok_def)
  define u where "u = (if sRole ?s = RoleClient then ?s\<lparr>sOutput := sOutput ?s @ ClientPreface\<rparr> else ?s)"
  obtain v ee where a: "appendSettings (startSettings (sRole u) (sLimits u)) False u = (v, ee)"
    by (cases "appendSettings (startSettings (sRole u) (sLimits u)) False u")
  show ?thesis
  proof (cases "sStarted s \<or> sRole ?s = RoleClient \<and> \<not> reserveOutput (int (length ClientPreface)) ?s")
    case True
    then have "t = s \<or> t = ?s" using assms(2) unfolding startSession_def Let_def by (auto split: if_splits)
    then show ?thesis using assms(1) s by auto
  next
    case False
    have "length (sOutput ?s @ ClientPreface) \<le> unat (slMaxQueuedOutputBytes (sLimits ?s))"
      if "reserveOutput (int (length ClientPreface)) ?s"
    proof -
      have "int (length (sOutput ?s)) + int (length ClientPreface) \<le> int (unat (slMaxQueuedOutputBytes (sLimits ?s)))"
        using that by (simp add: reserve_bound)
      then show ?thesis by (simp only: length_append flip: of_nat_add of_nat_le_iff [where ?'a = int])
    qed
    then have "session_inv u" using s False inv_output [of ?s "sOutput ?s @ ClientPreface"]
      by (auto simp: u_def session_ok_def)
    moreover have "sParser u = sParser s" by (simp add: u_def)
    ultimately have v: "session_inv v" "sParser v = sParser s"
      using inv_appendSettings [of u "startSettings (sRole u) (sLimits u)" False] a appendSettings_sel [OF a] by auto
    have "t = v \<or> t = v\<lparr>sLocalSettingsOutstanding := sLocalSettingsOutstanding v + 1\<rparr>"
      using assms(2) False a unfolding startSession_def Let_def u_def [symmetric]
      by (auto split: option.splits if_splits)
    then show ?thesis using v assms(1) by (auto simp: session_ok_def)
  qed
qed

lemma NewSession_ok:
  assumes "NewSession env role l = Inr s" "unat (slMaxClosedStreams (sessionNormalized l)) < 2 ^ 32 - 1"
  shows "session_ok s"
proof -
  obtain t err where st: "startSession (freshSession env role (sessionNormalized l)) = (t, err)"
    by (cases "startSession (freshSession env role (sessionNormalized l))")
  have role: "role = RoleClient \<or> role = RoleServer" and t: "s = t"
    using assms(1) st by (auto simp: NewSession_def split: if_splits option.splits)
  have "session_ok (freshSession env role (sessionNormalized l))"
    using fresh_ok [OF role assms(2)] normalized_limits [of l] by (simp add: limits_sane_def)
  then show ?thesis using start_ok [OF _ st] t by simp
qed

subsection \<open>Sequences of calls\<close>

datatype session_call =
    SFeed bytes | SFinish | SConsumeOutput int | SNextEvent | SOpenStream "header_field list" bool
  | SPushPromise u32 "header_field list" | SPriorityUpdate u32 bytes | SSendHeaders u32 "header_field list" bool
  | SSendData u32 bytes bool | SResetStream u32 error_code | SUpdateSettings "setting_t list"
  | SPing bytes | SGoAway error_code bytes | SClose

fun sessionCall :: "('d, 'e) session_env \<Rightarrow> session_call \<Rightarrow> ('d, 'e) session \<Rightarrow> ('d, 'e) session option" where
  "sessionCall env (SFeed src) s = map_option fst (Feed env src s)"
| "sessionCall env SFinish s = Some (fst (FinishSession s))"
| "sessionCall env (SConsumeOutput n) s = Some (fst (ConsumeOutput n s))"
| "sessionCall env SNextEvent s = Some (fst (NextEvent s))"
| "sessionCall env (SOpenStream headers e) s = Some (fst (OpenStream env headers e s))"
| "sessionCall env (SPushPromise i headers) s = Some (fst (PushPromise env i headers s))"
| "sessionCall env (SPriorityUpdate i v) s = Some (fst (PriorityUpdate i v s))"
| "sessionCall env (SSendHeaders i headers e) s = Some (fst (SendHeaders env i headers e s))"
| "sessionCall env (SSendData i src e) s = Some (fst (SendData i src e s))"
| "sessionCall env (SResetStream i c) s = Some (fst (ResetStream i c s))"
| "sessionCall env (SUpdateSettings settings) s = Some (fst (UpdateSettings env settings s))"
| "sessionCall env (SPing data) s = Some (fst (PingSession data s))"
| "sessionCall env (SGoAway c debug) s = Some (fst (GoAway c debug s))"
| "sessionCall env SClose s = Some (CloseSession s)"

fun sessionCalls :: "('d, 'e) session_env \<Rightarrow> session_call list \<Rightarrow> ('d, 'e) session \<Rightarrow> ('d, 'e) session option" where
  "sessionCalls env [] s = Some s"
| "sessionCalls env (c # cs) s =
     (case sessionCall env c s of None \<Rightarrow> None | Some t \<Rightarrow> sessionCalls env cs t)"

lemma PriorityUpdate_ok: "session_ok s \<Longrightarrow> session_ok (fst (PriorityUpdate i v s))"
  by (cases "uint (sPeerMaxFrame s) - 4 < int (length v)") (simp_all add: PriorityUpdate_def ok_appendFrame)

lemma PingSession_ok: "session_ok s \<Longrightarrow> session_ok (fst (PingSession data s))"
  by (simp add: PingSession_def ok_appendFrame)

lemma sessionCall_ok:
  assumes "session_ok s"
  shows "\<exists>t. sessionCall env c s = Some t \<and> session_ok t"
proof (cases c)
  case (SFeed src)
  then show ?thesis using Feed_ok [OF assms, of env src] by auto
qed (use assms in \<open>simp_all add: FinishSession_ok ConsumeOutput_ok NextEvent_ok OpenStream_ok PushPromise_ok
    SendHeaders_ok SendData_ok ResetStream_ok UpdateSettings_ok GoAway_ok CloseSession_ok PriorityUpdate_ok
    PingSession_ok\<close>)

lemma sessionCalls_ok:
  "session_ok s \<Longrightarrow> \<exists>t. sessionCalls env cs s = Some t \<and> session_ok t"
proof (induction cs arbitrary: s)
  case (Cons c cs)
  obtain t where "sessionCall env c s = Some t" "session_ok t" using sessionCall_ok [OF Cons.prems, of env c] by blast
  then show ?case using Cons.IH by simp
qed simp

end
