(* ===== verification/H2_Frame_Spec.thy ===== *)
theory H2_Frame_Spec
  imports H2_Frame_Safety
begin

text \<open>
  What a sequence of whole frames means (src/http2/frame.go): a reading of complete payloads, without the
  states of the incremental parser, that yields the calls of the client's table and the code of a failure.
  The parser refines it. The theory also shows that frame headers and numbers survive being written and
  read.
\<close>

subsection \<open>Big-endian round trips\<close>

lemma Uint32_Put [simp]: "Uint32 (PutUint32 v) = v"
proof (rule bit_word_eqI)
  fix n
  assume len: "n < LENGTH(32)"
  consider "n < 8" | "8 \<le> n" "n < 16" | "16 \<le> n" "n < 24" | "24 \<le> n" by linarith
  then show "bit (Uint32 (PutUint32 v)) n = bit v n"
    using len by cases (simp_all add: Uint32_def PutUint32_def bit_or_iff bit_push_bit_iff bit_ucast_iff bit_drop_bit_eq less_diff_conv2)
qed

lemma Uint16_Put [simp]: "Uint16 (PutUint16 v) = v"
  unfolding Uint16_def PutUint16_def
  by (rule bit_word_eqI)
    (auto simp: bit_or_iff bit_push_bit_iff bit_ucast_iff bit_drop_bit_eq less_diff_conv2)

lemma length_Put [simp]: "length (PutUint32 v) = 4" "length (PutUint16 w) = 2"
  by (simp_all add: PutUint32_def PutUint16_def)

lemma length_encodeHeader [simp]: "length (encodeHeader h) = 9"
  by (simp add: encodeHeader_def)

lemma word24:
  fixes n :: u32
  assumes "n < 0x1000000"
  shows "push_bit 16 (ucast (ucast (drop_bit 16 n) :: u8)) OR push_bit 8 (ucast (ucast (drop_bit 8 n) :: u8)) OR
     ucast (ucast n :: u8) = n"
proof (rule bit_word_eqI)
  fix k
  assume "k < LENGTH(32)"
  have high: "\<not> bit n k" if "24 \<le> k"
  proof -
    have "take_bit 24 n = n" using assms
      by (simp add: word_unat_eq_iff unsigned_take_bit_eq take_bit_nat_eq_self word_less_nat_alt)
    then have "bit n k = bit (take_bit 24 n) k" by simp
    then show ?thesis using that by (simp add: bit_take_bit_iff)
  qed
  consider "k < 8" | "8 \<le> k" "k < 16" | "16 \<le> k" "k < 24" | "24 \<le> k" by linarith
  then show "bit (push_bit 16 (ucast (ucast (drop_bit 16 n) :: u8)) OR push_bit 8 (ucast (ucast (drop_bit 8 n) :: u8)) OR
     ucast (ucast n :: u8) :: u32) k = bit n k"
    using high by cases (simp_all add: bit_or_iff bit_push_bit_iff bit_ucast_iff bit_drop_bit_eq less_diff_conv2)
qed

lemma and_mask31: "(i :: u32) \<le> 0x7fffffff \<Longrightarrow> i AND 0x7fffffff = i"
proof -
  assume "i \<le> 0x7fffffff"
  then have "i < 2 ^ 31" by (simp add: word_le_nat_alt word_less_nat_alt)
  moreover have "i AND mask 31 = take_bit 31 i" by (simp add: take_bit_eq_mask)
  ultimately show ?thesis
    by (simp add: word_unat_eq_iff unsigned_take_bit_eq take_bit_nat_eq_self word_less_nat_alt mask_eq_exp_minus_1)
qed

lemma header_decodes:
  assumes "fhLength h < 0x1000000" "fhStreamID h \<le> 0x7fffffff"
  shows "decodeHeader (encodeHeader h) = h"
  using word24 [OF assms(1)] and_mask31 [OF assms(2)] by (simp add: decodeHeader_def encodeHeader_def)

subsection \<open>Deliveries\<close>

text \<open>A call of the client's table, as data.\<close>

datatype frame_event =
    EvBegin frame_header | EvData u32 bytes bool | EvBlock u32 bytes | EvBlockEnd u32 bool
  | EvPriority u32 priority_param | EvReset u32 error_code | EvSetting setting_t | EvSettingsEnd bool
  | EvPush u32 u32 | EvPing bytes bool | EvGoAway u32 error_code | EvDebug bytes | EvWindow u32 u32
  | EvUnknown frame_header bytes | EvComplete frame_header

fun event_call :: "'s frame_callbacks \<Rightarrow> frame_event \<Rightarrow> 's effect option" where
  "event_call t (EvBegin h) = map_option (\<lambda>f. f h) (fcFrameBegin t)"
| "event_call t (EvData i data e) = map_option (\<lambda>f. f i data e) (fcData t)"
| "event_call t (EvBlock i data) = map_option (\<lambda>f. f i data) (fcHeaderBlock t)"
| "event_call t (EvBlockEnd i e) = map_option (\<lambda>f. f i e) (fcHeaderBlockEnd t)"
| "event_call t (EvPriority i pr) = map_option (\<lambda>f. f i pr) (fcPriority t)"
| "event_call t (EvReset i c) = map_option (\<lambda>f. f i c) (fcRSTStream t)"
| "event_call t (EvSetting st) = map_option (\<lambda>f. f st) (fcSetting t)"
| "event_call t (EvSettingsEnd ack) = map_option (\<lambda>f. f ack) (fcSettingsEnd t)"
| "event_call t (EvPush i j) = map_option (\<lambda>f. f i j) (fcPushPromise t)"
| "event_call t (EvPing data ack) = map_option (\<lambda>f. f data ack) (fcPing t)"
| "event_call t (EvGoAway i c) = map_option (\<lambda>f. f i c) (fcGoAway t)"
| "event_call t (EvDebug data) = map_option (\<lambda>f. f data) (fcGoAwayDebug t)"
| "event_call t (EvWindow i n) = map_option (\<lambda>f. f i n) (fcWindowUpdate t)"
| "event_call t (EvUnknown h data) = map_option (\<lambda>f. f h data) (fcUnknown t)"
| "event_call t (EvComplete h) = map_option (\<lambda>f. f h) (fcFrameComplete t)"

definition deliver :: "'s frame_callbacks option \<Rightarrow> frame_event \<Rightarrow> 's \<Rightarrow> 's" where
  "deliver cb ev s =
     (case cb of
        None \<Rightarrow> s
      | Some t \<Rightarrow> (case event_call t ev of None \<Rightarrow> s | Some g \<Rightarrow> fst (g s)))"

text \<open>A client that does not call the parser from its callbacks.\<close>

locale quiet_callbacks =
  fixes cb :: "'s frame_callbacks option"
  assumes no_reentry: "cb = Some t \<Longrightarrow> event_call t ev = Some g \<Longrightarrow> \<not> snd (g s)"
begin

lemma fire_event: "fire cb (\<lambda>t. event_call t ev) p s = (p, deliver cb ev s)"
  using no_reentry [of _ ev _ s] by (auto simp: fire_def invoke_def deliver_def case_prod_beta split: option.splits)

lemmas fire_quiet = fire_event [of "EvBegin h" for h, simplified] fire_event [of "EvData i data e" for i data e, simplified]
  fire_event [of "EvBlock i data" for i data, simplified] fire_event [of "EvBlockEnd i e" for i e, simplified]
  fire_event [of "EvPriority i pr" for i pr, simplified] fire_event [of "EvReset i c" for i c, simplified]
  fire_event [of "EvSetting st" for st, simplified] fire_event [of "EvSettingsEnd e" for e, simplified]
  fire_event [of "EvPush i j" for i j, simplified] fire_event [of "EvPing data e" for data e, simplified]
  fire_event [of "EvGoAway i c" for i c, simplified] fire_event [of "EvDebug data" for data, simplified]
  fire_event [of "EvWindow i n" for i n, simplified] fire_event [of "EvUnknown h data" for h data, simplified]
  fire_event [of "EvComplete h" for h, simplified]

end

subsection \<open>What a frame means\<close>

text \<open>Reading yields deliveries and, unless it fails, a result.\<close>

type_synonym 'a reading = "frame_event list \<times> (frame_code + 'a)"

fun andThen :: "'a reading \<Rightarrow> ('a \<Rightarrow> 'b reading) \<Rightarrow> 'b reading" where
  "andThen (evs, Inl c) f = (evs, Inl c)"
| "andThen (evs, Inr x) f = (evs @ fst (f x), snd (f x))"

text \<open>The header block that is open between frames.\<close>

record header_state =
  hsStream :: u32
  hsCount :: u32
  hsBytes :: u64
  hsEnd :: bool

definition admitFrame :: "frame_limits \<Rightarrow> header_state \<Rightarrow> frame_header \<Rightarrow> header_state reading" where
  "admitFrame l hs h =
     ([], if MaxFrameSize l < fhLength h then Inl FCodeFrameTooLarge
          else if hsStream hs \<noteq> 0 \<and> (fhType h \<noteq> FrameContinuation \<or> fhStreamID h \<noteq> hsStream hs)
          then Inl FCodeInvalidContinuation
          else if hsStream hs \<noteq> 0 \<and> MaxContinuationFrames l < hsCount hs + 1
          then Inl FCodeTooManyContinuations
          else if hsStream hs = 0 \<and> fhType h = FrameContinuation then Inl FCodeInvalidContinuation
          else if validateFrameHeader h \<noteq> FCodeNone then Inl (validateFrameHeader h)
          else Inr (if hsStream hs \<noteq> 0 then hs\<lparr>hsCount := hsCount hs + 1\<rparr>
                    else if fhType h = FrameHeaders then hs\<lparr>hsEnd := Has (fhFlags h) FlagEndStream\<rparr>
                    else hs))"

text \<open>The payload without its padding; the padding must leave the given number of octets.\<close>

definition unpad :: "frame_flags \<Rightarrow> nat \<Rightarrow> bytes \<Rightarrow> bytes option" where
  "unpad flags minimum payload =
     (if Has flags FlagPadded then
        let pad = unat (hd payload) in
        if length payload < 1 + minimum + pad then None
        else Some (take (length payload - 1 - pad) (tl payload))
      else Some payload)"

definition readBlock :: "frame_limits \<Rightarrow> u64 \<Rightarrow> u32 \<Rightarrow> bytes \<Rightarrow> u64 reading" where
  "readBlock l n i body =
     (if body = [] then ([], Inr n)
      else if MaxHeaderBlockBytes l < n + of_nat (length body) then ([], Inl FCodeHeaderBlockTooLarge)
      else ([EvBlock i body], Inr (n + of_nat (length body))))"

fun readSettings :: "bytes \<Rightarrow> unit reading" where
  "readSettings (a # b # c # d # e # f # rest) =
     (let st = decodeSetting [a, b, c, d, e, f] in
      if validSetting st then andThen ([EvSetting st], Inr ()) (\<lambda>_. readSettings rest)
      else ([], Inl FCodeInvalidSetting))"
| "readSettings bs = ([], Inr ())"

definition readPayload :: "frame_limits \<Rightarrow> u64 \<Rightarrow> frame_header \<Rightarrow> bytes \<Rightarrow> u64 reading" where
  "readPayload l n h payload =
     (let i = fhStreamID h; flags = fhFlags h in
      if fhType h = FrameData then
        (case unpad flags 0 payload of
           None \<Rightarrow> ([], Inl FCodeInvalidPadding)
         | Some body \<Rightarrow> (if body = [] then [] else [EvData i body (Has flags FlagEndStream)], Inr n))
      else if fhType h = FrameHeaders then
        (case unpad flags (if Has flags FlagPriority then 5 else 0) payload of
           None \<Rightarrow> ([], Inl FCodeInvalidPadding)
         | Some body \<Rightarrow>
             if Has flags FlagPriority then
               let priority = decodePriority (take 5 body) in
               if StreamDependency priority = i then ([], Inl FCodeInvalidPriority)
               else andThen ([EvPriority i priority], Inr ()) (\<lambda>_. readBlock l n i (drop 5 body))
             else readBlock l n i body)
      else if fhType h = FramePushPromise then
        (case unpad flags 4 payload of
           None \<Rightarrow> ([], Inl FCodeInvalidPadding)
         | Some body \<Rightarrow>
             let promised = Uint32 (take 4 body) AND 0x7fffffff in
             if promised = 0 then ([], Inl FCodeInvalidStreamID)
             else andThen ([EvPush i promised], Inr ()) (\<lambda>_. readBlock l n i (drop 4 body)))
      else if fhType h = FrameContinuation then readBlock l n i payload
      else if fhType h = FrameSettings then andThen (readSettings payload) (\<lambda>_. ([], Inr n))
      else if fhType h = FrameGoAway
      then (if length payload = 8 then [] else [EvDebug (drop 8 payload)], Inr n)
      else if fhType h = FramePriority \<or> fhType h = FrameRSTStream \<or> fhType h = FramePing \<or>
          fhType h = FrameWindowUpdate then ([], Inr n)
      else (if payload = [] then [] else [EvUnknown h payload], Inr n))"

definition readClosing :: "frame_header \<Rightarrow> bytes \<Rightarrow> unit reading" where
  "readClosing h payload =
     (let i = fhStreamID h in
      if fhType h = FramePriority then
        (let priority = decodePriority payload in
         if StreamDependency priority = i then ([], Inl FCodeInvalidPriority)
         else ([EvPriority i priority], Inr ()))
      else if fhType h = FrameRSTStream then ([EvReset i (Uint32 payload)], Inr ())
      else if fhType h = FrameSettings then ([EvSettingsEnd (Has (fhFlags h) FlagACK)], Inr ())
      else if fhType h = FramePing then ([EvPing payload (Has (fhFlags h) FlagACK)], Inr ())
      else if fhType h = FrameGoAway
      then ([EvGoAway (Uint32 (take 4 payload) AND 0x7fffffff) (Uint32 (take 4 (drop 4 payload)))], Inr ())
      else if fhType h = FrameWindowUpdate then
        (let increment = Uint32 payload AND 0x7fffffff in
         if increment = 0 then ([], Inl FCodeInvalidWindowUpdate) else ([EvWindow i increment], Inr ()))
      else ([], Inr ()))"

definition readBlockEnd :: "frame_header \<Rightarrow> header_state \<Rightarrow> header_state reading" where
  "readBlockEnd h hs =
     (if fhType h = FrameHeaders \<or> fhType h = FramePushPromise \<or> fhType h = FrameContinuation then
        if Has (fhFlags h) FlagEndHeaders
        then ([EvBlockEnd (fhStreamID h) (hsEnd hs)], Inr \<lparr>hsStream = 0, hsCount = 0, hsBytes = 0, hsEnd = False\<rparr>)
        else ([], Inr (if hsStream hs = 0 then hs\<lparr>hsStream := fhStreamID h, hsCount := 0\<rparr> else hs))
      else ([], Inr hs))"

definition readFrame :: "frame_limits \<Rightarrow> header_state \<Rightarrow> frame_header \<Rightarrow> bytes \<Rightarrow> header_state reading" where
  "readFrame l hs h payload =
     andThen (admitFrame l hs h) (\<lambda>hs.
     andThen ([EvBegin h], Inr ()) (\<lambda>_.
     andThen (readPayload l (hsBytes hs) h payload) (\<lambda>n.
     andThen (readClosing h payload) (\<lambda>_.
     andThen (readBlockEnd h (hs\<lparr>hsBytes := n\<rparr>)) (\<lambda>hs. ([EvComplete h], Inr hs))))))"

fun readFrames :: "frame_limits \<Rightarrow> header_state \<Rightarrow> (frame_header \<times> bytes) list \<Rightarrow> header_state reading" where
  "readFrames l hs [] = ([], Inr hs)"
| "readFrames l hs ((h, payload) # fs) = andThen (readFrame l hs h payload) (\<lambda>hs. readFrames l hs fs)"

subsection \<open>Payloads in one piece\<close>

text \<open>What a frame leaves alone in the parser.\<close>

definition frame_core :: "frame_parser \<Rightarrow> frame_parser" where
  "frame_core p = p\<lparr>fPrefix := [], fPrefixN := 0, fPrefixNeed := 0, fPadLength := 0, fContentN := 0,
     fPayloadN := 0, fState := payloadStart\<rparr>"

lemma core_sel:
  assumes "frame_core q = (frame_core p)\<lparr>fHeaderBlockBytes := n\<rparr>"
  shows "fLimits q = fLimits p" "fCode q = fCode p" "fParsing q = fParsing p"
    "fPauseAfterFrame q = fPauseAfterFrame p" "fPaused q = fPaused p" "fCurrent q = fCurrent p"
    "fContinuationStream q = fContinuationStream p" "fContinuationCount q = fContinuationCount p"
    "fHeaderBlockBytes q = n" "fHeaderBlockEndStream q = fHeaderBlockEndStream p" "fHeader q = fHeader p"
  using arg_cong [OF assms, of fHeader] arg_cong [OF assms, of fLimits] arg_cong [OF assms, of fCode] arg_cong [OF assms, of fParsing]
    arg_cong [OF assms, of fPauseAfterFrame] arg_cong [OF assms, of fPaused] arg_cong [OF assms, of fCurrent]
    arg_cong [OF assms, of fContinuationStream] arg_cong [OF assms, of fContinuationCount]
    arg_cong [OF assms, of fHeaderBlockBytes] arg_cong [OF assms, of fHeaderBlockEndStream]
  by (simp_all add: frame_core_def)

text \<open>The parser at the start of a payload.\<close>

definition at_payload :: "frame_parser \<Rightarrow> bytes \<Rightarrow> bool" where
  "at_payload p payload \<longleftrightarrow> fCode p = FCodeNone \<and> fPayloadN p = 0 \<and> fState p = payloadStart \<and> fPrefixN p = 0 \<and>
     fPadLength p = 0 \<and> fContentN p = 0 \<and> length (fPrefix p) = 8 \<and>
     fhLength (fCurrent p) = of_nat (length payload) \<and> length payload < 2 ^ 24"

text \<open>The payload functions agree with a reading.\<close>

definition reads ::
  "'s frame_callbacks option \<Rightarrow> frame_parser \<Rightarrow> 's \<Rightarrow> bytes \<Rightarrow> u64 reading \<Rightarrow> 's payload_result \<Rightarrow> bool" where
  "reads cb p s rest r out \<longleftrightarrow>
     (case out of (q, t, src, finished, c) \<Rightarrow>
      t = fold (deliver cb) (fst r) s \<and>
      (case snd r of
         Inl x \<Rightarrow> c = x \<and> fCode q = x \<and> x \<noteq> FCodeNone
       | Inr n \<Rightarrow> c = FCodeNone \<and> finished \<and> src = rest \<and> length (fPrefix q) = 8 \<and>
           frame_core q = (frame_core p)\<lparr>fHeaderBlockBytes := n\<rparr>))"

lemma len32: "length (xs :: bytes) < 2 ^ 24 \<Longrightarrow> unat (of_nat (length xs) :: u32) = length xs"
  by (simp add: unat_of_nat take_bit_nat_eq_self)

lemma unat_up8: "unat (ucast (b :: u8) :: u32) = unat b"
  using unsigned_less [of b, where 'a = nat] by (simp add: unsigned_ucast_eq take_bit_nat_eq_self)

lemma readPad:
  assumes "at_payload p payload" "payload \<noteq> []"
    and "(if Has (fhFlags (fCurrent p)) FlagPadded then 1 else 0) + minimum \<le> length payload"
  shows "case unpad (fhFlags (fCurrent p)) minimum payload of
     None \<Rightarrow> \<exists>q src. readPadLength (of_nat minimum) p (payload @ rest) = (q, src, True) \<and> fCode q = FCodeInvalidPadding
   | Some body \<Rightarrow> \<exists>pad padding.
       readPadLength (of_nat minimum) p (payload @ rest) =
         (p\<lparr>fPadLength := of_nat (length padding), fPayloadN := of_nat pad\<rparr>, body @ padding @ rest, False) \<and>
       pad \<le> 1 \<and> pad + length body + length padding = length payload \<and> length padding < 256 \<and> minimum \<le> length body"
proof (cases "Has (fhFlags (fCurrent p)) FlagPadded")
  case True
  obtain b bs where pl: "payload = b # bs" using assms(2) by (cases payload) auto
  have l: "Suc (length bs) < 2 ^ 24" "fhLength (fCurrent p) = of_nat (Suc (length bs))" "fPayloadN p = 0"
    using assms(1) by (simp_all add: at_payload_def pl)
  have min: "minimum \<le> length bs" using assms(3) True by (simp add: pl)
  have "fhLength (fCurrent p) - 1 - of_nat minimum = (of_nat (length bs - minimum) :: u32)"
    using min by (simp add: l(2) of_nat_diff)
  moreover have "(of_nat (length bs - minimum) :: u32) < ucast b \<longleftrightarrow> length bs - minimum < unat b"
    using l(1) by (simp add: word_less_nat_alt unat_of_nat take_bit_nat_eq_self unat_up8)
  ultimately have bad: "fhLength (fCurrent p) - 1 - of_nat minimum < (ucast b :: u32) \<longleftrightarrow> length bs - minimum < unat b"
    by simp
  show ?thesis
  proof (cases "length bs - minimum < unat b")
    case True
    then have "unpad (fhFlags (fCurrent p)) minimum payload = None"
      using \<open>Has (fhFlags (fCurrent p)) FlagPadded\<close> min by (simp add: unpad_def pl Let_def)
    moreover have "fCode p = FCodeNone" using assms(1) by (simp add: at_payload_def)
    ultimately show ?thesis using \<open>Has (fhFlags (fCurrent p)) FlagPadded\<close> bad True l(3)
      by (simp add: readPadLength_def pl Let_def frameFail_def)
  next
    case False
    define k where "k = length bs - unat b"
    have "unpad (fhFlags (fCurrent p)) minimum payload = Some (take k bs)"
      using \<open>Has (fhFlags (fCurrent p)) FlagPadded\<close> min False by (simp add: unpad_def pl Let_def k_def)
    moreover have "readPadLength (of_nat minimum) p (payload @ rest) =
         (p\<lparr>fPadLength := of_nat (length (drop k bs)), fPayloadN := of_nat 1\<rparr>, take k bs @ drop k bs @ rest, False)"
      using \<open>Has (fhFlags (fCurrent p)) FlagPadded\<close> bad False l(3) min
      by (simp add: readPadLength_def pl Let_def k_def)
    moreover have "minimum \<le> length (take k bs)" "length (drop k bs) < 256"
      "1 + length (take k bs) + length (drop k bs) = length payload"
      using False min unsigned_less [of b, where 'a = nat] by (simp_all add: k_def pl)
    ultimately show ?thesis by (simp only: option.case) blast
  qed
next
  case False
  then have "readPadLength (of_nat minimum) p (payload @ rest) =
         (p\<lparr>fPadLength := of_nat (length ([] :: bytes)), fPayloadN := of_nat 0\<rparr>, payload @ [] @ rest, False)"
    using assms(1) by (simp add: readPadLength_def at_payload_def)
  then show ?thesis using False assms(3) by (auto simp: unpad_def)
qed

lemma unat_small: "n < 2 ^ 24 \<Longrightarrow> unat (of_nat n :: u32) = n"
  by (simp add: unat_of_nat take_bit_nat_eq_self)

lemma of_nat_zero: "n < 2 ^ 24 \<Longrightarrow> (of_nat n :: u32) = 0 \<longleftrightarrow> n = 0"
  using unat_small [of n] by (simp add: unat_eq_0 [symmetric] del: unat_eq_0)

lemma begins_content:
  assumes "fhLength (fCurrent p) = of_nat (k + length body + length padding)"
    and "fPayloadN p = of_nat k" "fPadLength p = of_nat (length padding)"
  shows "beginContent p = p\<lparr>fContentN := of_nat (length body), fState := payloadContent\<rparr>"
  using assms by (simp add: beginContent_def)

lemma skip_all:
  assumes "fState p = payloadPadding \<or> fState p = payloadContent \<and> fContentN p = 0"
    and "fhLength (fCurrent p) - fPayloadN p = of_nat (length padding)" "length padding < 2 ^ 24"
  shows "\<exists>q. skipPadding p (padding @ rest) = (q, rest) \<and> frameDone q \<and> frame_core q = frame_core p \<and> fPrefix q = fPrefix p"
proof -
  define p1 where "p1 = p\<lparr>fState := payloadPadding\<rparr>"
  have p1: "(if fState p = payloadContent \<and> fContentN p = 0 then p\<lparr>fState := payloadPadding\<rparr> else p) = p1"
    using assms(1) by (auto simp: p1_def)
  have n: "unat (fhLength (fCurrent p) - fPayloadN p) = length padding" using assms(2,3) by (simp add: unat_small)
  have len: "fPayloadN p + of_nat (length padding) = fhLength (fCurrent p)" using assms(2) by (simp add: algebra_simps)
  show ?thesis
  proof (cases "padding @ rest = []")
    case True
    then have "skipPadding p (padding @ rest) = (p1, [])" by (simp add: skipPadding_def p1 Let_def p1_def [symmetric])
    moreover have "frameDone p1" using len True by (simp add: frameDone_def p1_def)
    ultimately show ?thesis using True by (auto simp: p1_def frame_core_def)
  next
    case False
    then have "skipPadding p (padding @ rest) = (p1\<lparr>fPayloadN := fhLength (fCurrent p)\<rparr>, rest)"
      using n len by (simp add: skipPadding_def p1 Let_def p1_def)
    then show ?thesis by (auto simp: p1_def frameDone_def frame_core_def)
  qed
qed

lemma core_same: "frame_core q = frame_core p \<Longrightarrow> frame_core q = (frame_core p)\<lparr>fHeaderBlockBytes := fHeaderBlockBytes p\<rparr>"
  by (simp add: frame_core_def)

context quiet_callbacks
begin

lemma deliver_body:
  assumes "fState p = payloadContent" "fContentN p = of_nat (length body)" "length body < 2 ^ 24"
  shows "deliverData cb p s (body @ src) =
     (p\<lparr>fContentN := 0, fPayloadN := fPayloadN p + of_nat (length body)\<rparr>,
      fold (deliver cb) (if body = [] then [] else [EvData (fhStreamID (fCurrent p)) body (Has (fhFlags (fCurrent p)) FlagEndStream)]) s, src)"
proof (cases "body = []")
  case True
  then show ?thesis using assms by (simp add: deliverData_def)
next
  case False
  then show ?thesis using assms
    by (simp add: deliverData_def Let_def fire_quiet unat_small of_nat_zero)
qed

lemma data_reads:
  assumes p: "at_payload p payload" "payload \<noteq> []" and t: "fhType (fCurrent p) = FrameData"
    and v: "validateFrameHeader (fCurrent p) = FCodeNone"
  shows "reads cb p s rest (readPayload (fLimits p) (fHeaderBlockBytes p) (fCurrent p) payload)
     (parseData cb p s (payload @ rest))"
proof -
  have "(if Has (fhFlags (fCurrent p)) FlagPadded then 1 else 0) + 0 \<le> length payload"
    using p(2) by (cases payload) auto
  note pad = readPad [OF p this, of rest]
  have start: "fState p = payloadStart" using p(1) by (simp add: at_payload_def)
  show ?thesis
  proof (cases "unpad (fhFlags (fCurrent p)) 0 payload")
    case None
    then obtain q src where "readPadLength 0 p (payload @ rest) = (q, src, True)" "fCode q = FCodeInvalidPadding"
      using pad by auto
    then show ?thesis using None t start by (simp add: reads_def readPayload_def parseData_def)
  next
    case (Some body)
    then obtain k padding where r: "readPadLength 0 p (payload @ rest) =
         (p\<lparr>fPadLength := of_nat (length padding), fPayloadN := of_nat k\<rparr>, body @ padding @ rest, False)"
      and sum: "k + length body + length padding = length payload"
      using pad by auto
    define p1 where "p1 = p\<lparr>fPadLength := of_nat (length padding), fPayloadN := of_nat k\<rparr>"
    have len: "fhLength (fCurrent p) = of_nat (length payload)" "length payload < 2 ^ 24"
      using p(1) by (simp_all add: at_payload_def)
    have b: "beginContent p1 = p1\<lparr>fContentN := of_nat (length body), fState := payloadContent\<rparr>"
      by (rule begins_content) (simp_all add: p1_def len sum)
    define p2 where "p2 = p1\<lparr>fState := payloadContent, fContentN := 0, fPayloadN := fPayloadN p1 + of_nat (length body)\<rparr>"
    have d: "deliverData cb (p1\<lparr>fContentN := of_nat (length body), fState := payloadContent\<rparr>) s (body @ padding @ rest) =
      (p2, fold (deliver cb) (if body = [] then [] else [EvData (fhStreamID (fCurrent p)) body (Has (fhFlags (fCurrent p)) FlagEndStream)]) s, padding @ rest)"
      by (subst deliver_body) (use len sum in \<open>simp_all add: p2_def p1_def\<close>)
    have "fhLength (fCurrent p2) - fPayloadN p2 = of_nat (length padding)"
      by (simp add: p2_def p1_def len sum [symmetric])
    then obtain q where q: "skipPadding p2 (padding @ rest) = (q, rest)" "frameDone q" "frame_core q = frame_core p2" "fPrefix q = fPrefix p2"
      using skip_all [of p2 padding rest] len sum by (auto simp: p2_def)
    have "parseData cb p s (payload @ rest) = (q, fold (deliver cb) (if body = [] then [] else [EvData (fhStreamID (fCurrent p)) body (Has (fhFlags (fCurrent p)) FlagEndStream)]) s, rest, True, FCodeNone)"
      using start r b d q by (simp add: parseData_def p1_def [symmetric])
    moreover have "frame_core q = (frame_core p)\<lparr>fHeaderBlockBytes := fHeaderBlockBytes p\<rparr>"
      using q(3) by (simp add: p2_def p1_def frame_core_def)
    moreover have "length (fPrefix q) = 8" using q(4) p(1) by (simp add: p2_def p1_def at_payload_def)
    ultimately show ?thesis using Some t by (simp add: reads_def readPayload_def)
  qed
qed

end

lemma reads_emit:
  "reads cb p (deliver cb ev s) rest r out \<Longrightarrow> reads cb p s rest (andThen ([ev], Inr ()) (\<lambda>_. r)) out"
  by (simp add: reads_def)

lemma reads_core: "frame_core p = frame_core q \<Longrightarrow> reads cb p s rest r out \<Longrightarrow> reads cb q s rest r out"
  unfolding reads_def by (elim subst)

lemma copy_prefix:
  assumes "fPrefixNeed p = of_nat (length pre)" "fPrefixN p = 0" "length (fPrefix p) = 8" "length pre \<le> 8"
  shows "copyPrefix p (pre @ src) = (p\<lparr>fPrefix := pre @ drop (length pre) (fPrefix p),
     fPrefixN := of_nat (length pre), fPayloadN := fPayloadN p + of_nat (length pre)\<rparr>, src)"
proof -
  have "unat (of_nat (length pre) :: u8) = length pre" using assms(4) by (simp add: unat_of_nat take_bit_nat_eq_self)
  then show ?thesis using assms by (simp add: copyPrefix_def Let_def copy_at_def)
qed

context quiet_callbacks
begin

lemma fragment_reads:
  assumes "fCode p = FCodeNone" "n = of_nat (length body)" "length body < 2 ^ 24" "body \<noteq> []"
  shows "parseHeaderFragment cb p s (body @ src) n =
     (if MaxHeaderBlockBytes (fLimits p) < fHeaderBlockBytes p + of_nat (length body)
      then (p\<lparr>fCode := FCodeHeaderBlockTooLarge\<rparr>, s, body @ src, False, FCodeHeaderBlockTooLarge)
      else let q = p\<lparr>fHeaderBlockBytes := fHeaderBlockBytes p + of_nat (length body), fPayloadN := fPayloadN p + n\<rparr>
           in (if fState p = payloadContent then q\<lparr>fContentN := fContentN p - n\<rparr> else q,
               deliver cb (EvBlock (fhStreamID (fCurrent p)) body) s, src, True, FCodeNone))"
  using assms by (simp add: parseHeaderFragment_def Let_def unat_small fire_quiet frameFail_def)

lemma content_reads:
  assumes "fState p = payloadContent" "fContentN p = of_nat (length body)" "fCode p = FCodeNone" "length (fPrefix p) = 8"
    and len: "fhLength (fCurrent p) - fPayloadN p = of_nat (length body + length padding)" "length body + length padding < 2 ^ 24"
  shows "reads cb p s rest (readBlock (fLimits p) (fHeaderBlockBytes p) (fhStreamID (fCurrent p)) body)
     (parseHeaderContentAndPadding cb p s (body @ padding @ rest))"
proof (cases "body = []")
  case True
  have "\<exists>q. skipPadding p (padding @ rest) = (q, rest) \<and> frameDone q \<and> frame_core q = frame_core p \<and> fPrefix q = fPrefix p"
    by (rule skip_all) (use assms True in simp_all)
  then obtain q where q: "skipPadding p (padding @ rest) = (q, rest)" "frameDone q" "frame_core q = frame_core p" "fPrefix q = fPrefix p"
    by blast
  show ?thesis using assms(1-4) True q(1,2,4) core_same [OF q(3)]
    by (simp add: parseHeaderContentAndPadding_def readBlock_def reads_def)
next
  case False
  have ne: "fContentN p \<noteq> 0" using False assms(2) len(2) by (simp add: of_nat_zero)
  have b: "length body < 2 ^ 24" using len(2) by simp
  note f = fragment_reads [OF assms(3,2) b False, of s "padding @ rest"]
  show ?thesis
  proof (cases "MaxHeaderBlockBytes (fLimits p) < fHeaderBlockBytes p + of_nat (length body)")
    case True
    then show ?thesis using f assms(1) ne False by (simp add: parseHeaderContentAndPadding_def readBlock_def reads_def)
  next
    case ok: False
    define q where "q = p\<lparr>fHeaderBlockBytes := fHeaderBlockBytes p + of_nat (length body),
        fPayloadN := fPayloadN p + of_nat (length body), fContentN := 0, fState := payloadPadding\<rparr>"
    have "\<exists>r. skipPadding q (padding @ rest) = (r, rest) \<and> frameDone r \<and> frame_core r = frame_core q \<and> fPrefix r = fPrefix q"
      by (rule skip_all) (use len in \<open>simp_all add: q_def algebra_simps\<close>)
    then obtain r where r: "skipPadding q (padding @ rest) = (r, rest)" "frameDone r" "frame_core r = frame_core q" "fPrefix r = fPrefix q"
      by blast
    have "parseHeaderContentAndPadding cb p s (body @ padding @ rest) =
        (r, deliver cb (EvBlock (fhStreamID (fCurrent p)) body) s, rest, True, FCodeNone)"
      using f ok assms(1,2) ne False r by (simp add: parseHeaderContentAndPadding_def Let_def q_def)
    moreover have "frame_core r = (frame_core p)\<lparr>fHeaderBlockBytes := fHeaderBlockBytes p + of_nat (length body)\<rparr>"
      using r(3) by (simp add: q_def frame_core_def)
    ultimately show ?thesis using ok False r(4) assms(4) by (simp add: readBlock_def reads_def q_def)
  qed
qed

end

lemma not_less_small: "\<not> (of_nat n :: u32) < m \<Longrightarrow> n < 2 ^ 24 \<Longrightarrow> unat m \<le> n"
  by (simp add: word_less_nat_alt unat_small)

lemma headers_minimum:
  assumes "validateFrameHeader h = FCodeNone" "fhLength h = of_nat n" "n < 2 ^ 24"
  shows "fhType h = FrameHeaders \<Longrightarrow>
      (if Has (fhFlags h) FlagPadded then 1 else 0) + (if Has (fhFlags h) FlagPriority then 5 else 0) \<le> n"
    and "fhType h = FramePushPromise \<Longrightarrow> (if Has (fhFlags h) FlagPadded then 1 else 0) + 4 \<le> n"
    and "fhType h = FramePriority \<Longrightarrow> n = 5" "fhType h = FrameRSTStream \<or> fhType h = FrameWindowUpdate \<Longrightarrow> n = 4"
    and "fhType h = FramePing \<Longrightarrow> n = 8" "fhType h = FrameGoAway \<Longrightarrow> 8 \<le> n"
proof -
  have eq: "n = unat m" if "(of_nat n :: u32) = m" for m using that assms(3) by (metis unat_small)
  note v = assms(1) [unfolded validateFrameHeader_def Let_def assms(2)]
  show "fhType h = FrameHeaders \<Longrightarrow>
      (if Has (fhFlags h) FlagPadded then 1 else 0) + (if Has (fhFlags h) FlagPriority then 5 else 0) \<le> n"
    using v by (auto simp: of_nat_zero [OF assms(3)] Suc_le_eq split: if_splits dest!: not_less_small [OF _ assms(3)])
  show "fhType h = FramePushPromise \<Longrightarrow> (if Has (fhFlags h) FlagPadded then 1 else 0) + 4 \<le> n"
    using v by (auto split: if_splits dest!: not_less_small [OF _ assms(3)])
  show "fhType h = FramePriority \<Longrightarrow> n = 5" using v eq [of 5] by (simp split: if_splits)
  show "fhType h = FrameRSTStream \<or> fhType h = FrameWindowUpdate \<Longrightarrow> n = 4" using v eq [of 4] by (auto split: if_splits)
  show "fhType h = FramePing \<Longrightarrow> n = 8" using v eq [of 8] by (simp split: if_splits)
  show "fhType h = FrameGoAway \<Longrightarrow> 8 \<le> n" using v not_less_small [OF _ assms(3), of 8] by (simp split: if_splits)
qed

context quiet_callbacks
begin

text \<open>The prefix of a HEADERS or PUSH_PROMISE payload, then its fragment of the block.\<close>

lemma prefix_content:
  assumes p: "fCode p = FCodeNone" "length (fPrefix p) = 8" "fPrefixN p = 0" "fPrefixNeed p = of_nat (length pre)"
    and len: "fhLength (fCurrent p) = of_nat (k + length pre + length body + length padding)"
    "fPayloadN p = of_nat k" "fPadLength p = of_nat (length padding)" "k + length pre + length body + length padding < 2 ^ 24"
    and pre: "length pre \<le> 8"
  shows "\<exists>q. copyPrefix p (pre @ body @ padding @ rest) = (q, body @ padding @ rest) \<and> fPrefixN q = fPrefixNeed q \<and>
     fPrefix q = pre @ drop (length pre) (fPrefix p) \<and> fCurrent q = fCurrent p \<and> fCode q = FCodeNone \<and>
     (\<forall>s. reads cb p s rest (readBlock (fLimits p) (fHeaderBlockBytes p) (fhStreamID (fCurrent p)) body)
       (parseHeaderContentAndPadding cb (beginContent q) s (body @ padding @ rest)))"
proof -
  define q where "q = p\<lparr>fPrefix := pre @ drop (length pre) (fPrefix p), fPrefixN := of_nat (length pre),
      fPayloadN := fPayloadN p + of_nat (length pre)\<rparr>"
  have c: "copyPrefix p (pre @ body @ padding @ rest) = (q, body @ padding @ rest)"
    unfolding q_def by (rule copy_prefix) (use p pre in simp_all)
  have b: "beginContent q = q\<lparr>fContentN := of_nat (length body), fState := payloadContent\<rparr>"
    by (rule begins_content [where k = "k + length pre"]) (use len in \<open>simp_all add: q_def\<close>)
  have core: "frame_core (beginContent q) = frame_core p" unfolding b by (simp add: q_def frame_core_def)
  have "reads cb (beginContent q) s rest (readBlock (fLimits p) (fHeaderBlockBytes p) (fhStreamID (fCurrent p)) body)
       (parseHeaderContentAndPadding cb (beginContent q) s (body @ padding @ rest))" for s
    using content_reads [of "q\<lparr>fContentN := of_nat (length body), fState := payloadContent\<rparr>" body padding s rest] p len pre
    unfolding b by (simp add: q_def)
  note reads_core [OF core this]
  then show ?thesis using c p(1,4) by (auto simp: q_def)
qed

lemma headers_reads:
  assumes p: "at_payload p payload" "payload \<noteq> []" and t: "fhType (fCurrent p) = FrameHeaders"
    and v: "validateFrameHeader (fCurrent p) = FCodeNone"
  shows "reads cb p s rest (readPayload (fLimits p) (fHeaderBlockBytes p) (fCurrent p) payload)
     (parseHeadersFrame cb p s (payload @ rest))"
proof -
  define m :: nat where "m = (if Has (fhFlags (fCurrent p)) FlagPriority then 5 else 0)"
  have pp: "fhLength (fCurrent p) = of_nat (length payload)" "length payload < 2 ^ 24" "fState p = payloadStart"
    "fCode p = FCodeNone" "length (fPrefix p) = 8" "fPrefixN p = 0"
    using p(1) by (simp_all add: at_payload_def)
  have "(if Has (fhFlags (fCurrent p)) FlagPadded then 1 else 0) + m \<le> length payload"
    using headers_minimum(1) [OF v pp(1,2) t] by (simp add: m_def)
  note pad = readPad [OF p this, of rest]
  have m': "(if Has (fhFlags (fCurrent p)) FlagPriority then 5 else 0) = (of_nat m :: u32)"
    "(if Has (fhFlags (fCurrent p)) FlagPriority then 5 else 0) = m" by (simp_all add: m_def)
  show ?thesis
  proof (cases "unpad (fhFlags (fCurrent p)) m payload")
    case None
    then obtain q src where "readPadLength (of_nat m) p (payload @ rest) = (q, src, True)" "fCode q = FCodeInvalidPadding"
      using pad by auto
    then show ?thesis using None t pp(3) by (simp add: reads_def readPayload_def parseHeadersFrame_def startHeaders_def m')
  next
    case (Some body)
    then obtain k padding where r: "readPadLength (of_nat m) p (payload @ rest) =
         (p\<lparr>fPadLength := of_nat (length padding), fPayloadN := of_nat k\<rparr>, body @ padding @ rest, False)"
      and sum: "k + length body + length padding = length payload" and m: "m \<le> length body"
      using pad by auto
    define p1 where "p1 = p\<lparr>fPadLength := of_nat (length padding), fPayloadN := of_nat k\<rparr>"
    note r1 = r [folded p1_def]
    have core: "frame_core p1 = frame_core p" by (simp add: p1_def frame_core_def)
    show ?thesis
    proof (cases "Has (fhFlags (fCurrent p)) FlagPriority")
      case False
      have b: "beginContent p1 = p1\<lparr>fContentN := of_nat (length body), fState := payloadContent\<rparr>"
        by (rule begins_content) (simp_all add: p1_def pp sum)
      have "reads cb (p1\<lparr>fContentN := of_nat (length body), fState := payloadContent\<rparr>) s rest
          (readBlock (fLimits p) (fHeaderBlockBytes p) (fhStreamID (fCurrent p)) body)
          (parseHeaderContentAndPadding cb (p1\<lparr>fContentN := of_nat (length body), fState := payloadContent\<rparr>) s (body @ padding @ rest))"
        using content_reads [of "p1\<lparr>fContentN := of_nat (length body), fState := payloadContent\<rparr>" body padding s rest]
          pp sum [symmetric] by (simp add: p1_def)
      then have "reads cb p s rest
          (readBlock (fLimits p) (fHeaderBlockBytes p) (fhStreamID (fCurrent p)) body)
          (parseHeaderContentAndPadding cb (p1\<lparr>fContentN := of_nat (length body), fState := payloadContent\<rparr>) s (body @ padding @ rest))"
        by (rule reads_core [rotated]) (simp add: p1_def frame_core_def)
      moreover have "parseHeadersFrame cb p s (payload @ rest) =
          parseHeaderContentAndPadding cb (p1\<lparr>fContentN := of_nat (length body), fState := payloadContent\<rparr>) s (body @ padding @ rest)"
        using r1 b False pp(3) by (simp add: parseHeadersFrame_def startHeaders_def m_def p1_def)
      ultimately show ?thesis using Some t False by (simp add: readPayload_def m_def)
    next
      case True
      define p2 where "p2 = p1\<lparr>fPrefixNeed := 5, fState := payloadPrefix\<rparr>"
      have m5: "m = 5" "length (take 5 body) = 5" using True m by (simp_all add: m_def)
      have "\<exists>q. copyPrefix p2 (take 5 body @ drop 5 body @ padding @ rest) = (q, drop 5 body @ padding @ rest) \<and> fPrefixN q = fPrefixNeed q \<and>
         fPrefix q = take 5 body @ drop (length (take 5 body)) (fPrefix p2) \<and> fCurrent q = fCurrent p2 \<and> fCode q = FCodeNone \<and>
         (\<forall>s. reads cb p2 s rest (readBlock (fLimits p2) (fHeaderBlockBytes p2) (fhStreamID (fCurrent p2)) (drop 5 body))
           (parseHeaderContentAndPadding cb (beginContent q) s (drop 5 body @ padding @ rest)))"
        by (rule prefix_content [where k = k]) (use pp sum m m5 in \<open>simp_all add: p2_def p1_def\<close>)
      then obtain q where q: "copyPrefix p2 (body @ padding @ rest) = (q, drop 5 body @ padding @ rest)" "fPrefixN q = fPrefixNeed q"
         "fPrefix q = take 5 body @ drop 5 (fPrefix p)" "fCurrent q = fCurrent p" "fCode q = FCodeNone"
         "\<And>s. reads cb p2 s rest (readBlock (fLimits p) (fHeaderBlockBytes p) (fhStreamID (fCurrent p)) (drop 5 body))
           (parseHeaderContentAndPadding cb (beginContent q) s (drop 5 body @ padding @ rest))"
        using m5 by (auto simp: p2_def p1_def simp flip: append_assoc)
      have c2: "frame_core p2 = frame_core p" by (simp add: p2_def p1_def frame_core_def)
      have sel: "fCurrent p1 = fCurrent p" "fState p2 = payloadPrefix" by (simp_all add: p2_def p1_def)
      have pre: "take 5 (fPrefix q) = take 5 body" using q(3) m5 by simp
      have eq: "parseHeadersFrame cb p s (payload @ rest) =
          (if StreamDependency (decodePriority (take 5 body)) = fhStreamID (fCurrent p)
           then (q\<lparr>fCode := FCodeInvalidPriority\<rparr>, s, drop 5 body @ padding @ rest, False, FCodeInvalidPriority)
           else parseHeaderContentAndPadding cb (beginContent q)
             (deliver cb (EvPriority (fhStreamID (fCurrent p)) (decodePriority (take 5 body))) s) (drop 5 body @ padding @ rest))"
        using r1 True pp(3) q(1,2,4,5) pre sel
        by (simp add: parseHeadersFrame_def startHeaders_def m5 p2_def [symmetric] Let_def fire_quiet frameFail_def)
      show ?thesis
      proof (cases "StreamDependency (decodePriority (take 5 body)) = fhStreamID (fCurrent p)")
        case True
        then show ?thesis using eq Some t m5 \<open>Has (fhFlags (fCurrent p)) FlagPriority\<close> by (simp add: readPayload_def reads_def Let_def)
      next
        case False
        have "reads cb p s rest (andThen ([EvPriority (fhStreamID (fCurrent p)) (decodePriority (take 5 body))], Inr ())
            (\<lambda>_. readBlock (fLimits p) (fHeaderBlockBytes p) (fhStreamID (fCurrent p)) (drop 5 body))) (parseHeadersFrame cb p s (payload @ rest))"
          using eq False by (simp only: if_False) (rule reads_emit [OF reads_core [OF c2 q(6)]])
        then show ?thesis using Some t m5 False True by (simp add: readPayload_def Let_def)
      qed
    qed
  qed
qed

end

lemma settings_step:
  assumes "fPrefixNeed p = 6" "fPrefixN p = 0" "length (fPrefix p) = 8"
  shows "copyPrefix p (a # b # c # d # e # f # src) = (p\<lparr>fPrefix := [a, b, c, d, e, f] @ drop 6 (fPrefix p),
     fPrefixN := 6, fPayloadN := fPayloadN p + 6\<rparr>, src)"
  using copy_prefix [of p "[a, b, c, d, e, f]" src] assms by (simp add: eval_nat_numeral)

lemma le_sub_plus:
  assumes "(p :: u32) \<le> l" "m \<le> l - p"
  shows "p + m \<le> l"
proof -
  have "unat (p + m) \<le> unat p + unat m" by (simp add: unat_word_ariths)
  also have "unat m \<le> unat l - unat p" using assms by (simp add: word_le_nat_alt unat_sub)
  finally show ?thesis using assms(1) by (simp add: word_le_nat_alt)
qed

text \<open>The payloads of fixed size stay in the prefix buffer.\<close>

lemma fixed_payload:
  assumes p: "at_payload p payload" and n: "length payload \<le> 8" "need = of_nat (length payload)"
  shows "\<exists>q. parseFixed p s (payload @ rest) need = (q, s, rest, True, FCodeNone) \<and>
     fPrefix q = payload @ drop (length payload) (fPrefix p) \<and> frame_core q = frame_core p"
proof -
  have pp: "fPrefixN p = 0" "length (fPrefix p) = 8" "fPayloadN p = 0" "fhLength (fCurrent p) = of_nat (length payload)"
    using p by (simp_all add: at_payload_def)
  have "copyPrefix (p\<lparr>fPrefixNeed := need\<rparr>) (payload @ rest) = (p\<lparr>fPrefixNeed := need,
     fPrefix := payload @ drop (length payload) (fPrefix p),
     fPrefixN := of_nat (length payload), fPayloadN := of_nat (length payload)\<rparr>, rest)"
    using copy_prefix [of "p\<lparr>fPrefixNeed := need\<rparr>" payload rest] n pp by simp
  then show ?thesis using pp by (simp add: parseFixed_def frameDone_def frame_core_def)
qed

context quiet_callbacks
begin

lemma push_reads:
  assumes p: "at_payload p payload" "payload \<noteq> []" and t: "fhType (fCurrent p) = FramePushPromise"
    and v: "validateFrameHeader (fCurrent p) = FCodeNone"
  shows "reads cb p s rest (readPayload (fLimits p) (fHeaderBlockBytes p) (fCurrent p) payload)
     (parsePushPromise cb p s (payload @ rest))"
proof -
  have pp: "fhLength (fCurrent p) = of_nat (length payload)" "length payload < 2 ^ 24" "fState p = payloadStart"
    "fCode p = FCodeNone" "length (fPrefix p) = 8" "fPrefixN p = 0"
    using p(1) by (simp_all add: at_payload_def)
  note pad = readPad [OF p headers_minimum(2) [OF v pp(1,2) t], of rest]
  show ?thesis
  proof (cases "unpad (fhFlags (fCurrent p)) 4 payload")
    case None
    then obtain q src where "readPadLength 4 p (payload @ rest) = (q, src, True)" "fCode q = FCodeInvalidPadding"
      using pad by auto
    then show ?thesis using None t pp(3) by (simp add: reads_def readPayload_def parsePushPromise_def startPushPromise_def)
  next
    case (Some body)
    then obtain k padding where r: "readPadLength 4 p (payload @ rest) =
         (p\<lparr>fPadLength := of_nat (length padding), fPayloadN := of_nat k\<rparr>, body @ padding @ rest, False)"
      and sum: "k + length body + length padding = length payload" and m: "4 \<le> length body"
      using pad by auto
    define p1 where "p1 = p\<lparr>fPadLength := of_nat (length padding), fPayloadN := of_nat k\<rparr>"
    define p2 where "p2 = p1\<lparr>fPrefixNeed := 4, fState := payloadPrefix\<rparr>"
    have m4: "length (take 4 body) = 4" using m by simp
    have "\<exists>q. copyPrefix p2 (take 4 body @ drop 4 body @ padding @ rest) = (q, drop 4 body @ padding @ rest) \<and> fPrefixN q = fPrefixNeed q \<and>
         fPrefix q = take 4 body @ drop (length (take 4 body)) (fPrefix p2) \<and> fCurrent q = fCurrent p2 \<and> fCode q = FCodeNone \<and>
         (\<forall>s. reads cb p2 s rest (readBlock (fLimits p2) (fHeaderBlockBytes p2) (fhStreamID (fCurrent p2)) (drop 4 body))
           (parseHeaderContentAndPadding cb (beginContent q) s (drop 4 body @ padding @ rest)))"
      by (rule prefix_content [where k = k]) (use pp sum m m4 in \<open>simp_all add: p2_def p1_def\<close>)
    then obtain q where q: "copyPrefix p2 (body @ padding @ rest) = (q, drop 4 body @ padding @ rest)" "fPrefixN q = fPrefixNeed q"
         "fPrefix q = take 4 body @ drop 4 (fPrefix p)" "fCurrent q = fCurrent p" "fCode q = FCodeNone"
         "\<And>s. reads cb p2 s rest (readBlock (fLimits p) (fHeaderBlockBytes p) (fhStreamID (fCurrent p)) (drop 4 body))
           (parseHeaderContentAndPadding cb (beginContent q) s (drop 4 body @ padding @ rest))"
      using m4 by (auto simp: p2_def p1_def simp flip: append_assoc)
    have c2: "frame_core p2 = frame_core p" by (simp add: p2_def p1_def frame_core_def)
    have sel: "fCurrent p1 = fCurrent p" "fState p2 = payloadPrefix" by (simp_all add: p2_def p1_def)
    have pre: "take 4 (fPrefix q) = take 4 body" using q(3) m4 by simp
    define j where "j = Uint32 (take 4 body) AND 0x7fffffff"
    have eq: "parsePushPromise cb p s (payload @ rest) =
          (if j = 0 then (q\<lparr>fCode := FCodeInvalidStreamID\<rparr>, s, drop 4 body @ padding @ rest, False, FCodeInvalidStreamID)
           else parseHeaderContentAndPadding cb (beginContent q) (deliver cb (EvPush (fhStreamID (fCurrent p)) j) s)
             (drop 4 body @ padding @ rest))"
      using r [folded p1_def] pp(3) q(1,2,4,5) pre sel
      by (simp add: parsePushPromise_def startPushPromise_def p2_def [symmetric] Let_def fire_quiet frameFail_def j_def [symmetric])
    show ?thesis
    proof (cases "j = 0")
      case True
      then show ?thesis using eq Some t by (simp add: readPayload_def reads_def Let_def j_def [symmetric])
    next
      case False
      have "reads cb p s rest (andThen ([EvPush (fhStreamID (fCurrent p)) j], Inr ())
            (\<lambda>_. readBlock (fLimits p) (fHeaderBlockBytes p) (fhStreamID (fCurrent p)) (drop 4 body))) (parsePushPromise cb p s (payload @ rest))"
        using eq False by (simp only: if_False) (rule reads_emit [OF reads_core [OF c2 q(6)]])
      then show ?thesis using Some t False by (simp add: readPayload_def Let_def j_def [symmetric])
    qed
  qed
qed

lemma settings_reads:
  assumes "fPrefixNeed p = 6" "fPrefixN p = 0" "length (fPrefix p) = 8" "fCode p = FCodeNone"
    and "fhLength (fCurrent p) - fPayloadN p = of_nat (length payload)" "length payload < 2 ^ 24"
    and "fPayloadN p \<le> fhLength (fCurrent p)" "length payload mod 6 = 0" "length payload < fuel"
  shows "\<exists>out. settingsLoop fuel cb p s (payload @ rest) = Some out \<and>
     reads cb p s rest (andThen (readSettings payload) (\<lambda>_. ([], Inr (fHeaderBlockBytes p)))) out"
  using assms
proof (induction payload arbitrary: fuel p s rule: readSettings.induct)
  case (1 a b c d e f more)
  obtain fuel' where fuel: "fuel = Suc fuel'" using "1.prems"(9) by (cases fuel) auto
  define st where "st = decodeSetting [a, b, c, d, e, f]"
  define q where "q = p\<lparr>fPrefix := [a, b, c, d, e, f] @ drop 6 (fPrefix p), fPrefixN := 6, fPayloadN := fPayloadN p + 6\<rparr>"
  have cp: "copyPrefix p (a # b # c # d # e # f # more @ rest) = (q, more @ rest)"
    unfolding q_def by (rule settings_step) (use "1.prems" in simp_all)
  have less: "fPayloadN p < fhLength (fCurrent p)"
    using "1.prems"(5,6,7) of_nat_zero [of "length (a # b # c # d # e # f # more)"] by (auto simp: order.strict_iff_order)
  have dec: "decodeSetting (fPrefix q) = st" by (simp add: q_def st_def decodeSetting_def)
  have q6: "fPrefixN q = 6" "fCode q = FCodeNone" using "1.prems"(4) by (simp_all add: q_def)
  show ?case
  proof (cases "validSetting st")
    case False
    then have "settingsLoop fuel cb p s ((a # b # c # d # e # f # more) @ rest) =
        Some (q\<lparr>fCode := FCodeInvalidSetting\<rparr>, s, more @ rest, False, FCodeInvalidSetting)"
      using less cp dec q6 by (simp add: fuel Let_def frameFail_def)
    then show ?thesis using False by (simp add: st_def [symmetric] reads_def)
  next
    case True
    have len: "fhLength (fCurrent p) - fPayloadN p = of_nat (6 + length more)" "6 + length more < 2 ^ 24"
      using "1.prems"(5,6) by simp_all
    have n6: "6 \<le> fhLength (fCurrent p) - fPayloadN p"
      unfolding len(1) word_le_nat_alt unat_small [OF len(2)] by simp
    have le: "fPayloadN p + 6 \<le> fhLength (fCurrent p)"
      by (rule le_sub_plus [OF "1.prems"(7) n6])
    have "\<exists>out. settingsLoop fuel' cb (q\<lparr>fPrefixN := 0\<rparr>) (deliver cb (EvSetting st) s) (more @ rest) = Some out \<and>
        reads cb (q\<lparr>fPrefixN := 0\<rparr>) (deliver cb (EvSetting st) s) rest
          (andThen (readSettings more) (\<lambda>_. ([], Inr (fHeaderBlockBytes (q\<lparr>fPrefixN := 0\<rparr>))))) out"
      by (rule "1.IH" [OF st_def])
        (use "1.prems" True le len in \<open>simp_all add: q_def fuel st_def algebra_simps mod_simps\<close>)
    then obtain out where out: "settingsLoop fuel' cb (q\<lparr>fPrefixN := 0\<rparr>) (deliver cb (EvSetting st) s) (more @ rest) = Some out"
      "reads cb (q\<lparr>fPrefixN := 0\<rparr>) (deliver cb (EvSetting st) s) rest (andThen (readSettings more) (\<lambda>_. ([], Inr (fHeaderBlockBytes p)))) out"
      by (auto simp: q_def)
    have "settingsLoop fuel cb p s ((a # b # c # d # e # f # more) @ rest) = Some out"
      using less cp dec q6 True out(1) by (simp add: fuel Let_def fire_quiet)
    moreover have "reads cb p s rest (andThen ([EvSetting st], Inr ()) (\<lambda>_. andThen (readSettings more) (\<lambda>_. ([], Inr (fHeaderBlockBytes p))))) out"
      by (rule reads_emit [OF reads_core [OF _ out(2)]]) (simp add: q_def frame_core_def)
    moreover obtain evs r where "readSettings more = (evs, r)" by (cases "readSettings more")
    ultimately show ?thesis using True by (cases r) (simp_all add: st_def [symmetric])
  qed
next
  case "2_1"
  then obtain fuel' where fuel: "fuel = Suc fuel'" by (cases fuel) auto
  have "fPayloadN p = fhLength (fCurrent p)" using "2_1"(5) by simp
  then show ?case using "2_1"(3) by (simp add: fuel reads_def frameDone_def frame_core_def)
qed simp_all

end

definition fixed_type :: "frame_type \<Rightarrow> bool" where
  "fixed_type t \<longleftrightarrow> t = FramePriority \<or> t = FrameRSTStream \<or> t = FramePing \<or> t = FrameGoAway \<or> t = FrameWindowUpdate"

text \<open>The reading of a payload, and the prefix buffer after it.\<close>

definition reads_all ::
  "'s frame_callbacks option \<Rightarrow> frame_parser \<Rightarrow> 's \<Rightarrow> bytes \<Rightarrow> bytes \<Rightarrow> 's payload_result option \<Rightarrow> bool" where
  "reads_all cb p s payload rest out \<longleftrightarrow>
     (\<exists>r. out = Some r \<and>
        reads cb p s rest (readPayload (fLimits p) (fHeaderBlockBytes p) (fCurrent p) payload) r \<and>
        (fixed_type (fhType (fCurrent p)) \<longrightarrow>
           take (length (take 8 payload)) (fPrefix (fst r)) = take 8 payload))"

lemma fixed_reads:
  assumes p: "at_payload p payload" and t: "fhType (fCurrent p) \<in> {FramePriority, FrameRSTStream, FramePing, FrameWindowUpdate}"
    and n: "length payload \<le> 8" "need = of_nat (length payload)"
  shows "reads_all cb p s payload rest (Some (parseFixed p s (payload @ rest) need))"
proof -
  obtain q where q: "parseFixed p s (payload @ rest) need = (q, s, rest, True, FCodeNone)"
    "fPrefix q = payload @ drop (length payload) (fPrefix p)" "frame_core q = frame_core p"
    using fixed_payload [OF p n, of s rest] by blast
  have "readPayload (fLimits p) (fHeaderBlockBytes p) (fCurrent p) payload = ([], Inr (fHeaderBlockBytes p))"
    using t by (auto simp: readPayload_def Let_def)
  then show ?thesis using q(1,2) core_same [OF q(3)] p n(1) by (simp add: reads_all_def reads_def at_payload_def)
qed

context quiet_callbacks
begin

lemma goaway_reads:
  assumes p: "at_payload p payload" and t: "fhType (fCurrent p) = FrameGoAway" and n: "8 \<le> length payload"
  shows "reads_all cb p s payload rest (Some (parseGoAway cb p s (payload @ rest)))"
proof -
  have pp: "fPrefixN p = 0" "length (fPrefix p) = 8" "fPayloadN p = 0" "fhLength (fCurrent p) = of_nat (length payload)"
    "length payload < 2 ^ 24"
    using p by (simp_all add: at_payload_def)
  define debug where "debug = drop 8 payload"
  define q where "q = p\<lparr>fPrefixNeed := 8, fPrefix := take 8 payload, fPrefixN := 8, fPayloadN := 8\<rparr>"
  have "copyPrefix (p\<lparr>fPrefixNeed := 8\<rparr>) (take 8 payload @ debug @ rest) = (q, debug @ rest)"
    using copy_prefix [of "p\<lparr>fPrefixNeed := 8\<rparr>" "take 8 payload" "debug @ rest"] n pp by (simp add: q_def)
  then have c: "copyPrefix (p\<lparr>fPrefixNeed := 8\<rparr>) (payload @ rest) = (q, debug @ rest)"
    by (simp add: debug_def flip: append_assoc)
  have len: "length payload = 8 + length debug" using n by (simp add: debug_def)
  have l: "fhLength (fCurrent q) - fPayloadN q = of_nat (length debug)" using pp(4) by (simp add: q_def len)
  have r: "readPayload (fLimits p) (fHeaderBlockBytes p) (fCurrent p) payload =
      (if debug = [] then [] else [EvDebug debug], Inr (fHeaderBlockBytes p))"
    using t n by (simp add: readPayload_def Let_def debug_def)
  have less: "fPayloadN q < fhLength (fCurrent q) \<longleftrightarrow> debug \<noteq> []"
  proof -
    have "unat (fhLength (fCurrent q)) = 8 + length debug" using pp(4,5) unat_small [of "length payload"] by (simp add: q_def len)
    then show ?thesis by (simp add: word_less_nat_alt q_def)
  qed
  define q' where "q' = q\<lparr>fPayloadN := 8 + of_nat (length debug)\<rparr>"
  have "parseGoAway cb p s (payload @ rest) =
      (q', fold (deliver cb) (if debug = [] then [] else [EvDebug debug]) s, rest, True, FCodeNone)"
  proof (cases "debug = []")
    case True
    then show ?thesis using c pp(3) less l len pp(4)
      by (simp add: parseGoAway_def q'_def) (simp add: q_def frameDone_def)
  next
    case False
    then show ?thesis using c pp(3,4) less l len pp(5)
      by (simp add: parseGoAway_def Let_def fire_quiet q'_def unat_small) (simp add: q_def frameDone_def)
  qed
  then show ?thesis using r pp(2) n by (simp add: reads_all_def reads_def q'_def q_def frame_core_def)
qed

lemma unknown_reads:
  assumes p: "at_payload p payload" and ne: "payload \<noteq> []"
    and t: "fhType (fCurrent p) \<notin> {FrameData, FrameHeaders, FramePriority, FrameRSTStream, FrameSettings, FramePushPromise,
      FramePing, FrameGoAway, FrameWindowUpdate, FrameContinuation}"
  shows "reads_all cb p s payload rest (Some (parseUnknown cb p s (payload @ rest)))"
proof -
  have pp: "length (fPrefix p) = 8" "fPayloadN p = 0" "fhLength (fCurrent p) = of_nat (length payload)" "length payload < 2 ^ 24"
    using p by (simp_all add: at_payload_def)
  have "readPayload (fLimits p) (fHeaderBlockBytes p) (fCurrent p) payload = ([EvUnknown (fCurrent p) payload], Inr (fHeaderBlockBytes p))"
    using t ne by (simp add: readPayload_def Let_def)
  moreover have "\<not> fixed_type (fhType (fCurrent p))" using t by (simp add: fixed_type_def)
  ultimately show ?thesis using pp
    by (simp add: reads_all_def reads_def parseUnknown_def Let_def fire_quiet unat_small frameDone_def frame_core_def)
qed

lemma continuation_reads:
  assumes p: "at_payload p payload" and ne: "payload \<noteq> []" and t: "fhType (fCurrent p) = FrameContinuation"
  shows "reads_all cb p s payload rest
     (Some (parseHeaderFragment cb p s (payload @ rest) (fhLength (fCurrent p) - fPayloadN p)))"
proof -
  have pp: "fCode p = FCodeNone" "length (fPrefix p) = 8" "fPayloadN p = 0" "fhLength (fCurrent p) = of_nat (length payload)"
    "length payload < 2 ^ 24" "fState p = payloadStart"
    using p by (simp_all add: at_payload_def)
  have "readPayload (fLimits p) (fHeaderBlockBytes p) (fCurrent p) payload =
      readBlock (fLimits p) (fHeaderBlockBytes p) (fhStreamID (fCurrent p)) payload"
    using t by (simp add: readPayload_def Let_def)
  moreover have "\<not> fixed_type (fhType (fCurrent p))" using t by (simp add: fixed_type_def)
  ultimately show ?thesis
    using pp ne fragment_reads [OF pp(1) refl pp(5) ne, of s rest]
    by (simp add: reads_all_def reads_def readBlock_def frame_core_def)
qed

lemma byType_reads:
  assumes p: "at_payload p payload" "payload \<noteq> []" and v: "validateFrameHeader (fCurrent p) = FCodeNone"
  shows "reads_all cb p s payload rest (parseByType cb p s (payload @ rest))"
proof -
  have pp: "fCode p = FCodeNone" "length (fPrefix p) = 8" "fPayloadN p = 0" "fhLength (fCurrent p) = of_nat (length payload)"
    "length payload < 2 ^ 24" "fPrefixN p = 0"
    using p by (simp_all add: at_payload_def)
  note min = headers_minimum [OF v pp(4,5)]
  consider "fhType (fCurrent p) = FrameData" | "fhType (fCurrent p) = FrameHeaders" | "fhType (fCurrent p) = FramePushPromise"
    | "fhType (fCurrent p) = FrameSettings" | "fhType (fCurrent p) = FrameGoAway" | "fhType (fCurrent p) = FrameContinuation"
    | "fhType (fCurrent p) = FramePriority" | "fhType (fCurrent p) = FrameRSTStream"
    | "fhType (fCurrent p) = FrameWindowUpdate" | "fhType (fCurrent p) = FramePing"
    | "fhType (fCurrent p) \<notin> {FrameData, FrameHeaders, FramePriority, FrameRSTStream, FrameSettings, FramePushPromise,
      FramePing, FrameGoAway, FrameWindowUpdate, FrameContinuation}" by fast
  then show ?thesis
  proof cases
    case 1
    then show ?thesis using data_reads [OF p 1 v, of s rest] by (simp add: parseByType_def reads_all_def fixed_type_def)
  next
    case 2
    then show ?thesis using headers_reads [OF p 2 v, of s rest] by (simp add: parseByType_def reads_all_def fixed_type_def)
  next
    case 3
    then show ?thesis using push_reads [OF p 3 v, of s rest] by (simp add: parseByType_def reads_all_def fixed_type_def)
  next
    case 4
    have six: "length payload mod 6 = 0"
    proof (cases "Has (fhFlags (fCurrent p)) FlagACK")
      case True
      then show ?thesis using v 4 pp(4,5) p(2) by (simp add: validateFrameHeader_def Let_def of_nat_zero split: if_splits)
    next
      case False
      then have "fhLength (fCurrent p) mod 6 = 0" using v 4 by (simp add: validateFrameHeader_def Let_def split: if_splits)
      then have "unat (fhLength (fCurrent p) mod 6) = 0" by simp
      then show ?thesis using pp(4,5) by (simp add: unat_mod_distrib unat_small del: unat_eq_0)
    qed
    have "\<exists>out. settingsLoop (Suc (length (payload @ rest))) cb (p\<lparr>fPrefixNeed := 6\<rparr>) s (payload @ rest) = Some out \<and>
     reads cb (p\<lparr>fPrefixNeed := 6\<rparr>) s rest (andThen (readSettings payload) (\<lambda>_. ([], Inr (fHeaderBlockBytes (p\<lparr>fPrefixNeed := 6\<rparr>))))) out"
      by (rule settings_reads) (use pp six in simp_all)
    then obtain out where "parseSettings cb p s (payload @ rest) = Some out"
      "reads cb (p\<lparr>fPrefixNeed := 6\<rparr>) s rest (andThen (readSettings payload) (\<lambda>_. ([], Inr (fHeaderBlockBytes p)))) out"
      by (auto simp: parseSettings_def simp del: settingsLoop.simps)
    moreover from this(2) have "reads cb p s rest (andThen (readSettings payload) (\<lambda>_. ([], Inr (fHeaderBlockBytes p)))) out"
      by (rule reads_core [rotated]) (simp add: frame_core_def)
    ultimately show ?thesis using 4 by (simp add: parseByType_def reads_all_def fixed_type_def readPayload_def Let_def)
  next
    case 5
    then show ?thesis using goaway_reads [OF p(1) 5 min(6) [OF 5], of s rest] by (simp add: parseByType_def)
  next
    case 6
    then show ?thesis using continuation_reads [OF p 6, of s rest] by (simp add: parseByType_def)
  next
    case 7
    then have "parseByType cb p s (payload @ rest) = Some (parseFixed p s (payload @ rest) 5)" by (simp add: parseByType_def)
    moreover have "reads_all cb p s payload rest (Some (parseFixed p s (payload @ rest) 5))"
      by (rule fixed_reads [OF p(1)]) (simp_all add: 7 min(3) [OF 7])
    ultimately show ?thesis by (simp only:)
  next
    case 8
    then have "parseByType cb p s (payload @ rest) = Some (parseFixed p s (payload @ rest) 4)" by (simp add: parseByType_def)
    moreover have "reads_all cb p s payload rest (Some (parseFixed p s (payload @ rest) 4))"
      by (rule fixed_reads [OF p(1)]) (simp_all add: 8 min(4) [OF disjI1 [OF 8]])
    ultimately show ?thesis by (simp only:)
  next
    case 9
    then have "parseByType cb p s (payload @ rest) = Some (parseFixed p s (payload @ rest) 4)" by (simp add: parseByType_def)
    moreover have "reads_all cb p s payload rest (Some (parseFixed p s (payload @ rest) 4))"
      by (rule fixed_reads [OF p(1)]) (simp_all add: 9 min(4) [OF disjI2 [OF 9]])
    ultimately show ?thesis by (simp only:)
  next
    case 10
    then have "parseByType cb p s (payload @ rest) = Some (parseFixed p s (payload @ rest) 8)" by (simp add: parseByType_def)
    moreover have "reads_all cb p s payload rest (Some (parseFixed p s (payload @ rest) 8))"
      by (rule fixed_reads [OF p(1)]) (simp_all add: 10 min(5) [OF 10])
    ultimately show ?thesis by (simp only:)
  next
    case 11
    then show ?thesis using unknown_reads [OF p 11, of s rest] by (simp add: parseByType_def)
  qed
qed

lemma payload_reads:
  assumes p: "at_payload p payload" "payload \<noteq> []" and v: "validateFrameHeader (fCurrent p) = FCodeNone"
  shows "reads_all cb p s payload rest (parsePayload cb p s (payload @ rest))"
proof -
  have "0 < fhLength (fCurrent p)" "fPayloadN p = 0"
    using p of_nat_zero [of "length payload"] by (simp_all add: at_payload_def word_gt_0)
  moreover obtain q t src fin c where out: "parseByType cb p s (payload @ rest) = Some (q, t, src, fin, c)"
    and r: "reads cb p s rest (readPayload (fLimits p) (fHeaderBlockBytes p) (fCurrent p) payload) (q, t, src, fin, c)"
    using byType_reads [OF p v, of s rest] unfolding reads_all_def by auto
  moreover have "c \<noteq> FCodeNone \<or> fin" using r by (auto simp: reads_def split: sum.splits)
  ultimately have "parsePayload cb p s (payload @ rest) = parseByType cb p s (payload @ rest)"
    using p(2) by (auto simp: parsePayload_def)
  then show ?thesis using byType_reads [OF p v, of s rest] by simp
qed

end

subsection \<open>Whole frames\<close>

definition block_of :: "frame_parser \<Rightarrow> header_state" where
  "block_of p = \<lparr>hsStream = fContinuationStream p, hsCount = fContinuationCount p, hsBytes = fHeaderBlockBytes p,
     hsEnd = fHeaderBlockEndStream p\<rparr>"

definition with_block :: "frame_parser \<Rightarrow> header_state \<Rightarrow> frame_parser" where
  "with_block p hs = p\<lparr>fContinuationStream := hsStream hs, fContinuationCount := hsCount hs,
     fHeaderBlockBytes := hsBytes hs, fHeaderBlockEndStream := hsEnd hs\<rparr>"

lemma with_block_sel [simp]:
  "fLimits (with_block p hs) = fLimits p" "fCode (with_block p hs) = fCode p" "fParsing (with_block p hs) = fParsing p"
  "fPauseAfterFrame (with_block p hs) = fPauseAfterFrame p" "fPaused (with_block p hs) = fPaused p"
  "fCurrent (with_block p hs) = fCurrent p" "fHeader (with_block p hs) = fHeader p" "fPrefix (with_block p hs) = fPrefix p"
  "fHeaderN (with_block p hs) = fHeaderN p" "block_of (with_block p hs) = hs"
  by (simp_all add: with_block_def block_of_def)

definition at_boundary :: "frame_parser \<Rightarrow> bool" where
  "at_boundary p \<longleftrightarrow> fCode p = FCodeNone \<and> fHeaderN p = 0 \<and> length (fHeader p) = 9 \<and> length (fPrefix p) = 8"

lemma take_take_eq: "take n xs = ys \<Longrightarrow> m \<le> n \<Longrightarrow> take m xs = take m ys"
  by (auto simp: min_def)

lemma drop_take_eq: "take 8 xs = take 8 ys \<Longrightarrow> take 4 (drop 4 xs) = take 4 (drop 4 ys)"
  by (simp add: take_drop)

context quiet_callbacks
begin

lemma closing_reads:
  assumes cur: "fCurrent q = h" "fCode q = FCodeNone" and v: "validateFrameHeader h = FCodeNone"
    and len: "fhLength h = of_nat (length payload)" "length payload < 2 ^ 24"
    and pre: "fixed_type (fhType h) \<Longrightarrow> take (length (take 8 payload)) (fPrefix q) = take 8 payload" "length (fPrefix q) = 8"
  shows "finishPayload cb q s =
     (case readClosing h payload of
        (evs, Inl c) \<Rightarrow> (q\<lparr>fCode := c\<rparr>, fold (deliver cb) evs s, True)
      | (evs, Inr _) \<Rightarrow> (q, fold (deliver cb) evs s, False))"
proof -
  note min = headers_minimum [OF v len]
  consider "fhType h = FramePriority" | "fhType h = FrameRSTStream" | "fhType h = FramePing"
    | "fhType h = FrameGoAway" | "fhType h = FrameWindowUpdate" | "\<not> fixed_type (fhType h)"
    unfolding fixed_type_def by blast
  then show ?thesis
  proof cases
    case 1
    then have "take 5 (fPrefix q) = payload" using pre(1) min(3) by (simp add: fixed_type_def)
    then show ?thesis using 1 cur by (simp add: finishPayload_def readClosing_def Let_def fire_quiet frameFail_def)
  next
    case 2
    then have "take 4 (fPrefix q) = payload" using pre(1) min(4) by (simp add: fixed_type_def)
    then show ?thesis using 2 cur by (simp add: finishPayload_def readClosing_def Let_def fire_quiet)
  next
    case 3
    then have "fPrefix q = payload" using pre min(5) by (simp add: fixed_type_def)
    then show ?thesis using 3 cur by (simp add: finishPayload_def readClosing_def Let_def fire_quiet)
  next
    case 4
    then have "length (take 8 payload) = 8" using min(6) by simp
    then have "take 8 (fPrefix q) = take 8 payload" using pre(1) 4 by (simp add: fixed_type_def)
    then have "take 4 (fPrefix q) = take 4 payload" "take 4 (drop 4 (fPrefix q)) = take 4 (drop 4 payload)"
      using take_take_eq [of 8 "fPrefix q" "take 8 payload" 4] drop_take_eq by simp_all
    then show ?thesis using 4 cur by (simp add: finishPayload_def readClosing_def Let_def fire_quiet)
  next
    case 5
    then have "take 4 (fPrefix q) = payload" using pre(1) min(4) by (simp add: fixed_type_def)
    then show ?thesis using 5 cur by (simp add: finishPayload_def readClosing_def Let_def fire_quiet frameFail_def)
  next
    case 6
    then show ?thesis using cur
      by (simp add: finishPayload_def readClosing_def Let_def fire_quiet fixed_type_def)
  qed
qed

lemma block_end_reads:
  assumes "fCurrent q = h"
  shows "\<exists>hs. snd (readBlockEnd h (block_of q)) = Inr hs \<and>
     finishHeaderBlock cb q s = (with_block q hs, fold (deliver cb) (fst (readBlockEnd h (block_of q))) s)"
  using assms by (auto simp: readBlockEnd_def finishHeaderBlock_def Let_def fire_quiet block_of_def with_block_def)

lemma finish_reads:
  assumes cur: "fCurrent q = h" "fCode q = FCodeNone" and v: "validateFrameHeader h = FCodeNone"
    and len: "fhLength h = of_nat (length payload)" "length payload < 2 ^ 24"
    and pre: "fixed_type (fhType h) \<Longrightarrow> take (length (take 8 payload)) (fPrefix q) = take 8 payload" "length (fPrefix q) = 8"
    and r: "andThen (readClosing h payload) (\<lambda>_. andThen (readBlockEnd h (block_of q)) (\<lambda>hs. ([EvComplete h], Inr hs))) = (evs, r)"
  shows "\<exists>q'. finishFrame cb q s = (q', fold (deliver cb) evs s) \<and>
     (case r of
        Inl c \<Rightarrow> fCode q' = c \<and> c \<noteq> FCodeNone
      | Inr hs \<Rightarrow> q' = (with_block q hs)\<lparr>fHeaderN := 0, fCurrent := zero_header, fPayloadN := 0, fPrefixN := 0,
                  fPrefixNeed := 0, fState := payloadStart, fPaused := fPauseAfterFrame q\<rparr>)"
proof -
  obtain ce cr where cl: "readClosing h payload = (ce, cr)" by (cases "readClosing h payload")
  note c = closing_reads [OF cur v len pre, where s = s, unfolded cl]
  show ?thesis
  proof (cases cr)
    case (Inl x)
    have "x \<noteq> FCodeNone" using cl Inl by (auto simp: readClosing_def Let_def split: if_splits)
    then show ?thesis using c r cl Inl by (auto simp: finishFrame_def Let_def)
  next
    case (Inr u)
    obtain be hs where be: "readBlockEnd h (block_of q) = (be, Inr hs)"
      using block_end_reads [OF cur(1)] by (metis prod.collapse)
    then have f: "finishHeaderBlock cb q (fold (deliver cb) ce s) = (with_block q hs, fold (deliver cb) be (fold (deliver cb) ce s))"
      using block_end_reads [OF cur(1), of "fold (deliver cb) ce s"] by auto
    have "evs = ce @ be @ [EvComplete h]" "r = Inr hs" using r cl Inr be by simp_all
    then show ?thesis using c f Inr cur by (simp add: finishFrame_def Let_def fire_quiet)
  qed
qed

end

text \<open>The parser when \<open>FrameBegin\<close> has been called for a header.\<close>

definition entered :: "frame_parser \<Rightarrow> frame_header \<Rightarrow> header_state \<Rightarrow> frame_parser" where
  "entered p h hs = (with_block p hs)\<lparr>fHeader := encodeHeader h, fHeaderN := 9, fCurrent := h, fPayloadN := 0,
     fState := payloadStart, fPrefixN := 0, fPrefixNeed := 0, fPadLength := 0, fContentN := 0\<rparr>"

lemma entered_sel [simp]:
  "fLimits (entered p h hs) = fLimits p" "fCode (entered p h hs) = fCode p" "fParsing (entered p h hs) = fParsing p"
  "fPauseAfterFrame (entered p h hs) = fPauseAfterFrame p" "fPaused (entered p h hs) = fPaused p"
  "fCurrent (entered p h hs) = h" "fHeader (entered p h hs) = encodeHeader h" "fPrefix (entered p h hs) = fPrefix p"
  "fHeaderN (entered p h hs) = 9" "block_of (entered p h hs) = hs" "fHeaderBlockBytes (entered p h hs) = hsBytes hs"
  by (simp_all add: entered_def with_block_def block_of_def)

lemma copy_header:
  assumes "at_boundary p"
  shows "copyHeader p (encodeHeader h @ src) = (p\<lparr>fHeader := encodeHeader h, fHeaderN := 9\<rparr>, src)"
  using assms by (simp add: copyHeader_def at_boundary_def Let_def copy_at_def)

lemma entered_payload:
  assumes "at_boundary p" "fhLength h = of_nat (length payload)" "length payload < 2 ^ 24"
  shows "at_payload (entered p h hs) payload"
  using assms by (simp add: at_payload_def entered_def with_block_def at_boundary_def)

lemma core_block:
  assumes "frame_core q = (frame_core p)\<lparr>fHeaderBlockBytes := n\<rparr>"
  shows "block_of q = (block_of p)\<lparr>hsBytes := n\<rparr>"
  using core_sel [OF assms] by (simp add: block_of_def)

text \<open>A whole frame and its reading.\<close>

definition frame_reads ::
  "'s frame_callbacks option \<Rightarrow> frame_parser \<Rightarrow> 's \<Rightarrow> bytes \<Rightarrow> header_state reading \<Rightarrow>
    (frame_parser \<times> 's \<times> bytes \<times> bool \<times> frame_code) option \<Rightarrow> bool" where
  "frame_reads cb p s rest r out \<longleftrightarrow>
     (case out of None \<Rightarrow> False | Some (q, t, src, stop, c) \<Rightarrow> t = fold (deliver cb) (fst r) s \<and>
        (case snd r of
           Inl x \<Rightarrow> stop \<and> c = x \<and> fCode q = x \<and> x \<noteq> FCodeNone
         | Inr hs \<Rightarrow> \<not> stop \<and> c = FCodeNone \<and> src = rest \<and> at_boundary q \<and> block_of q = hs \<and> fLimits q = fLimits p \<and>
             fPaused q = fPauseAfterFrame p \<and> fPauseAfterFrame q = fPauseAfterFrame p \<and> fParsing q = fParsing p))"

context quiet_callbacks
begin

lemma begin_reads:
  assumes b: "at_boundary p" and h: "fhLength h < 0x1000000" "fhStreamID h \<le> 0x7fffffff"
  shows "case snd (admitFrame (fLimits p) (block_of p) h) of
     Inl c \<Rightarrow> (\<exists>q. beginFrame cb (p\<lparr>fHeader := encodeHeader h, fHeaderN := 9\<rparr>) s = (q, s) \<and> fCode q = c \<and> c \<noteq> FCodeNone)
   | Inr hs \<Rightarrow> beginFrame cb (p\<lparr>fHeader := encodeHeader h, fHeaderN := 9\<rparr>) s = (entered p h hs, deliver cb (EvBegin h) s) \<and>
       validateFrameHeader h = FCodeNone"
proof -
  have d: "decodeHeader (encodeHeader h) = h" by (rule header_decodes [OF h])
  have c: "fCode p = FCodeNone" using b by (simp add: at_boundary_def)
  show ?thesis using c
    by (auto simp: admitFrame_def beginFrame_def d Let_def frameFail_def fire_quiet entered_def with_block_def block_of_def)
qed

end

lemma admit_shape:
  "fst (admitFrame l hs h) = []"
  by (simp add: admitFrame_def)

lemma andThen_error: "snd r = Inl c \<Longrightarrow> andThen r f = (fst r, Inl c)"
  by (cases r) auto

lemma andThen_value: "snd r = Inr x \<Longrightarrow> andThen r f = (fst r @ fst (f x), snd (f x))"
  by (cases r) auto

lemma reads_prepend:
  assumes "frame_reads cb q (fold (deliver cb) evs s) rest r out"
    and "fLimits q = fLimits p" "fPauseAfterFrame q = fPauseAfterFrame p" "fParsing q = fParsing p"
  shows "frame_reads cb p s rest (evs @ fst r, snd r) out"
  using assms by (cases out; cases "snd r") (simp_all add: frame_reads_def case_prod_beta)

context quiet_callbacks
begin

lemma finish_frame_reads:
  assumes cur: "fCurrent q = h" "fCode q = FCodeNone" and v: "validateFrameHeader h = FCodeNone"
    and len: "fhLength h = of_nat (length payload)" "length payload < 2 ^ 24"
    and pre: "fixed_type (fhType h) \<Longrightarrow> take (length (take 8 payload)) (fPrefix q) = take 8 payload" "length (fPrefix q) = 8"
    and h: "length (fHeader q) = 9"
    and r: "r = andThen (readClosing h payload) (\<lambda>_. andThen (readBlockEnd h (block_of q)) (\<lambda>hs. ([EvComplete h], Inr hs)))"
  shows "frame_reads cb q s rest r
     (case finishFrame cb q s of (q, s) \<Rightarrow> Some (q, s, rest, fCode q \<noteq> FCodeNone, fCode q))"
proof -
  obtain evs x where x: "r = (evs, x)" by (cases r)
  obtain q' where q': "finishFrame cb q s = (q', fold (deliver cb) evs s)"
     "case x of Inl c \<Rightarrow> fCode q' = c \<and> c \<noteq> FCodeNone
      | Inr hs \<Rightarrow> q' = (with_block q hs)\<lparr>fHeaderN := 0, fCurrent := zero_header, fPayloadN := 0, fPrefixN := 0,
                  fPrefixNeed := 0, fState := payloadStart, fPaused := fPauseAfterFrame q\<rparr>"
    using finish_reads [OF cur v len pre r [symmetric, unfolded x], of s] by blast
  show ?thesis
  proof (cases x)
    case (Inl c)
    then show ?thesis using q' x by (simp add: frame_reads_def)
  next
    case (Inr hs)
    then have "q' = (with_block q hs)\<lparr>fHeaderN := 0, fCurrent := zero_header, fPayloadN := 0, fPrefixN := 0,
                  fPrefixNeed := 0, fState := payloadStart, fPaused := fPauseAfterFrame q\<rparr>" using q'(2) by simp
    then have "fCode q' = FCodeNone" "at_boundary q'" "block_of q' = hs" "fLimits q' = fLimits q" "fPaused q' = fPauseAfterFrame q"
      "fPauseAfterFrame q' = fPauseAfterFrame q" "fParsing q' = fParsing q"
      using cur(2) pre(2) h by (simp_all add: at_boundary_def block_of_def with_block_def)
    then show ?thesis using q'(1) x Inr by (simp add: frame_reads_def)
  qed
qed

lemma step_reads:
  assumes b: "at_boundary p" "\<not> fPaused p"
    and len: "fhLength h = of_nat (length payload)" "length payload < 2 ^ 24" and id: "fhStreamID h \<le> 0x7fffffff"
  shows "frame_reads cb p s rest (readFrame (fLimits p) (block_of p) h payload)
     (frameStep cb p s (encodeHeader h @ payload @ rest))"
proof -
  have l24: "fhLength h < 0x1000000" using len by (simp add: word_less_nat_alt unat_small)
  note beg = begin_reads [OF b(1) l24 id, of s]
  have n0: "fHeaderN p < 9" using b(1) by (simp add: at_boundary_def)
  note cp = copy_header [OF b(1), of h "payload @ rest"]
  show ?thesis
  proof (cases "snd (admitFrame (fLimits p) (block_of p) h)")
    case (Inl c)
    then obtain q where "beginFrame cb (p\<lparr>fHeader := encodeHeader h, fHeaderN := 9\<rparr>) s = (q, s)" "fCode q = c" "c \<noteq> FCodeNone"
      using beg by auto
    then show ?thesis using b(2) n0 cp Inl
      by (simp add: frameStep_def frame_reads_def readFrame_def andThen_error admit_shape)
  next
    case (Inr hs)
    define e where "e = entered p h hs"
    define s1 where "s1 = deliver cb (EvBegin h) s"
    have beg': "beginFrame cb (p\<lparr>fHeader := encodeHeader h, fHeaderN := 9\<rparr>) s = (e, s1)" and v: "validateFrameHeader h = FCodeNone"
      using beg Inr by (simp_all add: e_def s1_def)
    define tail where "tail n = andThen (readClosing h payload) (\<lambda>_. andThen (readBlockEnd h (hs\<lparr>hsBytes := n\<rparr>)) (\<lambda>hs. ([EvComplete h], Inr hs)))" for n
    define r where "r = andThen (readPayload (fLimits p) (hsBytes hs) h payload) tail"
    have rf: "readFrame (fLimits p) (block_of p) h payload = (EvBegin h # fst r, snd r)"
      using Inr by (simp add: readFrame_def andThen_value admit_shape r_def tail_def [abs_def])
    have lift: "frame_reads cb p s rest (EvBegin h # fst r, snd r) out" if "frame_reads cb e s1 rest r out" for out
      using reads_prepend [of cb e "[EvBegin h]" s rest r out p] that by (simp add: e_def s1_def)
    have ee: "fCode e = FCodeNone" "fCurrent e = h" "length (fPrefix e) = 8" "length (fHeader e) = 9" "block_of e = hs" "fLimits e = fLimits p"
      using b(1) by (simp_all add: e_def at_boundary_def)
    show ?thesis
    proof (cases "payload = []")
      case True
      then have z: "fhLength h = 0" "\<not> fixed_type (fhType h)" using len v
        by (auto simp: validateFrameHeader_def fixed_type_def Let_def split: if_splits)
      have "readPayload (fLimits p) (hsBytes hs) h payload = ([], Inr (hsBytes hs))"
        using True z v by (auto simp: readPayload_def Let_def unpad_def readBlock_def fixed_type_def validateFrameHeader_def split: if_splits)
      then have "r = tail (hsBytes hs)" by (simp add: r_def)
      then have "frame_reads cb e s1 rest r (case finishFrame cb e s1 of (q, s) \<Rightarrow> Some (q, s, rest, fCode q \<noteq> FCodeNone, fCode q))"
        by (intro finish_frame_reads [OF ee(2,1) v len]) (use ee z in \<open>simp_all add: tail_def\<close>)
      moreover have "frameStep cb p s (encodeHeader h @ payload @ rest) =
          (case finishFrame cb e s1 of (q, s) \<Rightarrow> Some (q, s, rest, fCode q \<noteq> FCodeNone, fCode q))"
        using b(2) n0 cp beg' ee z True by (simp add: frameStep_def)
      ultimately show ?thesis using lift rf by simp
    next
      case False
      have ap: "at_payload e payload" unfolding e_def by (rule entered_payload [OF b(1) len])
      have nz: "fhLength h \<noteq> 0" using False len by (simp add: of_nat_zero)
      have step: "frameStep cb p s (encodeHeader h @ payload @ rest) = framePayloadStep cb e s1 (payload @ rest)"
        using b(2) n0 cp beg' ee nz by (simp add: frameStep_def)
      obtain q t src fin c where out: "parsePayload cb e s1 (payload @ rest) = Some (q, t, src, fin, c)"
        and pr: "reads cb e s1 rest (readPayload (fLimits p) (hsBytes hs) h payload) (q, t, src, fin, c)"
        and pre: "fixed_type (fhType h) \<Longrightarrow> take (length (take 8 payload)) (fPrefix q) = take 8 payload"
        using payload_reads [OF ap False, of s1 rest] v ee(2,6) unfolding reads_all_def e_def by auto
      have "frame_reads cb e s1 rest r (framePayloadStep cb e s1 (payload @ rest))"
      proof (cases "snd (readPayload (fLimits p) (hsBytes hs) h payload)")
        case (Inl x)
        then show ?thesis using pr out by (simp add: reads_def frame_reads_def framePayloadStep_def r_def andThen_error)
      next
        case (Inr n)
        have q: "c = FCodeNone" fin "src = rest" "length (fPrefix q) = 8" "t = fold (deliver cb) (fst (readPayload (fLimits p) (hsBytes hs) h payload)) s1"
          and core: "frame_core q = (frame_core e)\<lparr>fHeaderBlockBytes := n\<rparr>"
          using pr Inr by (simp_all add: reads_def)
        note sel = core_sel [OF core] core_block [OF core]
        have "frame_reads cb q t rest (tail n) (case finishFrame cb q t of (q, s) \<Rightarrow> Some (q, s, rest, fCode q \<noteq> FCodeNone, fCode q))"
          by (rule finish_frame_reads [OF _ _ v len]) (use sel ee q pre in \<open>simp_all add: tail_def\<close>)
        moreover have "framePayloadStep cb e s1 (payload @ rest) =
            (case finishFrame cb q t of (q, s) \<Rightarrow> Some (q, s, rest, fCode q \<noteq> FCodeNone, fCode q))"
          using out q sel ee by (simp add: framePayloadStep_def)
        ultimately show ?thesis
          using Inr q(5) sel reads_prepend [of cb q "fst (readPayload (fLimits p) (hsBytes hs) h payload)" s1 rest "tail n" _ e]
          by (simp add: r_def andThen_value)
      qed
      then show ?thesis using step lift rf by simp
    qed
  qed
qed

end

subsection \<open>Sequences of frames\<close>

definition frame_fits :: "frame_header \<times> bytes \<Rightarrow> bool" where
  "frame_fits f \<longleftrightarrow> fhLength (fst f) = of_nat (length (snd f)) \<and> length (snd f) < 2 ^ 24 \<and> fhStreamID (fst f) \<le> 0x7fffffff"

definition frame_octets :: "frame_header \<times> bytes \<Rightarrow> bytes" where
  "frame_octets f = encodeHeader (fst f) @ snd f"

lemma loop_step:
  "src \<noteq> [] \<Longrightarrow> frameLoop (Suc fuel) cb p s src =
     (case frameStep cb p s src of
        None \<Rightarrow> None
      | Some (p, s, src, stop, c) \<Rightarrow> if stop then Some (p, s, src, c) else frameLoop fuel cb p s src)"
  by (cases src) auto

context quiet_callbacks
begin

lemma loop_reads:
  assumes "at_boundary p" "\<not> fPaused p" "\<not> fPauseAfterFrame p" "list_all frame_fits fs"
    and "length (concat (map frame_octets fs)) \<le> fuel"
  shows "\<exists>q src c. frameLoop fuel cb p s (concat (map frame_octets fs)) =
       Some (q, fold (deliver cb) (fst (readFrames (fLimits p) (block_of p) fs)) s, src, c) \<and>
     (case snd (readFrames (fLimits p) (block_of p) fs) of
        Inl x \<Rightarrow> c = x \<and> fCode q = x \<and> x \<noteq> FCodeNone
      | Inr hs \<Rightarrow> c = FCodeNone \<and> src = [] \<and> at_boundary q \<and> block_of q = hs \<and> fLimits q = fLimits p \<and> \<not> fPaused q)"
  using assms
proof (induction fs arbitrary: p s fuel)
  case Nil
  then show ?case by simp
next
  case (Cons f fs)
  obtain h payload where f: "f = (h, payload)" by (cases f)
  define rest where "rest = concat (map frame_octets fs)"
  have fit: "fhLength h = of_nat (length payload)" "length payload < 2 ^ 24" "fhStreamID h \<le> 0x7fffffff"
    using Cons.prems(4) by (simp_all add: f frame_fits_def)
  have wire: "concat (map frame_octets (f # fs)) = encodeHeader h @ payload @ rest"
    by (simp add: f frame_octets_def rest_def)
  obtain fuel' where fuel: "fuel = Suc fuel'" using Cons.prems(5) unfolding wire by (cases fuel) auto
  define r where "r = readFrame (fLimits p) (block_of p) h payload"
  obtain q t src stop c where out: "frameStep cb p s (encodeHeader h @ payload @ rest) = Some (q, t, src, stop, c)"
    and t: "t = fold (deliver cb) (fst r) s"
    and res: "case snd r of Inl x \<Rightarrow> stop \<and> c = x \<and> fCode q = x \<and> x \<noteq> FCodeNone
         | Inr hs \<Rightarrow> \<not> stop \<and> c = FCodeNone \<and> src = rest \<and> at_boundary q \<and> block_of q = hs \<and> fLimits q = fLimits p \<and>
             fPaused q = fPauseAfterFrame p \<and> fPauseAfterFrame q = fPauseAfterFrame p \<and> fParsing q = fParsing p"
    using step_reads [OF Cons.prems(1,2) fit, of s rest] unfolding frame_reads_def r_def [symmetric]
    by (auto split: option.splits)
  have ne: "encodeHeader h @ payload @ rest \<noteq> []" by (simp add: encodeHeader_def)
  show ?case
  proof (cases "snd r")
    case (Inl x)
    then show ?thesis using res out t unfolding wire fuel loop_step [OF ne] by (simp add: f r_def andThen_error)
  next
    case (Inr hs)
    then have q: "\<not> stop" "src = rest" "at_boundary q" "block_of q = hs" "fLimits q = fLimits p" "\<not> fPaused q" "\<not> fPauseAfterFrame q"
      using res Cons.prems(3) by simp_all
    have "length (concat (map frame_octets fs)) \<le> fuel'" using Cons.prems(5) unfolding wire fuel rest_def by simp
    then show ?thesis using Cons.IH [OF q(3,6,7), of fuel' t, unfolded q(5)] Cons.prems(4) out t q Inr unfolding wire fuel loop_step [OF ne]
      by (simp add: f r_def [symmetric] andThen_value rest_def)
  qed
qed

lemma parse_reads:
  assumes "at_boundary p" "\<not> fParsing p" "list_all frame_fits fs"
  shows "\<exists>q n c. frameParse cb p s (concat (map frame_octets fs)) =
       Some (q, fold (deliver cb) (fst (readFrames (fLimits p) (block_of p) fs)) s, n, c) \<and>
     n \<le> length (concat (map frame_octets fs)) \<and>
     (case snd (readFrames (fLimits p) (block_of p) fs) of
        Inl x \<Rightarrow> c = x \<and> fCode q = x \<and> x \<noteq> FCodeNone
      | Inr hs \<Rightarrow> c = FCodeNone \<and> n = length (concat (map frame_octets fs)) \<and> at_boundary q \<and> \<not> fParsing q \<and>
          block_of q = hs \<and> fLimits q = fLimits p)"
proof -
  let ?p = "p\<lparr>fParsing := True, fPauseAfterFrame := False, fPaused := False\<rparr>"
  have same: "block_of ?p = block_of p" "at_boundary ?p" "fLimits ?p = fLimits p" using assms(1) by (simp_all add: block_of_def at_boundary_def)
  have c: "fCode p = FCodeNone" using assms(1) by (simp add: at_boundary_def)
  obtain q src c where l: "frameLoop (Suc (length (concat (map frame_octets fs)))) cb ?p s (concat (map frame_octets fs)) =
       Some (q, fold (deliver cb) (fst (readFrames (fLimits p) (block_of p) fs)) s, src, c)"
     "case snd (readFrames (fLimits p) (block_of p) fs) of
        Inl x \<Rightarrow> c = x \<and> fCode q = x \<and> x \<noteq> FCodeNone
      | Inr hs \<Rightarrow> c = FCodeNone \<and> src = [] \<and> at_boundary q \<and> block_of q = hs \<and> fLimits q = fLimits p \<and> \<not> fPaused q"
    using loop_reads [of ?p fs "Suc (length (concat (map frame_octets fs)))" s, unfolded same(1,3)] assms(3) same(2) by auto
  define q' where "q' = q\<lparr>fParsing := False, fPauseAfterFrame := False\<rparr>"
  have "frameParse cb p s (concat (map frame_octets fs)) = Some (q',
      fold (deliver cb) (fst (readFrames (fLimits p) (block_of p) fs)) s, length (concat (map frame_octets fs)) - length src, c)"
    using l(1) assms(2) c by (simp add: frameParse_def frameRunParse_def q'_def del: frameLoop.simps)
  moreover have "fCode q' = fCode q" "at_boundary q' = at_boundary q" "block_of q' = block_of q" "fLimits q' = fLimits q" "\<not> fParsing q'"
    by (simp_all add: q'_def at_boundary_def block_of_def)
  ultimately show ?thesis using l(2) by (simp split: sum.splits)
qed

text \<open>One call of \<open>ParseOne\<close> reads one frame.\<close>

lemma parse_one_reads:
  assumes p: "at_boundary p" "\<not> fParsing p" and f: "frame_fits (h, payload)"
    and r: "readFrame (fLimits p) (block_of p) h payload = (evs, Inr hs)"
  shows "\<exists>q. frameParseOne cb p s (encodeHeader h @ payload @ rest) =
       Some (q, fold (deliver cb) evs s, 9 + length payload, True, FCodeNone) \<and>
     at_boundary q \<and> \<not> fParsing q \<and> block_of q = hs \<and> fLimits q = fLimits p"
proof -
  let ?p = "p\<lparr>fParsing := True, fPauseAfterFrame := True, fPaused := False\<rparr>"
  let ?src = "encodeHeader h @ payload @ rest"
  have same: "block_of ?p = block_of p" "at_boundary ?p" using p(1) by (simp_all add: block_of_def at_boundary_def)
  have c: "fCode p = FCodeNone" using p(1) by (simp add: at_boundary_def)
  have ne: "?src \<noteq> []" by (simp add: encodeHeader_def)
  obtain q where st: "frameStep cb ?p s ?src = Some (q, fold (deliver cb) evs s, rest, False, FCodeNone)"
    and q: "at_boundary q" "block_of q = hs" "fLimits q = fLimits p" "fPaused q"
    using step_reads [OF same(2), of h payload s rest] f r same(1)
    by (auto simp: frame_fits_def frame_reads_def split: option.splits)
  have "frameLoop k cb q t rest = Some (q, t, rest, FCodeNone)" if "0 < k" for k t
    using q(4) that by (cases rest; cases k) (simp_all add: frameStep_def)
  then have "frameLoop (Suc (length ?src)) cb ?p s ?src = Some (q, fold (deliver cb) evs s, rest, FCodeNone)"
    unfolding loop_step [OF ne] st by (simp del: frameLoop.simps)
  then have "frameParseOne cb p s ?src = Some (q\<lparr>fParsing := False, fPauseAfterFrame := False\<rparr>, fold (deliver cb) evs s,
      9 + length payload, True, FCodeNone)"
    using p(2) c q(4) by (simp add: frameParseOne_def frameRunParse_def del: frameLoop.simps)
  then show ?thesis using q by (auto simp: at_boundary_def block_of_def)
qed

end

subsection \<open>The parser refines the reading\<close>

definition no_block :: header_state where
  "no_block = \<lparr>hsStream = 0, hsCount = 0, hsBytes = 0, hsEnd = False\<rparr>"

text \<open>A client that records what it is told.\<close>

definition recorder :: "frame_event list frame_callbacks" where
  "recorder =
     (let note = (\<lambda>ev evs. (evs @ [ev], False)) in
     \<lparr>fcFrameBegin = Some (\<lambda>h. note (EvBegin h)), fcData = Some (\<lambda>i data e. note (EvData i data e)),
      fcHeaderBlock = Some (\<lambda>i data. note (EvBlock i data)), fcHeaderBlockEnd = Some (\<lambda>i e. note (EvBlockEnd i e)),
      fcPriority = Some (\<lambda>i pr. note (EvPriority i pr)), fcRSTStream = Some (\<lambda>i c. note (EvReset i c)),
      fcSetting = Some (\<lambda>st. note (EvSetting st)), fcSettingsEnd = Some (\<lambda>ack. note (EvSettingsEnd ack)),
      fcPushPromise = Some (\<lambda>i j. note (EvPush i j)), fcPing = Some (\<lambda>data ack. note (EvPing data ack)),
      fcGoAway = Some (\<lambda>i c. note (EvGoAway i c)), fcGoAwayDebug = Some (\<lambda>data. note (EvDebug data)),
      fcWindowUpdate = Some (\<lambda>i n. note (EvWindow i n)), fcUnknown = Some (\<lambda>h data. note (EvUnknown h data)),
      fcFrameComplete = Some (\<lambda>h. note (EvComplete h))\<rparr>)"

lemma recorder_call: "event_call recorder ev = Some (\<lambda>evs. (evs @ [ev], False))"
  by (cases ev) (simp_all add: recorder_def)

interpretation recording: quiet_callbacks "Some recorder"
  by unfold_locales (auto simp: recorder_call)

lemma record_all: "fold (deliver (Some recorder)) evs acc = acc @ evs"
  by (induction evs arbitrary: acc) (simp_all add: deliver_def recorder_call)

lemma new_boundary:
  "at_boundary (NewFrameParser l)" "\<not> fParsing (NewFrameParser l)" "block_of (NewFrameParser l) = no_block"
  "fLimits (NewFrameParser l) = frameNormalized l"
  by (simp_all add: NewFrameParser_def frameInit_def zero_frame_parser_def at_boundary_def block_of_def no_block_def)

text \<open>C3: The incremental frame parser refines the reading of whole frames. For every client that does not
  call the parser from a callback, every parser between two frames, with any limits and with or without an open
  header block, and every sequence of whole frames, valid or not, one call of \<open>Parse\<close> on their octets makes
  exactly the deliveries of the reading, in order. When the reading fails, the call returns its code and the parser
  keeps it; otherwise the call consumes everything and leaves the parser between two frames, with the header block that
  the reading leaves open. The calls that cut the octets elsewhere are not the subject of this theorem.\<close>

theorem frames_refine:
  assumes "quiet_callbacks cb" "at_boundary p" "\<not> fParsing p" "list_all frame_fits fs"
  shows "\<exists>q n c. frameParse cb p s (concat (map frame_octets fs)) =
       Some (q, fold (deliver cb) (fst (readFrames (fLimits p) (block_of p) fs)) s, n, c) \<and>
     n \<le> length (concat (map frame_octets fs)) \<and>
     (case snd (readFrames (fLimits p) (block_of p) fs) of
        Inl x \<Rightarrow> c = x \<and> fCode q = x \<and> x \<noteq> FCodeNone
      | Inr hs \<Rightarrow> c = FCodeNone \<and> n = length (concat (map frame_octets fs)) \<and> at_boundary q \<and> \<not> fParsing q \<and>
          block_of q = hs \<and> fLimits q = fLimits p)"
  using quiet_callbacks.parse_reads [OF assms] .

definition demo_limits :: frame_limits where
  "demo_limits = \<lparr>MaxFrameSize = 0, MaxHeaderBlockBytes = 0, MaxContinuationFrames = 0\<rparr>"

definition demo_frames :: "(frame_header \<times> bytes) list" where
  "demo_frames =
     [(\<lparr>fhLength = 6, fhType = FrameSettings, fhFlags = 0, fhStreamID = 0\<rparr>, [0, 4, 0, 0, 1, 0]),
      (\<lparr>fhLength = 3, fhType = FrameHeaders, fhFlags = FlagEndStream, fhStreamID = 1\<rparr>, [7, 8, 9]),
      (\<lparr>fhLength = 4, fhType = FrameData, fhFlags = 0, fhStreamID = 1\<rparr>, [1, 2, 3, 4])]"

definition demo_events :: "frame_event list" where
  "demo_events =
     [EvBegin (fst (demo_frames ! 0)), EvSetting \<lparr>settingID = 4, settingValue = 256\<rparr>, EvSettingsEnd False,
      EvComplete (fst (demo_frames ! 0)), EvBegin (fst (demo_frames ! 1)), EvBlock 1 [7, 8, 9],
      EvComplete (fst (demo_frames ! 1))]"

theorem frames_refine_witness:
  "\<exists>q n. frameParse (Some recorder) (NewFrameParser demo_limits) [] (concat (map frame_octets demo_frames)) =
     Some (q, demo_events, n, FCodeInvalidContinuation)"
proof -
  have fits: "list_all frame_fits demo_frames" by (simp add: demo_frames_def frame_fits_def)
  have r: "readFrames (frameNormalized demo_limits) no_block demo_frames = (demo_events, Inl FCodeInvalidContinuation)"
    by code_simp
  show ?thesis
    using frames_refine [OF recording.quiet_callbacks_axioms new_boundary(1,2) [of demo_limits] fits, of "[]"]
    by (auto simp: r record_all new_boundary)
qed

end
