(* ===== verification/H2_Session_Wire.thy ===== *)
theory H2_Session_Wire
  imports H2_Session_Calls H2_Frame_Spec
begin

text \<open>
  What a session puts on the wire (src/http2/session.go): a field section is sent as a whole or not at all, as
  one HEADERS or PUSH_PROMISE frame and the CONTINUATION frames that follow it, and a frame parser reads the
  same block back.
\<close>

text \<open>The callbacks of a session do not call its frame parser, so that what is shown of such clients holds for sessions.\<close>

interpretation session_reader: quiet_callbacks "Some (sessionCallbacks env)" for env :: "('d, 'e) session_env"
proof
  fix t ev g and s :: "('d, 'e) session"
  assume "Some (sessionCallbacks env) = Some t" "event_call t ev = Some g"
  then show "\<not> snd (g s)" by (cases ev) (auto simp: sessionCallbacks_def)
qed

subsection \<open>Header blocks on the wire\<close>

definition frameWire :: "frame_header \<times> bytes \<Rightarrow> bytes" where
  "frameWire f = encodeHeader ((fst f)\<lparr>fhLength := of_nat (length (snd f))\<rparr>) @ snd f"

text \<open>The frames after the first: CONTINUATION frames on the stream, each within the frame size, not
  empty and full unless it is the last, that carry the rest of the block in order; only the last has END_HEADERS.\<close>

fun continuations :: "u32 \<Rightarrow> nat \<Rightarrow> bytes \<Rightarrow> (frame_header \<times> bytes) list \<Rightarrow> bool" where
  "continuations i n block [] \<longleftrightarrow> block = []"
| "continuations i n block ((h, payload) # frames) \<longleftrightarrow>
     payload \<noteq> [] \<and> length payload \<le> n \<and> (frames \<noteq> [] \<longrightarrow> length payload = n) \<and>
     h = frameOf FrameContinuation (if frames = [] then FlagEndHeaders else 0) i \<and>
     (\<exists>rest. block = payload @ rest \<and> continuations i n rest frames)"

text \<open>The frames of a block: the first has the given type, the flags that belong to it, and for a
  promise the promised identifier before its part of the block.\<close>

definition block_frames ::
  "frame_type \<Rightarrow> u32 \<Rightarrow> u32 \<Rightarrow> bool \<Rightarrow> nat \<Rightarrow> bytes \<Rightarrow> (frame_header \<times> bytes) list \<Rightarrow> bool" where
  "block_frames typ i promised endStream n block frames \<longleftrightarrow>
     (\<exists>h part rest more. frames = (h, (if typ = FramePushPromise then PutUint32 promised else []) @ part) # more \<and>
        block = part @ rest \<and> length (snd (hd frames)) \<le> n \<and> continuations i n rest more \<and>
        h = frameOf typ ((if more = [] then FlagEndHeaders else 0) OR
          (if endStream \<and> typ = FrameHeaders then FlagEndStream else 0)) i)"

lemma le_uint: "int k \<le> uint (x :: u32) \<longleftrightarrow> k \<le> unat x"
proof -
  have "uint x = int (unat x)" by simp
  then show ?thesis by linarith
qed

text \<open>A frame that has room in the output is appended.\<close>

lemma appendFrame_fits:
  assumes "readySession s = None" "length (sOutput s) + 9 + length payload \<le> unat (slMaxQueuedOutputBytes (sLimits s))"
    and "int (length payload) \<le> uint maxFrameSize" "fhLength h = 0" "fhStreamID h \<le> 0x7fffffff"
    and "validateFrameHeader (h\<lparr>fhLength := of_nat (length payload)\<rparr>) = FCodeNone"
  shows "appendFrame h payload s = (s\<lparr>sOutput := sOutput s @ frameWire (h, payload)\<rparr>, None)"
proof -
  have "int (length (sOutput s)) + (9 + int (length payload)) \<le> uint (slMaxQueuedOutputBytes (sLimits s))"
    using assms(2) of_nat_unat [of "slMaxQueuedOutputBytes (sLimits s)", where ?'a = int] by linarith
  then have "reserveOutput (9 + int (length payload)) s" by (simp add: reserve_bound)
  moreover have "AppendFrame (sOutput s) h payload = (sOutput s @ frameWire (h, payload), FCodeNone)"
    using assms(3-6) by (simp add: AppendFrame_def Let_def frameWire_def)
  ultimately show ?thesis using assms(1) by (simp add: appendFrame_def appendFrameEvenFailed_def)
qed

lemma ready_output [simp]: "readySession (s\<lparr>sOutput := out\<rparr>) = readySession s"
  by (simp add: readySession_def)

lemma valid_block_header:
  assumes "typ = FrameHeaders \<or> typ = FrameContinuation \<or> typ = FramePushPromise" "i \<noteq> 0"
    and "flags \<in> {0, FlagEndHeaders, FlagEndStream, FlagEndHeaders OR FlagEndStream}"
    and "typ = FramePushPromise \<longrightarrow> 4 \<le> n" "n < 2 ^ 32"
  shows "validateFrameHeader \<lparr>fhLength = of_nat n, fhType = typ, fhFlags = flags, fhStreamID = i\<rparr> = FCodeNone"
proof -
  have f: "Has flags FlagPadded = False" "Has flags FlagPriority = False" using assms(3) by (auto simp: Has_def)
  have "\<not> (of_nat n :: u32) < 4" if "4 \<le> n"
    using that assms(5) by (simp add: word_less_nat_alt unat_of_nat take_bit_nat_eq_self)
  then show ?thesis using assms(1,2,4) by (elim disjE) (simp_all add: validateFrameHeader_def Let_def f)
qed

text \<open>How many frames, and so how many octets, the continuations of a block take.\<close>

lemma appendBlock_continuations:
  assumes "readySession s = None" "i \<noteq> 0" "i \<le> 0x7fffffff" "length block < fuel"
    and "n = unat (sPeerMaxFrame s)" "0 < n" "n \<le> unat maxFrameSize"
    and "length (sOutput s) + length block + 9 * ((length block + n - 1) div n)
       \<le> unat (slMaxQueuedOutputBytes (sLimits s))"
  shows "\<exists>frames. appendBlock fuel typ i j e False block s =
       (s\<lparr>sOutput := sOutput s @ concat (map frameWire frames)\<rparr>, None) \<and> continuations i n block frames"
  using assms
proof (induction fuel arbitrary: block s)
  case (Suc fuel)
  show ?case
  proof (cases "block = []")
    case True
    then show ?thesis by (intro exI [of _ "[]"]) simp
  next
    case False
    define k where "k = min (length block) n"
    define h where "h = frameOf FrameContinuation (if k = length block then FlagEndHeaders else 0) i"
    have k: "0 < k" "k \<le> length block" "k \<le> n" using False Suc.prems(6) by (simp_all add: k_def)
    have u: "uint (sPeerMaxFrame s) = int n" using Suc.prems(5) by simp
    have bf: "blockFrame (sPeerMaxFrame s) typ i j e False block = (h, take k block, k)"
      by (simp add: blockFrame_def Let_def u h_def k_def flip: of_nat_min)
    have nm: "n < 2 ^ 32" using Suc.prems(7) unat_u32 [of maxFrameSize] by simp
    have cnt: "(length block + n - 1) div n = (length block - k + n - 1) div n + 1"
    proof (cases "length block \<le> n")
      case True
      then have "k = length block" by (simp add: k_def)
      moreover have "(length block + n - 1) div n = 1"
      proof (rule div_nat_eqI)
        have "0 < length block" using False by simp
        then show "n * 1 \<le> length block + n - 1" by linarith
        have "length block + n - 1 < n + n" using True Suc.prems(6) by linarith
        then show "length block + n - 1 < n * Suc 1" by simp
      qed
      ultimately show ?thesis using Suc.prems(6) by simp
    next
      case False
      then have "k = n" "length block + n - 1 = (length block - n + n - 1) + n" using Suc.prems(6) by (simp_all add: k_def)
      then show ?thesis using Suc.prems(6) by (metis div_add_self2 less_numeral_extra(3))
    qed
    define s1 where "s1 = s\<lparr>sOutput := sOutput s @ frameWire (h, take k block)\<rparr>"
    have a: "appendFrame h (take k block) s = (s1, None)" unfolding s1_def
    proof (rule appendFrame_fits)
      show "validateFrameHeader (h\<lparr>fhLength := of_nat (length (take k block))\<rparr>) = FCodeNone"
        unfolding h_def frame_header.update_convs by (rule valid_block_header) (use Suc.prems(2) k nm in auto)
      show "int (length (take k block)) \<le> uint maxFrameSize"
        using k Suc.prems(7) by (simp add: le_uint)
    qed (use Suc.prems k cnt in \<open>simp_all add: h_def\<close>)
    have len: "length (sOutput s1) = length (sOutput s) + 9 + k" using k by (simp add: s1_def frameWire_def)
    have "\<exists>frames. appendBlock fuel typ i j e False (drop k block) s1 =
        (s1\<lparr>sOutput := sOutput s1 @ concat (map frameWire frames)\<rparr>, None) \<and> continuations i n (drop k block) frames"
    proof (rule Suc.IH)
      show "length (sOutput s1) + length (drop k block) + 9 * ((length (drop k block) + n - 1) div n)
          \<le> unat (slMaxQueuedOutputBytes (sLimits s1))"
        using Suc.prems(8) len cnt k by (simp add: s1_def)
    qed (use Suc.prems k in \<open>simp_all add: s1_def\<close>)
    then obtain frames where f: "appendBlock fuel typ i j e False (drop k block) s1 =
        (s1\<lparr>sOutput := sOutput s1 @ concat (map frameWire frames)\<rparr>, None)" "continuations i n (drop k block) frames" by blast
    have last: "k = length block \<longleftrightarrow> frames = []"
      using f(2) k by (cases frames) auto
    have full: "frames \<noteq> [] \<longrightarrow> length (take k block) = n" using last by (auto simp: k_def min_def split: if_splits)
    show ?thesis
    proof (intro exI [of _ "(h, take k block) # frames"] conjI)
      show "appendBlock (Suc fuel) typ i j e False block s =
          (s\<lparr>sOutput := sOutput s @ concat (map frameWire ((h, take k block) # frames))\<rparr>, None)"
        using False bf a f(1) by (simp add: s1_def)
      show "continuations i n block ((h, take k block) # frames)"
        unfolding continuations.simps
      proof (intro conjI exI [of _ "drop k block"])
        show "h = frameOf FrameContinuation (if frames = [] then FlagEndHeaders else 0) i" by (simp add: h_def last)
        show "frames \<noteq> [] \<longrightarrow> length (take k block) = n" by (rule full)
      qed (use False k f(2) in simp_all)
    qed
  qed
qed simp


lemma encodeFields_limit:
  assumes "encodeFields hp fs s = (t, None)" "awErr (sEncoderWriter s) = None"
    and "int (length (sHeaderBlock s)) \<le> awLimit (sEncoderWriter s)"
  shows "int (length (sHeaderBlock t)) \<le> awLimit (sEncoderWriter s)"
  using assms
proof (induction fs arbitrary: s)
  case (Cons f fs)
  obtain e bs where w: "hpWriteField hp f (sEncoder s) = (e, bs)" by (cases "hpWriteField hp f (sEncoder s)")
  have fit: "int (length (sHeaderBlock s @ bs)) \<le> awLimit (sEncoderWriter s)"
    using Cons.prems(1,2) w by (auto simp: appendWriterWrite_def Let_def split: if_splits)
  then have a: "appendWriterWrite (sHeaderBlock s) (sEncoderWriter s) bs = (sEncoderWriter s, sHeaderBlock s @ bs, None)"
    using Cons.prems(2) by (simp add: appendWriterWrite_def)
  show ?case using Cons.IH [of "s\<lparr>sEncoder := e, sEncoderWriter := sEncoderWriter s, sHeaderBlock := sHeaderBlock s @ bs\<rparr>"]
      Cons.prems w a fit by simp
qed simp

text \<open>The reservation at the start of \<open>encodeAndAppendHeaders\<close> is enough for every frame of the
  block, so that a block is never sent in part.\<close>

lemma frames_bound:
  fixes n block maxBlock :: nat
  assumes "0 < n" "block \<le> maxBlock" "4 < n" "p \<le> 4"
  shows "1 + (block - min block (n - p) + n - 1) div n \<le> maxBlock div n + 2"
proof (cases "block \<le> n - p")
  case True
  then have "(block - min block (n - p) + n - 1) div n = 0" using assms(1) by simp
  then show ?thesis by simp
next
  case False
  then have "block - min block (n - p) + n - 1 \<le> block + p" using assms by (simp add: min_def)
  then have "block - min block (n - p) + n - 1 \<le> maxBlock + n" using assms by linarith
  then have "(block - min block (n - p) + n - 1) div n \<le> (maxBlock + n) div n" by (rule div_le_mono)
  also have "\<dots> = maxBlock div n + 1" using assms(1) div_add_self2 [of n maxBlock] by simp
  finally show ?thesis by simp
qed


lemma appendBlock_first:
  assumes "readySession s = None" "i \<noteq> 0" "i \<le> 0x7fffffff" "typ = FrameHeaders \<or> typ = FramePushPromise"
    and n: "n = unat (sPeerMaxFrame s)" "4 < n" "n \<le> unat maxFrameSize"
    and p: "p = (if typ = FramePushPromise then 4 else 0)" "length block + 1 < fuel"
    and room: "length (sOutput s) + p + length block + 9 * (1 + (length block - min (length block) (n - p) + n - 1) div n)
       \<le> unat (slMaxQueuedOutputBytes (sLimits s))"
  shows "\<exists>frames. appendBlock fuel typ i j e True block s =
       (s\<lparr>sOutput := sOutput s @ concat (map frameWire frames)\<rparr>, None) \<and> block_frames typ i j e n block frames"
proof -
  obtain fuel' where fuel: "fuel = Suc fuel'" "length block < fuel'" using p(2) by (cases fuel) auto
  define k where "k = min (length block) (n - p)"
  have k: "k \<le> length block" "p + k \<le> n" "p \<le> 4" using n(2) p(1) by (auto simp: k_def)
  define flags where "flags = ((if k = length block then FlagEndHeaders else 0) OR
      (if e \<and> typ = FrameHeaders then FlagEndStream else 0) :: frame_flags)"
  define payload where "payload = (if typ = FramePushPromise then PutUint32 j else []) @ take k block"
  define h where "h = frameOf typ flags i"
  have pl: "length payload = p + k" using k p(1) by (simp add: payload_def)
  have u: "uint (sPeerMaxFrame s) - int p = int (n - p)" using n(1,2) k(3) by (simp add: of_nat_diff)
  have bf: "blockFrame (sPeerMaxFrame s) typ i j e True block = (h, payload, k)"
  proof -
    have "(if typ = FramePushPromise then 4 else 0) = int p" using p(1) by simp
    then have c: "nat (min (int (length block)) (uint (sPeerMaxFrame s) - (if typ = FramePushPromise then 4 else 0))) = k"
      by (simp only: u k_def of_nat_min [symmetric] nat_int)
    show ?thesis using assms(4)
      unfolding blockFrame_def Let_def simp_thms c h_def flags_def payload_def if_True by (elim disjE) simp_all
  qed
  have nm: "n < 2 ^ 32" using n(3) unat_u32 [of maxFrameSize] by simp
  define s1 where "s1 = s\<lparr>sOutput := sOutput s @ frameWire (h, payload)\<rparr>"
  have a: "appendFrame h payload s = (s1, None)" unfolding s1_def
  proof (rule appendFrame_fits)
    show "validateFrameHeader (h\<lparr>fhLength := of_nat (length payload)\<rparr>) = FCodeNone"
      unfolding h_def frame_header.update_convs
      by (rule valid_block_header) (use assms(2,4) pl k nm p(1) in \<open>auto simp: flags_def\<close>)
    show "int (length payload) \<le> uint maxFrameSize" unfolding le_uint pl using k(2) n(3) by linarith
    show "length (sOutput s) + 9 + length payload \<le> unat (slMaxQueuedOutputBytes (sLimits s))"
    proof -
      have "length (sOutput s) + p + length block + 9 \<le> unat (slMaxQueuedOutputBytes (sLimits s))"
        by (rule order.trans [OF _ room]) simp
      then show ?thesis unfolding pl using k(1) by linarith
    qed
  qed (use assms in \<open>simp_all add: h_def\<close>)
  have len: "length (sOutput s1) = length (sOutput s) + 9 + p + k" using pl by (simp add: s1_def frameWire_def)
  have "\<exists>frames. appendBlock fuel' typ i j e False (drop k block) s1 =
      (s1\<lparr>sOutput := sOutput s1 @ concat (map frameWire frames)\<rparr>, None) \<and> continuations i n (drop k block) frames"
  proof (rule appendBlock_continuations)
    show "length (sOutput s1) + length (drop k block) + 9 * ((length (drop k block) + n - 1) div n)
        \<le> unat (slMaxQueuedOutputBytes (sLimits s1))"
      using room len k(1) by (simp add: s1_def k_def [symmetric])
  qed (use assms fuel in \<open>simp_all add: s1_def\<close>)
  then obtain frames where f: "appendBlock fuel' typ i j e False (drop k block) s1 =
      (s1\<lparr>sOutput := sOutput s1 @ concat (map frameWire frames)\<rparr>, None)" "continuations i n (drop k block) frames" by blast
  have last: "k = length block \<longleftrightarrow> frames = []" using f(2) k by (cases frames) auto
  show ?thesis
  proof (intro exI [of _ "(h, payload) # frames"] conjI)
    show "appendBlock fuel typ i j e True block s =
        (s\<lparr>sOutput := sOutput s @ concat (map frameWire ((h, payload) # frames))\<rparr>, None)"
      using bf a f(1) by (simp add: fuel s1_def)
    show "block_frames typ i j e n block ((h, payload) # frames)" unfolding block_frames_def
    proof (rule exI [of _ h], rule exI [of _ "take k block"], rule exI [of _ "drop k block"], rule exI [of _ frames],
        intro conjI)
      show "h = frameOf typ ((if frames = [] then FlagEndHeaders else 0) OR (if e \<and> typ = FrameHeaders then FlagEndStream else 0)) i"
        by (simp add: h_def flags_def last)
    qed (use f(2) pl k in \<open>simp_all add: payload_def\<close>)
  qed
qed


lemma maxFrame_inv:
  assumes "session_ok s"
  shows "4 < unat (sPeerMaxFrame s)" "unat (sPeerMaxFrame s) \<le> unat maxFrameSize"
proof -
  have "defaultMaxFrameSize \<le> sPeerMaxFrame s" "sPeerMaxFrame s \<le> maxFrameSize"
    using assms by (simp_all add: session_ok_def session_inv_def connection_inv_def)
  then show "4 < unat (sPeerMaxFrame s)" "unat (sPeerMaxFrame s) \<le> unat maxFrameSize"
    by (simp_all add: word_le_nat_alt defaultMaxFrameSize_def)
qed

text \<open>A frame that is not appended leaves the session as it was; a frame on an impossible stream is never appended.\<close>

lemma appendFrame_error: "appendFrame h payload s = (t, Some x) \<Longrightarrow> t = s"
  by (auto simp: appendFrame_def appendFrameEvenFailed_def AppendFrame_def Let_def split: option.splits if_splits)

lemma appendFrame_success:
  assumes "appendFrame h payload s = (t, None)" "fhLength h = 0"
  shows "t = s\<lparr>sOutput := sOutput s @ frameWire (h, payload)\<rparr>" "fhStreamID h \<le> 0x7fffffff"
    "validateFrameHeader (h\<lparr>fhLength := of_nat (length payload)\<rparr>) = FCodeNone"
  using assms by (auto simp: appendFrame_def appendFrameEvenFailed_def AppendFrame_def Let_def frameWire_def
      split: option.splits if_splits)

lemma appendBlock_rejected:
  assumes "i = 0 \<or> 0x7fffffff < i" "typ = FrameHeaders \<or> typ = FramePushPromise"
  shows "\<exists>x. appendBlock (Suc fuel) typ i j e True block s = (s, Some x)"
proof -
  obtain h payload count where b: "blockFrame (sPeerMaxFrame s) typ i j e True block = (h, payload, count)" by (rule prod_cases3)
  have h: "fhStreamID h = i" "fhType h = typ" "fhLength h = 0" using b by (auto simp: blockFrame_def Let_def)
  obtain u err where a: "appendFrame h payload s = (u, err)" by (cases "appendFrame h payload s")
  have "err \<noteq> None"
  proof
    assume "err = None"
    with a have "appendFrame h payload s = (u, None)" by simp
    from appendFrame_success(2,3) [OF this h(3)] show False
      using h(1,2) assms by (auto simp: validateFrameHeader_def Let_def split: if_splits)
  qed
  then obtain x where "err = Some x" by blast
  then show ?thesis using a b appendFrame_error [of h payload s u x] by simp
qed

lemma appendBlock_empty:
  assumes "appendBlock (Suc (Suc fuel)) typ i j e True [] s = (t, err)" "typ = FrameHeaders \<or> typ = FramePushPromise"
    and "4 < unat (sPeerMaxFrame s)"
  shows "if err = None
     then \<exists>frames. sOutput t = sOutput s @ concat (map frameWire frames) \<and>
       block_frames typ i j e (unat (sPeerMaxFrame s)) [] frames \<and> sHeaderBlock t = sHeaderBlock s
     else sOutput t = sOutput s"
proof -
  define h where "h = frameOf typ (FlagEndHeaders OR (if e \<and> typ = FrameHeaders then FlagEndStream else 0)) i"
  define payload where "payload = (if typ = FramePushPromise then PutUint32 j else [])"
  have "int 4 \<le> uint (sPeerMaxFrame s)" unfolding le_uint using assms(3) by simp
  then have b: "blockFrame (sPeerMaxFrame s) typ i j e True [] = (h, payload, 0)"
    using assms(2) by (auto simp: blockFrame_def Let_def h_def payload_def)
  obtain u x where a: "appendFrame h payload s = (u, x)" by (cases "appendFrame h payload s")
  show ?thesis
  proof (cases x)
    case (Some y)
    then have "u = s" "t = u \<and> err = Some y" using assms(1) a b appendFrame_error [of h payload s u y] by auto
    then show ?thesis by auto
  next
    case None
    then have u: "u = s\<lparr>sOutput := sOutput s @ frameWire (h, payload)\<rparr>"
      using appendFrame_success(1) [of h payload s u] a by (simp add: h_def)
    have "t = u" "err = None" using assms(1) a b None by simp_all
    moreover have "block_frames typ i j e (unat (sPeerMaxFrame s)) [] [(h, payload)]"
      using assms(3) by (auto simp: block_frames_def h_def payload_def)
    ultimately show ?thesis using u by (auto intro!: exI [of _ "[(h, payload)]"])
  qed
qed

lemma encodeFields_negative:
  assumes "encodeFields hp fs s = (t, None)" "awErr (sEncoderWriter s) = None" "awLimit (sEncoderWriter s) < 0"
  shows "t = s"
proof (cases fs)
  case (Cons f fs')
  have "int (length (sHeaderBlock s)) + int (length bs) > awLimit (sEncoderWriter s)" for bs :: bytes using assms(3) by linarith
  then show ?thesis using assms Cons by (auto simp: appendWriterWrite_def Let_def algebra_simps split: prod.splits if_splits)
qed (use assms in simp)

lemma encodeHeaders_atomic:
  assumes ok: "session_ok s" and ty: "typ = FrameHeaders \<or> typ = FramePushPromise"
    and r: "encodeAndAppendHeaders env typ i j headers e s = (t, err)"
  shows "if err = None
     then \<exists>frames. sOutput t = sOutput s @ concat (map frameWire frames) \<and>
       block_frames typ i j e (unat (sPeerMaxFrame s)) (sHeaderBlock t) frames
     else sOutput t = sOutput s"
proof -
  define m where "m = sint (MaxHeaderListBytes (slHeader (sLimits s)))"
  define n where "n = unat (sPeerMaxFrame s)"
  define s0 where "s0 = s\<lparr>sHeaderBlock := [], sEncoderWriter := \<lparr>awLimit = m, awErr = None\<rparr>\<rparr>"
  obtain s1 ee where f: "encodeFields (envCodec env) headers s0 = (s1, ee)" by (cases "encodeFields (envCodec env) headers s0")
  obtain enc w b where s1: "s1 = s0\<lparr>sEncoder := enc, sEncoderWriter := w, sHeaderBlock := b\<rparr>"
    using encodeFields_shape [of "envCodec env" headers s0] f by auto
  note nn = maxFrame_inv [OF ok]
  show ?thesis
  proof (cases "reserveOutput (m + (m sdiv uint (sPeerMaxFrame s) + 2) * 9 + 4) s \<and> ee = None")
    case False
    then have "sOutput t = sOutput s \<and> err \<noteq> None"
      using r f s1 unfolding encodeAndAppendHeaders_def Let_def m_def [symmetric] s0_def [symmetric]
      by (auto simp: s0_def split: if_splits option.splits)
    then show ?thesis by auto
  next
    case True
    have eq: "(t, err) = appendBlock (length b + 2) typ i j e True b s1"
      using r f s1 True unfolding encodeAndAppendHeaders_def Let_def m_def [symmetric] s0_def [symmetric]
      by (simp del: appendBlock.simps)
    show ?thesis
    proof (cases "readySession s")
      case (Some x)
      obtain h payload count where bf: "blockFrame (sPeerMaxFrame s1) typ i j e True b = (h, payload, count)"
        by (rule prod_cases3)
      have "readySession s1 = readySession s" by (simp add: s1 s0_def readySession_def)
      then have "readySession s1 = Some x" using Some by simp
      then have "t = s1 \<and> err = Some x" using eq bf by (simp add: appendFrame_def)
      then show ?thesis by (simp add: s1 s0_def)
    next
      case None
      have ready: "readySession s1 = None" using None by (simp add: s1 s0_def readySession_def split: if_splits)
      consider (stream) "i = 0 \<or> 0x7fffffff < i" | (negative) "m < 0" | (fits) "i \<noteq> 0" "i \<le> 0x7fffffff" "0 \<le> m" by fastforce
      then show ?thesis
      proof cases
        case stream
        then obtain x where "appendBlock (length b + 2) typ i j e True b s1 = (s1, Some x)"
          using appendBlock_rejected [OF _ ty, of i "length b + 1" j e b s1] by auto
        then show ?thesis using eq by (simp add: s1 s0_def)
      next
        case negative
        have "s1 = s0" using encodeFields_negative [of "envCodec env" headers s0 s1] f True negative by (simp add: s0_def)
        then have b: "sHeaderBlock s1 = []" by (simp add: s0_def)
        then have "b = []" by (simp add: s1)
        then have "appendBlock (Suc (Suc 0)) typ i j e True [] s1 = (t, err)" using eq by (simp del: appendBlock.simps add: numeral_2_eq_2)
        from appendBlock_empty [OF this ty] show ?thesis using nn b by (cases err) (auto simp: s1 s0_def)
      next
        case fits
        note i = fits(1,2) and pos = fits(3)
        have lim: "int (length b) \<le> m"
          using encodeFields_limit [of "envCodec env" headers s0 s1] f True s1 pos by (simp add: s0_def)
        define M where "M = nat m"
        have mM: "m = int M" using pos by (simp add: M_def)
        have un: "uint (sPeerMaxFrame s) = int n" by (simp add: n_def)
        define p where "p = (if typ = FramePushPromise then 4 else 0 :: nat)"
        have "m sdiv uint (sPeerMaxFrame s) = int (M div n)"
          unfolding mM un by (simp add: signed_divide_int_def sgn_if zdiv_int)
        then have res: "length (sOutput s) + M + (M div n + 2) * 9 + 4 \<le> unat (slMaxQueuedOutputBytes (sLimits s))"
          using True unfolding reserve_bound mM by (simp flip: le_uint)
        have bM: "length b \<le> M" using lim mM by simp
        define q where "q = 1 + (length b - min (length b) (n - p) + n - 1) div n"
        have q: "q \<le> M div n + 2" unfolding q_def
          by (rule frames_bound) (use nn bM in \<open>simp_all add: n_def p_def\<close>)
        have p4: "p \<le> 4" by (simp add: p_def)
        have q9: "9 * q \<le> (M div n + 2) * 9" using q by (simp add: mult.commute)
        have "length (sOutput s) + p + length b + 9 * q \<le> length (sOutput s) + 4 + M + (M div n + 2) * 9"
          by (intro add_mono order_refl p4 bM q9)
        also have "\<dots> \<le> unat (slMaxQueuedOutputBytes (sLimits s))" using res by (simp only: ac_simps)
        finally have "length (sOutput s) + p + length b + 9 * q \<le> unat (slMaxQueuedOutputBytes (sLimits s))" .
        then have room: "length (sOutput s1) + p + length b + 9 * (1 + (length b - min (length b) (n - p) + n - 1) div n)
            \<le> unat (slMaxQueuedOutputBytes (sLimits s1))"
          by (simp add: s1 s0_def q_def)
        have "\<exists>frames. appendBlock (length b + 2) typ i j e True b s1 =
            (s1\<lparr>sOutput := sOutput s1 @ concat (map frameWire frames)\<rparr>, None) \<and> block_frames typ i j e n b frames"
          by (rule appendBlock_first [where p = p])
            (use ready i ty nn room in \<open>simp_all add: s1 s0_def n_def p_def\<close>)
        then show ?thesis using eq by (auto simp: s1 s0_def n_def [symmetric])
      qed
    qed
  qed
qed

subsection \<open>Reading a block back\<close>

definition sized :: "frame_header \<times> bytes \<Rightarrow> frame_header \<times> bytes" where
  "sized f = ((fst f)\<lparr>fhLength := of_nat (length (snd f))\<rparr>, snd f)"

lemma wire_octets: "frameWire f = frame_octets (sized f)"
  by (simp add: frameWire_def frame_octets_def sized_def)

text \<open>The fragments of header blocks among the deliveries, and the ends of blocks.\<close>

fun block_data :: "frame_event list \<Rightarrow> bytes" where
  "block_data [] = []"
| "block_data (EvBlock i data # evs) = data @ block_data evs"
| "block_data (_ # evs) = block_data evs"

fun block_ends :: "frame_event list \<Rightarrow> (u32 \<times> bool) list" where
  "block_ends [] = []"
| "block_ends (EvBlockEnd i e # evs) = (i, e) # block_ends evs"
| "block_ends (_ # evs) = block_ends evs"

lemma block_data_append [simp]: "block_data (xs @ ys) = block_data xs @ block_data ys"
  by (induction xs rule: block_data.induct) auto

lemma block_ends_append [simp]: "block_ends (xs @ ys) = block_ends xs @ block_ends ys"
  by (induction xs rule: block_ends.induct) auto

lemma of_nat_le_u32: "n \<le> unat (x :: u32) \<Longrightarrow> \<not> x < of_nat n"
  using unat_u32 [of x] by (simp add: word_less_nat_alt unat_of_nat take_bit_nat_eq_self)

lemma block_room:
  fixes n m :: u64
  assumes "unat n + k \<le> unat m"
  shows "\<not> m < n + of_nat k" "unat (n + of_nat k) = unat n + k"
proof -
  have "unat m < 2 ^ 64" using unsigned_less [of m, where 'a = nat] by simp
  then show "unat (n + of_nat k) = unat n + k" using assms by (intro unat_plus_of_nat) simp
  then show "\<not> m < n + of_nat k" using assms by (simp add: word_less_nat_alt)
qed

lemma Has_flags [simp]:
  "Has 0 f = False" "Has FlagEndHeaders FlagEndHeaders" "\<not> Has FlagEndHeaders FlagPadded" "\<not> Has FlagEndHeaders FlagPriority"
  "\<not> Has FlagEndHeaders FlagEndStream" "\<not> Has FlagEndStream FlagEndHeaders" "Has FlagEndStream FlagEndStream"
  "\<not> Has FlagEndStream FlagPadded" "\<not> Has FlagEndStream FlagPriority" "Has 5 FlagEndStream" "Has 5 FlagEndHeaders"
  "\<not> Has 5 FlagPadded" "\<not> Has 5 FlagPriority"
  by (simp_all add: Has_def)

lemma continuation_read:
  assumes "payload \<noteq> []" "length payload \<le> unat (MaxFrameSize l)" "i \<noteq> 0" "hsStream hs = i"
    and "unat (hsCount hs) + 1 \<le> unat (MaxContinuationFrames l)"
    and "unat (hsBytes hs) + length payload \<le> unat (MaxHeaderBlockBytes l)"
    and h: "h = \<lparr>fhLength = of_nat (length payload), fhType = FrameContinuation,
      fhFlags = (if final then FlagEndHeaders else 0), fhStreamID = i\<rparr>"
  shows "readFrame l hs h payload =
    ([EvBegin h, EvBlock i payload] @ (if final then [EvBlockEnd i (hsEnd hs)] else []) @ [EvComplete h],
     Inr (if final then no_block
          else hs\<lparr>hsCount := hsCount hs + 1, hsBytes := hsBytes hs + of_nat (length payload)\<rparr>))"
proof -
  have "unat (hsCount hs + 1) = unat (hsCount hs) + 1"
    using assms(5) unat_u32 [of "MaxContinuationFrames l"] unat_plus_of_nat [of "hsCount hs" 1] by simp
  then have "\<not> MaxContinuationFrames l < hsCount hs + 1" using assms(5) by (simp add: word_less_nat_alt)
  moreover have "\<not> MaxFrameSize l < of_nat (length payload)" by (rule of_nat_le_u32 [OF assms(2)])
  moreover have "validateFrameHeader h = FCodeNone" using assms(3) by (simp add: h validateFrameHeader_def Let_def)
  ultimately have "admitFrame l hs h = ([], Inr (hs\<lparr>hsCount := hsCount hs + 1\<rparr>))"
    using assms(3,4) by (simp add: admitFrame_def h)
  moreover have "readPayload l (hsBytes hs) h payload = ([EvBlock i payload], Inr (hsBytes hs + of_nat (length payload)))"
    using block_room(1) [OF assms(6)] assms(1) by (simp add: readPayload_def readBlock_def h)
  moreover have "readClosing h payload = ([], Inr ())" by (simp add: readClosing_def h)
  ultimately show ?thesis using assms(3,4)
    by (simp add: readFrame_def readBlockEnd_def) (simp add: h no_block_def)
qed

lemma continuations_count:
  "continuations i n block frames \<Longrightarrow> n * length frames \<le> length block + n"
proof (induction frames arbitrary: block)
  case (Cons f frames)
  obtain h payload where f: "f = (h, payload)" by (cases f)
  obtain rest where "block = payload @ rest" "continuations i n rest frames" "frames \<noteq> [] \<longrightarrow> length payload = n"
    using Cons.prems by (auto simp: f)
  then show ?case using Cons.IH [of rest] by (cases "frames = []") simp_all
qed simp

lemma continuations_read:
  assumes "continuations i n block frames" "frames \<noteq> []" "i \<noteq> 0" "n \<le> unat (MaxFrameSize l)" "hsStream hs = i"
    and "unat (hsCount hs) + length frames \<le> unat (MaxContinuationFrames l)"
    and "unat (hsBytes hs) + length block \<le> unat (MaxHeaderBlockBytes l)"
  shows "\<exists>evs. readFrames l hs (map sized frames) = (evs, Inr no_block) \<and> block_data evs = block \<and>
     block_ends evs = [(i, hsEnd hs)]"
  using assms
proof (induction frames arbitrary: block hs)
  case (Cons f frames)
  obtain h payload where f: "f = (h, payload)" by (cases f)
  obtain rest where p: "payload \<noteq> []" "length payload \<le> n" "block = payload @ rest" "continuations i n rest frames"
    and h: "h = frameOf FrameContinuation (if frames = [] then FlagEndHeaders else 0) i"
    using Cons.prems(1) by (auto simp: f)
  define h' where "h' = \<lparr>fhLength = of_nat (length payload), fhType = FrameContinuation,
      fhFlags = (if frames = [] then FlagEndHeaders else 0), fhStreamID = i\<rparr>"
  have s: "sized f = (h', payload)" by (simp add: sized_def f h h'_def)
  have r: "readFrame l hs h' payload =
    ([EvBegin h', EvBlock i payload] @ (if frames = [] then [EvBlockEnd i (hsEnd hs)] else []) @ [EvComplete h'],
     Inr (if frames = [] then no_block
          else hs\<lparr>hsCount := hsCount hs + 1, hsBytes := hsBytes hs + of_nat (length payload)\<rparr>))"
    by (rule continuation_read) (use p Cons.prems(3-7) in \<open>simp_all add: h'_def\<close>)
  show ?case
  proof (cases "frames = []")
    case True
    then show ?thesis using r s p(3,4) by simp
  next
    case False
    define hs' where "hs' = hs\<lparr>hsCount := hsCount hs + 1, hsBytes := hsBytes hs + of_nat (length payload)\<rparr>"
    have c: "unat (hsCount hs') = unat (hsCount hs) + 1"
      using Cons.prems(6) unat_u32 [of "MaxContinuationFrames l"] unat_plus_of_nat [of "hsCount hs" 1] by (simp add: hs'_def)
    have b: "unat (hsBytes hs') = unat (hsBytes hs) + length payload"
      using block_room(2) [of "hsBytes hs" "length payload" "MaxHeaderBlockBytes l"] Cons.prems(7) p(3) by (simp add: hs'_def)
    have "\<exists>evs. readFrames l hs' (map sized frames) = (evs, Inr no_block) \<and> block_data evs = rest \<and> block_ends evs = [(i, hsEnd hs')]"
      by (rule Cons.IH [OF p(4) False Cons.prems(3,4)]) (use Cons.prems(5-7) c b p(3) in \<open>simp_all add: hs'_def\<close>)
    then obtain evs where "readFrames l hs' (map sized frames) = (evs, Inr no_block)" "block_data evs = rest" "block_ends evs = [(i, hsEnd hs)]"
      by (auto simp: hs'_def)
    then show ?thesis using r s False p(3) by (simp add: hs'_def)
  qed
qed simp

lemma first_read:
  assumes ty: "typ = FrameHeaders \<or> typ = FramePushPromise" and i: "i \<noteq> 0"
    and j: "typ = FramePushPromise \<Longrightarrow> j \<noteq> 0 \<and> j \<le> 0x7fffffff"
    and len: "length payload \<le> unat (MaxFrameSize l)" "length payload < 2 ^ 24"
    and room: "length part \<le> unat (MaxHeaderBlockBytes l)"
    and payload: "payload = (if typ = FramePushPromise then PutUint32 j else []) @ part"
    and h: "h = \<lparr>fhLength = of_nat (length payload), fhType = typ,
      fhFlags = (if final then FlagEndHeaders else 0) OR (if e \<and> typ = FrameHeaders then FlagEndStream else 0), fhStreamID = i\<rparr>"
  shows "readFrame l no_block h payload =
    ([EvBegin h] @ (if typ = FramePushPromise then [EvPush i j] else []) @ (if part = [] then [] else [EvBlock i part]) @
       (if final then [EvBlockEnd i (e \<and> typ = FrameHeaders)] else []) @ [EvComplete h],
     Inr (if final then no_block
          else \<lparr>hsStream = i, hsCount = 0, hsBytes = of_nat (length part), hsEnd = (e \<and> typ = FrameHeaders)\<rparr>))"
proof -
  define flags where "flags = (if final then FlagEndHeaders else 0) OR (if e \<and> typ = FrameHeaders then FlagEndStream else 0)"
  have flags: "Has flags FlagEndHeaders = final" "Has flags FlagEndStream = (e \<and> typ = FrameHeaders)"
    "\<not> Has flags FlagPadded" "\<not> Has flags FlagPriority"
    "flags \<in> {0, FlagEndHeaders, FlagEndStream, FlagEndHeaders OR FlagEndStream}"
    by (auto simp: flags_def)
  have h': "h = \<lparr>fhLength = of_nat (length payload), fhType = typ, fhFlags = flags, fhStreamID = i\<rparr>" by (simp add: h flags_def)
  have v: "validateFrameHeader h = FCodeNone" unfolding h'
    by (rule valid_block_header) (use ty i flags(5) len payload in auto)
  have "\<not> MaxFrameSize l < of_nat (length payload)" by (rule of_nat_le_u32 [OF len(1)])
  then have a: "admitFrame l no_block h = ([], Inr (no_block\<lparr>hsEnd := (e \<and> typ = FrameHeaders)\<rparr>))"
    using ty v by (auto simp: admitFrame_def no_block_def flags h')
  have room': "\<not> MaxHeaderBlockBytes l < of_nat (length part)" using block_room(1) [of 0 "length part" "MaxHeaderBlockBytes l"] room by simp
  have p: "readPayload l 0 h payload =
      ((if typ = FramePushPromise then [EvPush i j] else []) @ (if part = [] then [] else [EvBlock i part]), Inr (of_nat (length part)))"
  proof (cases "typ = FramePushPromise")
    case True
    have "Uint32 (take 4 payload) = j" "drop 4 payload = part" using True payload by simp_all
    then show ?thesis using True j [OF True] room' flags(3)
      by (simp add: readPayload_def h' unpad_def and_mask31 readBlock_def)
  next
    case False
    then show ?thesis using ty payload room' flags(3,4) by (simp add: readPayload_def h' unpad_def readBlock_def)
  qed
  have c: "readClosing h payload = ([], Inr ())" using ty by (auto simp: readClosing_def h')
  show ?thesis using a p c ty by (auto simp: readFrame_def readBlockEnd_def no_block_def) (simp_all add: h' flags)
qed

text \<open>The frames of a block are read back as the block.\<close>

lemma block_read:
  assumes ty: "typ = FrameHeaders \<or> typ = FramePushPromise" and i: "i \<noteq> 0"
    and j: "typ = FramePushPromise \<Longrightarrow> j \<noteq> 0 \<and> j \<le> 0x7fffffff"
    and b: "block_frames typ i j e n block frames"
    and n: "n \<le> unat (MaxFrameSize l)" "n < 2 ^ 24"
    and room: "length block \<le> unat (MaxHeaderBlockBytes l)" "length block div n + 1 \<le> unat (MaxContinuationFrames l)" "0 < n"
  shows "\<exists>evs. readFrames l no_block (map sized frames) = (evs, Inr no_block) \<and> block_data evs = block \<and>
     block_ends evs = [(i, e \<and> typ = FrameHeaders)] \<and> (typ = FramePushPromise \<longrightarrow> EvPush i j \<in> set evs)"
proof -
  obtain h part rest more where f: "frames = (h, (if typ = FramePushPromise then PutUint32 j else []) @ part) # more"
    "block = part @ rest" "length (snd (hd frames)) \<le> n" "continuations i n rest more"
    "h = frameOf typ ((if more = [] then FlagEndHeaders else 0) OR (if e \<and> typ = FrameHeaders then FlagEndStream else 0)) i"
    using b unfolding block_frames_def by blast
  define payload where "payload = (if typ = FramePushPromise then PutUint32 j else []) @ part"
  define h' where "h' = h\<lparr>fhLength := of_nat (length payload)\<rparr>"
  have s: "map sized frames = (h', payload) # map sized more" by (simp add: f(1) sized_def payload_def h'_def)
  have len: "length payload \<le> n" using f(1,3) by (simp add: payload_def)
  have r: "readFrame l no_block h' payload =
    ([EvBegin h'] @ (if typ = FramePushPromise then [EvPush i j] else []) @ (if part = [] then [] else [EvBlock i part]) @
       (if more = [] then [EvBlockEnd i (e \<and> typ = FrameHeaders)] else []) @ [EvComplete h'],
     Inr (if more = [] then no_block
          else \<lparr>hsStream = i, hsCount = 0, hsBytes = of_nat (length part), hsEnd = (e \<and> typ = FrameHeaders)\<rparr>))"
    by (rule first_read [OF ty i j]) (use len n room(1) f(2) in \<open>simp_all add: payload_def h'_def f(5)\<close>)
  show ?thesis
  proof (cases "more = []")
    case True
    then have "rest = []" using f(4) by simp
    then show ?thesis using r s True f(2) by simp
  next
    case False
    define hs where "hs = \<lparr>hsStream = i, hsCount = 0, hsBytes = (of_nat (length part) :: u64), hsEnd = (e \<and> typ = FrameHeaders)\<rparr>"
    have b0: "unat (hsBytes hs) = length part"
      using block_room(2) [of 0 "length part" "MaxHeaderBlockBytes l"] room(1) f(2) by (simp add: hs_def)
    have "n * length more \<le> length block + n" using continuations_count [OF f(4)] f(2) by simp
    then have "length more \<le> (length block + n) div n" using room(3) by (simp add: less_eq_div_iff_mult_less_eq mult.commute)
    then have cnt: "length more \<le> unat (MaxContinuationFrames l)" using room(2,3) div_add_self2 [of n "length block"] by simp
    have "\<exists>evs. readFrames l hs (map sized more) = (evs, Inr no_block) \<and> block_data evs = rest \<and> block_ends evs = [(i, hsEnd hs)]"
      by (rule continuations_read [OF f(4) False i n(1)]) (use room(1) cnt f(1,2) b0 in \<open>simp_all add: hs_def\<close>)
    then obtain evs where e: "readFrames l hs (map sized more) = (evs, Inr no_block)" "block_data evs = rest" "block_ends evs = [(i, hsEnd hs)]"
      by blast
    show ?thesis using r s False f(2) e by (simp add: hs_def [symmetric]) (simp add: hs_def)
  qed
qed

lemma encode_success:
  assumes "encodeAndAppendHeaders env typ i j headers e s = (t, None)"
    and "typ = FrameHeaders \<or> typ = FramePushPromise"
  shows "i \<noteq> 0 \<and> i \<le> 0x7fffffff"
proof -
  define m where "m = sint (MaxHeaderListBytes (slHeader (sLimits s)))"
  define s0 where "s0 = s\<lparr>sHeaderBlock := [], sEncoderWriter := \<lparr>awLimit = m, awErr = None\<rparr>\<rparr>"
  obtain s1 where f: "encodeFields (envCodec env) headers s0 = (s1, None)"
    and a: "appendBlock (length (sHeaderBlock s1) + 2) typ i j e True (sHeaderBlock s1) s1 = (t, None)"
    using assms(1) unfolding encodeAndAppendHeaders_def Let_def m_def [symmetric] s0_def [symmetric]
    by (auto simp del: appendBlock.simps split: if_splits option.splits prod.splits)
  obtain h payload count where b: "blockFrame (sPeerMaxFrame s1) typ i j e True (sHeaderBlock s1) = (h, payload, count)"
    by (rule prod_cases3)
  have h: "fhStreamID h = i" "fhType h = typ" using b by (auto simp: blockFrame_def Let_def)
  obtain u err where ap: "appendFrame h payload s1 = (u, err)" by (cases "appendFrame h payload s1")
  then have "err = None" using a b by (auto split: if_splits)
  then have "snd (AppendFrame (sOutput s1) h payload) = FCodeNone"
    using ap by (auto simp: appendFrame_def appendFrameEvenFailed_def split: option.splits if_splits prod.splits)
  then have "\<not> 0x7fffffff < fhStreamID h" "validateFrameHeader (h\<lparr>fhLength := of_nat (length payload)\<rparr>) = FCodeNone"
    by (auto simp: AppendFrame_def Let_def split: if_splits)
  then show ?thesis using h assms(2) by (auto simp: validateFrameHeader_def Let_def not_less split: if_splits)
qed

lemma localEnd_queues: "sOutput (localEnd i s) = sOutput s" "sHeaderBlock (localEnd i s) = sHeaderBlock s"
  by (auto simp: localEnd_def closeStream_def putStream_def Let_def case_prod_beta split: option.split stream_state.split)

lemma frames_fit:
  assumes "block_frames typ i j e n block frames" "n < 2 ^ 24" "i \<le> 0x7fffffff"
  shows "list_all frame_fits (map sized frames)"
proof -
  have "list_all frame_fits (map sized fs)" if "continuations i n b fs" for b fs
    using that
  proof (induction fs arbitrary: b)
    case (Cons f fs)
    then show ?case using assms(2,3) by (cases f) (auto simp: frame_fits_def sized_def)
  qed simp
  then show ?thesis using assms by (auto simp: block_frames_def frame_fits_def sized_def)
qed

text \<open>C6: Header blocks survive the wire. When a session, after any calls, sends a field section, the octets
  it adds to its output are frames that the frame parser of a peer reads in one call, without an error and to their end;
  the fragments it delivers are the encoded block, in order, the block ends once, on the stream of the section, and says
  whether the stream ends. The peer's parser is between two frames and outside a header block, its callbacks do not call it,
  and its limits admit what is sent: the frame size that it announced, the length of the block, and one CONTINUATION frame
  more than the frames that the block fills. The sender's limit on remembered closed streams is below 2^32 - 1.\<close>

theorem header_block_round_trip:
  assumes start: "NewSession env role l = Inr s0" "unat (slMaxClosedStreams (sessionNormalized l)) < 2 ^ 32 - 1"
    "sessionCalls env cs s0 = Some s"
    and send: "SendHeaders env i headers e s = (t, None)"
    and peer: "quiet_callbacks cb" "at_boundary p" "\<not> fParsing p" "block_of p = no_block"
    and admits: "unat (sPeerMaxFrame s) \<le> unat (MaxFrameSize (fLimits p))"
      "length (sHeaderBlock t) \<le> unat (MaxHeaderBlockBytes (fLimits p))"
      "length (sHeaderBlock t) div unat (sPeerMaxFrame s) + 1 \<le> unat (MaxContinuationFrames (fLimits p))"
  shows "\<exists>wire evs q. sOutput t = sOutput s @ wire \<and>
     frameParse cb p u wire = Some (q, fold (deliver cb) evs u, length wire, FCodeNone) \<and>
     block_data evs = sHeaderBlock t \<and> block_ends evs = [(i, e)] \<and> block_of q = no_block"
proof -
  have ok: "session_ok s" using sessionCalls_ok [OF NewSession_ok [OF start(1,2)], of env cs] start(3) by simp
  from send(1) obtain v st md trailer where v: "encodeAndAppendHeaders env FrameHeaders i 0 headers e s = (v, None)"
    "t = (if e then localEnd i (putStream (sentHeaders md trailer st) v) else putStream (sentHeaders md trailer st) v)"
    by (cases rule: SendHeaders_cases) auto
  have t: "sOutput t = sOutput v" "sHeaderBlock t = sHeaderBlock v"
    using v(2) by (simp_all add: localEnd_queues) (simp_all add: putStream_def)
  have i: "i \<noteq> 0" "i \<le> 0x7fffffff" using encode_success [OF v(1)] by simp_all
  define n where "n = unat (sPeerMaxFrame s)"
  obtain frames where f: "sOutput v = sOutput s @ concat (map frameWire frames)" "block_frames FrameHeaders i 0 e n (sHeaderBlock v) frames"
    using encodeHeaders_atomic [OF ok _ v(1)] by (auto simp: n_def)
  have n: "0 < n" "n < 2 ^ 24" using maxFrame_inv [OF ok] by (simp_all add: n_def maxFrameSize_def)
  obtain evs where r: "readFrames (fLimits p) no_block (map sized frames) = (evs, Inr no_block)"
    "block_data evs = sHeaderBlock v" "block_ends evs = [(i, e)]"
    using block_read [OF _ i(1) _ f(2), where l = "fLimits p"] n admits t by (auto simp: n_def)
  have fit: "list_all frame_fits (map sized frames)" by (rule frames_fit [OF f(2) n(2) i(2)])
  have wire: "concat (map frameWire frames) = concat (map frame_octets (map sized frames))"
    by (simp add: wire_octets [abs_def] comp_def)
  obtain q where "frameParse cb p u (concat (map frame_octets (map sized frames))) =
       Some (q, fold (deliver cb) evs u, length (concat (map frame_octets (map sized frames))), FCodeNone)" "block_of q = no_block"
    using quiet_callbacks.parse_reads [OF peer(1,2,3) fit, of u] by (auto simp: peer(4) r(1))
  then show ?thesis using f(1) t r(2,3) wire by metis
qed

definition demo_env :: "(unit, unit) session_env" where
  "demo_env = \<lparr>envCodec = demo_codec, envOrder = id\<rparr>"

definition demo_session_limits :: session_limits where
  "demo_session_limits = \<lparr>slFrame = demo_limits,
     slHeader = \<lparr>MaxDynamicTableBytes = 0, MaxFieldBytes = 0, MaxHeaderListBytes = 0, hlMaxHeaders = 0\<rparr>,
     slMaxConcurrentStreams = 0, slMaxStreams = 0, slMaxClosedStreams = 0, slMaxQueuedOutputBytes = 0,
     slMaxQueuedEventBytes = 0, slMaxQueuedEvents = 0, slInitialWindowSize = 0, slMaxControlFrames = 0,
     slEnablePush = False, slEnableExtendedConnect = False\<rparr>"

definition plain_field :: "string \<Rightarrow> string \<Rightarrow> header_field" where
  "plain_field n v = \<lparr>hfName = lit n, hfValue = lit v, hfSensitive = False\<rparr>"

definition demo_request :: "header_field list" where
  "demo_request = [plain_field '':method'' ''GET'', plain_field '':scheme'' ''https'',
     plain_field '':authority'' ''a'', plain_field '':path'' ''/'']"

definition demo_client :: "(unit, unit) session" where
  "demo_client = (case NewSession demo_env RoleClient demo_session_limits of Inr s \<Rightarrow> s)"

definition demo_opened :: "(unit, unit) session" where
  "demo_opened = (case sessionCalls demo_env [SOpenStream demo_request False] demo_client of Some s \<Rightarrow> s)"

lemma demo_facts:
  "NewSession demo_env RoleClient demo_session_limits = Inr demo_client \<and>
   sessionCalls demo_env [SOpenStream demo_request False] demo_client = Some demo_opened \<and>
   slMaxClosedStreams (sessionNormalized demo_session_limits) = 256 \<and>
   sPeerMaxFrame demo_opened = 16384 \<and>
   (case SendHeaders demo_env 1 [plain_field ''x'' ''y''] True demo_opened of
      (t, err) \<Rightarrow> err = None \<and> sHeaderBlock t = lit ''x'') \<and>
   frameNormalized demo_limits =
     \<lparr>MaxFrameSize = 16384, MaxHeaderBlockBytes = 1048576, MaxContinuationFrames = 1024\<rparr>"
  by code_simp

theorem header_block_round_trip_witness:
  "\<exists>wire evs q. sOutput (fst (SendHeaders demo_env 1 [plain_field ''x'' ''y''] True demo_opened)) = sOutput demo_opened @ wire \<and>
     frameParse (Some recorder) (NewFrameParser demo_limits) [] wire = Some (q, evs, length wire, FCodeNone) \<and>
     block_data evs = lit ''x'' \<and> block_ends evs = [(1, True)]"
proof -
  obtain t where send: "SendHeaders demo_env 1 [plain_field ''x'' ''y''] True demo_opened = (t, None)" "sHeaderBlock t = lit ''x''"
    using demo_facts by (cases "SendHeaders demo_env 1 [plain_field ''x'' ''y''] True demo_opened") auto
  have "unat (slMaxClosedStreams (sessionNormalized demo_session_limits)) < 2 ^ 32 - 1" using demo_facts by simp
  then show ?thesis
    using header_block_round_trip [OF _ _ _ send(1) recording.quiet_callbacks_axioms new_boundary(1-3) [of demo_limits],
        of RoleClient demo_session_limits demo_client "[SOpenStream demo_request False]" "[]"] demo_facts send
    by (auto simp: new_boundary record_all lit_def)
qed

end
