(* ===== verification/H2_Session_Streams.thy ===== *)
theory H2_Session_Streams
  imports H2_Session_Wire
begin

text \<open>
  The life cycle of streams. The state of every stream identifier, known or not, changes only along the
  transitions of RFC 9113, section 5.1, whatever the owner calls and whatever the peer sends. The handlers
  of inbound frames are covered by an interpretation of the contract between the frame parser and its
  callbacks, and the owner's calls one by one.
\<close>

subsection \<open>The states of a stream\<close>

text \<open>The transitions of RFC 9113, section 5.1. A stream that is skipped by the use of a higher identifier
  goes from idle to closed.\<close>

inductive stream_step :: "stream_state \<Rightarrow> stream_state \<Rightarrow> bool" where
  reserve_local: "stream_step StreamIdle StreamReservedLocal"
| reserve_remote: "stream_step StreamIdle StreamReservedRemote"
| open_stream: "stream_step StreamIdle StreamOpen"
| push_sent: "stream_step StreamReservedLocal StreamHalfClosedRemote"
| push_received: "stream_step StreamReservedRemote StreamHalfClosedLocal"
| end_local: "stream_step StreamOpen StreamHalfClosedLocal"
| end_remote: "stream_step StreamOpen StreamHalfClosedRemote"
| close_stream: "stream_step st StreamClosed"

inductive_cases closed_stepE: "stream_step StreamClosed st"

lemmas stream_steps = r_into_rtranclp [of stream_step, OF stream_step.reserve_local]
  r_into_rtranclp [of stream_step, OF stream_step.reserve_remote] r_into_rtranclp [of stream_step, OF stream_step.open_stream]
  r_into_rtranclp [of stream_step, OF stream_step.push_sent] r_into_rtranclp [of stream_step, OF stream_step.push_received]
  r_into_rtranclp [of stream_step, OF stream_step.end_local] r_into_rtranclp [of stream_step, OF stream_step.end_remote]
  r_into_rtranclp [of stream_step, OF stream_step.close_stream]

lemma closed_final: "stream_step\<^sup>*\<^sup>* StreamClosed st \<Longrightarrow> st = StreamClosed"
  by (induction rule: rtranclp_induct) (auto elim: closed_stepE)

lemma not_idle_again: "stream_step\<^sup>*\<^sup>* a b \<Longrightarrow> a \<noteq> StreamIdle \<Longrightarrow> b \<noteq> StreamIdle"
  by (induction rule: rtranclp_induct) (auto elim: stream_step.cases)

text \<open>The state of a stream as the peer can know it: streams that are not in the map are idle, or closed
  when their identifier has been used or skipped.\<close>

definition local_id :: "session_role \<Rightarrow> u32 \<Rightarrow> bool" where
  "local_id role i \<longleftrightarrow> odd (unat i) = (role = RoleClient)"

definition used_id :: "u32 \<Rightarrow> ('d, 'e) session \<Rightarrow> bool" where
  "used_id i s \<longleftrightarrow>
     (if local_id (sRole s) i then i < sNextLocalStream s else i \<le> sLastPeerStream s)"

definition streamView :: "('d, 'e) session \<Rightarrow> u32 \<Rightarrow> stream_state" where
  "streamView s i =
     (case lookupStream i s of
        Some st \<Rightarrow> ssState st
      | None \<Rightarrow> if used_id i s then StreamClosed else StreamIdle)"

definition evolves :: "('d, 'e) session \<Rightarrow> ('d, 'e) session \<Rightarrow> bool" where
  "evolves s t \<longleftrightarrow> (\<forall>i. stream_step\<^sup>*\<^sup>* (streamView s i) (streamView t i))"

lemma evolves_refl [simp]: "evolves s s"
  by (simp add: evolves_def)

lemma evolves_trans: "evolves s t \<Longrightarrow> evolves t u \<Longrightarrow> evolves s u"
  by (auto simp: evolves_def intro: rtranclp_trans)

text \<open>What the view depends on.\<close>

definition stream_part :: "('d, 'e) session \<Rightarrow> session_role \<times> stream_map \<times> u32 \<times> u32" where
  "stream_part s = (sRole s, sStreams s, sNextLocalStream s, sLastPeerStream s)"

lemma view_cong:
  assumes "stream_part t = stream_part s"
  shows "streamView t = streamView s"
proof -
  have e: "sRole t = sRole s" "sStreams t = sStreams s" "sNextLocalStream t = sNextLocalStream s"
    "sLastPeerStream t = sLastPeerStream s" using assms by (simp_all add: stream_part_def)
  show ?thesis unfolding streamView_def [abs_def] used_id_def e ..
qed

lemma evolves_same: "stream_part t = stream_part s \<Longrightarrow> evolves s t"
  using view_cong [of t s] by (simp add: evolves_def)

lemma part_simps [simp]:
  "stream_part (fst (appendFrameEvenFailed h payload s)) = stream_part s"
  "stream_part (fst (appendFrame h payload s)) = stream_part s"
  "stream_part (fst (appendSettings settings ack s)) = stream_part s"
  "stream_part (fst (appendWindowUpdate i n s)) = stream_part s"
  "stream_part (fst (queueEvent ev s)) = stream_part s"
  "stream_part (fst (connectionError c reason s)) = stream_part s"
proof -
  show 1: "stream_part (fst (appendFrameEvenFailed h payload s)) = stream_part s" for h payload and s :: "('a, 'b) session"
    by (simp add: appendFrameEvenFailed_def stream_part_def case_prod_beta)
  then show "stream_part (fst (appendFrame h payload s)) = stream_part s"
    "stream_part (fst (appendSettings settings ack s)) = stream_part s"
    "stream_part (fst (appendWindowUpdate i n s)) = stream_part s"
    by (simp_all add: appendFrame_def appendSettings_def appendWindowUpdate_def split: option.split)
  show "stream_part (fst (queueEvent ev s)) = stream_part s" by (simp add: queueEvent_def stream_part_def Let_def)
  have "stream_part (s\<lparr>sFailed := x, sGoAwaySent := True\<rparr>) = stream_part s" for x by (simp add: stream_part_def)
  then show "stream_part (fst (connectionError c reason s)) = stream_part s"
    by (simp add: connectionError_def Let_def 1 split: option.split)
qed

lemma part_fields [simp]:
  "stream_part (s\<lparr>sDecoder := d\<rparr>) = stream_part s" "stream_part (s\<lparr>sEncoder := en\<rparr>) = stream_part s"
  "stream_part (s\<lparr>sCurrentFrame := h\<rparr>) = stream_part s" "stream_part (s\<lparr>sExtensionPayload := bs\<rparr>) = stream_part s"
  "stream_part (s\<lparr>sConnectionRecvWindow := n\<rparr>) = stream_part s" "stream_part (s\<lparr>sConnectionSendWindow := n\<rparr>) = stream_part s"
  "stream_part (s\<lparr>sControlFrames := c\<rparr>) = stream_part s" "stream_part (s\<lparr>sPendingSettings := st\<rparr>) = stream_part s"
  "stream_part (s\<lparr>sPeerInitialSettings := b\<rparr>) = stream_part s" "stream_part (s\<lparr>sLocalSettingsOutstanding := c\<rparr>) = stream_part s"
  "stream_part (s\<lparr>sLastProcessedPeerStream := c\<rparr>) = stream_part s" "stream_part (s\<lparr>sCurrentHeaders := hs\<rparr>) = stream_part s"
  "stream_part (s\<lparr>sPeerEnablePush := b\<rparr>) = stream_part s" "stream_part (s\<lparr>sPeerMaxConcurrent := c\<rparr>) = stream_part s"
  "stream_part (s\<lparr>sPeerMaxFrame := c\<rparr>) = stream_part s" "stream_part (s\<lparr>sPeerEnableConnect := b\<rparr>) = stream_part s"
  "stream_part (s\<lparr>sPeerNoPriorities := b\<rparr>) = stream_part s" "stream_part (s\<lparr>sPeerInitialWindow := n\<rparr>) = stream_part s"
  "stream_part (s\<lparr>sGoAwayReceived := b\<rparr>) = stream_part s" "stream_part (s\<lparr>sPeerLastStream := c\<rparr>) = stream_part s"
  "stream_part (s\<lparr>sParser := p\<rparr>) = stream_part s" "stream_part (s\<lparr>sPrefacePos := x\<rparr>) = stream_part s"
  "stream_part (s\<lparr>sGoAwaySent := b\<rparr>) = stream_part s" "stream_part (s\<lparr>sCurrentHeaderStream := c\<rparr>) = stream_part s"
  "stream_part (s\<lparr>sCurrentHeaderEventStream := c\<rparr>) = stream_part s" "stream_part (s\<lparr>sCurrentHeaderPush := b\<rparr>) = stream_part s"
  "stream_part (s\<lparr>sCurrentHeaderEnd := b\<rparr>) = stream_part s" "stream_part (s\<lparr>sCurrentHeaderTrailer := b\<rparr>) = stream_part s"
  by (simp_all add: stream_part_def)

subsection \<open>Primitives\<close>

lemma view_put: "streamView (putStream st s) j = (if j = ssId st then ssState st else streamView s j)"
  by (simp add: streamView_def putStream_def update_conv' used_id_def)

lemma evolves_put:
  assumes "lookupStream i s = Some st" "ssId st' = i" "stream_step\<^sup>*\<^sup>* (ssState st) (ssState st')"
  shows "evolves s (putStream st' s)"
  using assms by (auto simp: evolves_def view_put) (simp add: streamView_def)

lemma evict_lookup:
  assumes "evictClosed limit cs m = (cs', m')" "distinct (map fst m)"
  shows "map_of m' i = map_of m i \<or> map_of m' i = None \<and> (\<exists>st. map_of m i = Some st \<and> ssState st = StreamClosed)"
  using assms
proof (induction limit cs m rule: evictClosed.induct)
  case (2 limit oldest cs m)
  show ?case
  proof (cases "limit < of_nat (length (oldest # cs))")
    case True
    define n where "n = (case map_of m oldest of None \<Rightarrow> m
        | Some st \<Rightarrow> if ssState st = StreamClosed then AList.delete oldest m else m)"
    have "map_of n i = map_of m i \<or> map_of n i = None \<and> (\<exists>st. map_of m i = Some st \<and> ssState st = StreamClosed)"
      by (auto simp: n_def delete_conv' split: option.splits)
    moreover have "distinct (map fst n)" using "2.prems"(2) by (auto simp: n_def distinct_delete split: option.splits)
    moreover have "evictClosed limit cs n = (cs', m')" using "2.prems"(1) True by (simp add: n_def)
    ultimately show ?thesis using "2.IH" [OF True] unfolding n_def [symmetric] by metis
  next
    case False
    then show ?thesis using "2.prems"(1) by simp
  qed
qed simp

lemma used_known:
  assumes "session_inv s" "lookupStream i s = Some st"
  shows "used_id i s"
  using inv_streams [OF assms(1)] assms(2) by (auto simp: streams_inv_def id_ok_def used_id_def local_id_def)

lemma evolves_closeStream:
  assumes "session_inv s"
  shows "evolves s (closeStream i s)"
proof (cases "case lookupStream i s of None \<Rightarrow> True | Some st \<Rightarrow> ssState st = StreamClosed")
  case True
  then show ?thesis by (auto simp: closeStream_def split: option.splits)
next
  case False
  then obtain st where l: "lookupStream i s = Some st" by (auto split: option.splits)
  define u where "u = putStream (st\<lparr>ssState := StreamClosed\<rparr>) s"
  have id: "ssId st = i" "distinct (map fst (sStreams s))" using inv_lookup [OF assms l] by simp_all
  have u: "evolves s u" unfolding u_def
    by (rule evolves_put [OF l]) (use id in \<open>simp_all add: stream_steps\<close>)
  have d: "distinct (map fst (sStreams u))" using id by (simp add: u_def putStream_def distinct_update)
  obtain cs m where e: "evictClosed (slMaxClosedStreams (sLimits s)) (sClosedStreams s @ [i]) (sStreams u) = (cs, m)"
    by (cases "evictClosed (slMaxClosedStreams (sLimits s)) (sClosedStreams s @ [i]) (sStreams u)")
  have used: "used_id j u" if "lookupStream j u = Some x" for j x
    using that used_known [OF assms, of j] used_known [OF assms l] id(1)
    by (auto simp: u_def putStream_def update_conv' used_id_def split: if_splits)
  have view: "streamView t = streamView u" if "sStreams t = m" "sRole t = sRole u" "sNextLocalStream t = sNextLocalStream u"
    "sLastPeerStream t = sLastPeerStream u" for t :: "('a, 'b) session"
  proof (rule ext)
    fix j
    show "streamView t j = streamView u j"
      using evict_lookup [OF e d, of j] used [of j] that by (auto simp: streamView_def used_id_def split: option.splits)
  qed
  have "streamView (closeStream i s) = streamView u"
    by (rule view) (use l False e in \<open>simp_all add: closeStream_def Let_def u_def [symmetric], simp_all add: u_def putStream_def\<close>)
  then show ?thesis using u by (simp add: evolves_def)
qed

text \<open>A session that is open and whose streams have evolved from those of another.\<close>

definition tracks :: "('d, 'e) session \<Rightarrow> ('d, 'e) session \<Rightarrow> bool" where
  "tracks s0 s \<longleftrightarrow> session_open s \<and> evolves s0 s"

lemma tracks_open: "tracks s0 s \<Longrightarrow> session_open s"
  by (simp add: tracks_def)

lemma tracks_step: "tracks s0 s \<Longrightarrow> (session_open s \<Longrightarrow> session_open t) \<Longrightarrow> (session_inv s \<Longrightarrow> evolves s t) \<Longrightarrow> tracks s0 t"
  by (auto simp: tracks_def session_open_def intro: evolves_trans)

lemma tracks_same: "tracks s0 s \<Longrightarrow> (session_open s \<Longrightarrow> session_open t) \<Longrightarrow> stream_part t = stream_part s \<Longrightarrow> tracks s0 t"
  by (erule tracks_step) (simp_all add: evolves_same)

lemma tracks_fields [simp]:
  "tracks s0 (s\<lparr>sDecoder := d\<rparr>) = tracks s0 s" "tracks s0 (s\<lparr>sCurrentFrame := h\<rparr>) = tracks s0 s"
  "tracks s0 (s\<lparr>sCurrentHeaders := hs\<rparr>) = tracks s0 s" "tracks s0 (s\<lparr>sCurrentHeaderStream := i\<rparr>) = tracks s0 s"
  "tracks s0 (s\<lparr>sCurrentHeaderEventStream := i\<rparr>) = tracks s0 s" "tracks s0 (s\<lparr>sCurrentHeaderEnd := e\<rparr>) = tracks s0 s"
  "tracks s0 (s\<lparr>sCurrentHeaderTrailer := e\<rparr>) = tracks s0 s" "tracks s0 (s\<lparr>sCurrentHeaderPush := e\<rparr>) = tracks s0 s"
  "tracks s0 (s\<lparr>sExtensionPayload := x\<rparr>) = tracks s0 s" "tracks s0 (s\<lparr>sControlFrames := n\<rparr>) = tracks s0 s"
  "tracks s0 (s\<lparr>sLocalSettingsOutstanding := n\<rparr>) = tracks s0 s" "tracks s0 (s\<lparr>sPeerInitialSettings := e\<rparr>) = tracks s0 s"
  "tracks s0 (s\<lparr>sGoAwayReceived := e\<rparr>) = tracks s0 s" "tracks s0 (s\<lparr>sPeerLastStream := n\<rparr>) = tracks s0 s"
  "tracks s0 (s\<lparr>sParser := p\<rparr>) = tracks s0 s" "tracks s0 (s\<lparr>sPrefacePos := b\<rparr>) = tracks s0 s"
  "tracks s0 (s\<lparr>sEncoder := en\<rparr>) = tracks s0 s" "tracks s0 (s\<lparr>sPeerEnablePush := e\<rparr>) = tracks s0 s"
  "tracks s0 (s\<lparr>sPeerMaxConcurrent := n\<rparr>) = tracks s0 s" "tracks s0 (s\<lparr>sPeerEnableConnect := e\<rparr>) = tracks s0 s"
  "tracks s0 (s\<lparr>sPeerNoPriorities := e\<rparr>) = tracks s0 s"
  by (simp_all only: tracks_def open_other evolves_def view_cong [OF part_fields(1)] view_cong [OF part_fields(2)]
      view_cong [OF part_fields(3)] view_cong [OF part_fields(4)] view_cong [OF part_fields(7)] view_cong [OF part_fields(9)]
      view_cong [OF part_fields(10)] view_cong [OF part_fields(12)] view_cong [OF part_fields(13)] view_cong [OF part_fields(14)]
      view_cong [OF part_fields(16)] view_cong [OF part_fields(17)] view_cong [OF part_fields(19)] view_cong [OF part_fields(20)]
      view_cong [OF part_fields(21)] view_cong [OF part_fields(22)] view_cong [OF part_fields(24)] view_cong [OF part_fields(25)]
      view_cong [OF part_fields(26)] view_cong [OF part_fields(27)] view_cong [OF part_fields(28)])

lemma tracks_put:
  assumes "tracks s0 s" "lookupStream i s = Some st" "session_open (putStream st' s)" "ssId st' = ssId st"
    and "stream_step\<^sup>*\<^sup>* (ssState st) (ssState st')"
  shows "tracks s0 (putStream st' s)"
proof (rule tracks_step [OF assms(1)])
  assume "session_inv s"
  then show "evolves s (putStream st' s)" using inv_lookup(1) [OF _ assms(2)] assms(4) by (intro evolves_put [OF assms(2) _ assms(5)]) simp
qed (rule assms(3))

lemma tracks_primitives:
  "tracks s0 s \<Longrightarrow> tracks s0 (fst (connectionError c reason s))"
  "tracks s0 s \<Longrightarrow> tracks s0 (fst (queueEvent ev s))"
  "tracks s0 s \<Longrightarrow> tracks s0 (fst (appendFrame h payload s))"
  "tracks s0 s \<Longrightarrow> tracks s0 (fst (appendSettings settings ack s))"
  "tracks s0 s \<Longrightarrow> tracks s0 (fst (appendWindowUpdate i n s))"
  "tracks s0 s \<Longrightarrow> tracks s0 (closeStream i s)"
  "tracks s0 s \<Longrightarrow> tracks s0 (fst (streamError i ec r s))"
  "tracks s0 s \<Longrightarrow> tracks s0 (handleProtocolError e s)"
proof -
  show 1: "tracks s0 s \<Longrightarrow> tracks s0 (fst (connectionError c reason s))" for c reason
    by (erule tracks_same) (simp_all add: open_primitives)
  show 2: "tracks s0 s \<Longrightarrow> tracks s0 (fst (queueEvent ev s))" for ev and s :: "('a, 'b) session"
    by (erule tracks_same) (simp_all add: open_primitives)
  show 3: "tracks s0 s \<Longrightarrow> tracks s0 (fst (appendFrame h payload s))" for h payload and s :: "('a, 'b) session"
    by (erule tracks_same) (simp_all add: open_primitives)
  show "tracks s0 s \<Longrightarrow> tracks s0 (fst (appendSettings settings ack s))"
    by (erule tracks_same) (simp_all add: open_primitives)
  show "tracks s0 s \<Longrightarrow> tracks s0 (fst (appendWindowUpdate i n s))"
    by (erule tracks_same) (simp_all add: open_appendWindowUpdate)
  show 4: "tracks s0 s \<Longrightarrow> tracks s0 (closeStream i s)" for i
    by (erule tracks_step) (simp_all add: open_primitives evolves_closeStream)
  show 5: "tracks s0 s \<Longrightarrow> tracks s0 (fst (streamError i ec r s))" for i ec r
    by (simp add: streamError_def Let_def 2 3 4)
  show "tracks s0 s \<Longrightarrow> tracks s0 (handleProtocolError e s)"
    by (simp add: handleProtocolError_def 1 5 split: session_error.split)
qed

lemma tracks_put_state:
  assumes "tracks s0 s" "lookupStream i s = Some st" "stream_step (ssState st) x" "x \<noteq> StreamClosed" "ssState st \<noteq> StreamClosed"
  shows "tracks s0 (putStream (st\<lparr>ssState := x\<rparr>) s)"
proof (rule tracks_put [OF assms(1,2)])
  have "session_inv s" "\<not> sClosed s" using assms(1) by (simp_all add: tracks_def session_open_def)
  then show "session_open (putStream (st\<lparr>ssState := x\<rparr>) s)"
    using assms(4,5) inv_lookup(2) [OF _ assms(2)] by (simp add: session_open_def inv_put [OF _ assms(2)] windows_ok_def)
qed (use assms(3) in simp_all)

lemma tracks_ends:
  assumes "tracks s0 s"
  shows "tracks s0 (localEnd i s)" "tracks s0 (remoteEnd i s)"
proof -
  show "tracks s0 (localEnd i s)"
    using assms tracks_put_state [OF assms, of i]
    by (auto simp: localEnd_def tracks_primitives stream_step.intros split: option.split stream_state.split)
  have q: "tracks s0 (u\<lparr>sLastProcessedPeerStream := n\<rparr>)" if "tracks s0 u" for u :: "('a, 'b) session" and n
    using that by (rule tracks_same) (simp_all add: session_open_def)
  show "tracks s0 (remoteEnd i s)"
    using assms tracks_put_state [OF assms, of i]
    by (auto simp: remoteEnd_def tracks_primitives Let_def stream_step.intros q split: option.split stream_state.split)
qed

subsection \<open>New streams\<close>

lemma evolves_insert:
  assumes "lookupStream i s = None" "\<not> used_id i s" "stream_step\<^sup>*\<^sup>* StreamIdle (ssState st)"
    and "sRole t = sRole s" "sStreams t = AList.update i st (sStreams s)"
    and "sNextLocalStream s \<le> sNextLocalStream t" "sLastPeerStream s \<le> sLastPeerStream t"
  shows "evolves s t"
  unfolding evolves_def
proof
  fix j
  have "used_id j s \<longrightarrow> used_id j t" using assms(4,6,7) by (auto simp: used_id_def)
  then show "stream_step\<^sup>*\<^sup>* (streamView s j) (streamView t j)"
    using assms(1,2,3,5) by (auto simp: streamView_def update_conv' stream_steps split: option.splits)
qed

lemma evolves_skip:
  assumes "\<And>j. map_option ssState (lookupStream j t) = map_option ssState (lookupStream j s)"
    and "sRole t = sRole s" "sNextLocalStream s \<le> sNextLocalStream t" "sLastPeerStream s \<le> sLastPeerStream t"
  shows "evolves s t"
  unfolding evolves_def
proof
  fix j
  have "used_id j s \<longrightarrow> used_id j t" using assms(2-4) by (auto simp: used_id_def)
  then show "stream_step\<^sup>*\<^sup>* (streamView s j) (streamView t j)"
    using assms(1) [of j] by (cases "lookupStream j s"; cases "lookupStream j t") (auto simp: streamView_def stream_steps)
qed

lemma not_used_peer:
  assumes "sLastPeerStream s < i" "\<not> local_id (sRole s) i"
  shows "\<not> used_id i s"
  using assms by (simp add: used_id_def)

lemma role_cases: "session_inv s \<Longrightarrow> sRole s = RoleClient \<or> sRole s = RoleServer"
  using inv_streams [of s] by (simp add: streams_inv_def)

lemma tracks_inboundStream:
  assumes "tracks s0 s" "inboundStream i s = (r, t)"
  shows "tracks s0 t"
proof (cases "t = s")
  case False
  have inv: "session_inv s" using assms(1) by (simp add: tracks_def session_open_def)
  define st where "st = newStream i StreamOpen False (sPeerInitialWindow s) (uint (slInitialWindowSize (sLimits s)))"
  have n: "lookupStream i s = None" "peerMayOpen i s" "t = (putStream st s)\<lparr>sActivePeer := sActivePeer s + 1, sLastPeerStream := i\<rparr>"
    using assms(2) False by (auto simp: inboundStream_def Let_def st_def split: option.splits if_splits)
  have i: "sLastPeerStream s < i" "\<not> local_id (sRole s) i"
    using n(2) role_cases [OF inv] by (auto simp: peerMayOpen_def local_id_def and_1_odd split: if_splits)
  show ?thesis
  proof (rule tracks_step [OF assms(1)])
    show "session_open t" if "session_open s" using open_inboundStream [OF that assms(2)] by simp
    show "evolves s t"
      by (rule evolves_insert [OF n(1) not_used_peer [OF i], where st = st])
        (use i(1) in \<open>simp_all add: n(3) st_def stream_steps, simp_all add: putStream_def\<close>)
  qed
qed (use assms in simp)

lemma tracks_beginBlock: "tracks s0 s \<Longrightarrow> tracks s0 (fst (beginBlock s))"
  by (simp add: beginBlock_def case_prod_beta)

lemma tracks_beginInboundHeaders:
  assumes "tracks s0 s"
  shows "tracks s0 (fst (beginInboundHeaders i e s))"
proof -
  obtain r t where b: "inboundStream i s = (r, t)" by (cases "inboundStream i s")
  have t: "tracks s0 t" by (rule tracks_inboundStream [OF assms b])
  show ?thesis
  proof (cases r)
    case (Inl x)
    then show ?thesis using b t by (simp add: beginInboundHeaders_def)
  next
    case (Inr st)
    have l: "lookupStream i t = Some st" "ssState st \<noteq> StreamClosed"
      using open_inboundStream [OF tracks_open [OF assms] b] Inr by simp_all
    have "tracks s0 (if ssState st = StreamReservedRemote then putStream (st\<lparr>ssState := StreamHalfClosedLocal\<rparr>) t else t)"
      using t tracks_put_state [OF t l(1)] by (simp add: stream_step.intros)
    then show ?thesis using b t Inr by (simp add: beginInboundHeaders_def Let_def tracks_beginBlock)
  qed
qed

text \<open>An update of a stream that keeps its state.\<close>

lemma tracks_put_same:
  assumes "tracks s0 s" "lookupStream i s = Some st" "windows_ok st'" "ssId st' = ssId st" "ssLocal st' = ssLocal st" "ssState st' = ssState st"
  shows "tracks s0 (putStream st' s)"
proof (rule tracks_put [OF assms(1,2)])
  have "session_inv s" "\<not> sClosed s" using assms(1) by (simp_all add: tracks_def session_open_def)
  then show "session_open (putStream st' s)" using assms(3-6) by (simp add: session_open_def inv_put [OF _ assms(2)])
qed (use assms(4,6) in simp_all)

lemma tracks_windows: "tracks s0 s \<Longrightarrow> lookupStream i s = Some st \<Longrightarrow> windows_ok st"
  using inv_lookup(2) [of s i st] by (simp add: tracks_def session_open_def)

lemma tracks_beginInboundData:
  assumes "tracks s0 s"
  shows "tracks s0 (beginInboundData h s)"
proof -
  have o: "session_open (beginInboundData h s)" using open_beginInboundData tracks_open [OF assms] by blast
  have "evolves s (beginInboundData h s)"
  proof -
    have s: "tracks s s" using tracks_open [OF assms] by (simp add: tracks_def)
    have "evolves s (streamError' j c r s)" "evolves s (connectionError' c r s)" for j c r
      using tracks_primitives(1,7) [OF s] by (simp_all add: tracks_def)
    moreover have "evolves s ((putStream (st\<lparr>ssRecvWindow := x\<rparr>) s)\<lparr>sConnectionRecvWindow := y\<rparr>)"
      if "lookupStream (fhStreamID h) s = Some st" for st x y
    proof (rule evolves_trans [OF evolves_put [OF that]])
      show "ssId (st\<lparr>ssRecvWindow := x\<rparr>) = fhStreamID h"
        using inv_lookup(1) [OF _ that] tracks_open [OF assms] by (simp add: session_open_def)
    qed (simp_all add: evolves_same)
    ultimately show ?thesis by (simp add: beginInboundData_def Let_def split: option.split)
  qed
  then show ?thesis using o assms by (auto simp: tracks_def intro: evolves_trans)
qed

lemma tracks_onFrameBegin: "tracks s0 s \<Longrightarrow> tracks s0 (onFrameBegin h s)"
  using tracks_beginInboundHeaders [of s0 "s\<lparr>sCurrentFrame := h\<rparr>" "fhStreamID h" "Has (fhFlags h) FlagEndStream"]
  by (simp add: onFrameBegin_def Let_def tracks_primitives tracks_beginInboundData case_prod_beta split: option.split)

lemma tracks_onData:
  assumes "tracks s0 s"
  shows "tracks s0 (onData i data e s)"
proof (cases "sFailed s \<noteq> None \<or> data = [] \<or> lookupStream i s = None")
  case True
  then show ?thesis using assms by (auto simp: onData_def)
next
  case False
  then obtain st where l: "lookupStream i s = Some st" by auto
  have "tracks s0 (putStream (st\<lparr>ssReceiveBody := n\<rparr>) s)" for n
    using tracks_windows [OF assms l] by (intro tracks_put_same [OF assms l]) (simp_all add: windows_ok_def)
  then have "tracks s0 (fst (queueEvent ev (putStream (st\<lparr>ssReceiveBody := n\<rparr>) s)))" for n ev by (rule tracks_primitives)
  then show ?thesis using assms l False
    by (simp add: onData_def case_prod_beta tracks_primitives split: option.split)
qed

lemma tracks_onHeaderBlock:
  assumes "tracks s0 s"
  shows "tracks s0 (onHeaderBlock env i fragment s)"
proof -
  obtain d t n err where w: "decoderWrite (envCodec env) (Some onDecodedHeader) fragment (sDecoder s) s = (d, t, n, err)"
    by (rule prod_cases4)
  have "tracks s0 (onDecodedHeader f u)" if "tracks s0 u" for f and u :: "('a, 'b) session"
    using that by (simp add: onDecodedHeader_def)
  then have "tracks s0 t"
    using decoderWrite_keeps [of "tracks s0" s onDecodedHeader "envCodec env" fragment "sDecoder s", OF assms] w by simp
  then show ?thesis using assms by (simp add: onHeaderBlock_def w Let_def tracks_primitives split: option.split)
qed

lemma tracks_commitHeaders:
  assumes "tracks s0 s" "lookupStream i s = Some st"
  shows "tracks s0 (commitHeaders i e st md s)"
proof -
  define st' where "st' = st\<lparr>ssReceivedHeaders := True, ssMethod := firstNonEmpty (ssMethod st) (mdMethod md),
      ssReceiveNoBody := (mdNoBody md \<or> firstNonEmpty (ssMethod st) (mdMethod md) = lit ''HEAD'' \<and> mdResponse md),
      ssReceiveHasLength := mdHasContentLength md, ssReceiveLength := mdContentLength md\<rparr>"
  define st'' where "st'' = (if sCurrentHeaderTrailer s then st'\<lparr>ssReceivedTrailers := True\<rparr> else st')"
  note w = tracks_windows [OF assms]
  have "tracks s0 (putStream (st\<lparr>ssMethod := m\<rparr>) s)" for m
    using w by (intro tracks_put_same [OF assms]) (simp_all add: windows_ok_def)
  moreover have "tracks s0 (putStream st'' s)"
    using w by (intro tracks_put_same [OF assms]) (simp_all add: windows_ok_def st''_def st'_def)
  ultimately show ?thesis using assms(1) unfolding commitHeaders_def Let_def st'_def [symmetric] st''_def [symmetric]
    by (simp add: tracks_ends tracks_primitives)
qed

lemma tracks_onHeaderBlockEnd:
  assumes "tracks s0 s"
  shows "tracks s0 (onHeaderBlockEnd env i e s)"
proof (cases "sFailed s \<noteq> None \<or> i \<noteq> sCurrentHeaderStream s")
  case True
  then show ?thesis using assms by (simp add: onHeaderBlockEnd_def)
next
  case False
  obtain d err where b: "EndBlock (envCodec env) (sDecoder s) = (d, err)" by (cases "EndBlock (envCodec env) (sDecoder s)")
  define t where "t = s\<lparr>sDecoder := d\<rparr>"
  have t: "tracks s0 t" using assms by (simp add: t_def)
  define j where "j = sCurrentHeaderEventStream t"
  define ev where "ev = (zero_event (if sCurrentHeaderPush t then EventPushPromise else EventHeaders))
      \<lparr>evStreamID := j, evEndStream := e, evTrailer := sCurrentHeaderTrailer t, evHeaders := sCurrentHeaders t\<rparr>"
  obtain u qe where q: "queueEvent ev t = (u, qe)" by (cases "queueEvent ev t")
  have u: "tracks s0 u" "sStreams u = sStreams t"
    using tracks_primitives(2) [OF t, of ev] queueEvent_streams(1) [of ev t] q by simp_all
  show ?thesis
  proof (cases err)
    case (Some x)
    then show ?thesis using b t False by (simp add: onHeaderBlockEnd_def t_def [symmetric] Let_def tracks_primitives)
  next
    case None
    show ?thesis
    proof (cases "lookupStream j t")
      case None
      then show ?thesis using b t False \<open>err = None\<close>
        by (simp add: onHeaderBlockEnd_def t_def [symmetric] j_def [symmetric] Let_def)
    next
      case (Some st)
      have "tracks s0 (commitHeaders j e st md u)" for md using tracks_commitHeaders [OF u(1)] Some u(2) by simp
      then show ?thesis using b t u(1) False \<open>err = None\<close> Some q
        by (simp add: onHeaderBlockEnd_def t_def [symmetric] j_def [symmetric] ev_def [symmetric] Let_def tracks_primitives split: option.split)
    qed
  qed
qed

lemma shift_states:
  "map_option ssState (map_of (fst (shiftSendWindows change is m)) i) = map_option ssState (map_of m i)"
  by (induction change "is" m rule: shiftSendWindows.induct)
    (auto simp: Let_def update_conv' split: option.split)

lemma evolves_setting: "evolves s (fst (applyPeerSetting env st s))"
proof -
  obtain m bad where sh: "shiftSendWindows (uint (settingValue st) - sPeerInitialWindow s)
      (envOrder env (map fst (sStreams s))) (sStreams s) = (m, bad)"
    by (cases "shiftSendWindows (uint (settingValue st) - sPeerInitialWindow s) (envOrder env (map fst (sStreams s))) (sStreams s)")
  have m: "map_option ssState (map_of m j) = map_option ssState (lookupStream j s)" for j
    using shift_states [of "uint (settingValue st) - sPeerInitialWindow s" "envOrder env (map fst (sStreams s))" "sStreams s" j] sh
    by simp
  have "evolves s (s\<lparr>sStreams := m\<rparr>)" "evolves s (s\<lparr>sStreams := m, sPeerInitialWindow := x\<rparr>)" for x
    by (rule evolves_skip; simp add: m)+
  then show ?thesis using sh
    by (simp add: applyPeerSetting_def Let_def evolves_same split: bool.split)
qed

lemma tracks_settings:
  "tracks s0 s \<Longrightarrow> list_all validSetting sts \<Longrightarrow> tracks s0 (fst (applyPeerSettings env sts s))"
proof (induction sts arbitrary: s)
  case (Cons st sts)
  obtain t err where a: "applyPeerSetting env st s = (t, err)" by (cases "applyPeerSetting env st s")
  have "tracks s0 t"
    using tracks_step [OF Cons.prems(1), of t] open_applyPeerSetting [of s st env] evolves_setting [of s env st] Cons.prems(2) a by simp
  then show ?case using Cons a by simp
qed simp

lemma tracks_onSettingsEnd:
  assumes "tracks s0 s"
  shows "tracks s0 (onSettingsEnd env ack s)"
proof -
  obtain t err where a: "applyPeerSettings env (sPendingSettings s) s = (t, err)"
    by (cases "applyPeerSettings env (sPendingSettings s) s")
  have "list_all validSetting (sPendingSettings s)"
    using assms by (simp add: tracks_def session_open_def inv_settings(5))
  then have t: "tracks s0 t" using tracks_settings [OF assms, of "sPendingSettings s" env] a by simp
  define v where "v = t\<lparr>sPendingSettings := [], sPeerInitialSettings := True\<rparr>"
  have "tracks s0 v" unfolding v_def using t by (rule tracks_same) (simp_all add: open_pending)
  then have "tracks s0 (fst (appendSettings [] True v))" by (rule tracks_primitives)
  then show ?thesis using assms t a
    by (simp add: onSettingsEnd_def Let_def v_def [symmetric] tracks_primitives case_prod_beta split: option.split)
qed

lemma tracks_onPushPromise:
  assumes "tracks s0 s"
  shows "tracks s0 (onPushPromise i j s)"
proof (cases "sFailed s \<noteq> None \<or> sRole s \<noteq> RoleClient \<or> \<not> slEnablePush (sLimits s) \<or> \<not> sPeerEnablePush s \<or>
    j = 0 \<or> j AND 1 \<noteq> 0 \<or> j \<le> sLastPeerStream s \<or>
    (case lookupStream i s of None \<Rightarrow> True | Some parent \<Rightarrow> \<not> canReceive (ssState parent)) \<or>
    slMaxConcurrentStreams (sLimits s) \<le> sActivePeer s \<or>
    slMaxStreams (sLimits s) \<le> of_nat (length (sStreams s))")
  case True
  then have "onPushPromise i j s \<in> {s, connectionError' ErrCodeProtocol ''invalid PUSH_PROMISE'' s,
      streamError' j ErrCodeRefusedStream ''push stream storage exhausted'' s}"
    unfolding onPushPromise_def by (smt (verit, best) insertCI)
  then show ?thesis using assms tracks_primitives(1,7) [OF assms] by auto
next
  case False
  define st where "st = newStream j StreamReservedRemote False (sPeerInitialWindow s) (uint (slInitialWindowSize (sLimits s)))"
  define t where "t = (putStream st s)\<lparr>sActivePeer := sActivePeer s + 1, sLastPeerStream := j, sCurrentHeaders := [],
      sCurrentHeaderStream := i, sCurrentHeaderEventStream := j, sCurrentHeaderEnd := False,
      sCurrentHeaderTrailer := False, sCurrentHeaderPush := True\<rparr>"
  have inv: "session_inv s" using assms by (simp add: tracks_def session_open_def)
  have "sActivePeer (putStream st s) = sActivePeer s" by (simp add: putStream_def)
  then have eq: "onPushPromise i j s = (case beginBlock t of (s, None) \<Rightarrow> s
      | (s, Some e) \<Rightarrow> connectionError' ErrCodeCompression (sessionErrorText e) s)"
    using False unfolding onPushPromise_def by (simp add: Let_def t_def st_def)
  have new: "sLastPeerStream s < j" "\<not> local_id (sRole s) j" using False by (auto simp: local_id_def and_1_odd split: if_splits)
  have "lookupStream j s = None" using used_known [OF inv, of j] not_used_peer [OF new] by (cases "lookupStream j s") auto
  then have "evolves s t"
    by (rule evolves_insert [OF _ not_used_peer [OF new], where st = st])
      (use new(1) in \<open>simp_all add: t_def st_def stream_steps, simp_all add: putStream_def\<close>)
  moreover have "session_inv ((putStream st s)\<lparr>sActivePeer := sActivePeer s + 1, sLastPeerStream := j\<rparr>)" unfolding st_def
    by (rule inv_insert_peer(2)) (use assms False in \<open>auto simp: tracks_def session_open_def and_1_odd split: if_splits\<close>)
  then have "session_open t" using assms by (simp add: t_def session_open_def tracks_def putStream_def)
  ultimately have "tracks s0 t" using assms by (auto simp: tracks_def intro: evolves_trans)
  then show ?thesis using eq tracks_beginBlock [of s0 t] by (simp add: case_prod_beta tracks_primitives split: option.split)
qed

lemma tracks_onGoAway:
  assumes "tracks s0 s"
  shows "tracks s0 (onGoAway env lastID c s)"
proof -
  have "tracks s0 (fold (refuseStream lastID) ks t)" if "tracks s0 t" for ks and t :: "('a, 'b) session"
    using that by (induction ks arbitrary: t) (simp_all add: refuseStream_def tracks_primitives split: option.split)
  then show ?thesis using assms by (simp add: onGoAway_def Let_def tracks_primitives)
qed

lemma tracks_onWindowUpdate:
  assumes "tracks s0 s"
  shows "tracks s0 (onWindowUpdate i n s)"
proof -
  define k where "k = uint n"
  have k: "0 \<le> k" by (simp add: k_def)
  have inv: "session_inv s" "\<not> sClosed s" using assms by (simp_all add: tracks_def session_open_def)
  have a: "tracks s0 (s\<lparr>sConnectionSendWindow := sConnectionSendWindow s + k\<rparr>)"
    if "\<not> maxInt32 - k < sConnectionSendWindow s"
  proof (rule tracks_same [OF assms])
    show "session_open (s\<lparr>sConnectionSendWindow := sConnectionSendWindow s + k\<rparr>)"
      using that k inv inv_windows(1) [OF inv(1)] by (simp add: session_open_def inv_send)
  qed simp
  have b: "tracks s0 (putStream (st\<lparr>ssSendWindow := ssSendWindow st + k\<rparr>) s)"
    if "\<not> maxInt32 - k < ssSendWindow st" "lookupStream i s = Some st" for st
    using that k inv_lookup(2) [OF inv(1) that(2)] by (intro tracks_put_same [OF assms that(2)]) (simp_all add: windows_ok_def)
  show ?thesis using assms a b
    by (simp add: onWindowUpdate_def k_def [symmetric] tracks_primitives split: option.split)
qed

lemma tracks_refill:
  assumes "tracks s0 s"
  shows "tracks s0 (refillConnection s)" "tracks s0 (refillStream i s)"
proof -
  have t: "tracks s0 (fst (appendWindowUpdate i n s))" for i n using assms by (rule tracks_primitives)
  have o: "session_open (refillConnection s)" "session_open (refillStream i s)"
    using assms by (simp_all add: tracks_def open_refillConnection open_refillStream)
  have "stream_part (refillConnection s) = stream_part s"
    by (simp add: refillConnection_def Let_def)
  then show "tracks s0 (refillConnection s)" using o by (intro tracks_same [OF assms]) simp_all
  show "tracks s0 (refillStream i s)"
  proof (cases "lookupStream i s")
    case None
    then show ?thesis using assms by (simp add: refillStream_def)
  next
    case (Some st)
    have "evolves s (putStream (st\<lparr>ssRecvWindow := x\<rparr>) (fst (appendWindowUpdate i n s)))" for x n
    proof (rule evolves_trans [OF evolves_same evolves_put [where st = st]])
      show "ssId (st\<lparr>ssRecvWindow := x\<rparr>) = i" using inv_lookup(1) [OF _ Some] assms by (simp add: tracks_def session_open_def)
    qed (simp_all add: Some)
    then have "evolves s (refillStream i s)" using Some by (simp add: refillStream_def Let_def)
    then show ?thesis using o(2) assms by (auto simp: tracks_def intro: evolves_trans)
  qed
qed

lemma tracks_onFrameComplete:
  assumes "tracks s0 s"
  shows "tracks s0 (onFrameComplete h s)"
proof -
  obtain t exceeded where c: "countControl h s = (t, exceeded)" by (cases "countControl h s")
  have t: "tracks s0 t" using assms c
    by (auto simp: countControl_def Let_def tracks_primitives split: if_splits)
  then show ?thesis using assms
    by (simp add: onFrameComplete_def c Let_def tracks_refill tracks_ends tracks_primitives)
qed

lemma tracks_others:
  assumes "tracks s0 s"
  shows "tracks s0 (onPriority i p s)" "tracks s0 (onRSTStream i c s)" "validSetting st \<Longrightarrow> tracks s0 (onSetting st s)"
    "tracks s0 (onPing data ack s)" "tracks s0 (onUnknown h fragment s)"
proof -
  show "tracks s0 (onPriority i p s)" "tracks s0 (onRSTStream i c s)" "tracks s0 (onUnknown h fragment s)"
    using assms by (simp_all add: onPriority_def onRSTStream_def onUnknown_def tracks_primitives split: option.split)
  show "tracks s0 (onSetting st s)" if "validSetting st"
    by (rule tracks_same [OF assms]) (use that open_onSetting in \<open>auto simp: onSetting_def\<close>)
  have "tracks s0 (fst (appendFrame (frameOf FramePing FlagACK 0) data s))" using assms by (rule tracks_primitives)
  then show "tracks s0 (onPing data ack s)" using assms
    by (simp add: onPing_def case_prod_beta tracks_primitives split: option.split)
qed

interpretation session_streams: frame_client "Some (sessionCallbacks env)" "tracks s0"
  for env :: "('d, 'e) session_env" and s0
  by unfold_locales
    (auto simp: sessionCallbacks_def tracks_onFrameBegin tracks_onData tracks_onHeaderBlock tracks_onHeaderBlockEnd
      tracks_others tracks_onSettingsEnd tracks_onPushPromise tracks_onGoAway tracks_onWindowUpdate tracks_onFrameComplete)

subsection \<open>The owner's calls\<close>

lemma part_outside:
  assumes "outside_output t = outside_output s"
  shows "stream_part t = stream_part s"
proof -
  have "stream_part (outside_output x) = stream_part x" for x :: "('a, 'b) session"
    by (simp add: outside_output_def stream_part_def)
  then show ?thesis using assms by metis
qed

lemma feedLoop_tracks: "tracks s0 s \<Longrightarrow> feedLoop env src s = Some (t, rest, err) \<Longrightarrow> tracks s0 t"
proof (induction env src s rule: feedLoop.induct)
  case (1 env src s)
  show ?case
  proof (cases "src = []")
    case True
    then show ?thesis using "1.prems" by (simp add: feedLoop.simps)
  next
    case False
    then obtain p s1 n complete c where one: "frameParseOne (Some (sessionCallbacks env)) (sParser s) s src = Some (p, s1, n, complete, c)"
      using "1.prems"(2) by (cases "frameParseOne (Some (sessionCallbacks env)) (sParser s) s src") (auto simp: feedLoop.simps)
    define s2 where "s2 = s1\<lparr>sParser := p\<rparr>"
    have s2: "tracks s0 s2" using session_streams.frameParseOne_keeps [OF "1.prems"(1) one] by (simp add: s2_def)
    have ce: "tracks s0 (fst (connectionError (frameCodeToError c) (frameCodeString c) s2))" by (rule tracks_primitives [OF s2])
    show ?thesis
    proof (cases "c \<noteq> FCodeNone \<or> sFailed s2 \<noteq> None \<or> n = 0")
      case True
      then show ?thesis using "1.prems"(2) False one s2 ce
        by (auto simp: feedLoop.simps [of env src s] s2_def [symmetric] Let_def case_prod_beta split: if_splits)
    next
      case go: False
      have "feedLoop env (drop n src) s2 = Some (t, rest, err)"
        using "1.prems"(2) False one go by (simp add: feedLoop.simps [of env src s] s2_def [symmetric] Let_def)
      then show ?thesis
        using "1.IH" [OF False one refl refl refl refl s2_def refl _ _ _ s2] go by (auto simp: s2_def)
    qed
  qed
qed

lemma evolves_localEnd:
  assumes "session_inv s"
  shows "evolves s (localEnd i s)"
proof (cases "sClosed s")
  case True
  then have "sStreams s = []" using inv_streams [OF assms] by (simp add: streams_inv_def)
  then show ?thesis by (simp add: localEnd_def)
next
  case False
  then have "tracks s s" using assms by (simp add: tracks_def session_open_def)
  from tracks_ends(1) [OF this] show ?thesis by (simp add: tracks_def)
qed

lemma evolves_Feed:
  assumes "session_ok s" "Feed env src s = Some (t, n, err)"
  shows "evolves s t"
proof (cases "sClosed s \<or> sFailed s \<noteq> None")
  case True
  then show ?thesis using assms(2) by (auto simp: Feed_def split: if_splits)
next
  case False
  have s: "tracks s s" using assms(1) False by (simp add: tracks_def session_ok_def session_open_def)
  show ?thesis
  proof (cases "sRole s = RoleServer \<and> unat (sPrefacePos s) < length ClientPreface")
    case False
    then show ?thesis using assms(2) \<open>\<not> (sClosed s \<or> _)\<close> feedLoop_tracks [OF s] by (auto simp: Feed_def tracks_def)
  next
    case True
    obtain pos rest bad where m: "matchPreface (sPrefacePos s) src = (pos, rest, bad)" by (rule prod_cases3)
    define u where "u = s\<lparr>sPrefacePos := pos\<rparr>"
    have u: "tracks s u" using s by (simp add: u_def)
    have "tracks s (fst (connectionError ErrCodeProtocol ''invalid client connection preface'' u))" by (rule tracks_primitives [OF u])
    then have "tracks s t"
      using assms(2) False True m u feedLoop_tracks [OF u, of env rest]
      by (auto simp: Feed_def Let_def u_def [symmetric] case_prod_beta split: if_splits)
    then show ?thesis by (simp add: tracks_def)
  qed
qed

lemma evolves_sent:
  assumes "session_inv u" "lookupStream i u = Some st"
  shows "evolves u (putStream (sentHeaders md trailer st) u)"
  by (rule evolves_put [OF assms(2)])
    (use inv_lookup(1) [OF assms] in \<open>auto simp: sentHeaders_def Let_def stream_steps\<close>)

lemma evolves_SendHeaders:
  assumes "session_ok s" "SendHeaders env i headers e s = (t, err)"
  shows "evolves s t"
  using assms(2)
proof (cases rule: SendHeaders_cases)
  case (error x)
  then show ?thesis using evolves_same [OF part_outside [OF error(2)]] by simp
next
  case (sent st md trailer u)
  have o: "outside_output u = outside_output s" using outside_encode [of env FrameHeaders i 0 headers e s] sent(4) by simp
  have u: "session_ok u" using ok_encode [OF assms(1), of env FrameHeaders i 0 headers e] sent(4) by simp
  define v where "v = putStream (sentHeaders md trailer st) u"
  have l: "lookupStream i u = Some st" using sent(2) outside_sel(1) [OF o] by simp
  have v: "evolves s v" unfolding v_def
    by (rule evolves_trans [OF evolves_same [OF part_outside [OF o]] evolves_sent]) (use u l in \<open>simp_all add: session_ok_def\<close>)
  have "session_inv v" unfolding v_def using u l inv_lookup(2) [OF _ l] canSend_open [OF sent(3)]
    by (intro inv_put [OF _ l]) (simp_all add: session_ok_def windows_ok_def)
  then show ?thesis using v evolves_localEnd [of v i] sent(5) by (auto simp: v_def [symmetric] intro: evolves_trans)
qed

lemma evolves_open:
  assumes "session_inv s" "uint (sNextLocalStream s) \<le> maxInt32" "i = sNextLocalStream s"
  shows "lookupStream i s = None" "\<not> used_id i s" "sNextLocalStream s \<le> i + 2"
proof -
  have "local_id (sRole s) i" using inv_streams [OF assms(1)] assms(3) by (simp add: streams_inv_def local_id_def)
  then show n: "\<not> used_id i s" using assms(3) by (simp add: used_id_def)
  then show "lookupStream i s = None" using used_known [OF assms(1), of i] by (cases "lookupStream i s") auto
  have "unat i \<le> 2147483647" using assms(2,3) by (simp add: maxInt32_def uint_le_unat)
  then have "unat (i + of_nat 2) = unat i + 2" by (intro unat_plus_of_nat) simp
  then show "sNextLocalStream s \<le> i + 2" using assms(3) by (simp add: word_le_nat_alt)
qed

lemma evolves_OpenStream:
  assumes "session_ok s"
  shows "evolves s (fst (OpenStream env headers e s))"
proof (cases "sGoAwayReceived s \<or> sGoAwaySent s \<or> sRole s \<noteq> RoleClient \<or> sNextLocalStream s = 0 \<or>
    maxInt32 < uint (sNextLocalStream s) \<or> sPeerMaxConcurrent s \<le> sActiveLocal s \<or>
    slMaxStreams (sLimits s) \<le> of_nat (length (sStreams s))")
  case True
  then have "fst (OpenStream env headers e s) = s" unfolding OpenStream_def by auto
  then show ?thesis by simp
next
  case False
  define i where "i = sNextLocalStream s"
  define st where "st = newStream i StreamOpen True (sPeerInitialWindow s) (uint (slInitialWindowSize (sLimits s)))"
  define u where "u = (putStream st s)\<lparr>sNextLocalStream := i + 2, sActiveLocal := sActiveLocal s + 1\<rparr>"
  obtain t err where r: "SendHeaders env i headers e u = (t, err)" by (cases "SendHeaders env i headers e u")
  have inv: "session_inv s" using assms by (simp add: session_ok_def)
  note new = evolves_open [OF inv _ i_def]
  have eq: "fst (OpenStream env headers e s) =
      (case err of Some x \<Rightarrow> t\<lparr>sStreams := AList.delete i (sStreams t), sActiveLocal := sActiveLocal t - 1\<rparr> | None \<Rightarrow> t)"
    using False r unfolding OpenStream_def by (simp add: Let_def i_def st_def u_def split: option.split)
  show ?thesis
  proof (cases err)
    case None
    have c: "\<not> sClosed s" using r None by (auto simp: SendHeaders_def readySession_def u_def)
    have "session_inv u" unfolding u_def i_def
      by (rule inv_insert_local(2)) (use inv c False in \<open>simp_all add: st_def i_def\<close>)
    then have "session_ok u" using assms by (simp add: session_ok_def u_def)
    then have "evolves u t" using evolves_SendHeaders [OF _ r] by simp
    moreover have "evolves s u"
      by (rule evolves_insert [OF new(1,2), where st = st])
        (use False new(3) in \<open>simp_all add: u_def st_def stream_steps, simp_all add: putStream_def\<close>)
    ultimately show ?thesis using eq None by (auto intro: evolves_trans)
  next
    case (Some x)
    from r Some have out: "outside_output t = outside_output u" by (cases rule: SendHeaders_cases) auto
    have p: "sRole t = sRole s" "sStreams t = AList.update i st (sStreams s)" "sNextLocalStream t = i + 2" "sLastPeerStream t = sLastPeerStream s"
      using part_outside [OF out] by (simp_all add: stream_part_def u_def putStream_def st_def)
    have "evolves s (t\<lparr>sStreams := AList.delete i (sStreams t), sActiveLocal := sActiveLocal t - 1\<rparr>)"
      by (rule evolves_skip) (use p new False in \<open>auto simp: delete_conv' update_conv'\<close>)
    then show ?thesis using eq Some by simp
  qed
qed

lemma evolves_PushPromise:
  assumes "session_ok s"
  shows "evolves s (fst (PushPromise env parent headers s))"
proof (cases "sRole s \<noteq> RoleServer \<or> \<not> slEnablePush (sLimits s) \<or> \<not> sPeerEnablePush s \<or>
    (case lookupStream parent s of None \<Rightarrow> True | Some st \<Rightarrow> \<not> canSend (ssState st)) \<or> sNextLocalStream s = 0 \<or>
    maxInt32 < uint (sNextLocalStream s) \<or> sPeerMaxConcurrent s \<le> sActiveLocal s \<or>
    slMaxStreams (sLimits s) \<le> of_nat (length (sStreams s)) \<or>
    \<not> validateHeaderSection RoleClient True False headers (slEnableExtendedConnect (sLimits s))")
  case True
  then have "fst (PushPromise env parent headers s) = s" unfolding PushPromise_def by auto
  then show ?thesis by simp
next
  case False
  define i where "i = sNextLocalStream s"
  define st where "st = (newStream i StreamReservedLocal True (sPeerInitialWindow s)
      (uint (slInitialWindowSize (sLimits s))))\<lparr>ssMethod := mdMethod (inspectHeaderSection headers)\<rparr>"
  define u where "u = s\<lparr>sNextLocalStream := i + 2\<rparr>"
  obtain t err where r: "encodeAndAppendHeaders env FramePushPromise parent i headers False u = (t, err)"
    by (cases "encodeAndAppendHeaders env FramePushPromise parent i headers False u")
  have inv: "session_inv s" using assms by (simp add: session_ok_def)
  note new = evolves_open [OF inv _ i_def]
  have eq: "fst (PushPromise env parent headers s) =
      (case err of Some x \<Rightarrow> t | None \<Rightarrow> (putStream st t)\<lparr>sActiveLocal := sActiveLocal t + 1\<rparr>)"
    using False r unfolding PushPromise_def by (simp add: Let_def i_def st_def u_def split: option.split)
  have out: "outside_output t = outside_output u" using outside_encode [of env FramePushPromise parent i headers False u] r by simp
  have p: "sRole t = sRole s" "sStreams t = sStreams s" "sNextLocalStream t = i + 2" "sLastPeerStream t = sLastPeerStream s"
    using part_outside [OF out] by (simp_all add: stream_part_def u_def)
  have "evolves s t" by (rule evolves_skip) (use p new False in auto)
  moreover have "evolves s ((putStream st t)\<lparr>sActiveLocal := sActiveLocal t + 1\<rparr>)"
    by (rule evolves_insert [OF new(1,2), where st = st])
      (use False new(3) p in \<open>simp_all add: st_def stream_steps, simp_all add: putStream_def\<close>)
  ultimately show ?thesis using eq by (simp split: option.split)
qed

lemma evolves_SendData:
  assumes "session_ok s" "SendData i src e s = (t, n, err)"
  shows "evolves s t"
  using assms(2)
proof (cases rule: SendData_cases)
  case (error x)
  then show ?thesis using evolves_same [OF part_outside [OF error(3)]] by simp
next
  case (finish st)
  define u where "u = s\<lparr>sOutput := sOutput s @ dataFrame i True []\<rparr>"
  have u: "session_inv u" using assms(1) inv_output [OF _ finish(9)] by (simp add: session_ok_def u_def)
  have "evolves s u" by (rule evolves_same) (simp add: u_def stream_part_def)
  then show ?thesis using finish(8) evolves_localEnd [OF u, of i] by (auto simp: u_def intro: evolves_trans)
next
  case (sent st fin)
  define u where "u = s\<lparr>sOutput := sOutput s @ dataFrame i fin (take n src)\<rparr>"
  define v where "v = (putStream (st\<lparr>ssSendWindow := ssSendWindow st - int n, ssSendBody := ssSendBody st + of_nat n\<rparr>) u)
      \<lparr>sConnectionSendWindow := sConnectionSendWindow s - int n\<rparr>"
  have inv: "session_inv s" using assms(1) by (simp add: session_ok_def)
  have u: "session_inv u" using inv_output [OF inv sent(9)] by (simp add: u_def)
  have l: "lookupStream i u = Some st" using sent(3) by (simp add: u_def)
  have n: "int n \<le> sConnectionSendWindow s" "int n \<le> ssSendWindow st"
    using sendAvailable_bounds(3,4) [of src st s] sent(2,6) by simp_all
  have "session_inv (putStream (st\<lparr>ssSendWindow := ssSendWindow st - int n, ssSendBody := ssSendBody st + of_nat n\<rparr>) u)"
    using n(2) inv_lookup(2) [OF u l] by (intro inv_put [OF u l]) (simp_all add: windows_ok_def minInt32_def)
  then have v: "session_inv v" unfolding v_def using n(1) inv_windows(2) [OF inv] by (intro inv_send) simp_all
  have "evolves s u" by (rule evolves_same) (simp add: u_def stream_part_def)
  moreover have "evolves u (putStream (st\<lparr>ssSendWindow := ssSendWindow st - int n, ssSendBody := ssSendBody st + of_nat n\<rparr>) u)"
    by (rule evolves_put [OF l]) (use inv_lookup(1) [OF u l] in simp_all)
  moreover have "evolves (putStream (st\<lparr>ssSendWindow := ssSendWindow st - int n, ssSendBody := ssSendBody st + of_nat n\<rparr>) u) v"
    by (rule evolves_same) (simp add: v_def)
  ultimately have "evolves s v" by (meson evolves_trans)
  moreover have "t = (if fin then localEnd i v else v)" using sent(8) by (simp add: u_def v_def)
  ultimately show ?thesis using evolves_localEnd [OF v, of i] by (auto intro: evolves_trans)
qed simp

lemma evolves_UpdateSettings: "evolves s (fst (UpdateSettings env settings s))"
proof (cases "fst (UpdateSettings env settings s) = s")
  case False
  define u0 where "u0 = \<lparr>nuHeaderTable = sLocalHeaderTable s, nuEnablePush = slEnablePush (sLimits s),
      nuMaxConcurrent = slMaxConcurrentStreams (sLimits s), nuInitialWindow = slInitialWindowSize (sLimits s),
      nuMaxFrame = MaxFrameSize (fLimits (sParser s)), nuEnableConnect = slEnableExtendedConnect (sLimits s)\<rparr>"
  obtain u where u: "collectSettings s settings u0 = Some u"
    using False by (cases "collectSettings s settings u0") (auto simp: UpdateSettings_def u0_def [symmetric] split: option.splits if_splits)
  define d where "d = uint (nuInitialWindow u) - uint (slInitialWindowSize (sLimits s))"
  obtain dec de where dec: "SetAllowedDynamicTableBytes (envCodec env) (nuHeaderTable u) (sDecoder s) = (dec, de)"
    by (cases "SetAllowedDynamicTableBytes (envCodec env) (nuHeaderTable u) (sDecoder s)")
  define s1 where "s1 = s\<lparr>sDecoder := dec\<rparr>"
  obtain t err where a: "appendSettings settings False s1 = (t, err)" by (cases "appendSettings settings False s1")
  obtain out where t: "t = s1\<lparr>sOutput := out\<rparr>" using appendSettings_sel [OF a] by blast
  define v where "v = t\<lparr>sLocalHeaderTable := nuHeaderTable u,
      sLimits := (sLimits t)\<lparr>slEnablePush := nuEnablePush u, slMaxConcurrentStreams := nuMaxConcurrent u,
        slInitialWindowSize := nuInitialWindow u, slEnableExtendedConnect := nuEnableConnect u\<rparr>,
      sParser := (sParser t)\<lparr>fLimits := (fLimits (sParser t))\<lparr>MaxFrameSize := nuMaxFrame u\<rparr>\<rparr>,
      sStreams := map (\<lambda>(i, st). (i, st\<lparr>ssRecvWindow := ssRecvWindow st + d\<rparr>)) (sStreams t),
      sLocalSettingsOutstanding := sLocalSettingsOutstanding t + 1\<rparr>"
  have cases: "fst (UpdateSettings env settings s) \<in> {s1, t, v}"
    using False u dec a
    by (auto simp: UpdateSettings_def u0_def [symmetric] d_def [symmetric] s1_def [symmetric] v_def Let_def
        split: option.splits if_splits)
  have m: "map_option ssState (map_of (map (\<lambda>(i, st). (i, st\<lparr>ssRecvWindow := ssRecvWindow st + d\<rparr>)) m) j) =
      map_option ssState (map_of m j)" for j and m :: stream_map
    by (induction m) auto
  have "evolves s s1" by (simp add: s1_def evolves_same)
  moreover have "evolves s t" by (rule evolves_same) (simp add: t s1_def stream_part_def)
  moreover have "evolves s v" by (rule evolves_skip) (simp_all add: v_def t s1_def m)
  ultimately show ?thesis using cases by auto
qed simp

lemma evolves_ResetStream:
  assumes "session_ok s"
  shows "evolves s (fst (ResetStream i c s))"
proof -
  obtain t err where a: "appendFrame (frameOf FrameRSTStream 0 i) (PutUint32 c) s = (t, err)"
    by (cases "appendFrame (frameOf FrameRSTStream 0 i) (PutUint32 c) s")
  have "session_ok t" using ok_appendFrame [OF assms, of "frameOf FrameRSTStream 0 i" "PutUint32 c"] a by simp
  moreover have "stream_part (fst (appendFrame (frameOf FrameRSTStream 0 i) (PutUint32 c) s)) = stream_part s" by simp
  then have st: "evolves s t" using a by (simp add: evolves_same)
  ultimately have "evolves s (closeStream i t)" using evolves_closeStream [of t i] by (auto simp: session_ok_def intro: evolves_trans)
  then show ?thesis using st a by (simp add: ResetStream_def split: option.split)
qed

lemma evolves_CloseSession:
  assumes "session_ok s"
  shows "evolves s (CloseSession s)"
proof (cases "sClosed s")
  case False
  have "stream_step\<^sup>*\<^sup>* (streamView s j) (streamView (CloseSession s) j)" for j
    using False used_known [of s j] assms
    by (cases "lookupStream j s") (simp_all add: streamView_def CloseSession_def used_id_def session_ok_def stream_steps)
  then show ?thesis by (simp add: evolves_def)
qed (simp add: CloseSession_def)

lemma evolves_quiet:
  "evolves s (fst (FinishSession s))" "evolves s (fst (ConsumeOutput n s))" "evolves s (fst (NextEvent s))"
  "evolves s (fst (PriorityUpdate i v s))" "evolves s (fst (PingSession data s))" "evolves s (fst (GoAway c debug s))"
proof -
  have f: "stream_part (fst (connectionError a b (s\<lparr>sParser := p\<rparr>))) = stream_part s" for a b p by simp
  show "evolves s (fst (FinishSession s))"
    by (rule evolves_same) (simp add: FinishSession_def Let_def case_prod_beta)
  show "evolves s (fst (ConsumeOutput n s))" by (rule evolves_same) (simp add: ConsumeOutput_def stream_part_def)
  show "evolves s (fst (NextEvent s))" by (rule evolves_same) (simp add: NextEvent_def stream_part_def split: list.split)
  show "evolves s (fst (PriorityUpdate i v s))" by (rule evolves_same) (simp add: PriorityUpdate_def)
  show "evolves s (fst (PingSession data s))" by (rule evolves_same) (simp add: PingSession_def)
  show "evolves s (fst (GoAway c debug s))"
    by (rule evolves_same) (simp add: GoAway_def Let_def case_prod_beta split: option.split)
qed

lemma evolves_call:
  assumes "session_ok s" "sessionCall env c s = Some t"
  shows "evolves s t"
proof (cases c)
  case (SFeed src)
  then obtain n err where "Feed env src s = Some (t, n, err)" using assms(2) by auto
  then show ?thesis using evolves_Feed [OF assms(1)] by blast
next
  case (SSendHeaders i headers e)
  then show ?thesis using assms evolves_SendHeaders [OF assms(1), of env i headers e] by (cases "SendHeaders env i headers e s") simp
next
  case (SSendData i src e)
  then show ?thesis using assms evolves_SendData [OF assms(1), of i src e] by (cases "SendData i src e s") auto
qed (use assms evolves_quiet in \<open>auto simp: evolves_OpenStream evolves_PushPromise evolves_ResetStream evolves_UpdateSettings
    evolves_CloseSession\<close>)

lemma evolves_calls:
  "session_ok s \<Longrightarrow> sessionCalls env cs s = Some t \<Longrightarrow> evolves s t"
proof (induction cs arbitrary: s)
  case (Cons c cs)
  obtain u where u: "sessionCall env c s = Some u" "session_ok u" using sessionCall_ok [OF Cons.prems(1), of env c] by blast
  then have "evolves u t" using Cons by simp
  then show ?case using evolves_call [OF Cons.prems(1) u(1)] by (rule evolves_trans [rotated])
qed simp

lemma opened_success:
  assumes "session_ok s" "OpenStream env headers e s = (t, Inr i)"
  shows "i = sNextLocalStream s" "sRole s = RoleClient" "uint i \<le> maxInt32" "i \<noteq> 0"
    "streamView t i = (if e then StreamHalfClosedLocal else StreamOpen)"
proof -
  have guards: "\<not> (sGoAwayReceived s \<or> sGoAwaySent s \<or> sRole s \<noteq> RoleClient \<or> sNextLocalStream s = 0 \<or>
    maxInt32 < uint (sNextLocalStream s) \<or> sPeerMaxConcurrent s \<le> sActiveLocal s \<or>
    slMaxStreams (sLimits s) \<le> of_nat (length (sStreams s)))"
    using assms(2) unfolding OpenStream_def by (auto split: if_splits)
  define j where "j = sNextLocalStream s"
  define st where "st = newStream j StreamOpen True (sPeerInitialWindow s) (uint (slInitialWindowSize (sLimits s)))"
  define u where "u = (putStream st s)\<lparr>sNextLocalStream := j + 2, sActiveLocal := sActiveLocal s + 1\<rparr>"
  obtain v err where r: "SendHeaders env j headers e u = (v, err)" by (cases "SendHeaders env j headers e u")
  have eq: "OpenStream env headers e s =
      (case err of Some x \<Rightarrow> (v\<lparr>sStreams := AList.delete j (sStreams v), sActiveLocal := sActiveLocal v - 1\<rparr>, Inl x)
       | None \<Rightarrow> (v, Inr j))"
    using guards r unfolding OpenStream_def by (simp add: Let_def j_def st_def u_def split: option.split)
  have v: "err = None" "v = t" "i = j" using eq assms(2) by (cases err; simp)+
  then show "i = sNextLocalStream s" "sRole s = RoleClient" "uint i \<le> maxInt32" "i \<noteq> 0" using guards by (auto simp: j_def)
  from r show "streamView t i = (if e then StreamHalfClosedLocal else StreamOpen)"
  proof (cases rule: SendHeaders_cases)
    case (sent st' md trailer w)
    have st': "st' = st" using sent(2) by (simp add: u_def putStream_def update_conv' st_def)
    have id: "ssId (sentHeaders md trailer st) = j" "ssState (sentHeaders md trailer st) = StreamOpen"
      by (simp_all add: sentHeaders_def Let_def st_def)
    define x where "x = putStream (sentHeaders md trailer st) w"
    have x: "lookupStream j x = Some (sentHeaders md trailer st)" using id by (simp add: x_def putStream_def update_conv')
    show ?thesis using sent(5) v x id
      by (simp add: st' x_def [symmetric] localEnd_def view_put) (simp add: streamView_def)
  qed (use v in simp)
qed

text \<open>C4: The streams of a session follow the state machine of RFC 9113, section 5.1. Whatever the owner calls and
  whatever the peer sends, the state of a stream, as \<open>StreamState\<close> reports it for a known stream and as the use
  of identifiers gives it for the others, changes only along the transitions of that section. In particular a
  closed stream stays closed, and a used identifier never becomes idle again. The limit on remembered closed streams is below 2^32 - 1.\<close>

theorem streams_follow_life_cycle:
  assumes "NewSession env role l = Inr s0" "unat (slMaxClosedStreams (sessionNormalized l)) < 2 ^ 32 - 1"
    and "sessionCalls env cs s0 = Some s" "sessionCalls env ds s = Some t"
  shows "stream_step\<^sup>*\<^sup>* (streamView s i) (streamView t i) \<and>
     (streamView s i = StreamClosed \<longrightarrow> streamView t i = StreamClosed) \<and>
     (streamView s i \<noteq> StreamIdle \<longrightarrow> streamView t i \<noteq> StreamIdle) \<and>
     (snd (StreamState i t) \<longrightarrow> fst (StreamState i t) = streamView t i)"
proof -
  have "session_ok s" using sessionCalls_ok [OF NewSession_ok [OF assms(1,2)], of env cs] assms(3) by simp
  then have step: "stream_step\<^sup>*\<^sup>* (streamView s i) (streamView t i)"
    using evolves_calls [OF _ assms(4)] by (simp add: evolves_def)
  have "streamView t i = StreamClosed" if "streamView s i = StreamClosed"
    using closed_final [of "streamView t i"] step that by simp
  moreover have "snd (StreamState i t) \<longrightarrow> fst (StreamState i t) = streamView t i"
    by (cases "lookupStream i t") (simp_all add: StreamState_def streamView_def)
  ultimately show ?thesis using step not_idle_again [OF step] by blast
qed

text \<open>C8: The identifiers that \<open>OpenStream\<close> returns are fresh. After any calls, a successful call returns an odd
  identifier of 31 bits that was idle; the stream is then open, or half closed by the client when the request
  has no body. A later successful call, after any calls in between, returns a greater identifier. The limit on
  remembered closed streams is below 2^32 - 1.\<close>

theorem open_stream_fresh:
  assumes "NewSession env role l = Inr s0" "unat (slMaxClosedStreams (sessionNormalized l)) < 2 ^ 32 - 1"
    and "sessionCalls env cs s0 = Some s" "OpenStream env headers e s = (t, Inr i)"
  shows "odd (unat i) \<and> i \<le> 0x7fffffff \<and> streamView s i = StreamIdle \<and>
     streamView t i = (if e then StreamHalfClosedLocal else StreamOpen) \<and>
     (\<forall>ds u headers' e' v j. sessionCalls env ds t = Some u \<longrightarrow> OpenStream env headers' e' u = (v, Inr j) \<longrightarrow> i < j)"
proof -
  have ok: "session_ok s" using sessionCalls_ok [OF NewSession_ok [OF assms(1,2)], of env cs] assms(3) by simp
  then have inv: "session_inv s" by (simp add: session_ok_def)
  note o = opened_success [OF ok assms(4)]
  have tok: "session_ok t" using OpenStream_ok [OF ok, of env headers e] assms(4) by simp
  have idle: "streamView s i = StreamIdle" using evolves_open [OF inv _ o(1)] o(1,3) by (simp add: streamView_def)
  have odd: "odd (unat i)" using inv_streams [OF inv] o(1,2) by (simp add: streams_inv_def)
  have later: "i < j" if ds: "sessionCalls env ds t = Some u" and op: "OpenStream env headers' e' u = (v, Inr j)" for ds u headers' e' v j
  proof -
    have u: "session_ok u" using sessionCalls_ok [OF tok, of env ds] ds by simp
    note p = opened_success [OF u op]
    have "stream_step\<^sup>*\<^sup>* (streamView t i) (streamView u i)" using evolves_calls [OF tok ds] by (simp add: evolves_def)
    moreover have "streamView t i \<noteq> StreamIdle" by (simp add: o(5))
    ultimately have "streamView u i \<noteq> StreamIdle" by (rule not_idle_again)
    then have "used_id i u" using used_known [of u i] u by (cases "lookupStream i u") (auto simp: streamView_def session_ok_def split: if_splits)
    then show ?thesis using odd p(1,2) by (simp add: used_id_def local_id_def)
  qed
  have "i \<le> 0x7fffffff" using o(3) by (simp add: word_le_def maxInt32_def)
  then show ?thesis using odd idle o(5) later by blast
qed

lemma demo_streams:
  "snd (OpenStream demo_env demo_request True demo_opened) = Inr 3 \<and>
   sessionCalls demo_env [SFeed [0, 0, 0, 4, 0, 0, 0, 0, 0, 0, 0, 4, 3, 0, 0, 0, 0, 1, 0, 0, 0, 8]] demo_opened \<noteq> None"
  by code_simp

theorem streams_follow_life_cycle_witness:
  "\<exists>t. sessionCalls demo_env [SFeed [0, 0, 0, 4, 0, 0, 0, 0, 0, 0, 0, 4, 3, 0, 0, 0, 0, 1, 0, 0, 0, 8]] demo_opened = Some t \<and>
     stream_step\<^sup>*\<^sup>* (streamView demo_opened 1) (streamView t 1)"
proof -
  obtain t where t: "sessionCalls demo_env [SFeed [0, 0, 0, 4, 0, 0, 0, 0, 0, 0, 0, 4, 3, 0, 0, 0, 0, 1, 0, 0, 0, 8]] demo_opened = Some t"
    using demo_streams by blast
  have "unat (slMaxClosedStreams (sessionNormalized demo_session_limits)) < 2 ^ 32 - 1" using demo_facts by simp
  then have "stream_step\<^sup>*\<^sup>* (streamView demo_opened 1) (streamView t 1)"
    using streams_follow_life_cycle [OF _ _ _ t, of RoleClient demo_session_limits demo_client "[SOpenStream demo_request False]" 1]
      demo_facts by blast
  then show ?thesis using t by blast
qed

theorem open_stream_fresh_witness:
  "\<exists>t. OpenStream demo_env demo_request True demo_opened = (t, Inr 3) \<and> streamView demo_opened 3 = StreamIdle \<and>
     streamView t 3 = StreamHalfClosedLocal"
proof -
  obtain t where t: "OpenStream demo_env demo_request True demo_opened = (t, Inr 3)"
    using demo_streams by (cases "OpenStream demo_env demo_request True demo_opened") simp
  have "unat (slMaxClosedStreams (sessionNormalized demo_session_limits)) < 2 ^ 32 - 1" using demo_facts by simp
  then show ?thesis
    using open_stream_fresh [OF _ _ _ t, of RoleClient demo_session_limits demo_client "[SOpenStream demo_request False]"]
      demo_facts t by auto
qed

end
