(* ===== verification/H2_Session_Props.thy ===== *)
theory H2_Session_Props
  imports H2_Session_Streams
begin

text \<open>
  What a session promises its owner: calls return and keep the invariant, input is consumed, failures are
  final, data stays within the windows of the peer, and field sections are sent as a whole or not at all.
\<close>

subsection \<open>Every call returns\<close>



text \<open>C13: After any calls, \<open>Feed\<close> returns, consumes no more than it was given, and without an error
  consumes all of it. The limit on remembered closed streams is below 2^32 - 1.\<close>

theorem feed_consumes:
  assumes "NewSession env role l = Inr s0" "unat (slMaxClosedStreams (sessionNormalized l)) < 2 ^ 32 - 1"
    and "sessionCalls env cs s0 = Some s"
  shows "\<exists>t n err. Feed env src s = Some (t, n, err) \<and> n \<le> length src \<and> (err = None \<longrightarrow> n = length src)"
proof -
  have "session_ok s" using sessionCalls_ok [OF NewSession_ok [OF assms(1,2)], of env cs] assms(3) by simp
  then show ?thesis using Feed_ok [of s env src] by blast
qed

theorem feed_consumes_witness:
  "\<exists>t n err. Feed demo_env (replicate 9 0) demo_opened = Some (t, n, err) \<and> n \<le> 9 \<and> (err = None \<longrightarrow> n = 9)"
proof -
  have "unat (slMaxClosedStreams (sessionNormalized demo_session_limits)) < 2 ^ 32 - 1" using demo_facts by simp
  then show ?thesis using feed_consumes [of demo_env RoleClient demo_session_limits demo_client "[SOpenStream demo_request False]"
      demo_opened "replicate 9 0"] demo_facts by simp
qed

subsection \<open>Failures\<close>

lemma failed_outside: "outside_output t = outside_output s \<Longrightarrow> sFailed t = sFailed s"
  by (rule outside_sel)

lemma failed_localEnd [simp]: "sFailed (localEnd i s) = sFailed s"
  by (simp add: localEnd_def closeStream_def putStream_def Let_def case_prod_beta split: option.split stream_state.split)

lemma failed_closeStream [simp]: "sFailed (closeStream i s) = sFailed s"
  by (simp add: closeStream_def putStream_def Let_def case_prod_beta split: option.split)

lemma failed_append [simp]: "sFailed (fst (appendFrame h payload s)) = sFailed s"
  by (rule failed_outside) simp

lemma failed_encode [simp]: "sFailed (fst (encodeAndAppendHeaders env typ i j headers e s)) = sFailed s"
  by (rule failed_outside) simp

text \<open>The session after a failure, before it is closed: nothing is read, nothing is sent.\<close>

lemma failed_calls:
  assumes "sFailed s = Some e" "\<not> sClosed s"
  shows "Feed env src s = Some (s, 0, Some e)" "FinishSession s = (s, Some e)" "SendHeaders env i headers fin s = (s, Some e)"
    "SendData i src fin s = (s, 0, Some e)" "UpdateSettings env settings s = (s, Some e)" "PingSession data s = (s, Some e)"
  using assms by (simp_all add: Feed_def FinishSession_def SendHeaders_def SendData_def UpdateSettings_def PingSession_def
      appendFrame_def readySession_def)

lemma failed_OpenStream:
  assumes "sFailed s = Some e"
  shows "sFailed (fst (OpenStream env headers fin s)) = Some e"
  using assms by (simp add: OpenStream_def SendHeaders_def readySession_def Let_def)

lemma failed_call:
  assumes "sFailed s = Some e" "sessionCall env c s = Some t"
  shows "sFailed t = Some e"
proof (cases c)
  case (SFeed src)
  then show ?thesis using assms by (auto simp: Feed_def split: if_splits)
next
  case (SOpenStream headers fin)
  then show ?thesis using assms failed_OpenStream [of s e env headers fin] by simp
next
  case (SPushPromise i headers)
  have "sFailed (fst (encodeAndAppendHeaders env FramePushPromise i j headers False (s\<lparr>sNextLocalStream := k\<rparr>))) = Some e" for j k
    using assms by simp
  then show ?thesis using assms SPushPromise
    by (auto simp: PushPromise_def Let_def putStream_def case_prod_beta split: if_splits option.splits)
next
  case (SResetStream i c)
  then show ?thesis using assms by (auto simp: ResetStream_def case_prod_beta split: option.splits if_splits)
next
  case (SGoAway c debug)
  then show ?thesis using assms by (auto simp: GoAway_def Let_def case_prod_beta split: option.splits if_splits)
qed (use assms in \<open>auto simp: FinishSession_def ConsumeOutput_def NextEvent_def PriorityUpdate_def SendHeaders_def SendData_def
    UpdateSettings_def PingSession_def CloseSession_def readySession_def split: if_splits list.splits\<close>)

text \<open>C12: A connection error is final. Once a session has failed, it stays failed with the same error whatever is
  called next, and until it is closed \<open>Feed\<close> consumes nothing, and \<open>Feed\<close>, \<open>Finish\<close>,
  \<open>SendHeaders\<close>, \<open>SendData\<close>, \<open>UpdateSettings\<close> and \<open>Ping\<close> return that
  error and change nothing.\<close>

theorem session_failure_final:
  assumes "sFailed s = Some e" "sessionCalls env cs s = Some t"
  shows "sFailed t = Some e \<and>
     (sClosed t \<or>
      Feed env src t = Some (t, 0, Some e) \<and> FinishSession t = (t, Some e) \<and>
      SendHeaders env i headers fin t = (t, Some e) \<and> SendData i src fin t = (t, 0, Some e) \<and>
      UpdateSettings env settings t = (t, Some e) \<and> PingSession data t = (t, Some e))"
proof -
  have "sFailed t = Some e" using assms
  proof (induction cs arbitrary: s)
    case (Cons c cs)
    obtain u where "sessionCall env c s = Some u" "sessionCalls env cs u = Some t" using Cons.prems(2) by (auto split: option.splits)
    then show ?case using Cons.IH failed_call [OF Cons.prems(1)] by blast
  qed simp
  then show ?thesis using failed_calls [of t e] by blast
qed


theorem session_failure_final_witness:
  "let s = fst (connectionError ErrCodeProtocol ''example'' (demo_client\<lparr>sFailed := None\<rparr>));
       t = fst (NextEvent s); e = ProtocolError 0 ErrCodeProtocol ''example''
   in sFailed t = Some e \<and> (sClosed t \<or> Feed demo_env [1] t = Some (t, 0, Some e) \<and> SendData 1 [1] True t = (t, 0, Some e))"
proof -
  define s where "s = fst (connectionError ErrCodeProtocol ''example'' (demo_client\<lparr>sFailed := None\<rparr>))"
  have s: "sFailed s = Some (ProtocolError 0 ErrCodeProtocol ''example'')"
    by (simp add: s_def connectionError_def Let_def appendFrameEvenFailed_def case_prod_beta)
  have "sessionCalls demo_env [SNextEvent] s = Some (fst (NextEvent s))" by simp
  from session_failure_final [OF s this, where src = "[1]" and i = 1 and fin = True]
  show ?thesis unfolding s_def [symmetric] Let_def by blast
qed

subsection \<open>Flow control\<close>

lemma localEnd_connection [simp]: "sConnectionSendWindow (localEnd i s) = sConnectionSendWindow s"
  by (simp add: localEnd_def closeStream_def putStream_def Let_def case_prod_beta split: option.split stream_state.split)

text \<open>C7: \<open>SendData\<close> never exceeds what the peer permits. After any calls, the number of octets it takes is at
  most the length of the data, the frame size, the window of the stream and the window of the
  connection; exactly those octets are appended to the output as one DATA frame, which has END_STREAM
  when they are all and the caller asked for it, and the connection's window shrinks by their number.
  When it fails, the streams and the connection's window are unchanged. The limit on remembered closed streams is below 2^32 - 1.\<close>

theorem send_data_within_windows:
  assumes "NewSession env role l = Inr s0" "unat (slMaxClosedStreams (sessionNormalized l)) < 2 ^ 32 - 1"
    and "sessionCalls env cs s0 = Some s" and r: "SendData i src e s = (t, n, err)"
  shows "(err \<noteq> None \<longrightarrow> n = 0 \<and> sStreams t = sStreams s \<and> sConnectionSendWindow t = sConnectionSendWindow s) \<and>
     (0 < n \<longrightarrow> (\<exists>st. lookupStream i s = Some st \<and> int n \<le> ssSendWindow st) \<and> n \<le> length src \<and>
        n \<le> unat (sPeerMaxFrame s) \<and> sOutput t = sOutput s @ dataFrame i (n = length src \<and> e) (take n src)) \<and>
     0 \<le> sConnectionSendWindow t \<and> sConnectionSendWindow t = sConnectionSendWindow s - int n"
proof -
  have "session_ok s" using sessionCalls_ok [OF NewSession_ok [OF assms(1,2)], of env cs] assms(3) by simp
  then have w: "0 \<le> sConnectionSendWindow s" by (simp add: session_ok_def inv_windows)
  from r show ?thesis
  proof (cases rule: SendData_cases)
    case (error x)
    then show ?thesis using w outside_sel(1,7) [OF error(3)] by simp
  next
    case noop
    then show ?thesis using w by simp
  next
    case (finish st)
    then show ?thesis using w by simp
  next
    case (sent st fin)
    have n: "int n = sendAvailable src st s" using sent(2,6) by simp
    have m: "n \<le> unat (sPeerMaxFrame s)" using sendAvailable_bounds(2) [of src st s] n by (simp add: flip: le_uint)
    have o: "sOutput t = sOutput s @ dataFrame i fin (take n src)" using sent(8) by (cases fin) (simp_all add: localEnd_queues, simp_all add: putStream_def)
    have c: "sConnectionSendWindow t = sConnectionSendWindow s - int n" using sent(8) by (cases fin) simp_all
    show ?thesis using sent(1,3,7) o c m sendAvailable_bounds [of src st s] n by simp
  qed
qed

subsection \<open>Field sections\<close>

text \<open>C11: A field section is sent as a whole or not at all. After any calls, when \<open>SendHeaders\<close> fails
  the output and the streams are as before, whatever the codec wrote, whatever the identifier and the other limits are;
  the session is never left with a part of a header block on the wire. The limit on remembered closed streams is below 2^32 - 1.\<close>

theorem send_headers_atomic:
  assumes "NewSession env role l = Inr s0" "unat (slMaxClosedStreams (sessionNormalized l)) < 2 ^ 32 - 1"
    and "sessionCalls env cs s0 = Some s" "SendHeaders env i headers e s = (t, Some err)"
  shows "sOutput t = sOutput s \<and> sStreams t = sStreams s"
proof -
  have ok: "session_ok s" using sessionCalls_ok [OF NewSession_ok [OF assms(1,2)], of env cs] assms(3) by simp
  from assms(4) show ?thesis
  proof (cases rule: SendHeaders_cases)
    case (error x)
    show ?thesis
    proof (cases "t = s")
      case False
      then obtain y where y: "encodeAndAppendHeaders env FrameHeaders i 0 headers e s = (t, Some y)"
        using error(3) by blast
      then show ?thesis using encodeHeaders_atomic [OF ok _ y] outside_sel(1) [OF error(2)] by simp
    qed simp
  qed simp
qed


text \<open>The examples: a data frame, and trailers that do not end the stream.\<close>

lemma demo_sends:
  "case SendData 1 [1, 2, 3] True demo_opened of (t, n, err) \<Rightarrow> n = 3 \<and>
     snd (SendHeaders demo_env 1 [plain_field ''x'' ''y''] False demo_opened) = Some ErrInvalidHeaders"
  by code_simp

theorem send_data_within_windows_witness:
  "case SendData 1 [1, 2, 3] True demo_opened of (t, n, err) \<Rightarrow>
     n = 3 \<and> sOutput t = sOutput demo_opened @ dataFrame 1 True [1, 2, 3] \<and>
     sConnectionSendWindow t = sConnectionSendWindow demo_opened - 3"
proof -
  obtain t n err where r: "SendData 1 [1, 2, 3] True demo_opened = (t, n, err)" by (rule prod_cases3)
  have "n = 3" using demo_sends r by simp
  moreover have "unat (slMaxClosedStreams (sessionNormalized demo_session_limits)) < 2 ^ 32 - 1" using demo_facts by simp
  ultimately show ?thesis
    using send_data_within_windows [OF _ _ _ r, of demo_env RoleClient demo_session_limits demo_client "[SOpenStream demo_request False]"]
      demo_facts by (simp add: r numeral_3_eq_3)
qed

theorem send_headers_atomic_witness:
  "sOutput (fst (SendHeaders demo_env 1 [plain_field ''x'' ''y''] False demo_opened)) = sOutput demo_opened"
proof -
  obtain t where r: "SendHeaders demo_env 1 [plain_field ''x'' ''y''] False demo_opened = (t, Some ErrInvalidHeaders)"
    using demo_sends by (cases "SendHeaders demo_env 1 [plain_field ''x'' ''y''] False demo_opened") (auto simp: case_prod_beta)
  have "unat (slMaxClosedStreams (sessionNormalized demo_session_limits)) < 2 ^ 32 - 1" using demo_facts by simp
  then show ?thesis
    using send_headers_atomic [OF _ _ _ r, of RoleClient demo_session_limits demo_client "[SOpenStream demo_request False]"]
      demo_facts by (simp add: r)
qed

end
