(* ===== verification/H2_Abi_Contract.thy ===== *)
theory H2_Abi_Contract
  imports H2_Abi H2_Session_Props
begin

text \<open>
  The contract that every guest call fulfils: what it may do to the manager, where it may store, and that it does
  not panic below 4 GiB of memory. The contract is a locale, and the dispatch of the imports is its
  interpretation; the lemmas before it cover the imports one by one.
\<close>

declare statusForError.simps [simp del]

subsection \<open>Memory\<close>

lemma LEUint32_Put [simp]: "LEUint32 (LEPutUint32 v) = v"
proof (rule bit_word_eqI)
  fix n
  assume len: "n < LENGTH(32)"
  consider "n < 8" | "8 \<le> n" "n < 16" | "16 \<le> n" "n < 24" | "24 \<le> n" by linarith
  then show "bit (LEUint32 (LEPutUint32 v)) n = bit v n"
    using len by cases (simp_all add: LEUint32_def LEPutUint32_def bit_or_iff bit_push_bit_iff bit_ucast_iff bit_drop_bit_eq less_diff_conv2)
qed

lemma length_LEPut [simp]: "length (LEPutUint32 v) = 4"
  by (simp add: LEPutUint32_def)

lemma unat_stop: "unat (ucast (p :: u32) + ucast (l :: u32) :: u64) = unat p + unat l"
proof -
  have "unat p < 2 ^ 32" "unat l < 2 ^ 32" using unsigned_less [of p] unsigned_less [of l] by simp_all
  then have "unat p + unat l < 2 ^ LENGTH(64)" by simp
  then show ?thesis by (simp add: unat_word_ariths take_bit_nat_eq_self unsigned_ucast_eq)
qed

lemma unat_of_nat_le: "unat (of_nat n :: 'a::len word) \<le> n"
  by (simp add: unat_of_nat take_bit_nat_less_eq_self)

lemma range_bounds:
  assumes "abiMemory memory p l = Range a b"
  shows "a = unat p" "b = unat p + unat l" "b \<le> length memory" "b - a = unat l" "a \<le> b"
proof -
  let ?stop = "ucast p + ucast l :: u64"
  have r: "\<not> of_nat (length memory) < ?stop" "\<not> (ucast ?stop :: u32) < p" "a = unat p" "b = unat (ucast ?stop :: u32)"
    using assms by (auto simp: abiMemory_def Let_def split: if_splits)
  have le: "unat p + unat l \<le> length memory"
    using r(1) unat_of_nat_le [of "length memory", where 'a = 64] by (simp add: not_less word_le_nat_alt unat_stop)
  have e: "unat (ucast ?stop :: u32) = (unat p + unat l) mod 2 ^ 32"
    by (simp add: unsigned_ucast_eq unat_stop take_bit_eq_mod)
  have lt: "unat p < 2 ^ 32" "unat l < 2 ^ 32" using unsigned_less [of p] unsigned_less [of l] by simp_all
  have "unat p \<le> (unat p + unat l) mod 2 ^ 32" using r(2) e by (simp add: not_less word_le_nat_alt)
  then have "(unat p + unat l) mod 2 ^ 32 = unat p + unat l"
    using lt by (cases "unat p + unat l < 2 ^ 32") (auto simp: mod_if split: if_splits)
  then show "a = unat p" "b = unat p + unat l" "b \<le> length memory" "b - a = unat l" "a \<le> b" using r(3,4) e le by simp_all
qed

lemma range_panic:
  assumes "abiMemory memory p l = RangePanic"
  shows "2 ^ 32 \<le> length memory"
proof (rule ccontr)
  let ?stop = "ucast p + ucast l :: u64"
  assume "\<not> 2 ^ 32 \<le> length memory"
  moreover have r: "\<not> of_nat (length memory) < ?stop" "(ucast ?stop :: u32) < p"
    using assms by (auto simp: abiMemory_def Let_def split: if_splits)
  have le: "unat p + unat l \<le> length memory"
    using r(1) unat_of_nat_le [of "length memory", where 'a = 64] by (simp add: not_less word_le_nat_alt unat_stop)
  ultimately have "unat (ucast ?stop :: u32) = unat p + unat l"
    by (simp add: unsigned_ucast_eq unat_stop take_bit_nat_eq_self)
  then show False using r(2) by (simp add: word_less_nat_alt)
qed

lemma copy_at_in:
  assumes "a + length bs \<le> length memory"
  shows "copy_at memory a bs = take a memory @ bs @ drop (a + length bs) memory"
  using assms by (simp add: copy_at_def Let_def min_absorb2)

lemma copy_at_outside:
  assumes "a + length bs \<le> length memory" "k < a \<or> a + length bs \<le> k"
  shows "copy_at memory a bs ! k = memory ! k"
  using assms by (auto simp: copy_at_in nth_append min_absorb2)

lemma slice_copy_at:
  assumes "a + length bs \<le> length memory"
  shows "slice (copy_at memory a bs) a (a + length bs) = bs"
  using assms by (simp add: copy_at_in min_absorb2)

subsection \<open>The invariant\<close>

text \<open>A session that the manager holds was created with the configured limits and has since changed only by
  calls of its owner.\<close>

definition held :: "('d, 'e) session_env \<Rightarrow> register_config \<Rightarrow> ('d, 'e) session \<Rightarrow> bool" where
  "held env config s \<longleftrightarrow>
     (\<exists>role s0 cs. NewSession env role (rcSession config) = Inr s0 \<and> sessionCalls env cs s0 = Some s)"

definition instance_ok :: "('d, 'e) session_env \<Rightarrow> register_config \<Rightarrow> ('d, 'e) abi_instance \<Rightarrow> bool" where
  "instance_ok env config state \<longleftrightarrow>
     distinct (map fst (aiSessions state)) \<and> 0 \<notin> set (map fst (aiSessions state)) \<and>
     length (aiSessions state) \<le> unat (rcMaxSessions config) \<and>
     (\<forall>(h, a) \<in> set (aiSessions state). held env config (asSession a))"

definition manager_ok :: "('d, 'e) session_env \<Rightarrow> ('d, 'e, 'i) abi_manager \<Rightarrow> bool" where
  "manager_ok env m \<longleftrightarrow>
     distinct (map fst (amInstances m)) \<and> rcMaxSessions (amConfig m) \<noteq> 0 \<and>
     unat (slMaxClosedStreams (sessionNormalized (rcSession (amConfig m)))) < 2 ^ 32 - 1 \<and>
     (\<forall>(i, state) \<in> set (amInstances m). instance_ok env (amConfig m) state)"

lemma sessionCalls_append:
  "sessionCalls env (cs @ ds) s = (case sessionCalls env cs s of None \<Rightarrow> None | Some t \<Rightarrow> sessionCalls env ds t)"
  by (induction cs arbitrary: s) (auto split: option.split)

lemma held_calls: "held env config s \<Longrightarrow> sessionCalls env cs s = Some t \<Longrightarrow> held env config t"
  unfolding held_def
proof (elim exE conjE)
  fix role s0 ds
  assume "NewSession env role (rcSession config) = Inr s0" "sessionCalls env ds s0 = Some s" "sessionCalls env cs s = Some t"
  then have "sessionCalls env (ds @ cs) s0 = Some t" by (simp add: sessionCalls_append)
  then show "\<exists>role s0 cs. NewSession env role (rcSession config) = Inr s0 \<and> sessionCalls env cs s0 = Some t"
    using \<open>NewSession env role (rcSession config) = Inr s0\<close> by blast
qed

lemma held_ok:
  assumes "held env config s" "unat (slMaxClosedStreams (sessionNormalized (rcSession config))) < 2 ^ 32 - 1"
  shows "session_ok s"
proof -
  obtain role s0 cs where s: "NewSession env role (rcSession config) = Inr s0" "sessionCalls env cs s0 = Some s"
    using assms(1) by (auto simp: held_def)
  show ?thesis using sessionCalls_ok [OF NewSession_ok [OF s(1) assms(2)], of env cs] s(2) by simp
qed

lemma instance_new: "instance_ok env config \<lparr>aiNext = 1, aiSessions = []\<rparr>"
  by (simp add: instance_ok_def)

lemma instance_store:
  assumes "instance_ok env config state" "map_of (aiSessions state) h = Some a" "held env config s"
  shows "instance_ok env config (state\<lparr>aiSessions := AList.update h \<lparr>asSession = s, asCurrent = cur\<rparr> (aiSessions state)\<rparr>)"
proof -
  have d: "distinct (map fst (aiSessions state))" using assms(1) by (simp add: instance_ok_def)
  have k: "h \<in> set (map fst (aiSessions state))" using map_of_SomeD [OF assms(2)] by force
  then have keys: "map fst (AList.update h x (aiSessions state)) = map fst (aiSessions state)" for x
    by (simp add: update_keys del: set_map)
  then have len: "length (AList.update h x (aiSessions state)) = length (aiSessions state)" for x
    by (metis length_map)
  have "held env config (asSession b)" if "(j, b) \<in> set (AList.update h \<lparr>asSession = s, asCurrent = cur\<rparr> (aiSessions state))" for j b
  proof -
    have "map_of (AList.update h \<lparr>asSession = s, asCurrent = cur\<rparr> (aiSessions state)) j = Some b"
      using that d by (simp add: keys)
    then show ?thesis using assms(1,3) by (auto simp: update_conv' instance_ok_def dest!: map_of_SomeD split: if_splits)
  qed
  then show ?thesis using assms(1) by (auto simp: instance_ok_def keys len)
qed

lemma instance_close:
  assumes "instance_ok env config state"
  shows "instance_ok env config (state\<lparr>aiSessions := AList.delete h (aiSessions state)\<rparr>)"
proof -
  have "set (AList.delete h (aiSessions state)) \<subseteq> set (aiSessions state)" by (auto simp: AList.delete_eq)
  moreover have "length (AList.delete h (aiSessions state)) \<le> length (aiSessions state)" by (simp add: AList.delete_eq)
  moreover have "distinct (map fst (AList.delete h (aiSessions state)))"
    using assms by (simp add: instance_ok_def distinct_delete)
  ultimately show ?thesis using assms by (auto simp: instance_ok_def)
qed

lemma found_handle:
  assumes "findHandle h nxt sessions = Some k"
  shows "k \<noteq> 0" "map_of sessions k = None"
proof -
  have "k \<noteq> 0 \<and> map_of sessions k = None"
    using assms by (induction h nxt sessions rule: findHandle.induct) (subst (asm) (2) findHandle.simps, auto split: if_splits)
  then show "k \<noteq> 0" "map_of sessions k = None" by simp_all
qed

lemma update_new: "map_of m k = None \<Longrightarrow> AList.update k x m = m @ [(k, x)]"
  by (induction m) (auto split: if_splits)

lemma instance_open:
  assumes "instance_ok env config state" "findHandle (aiNext state) (aiNext state) (aiSessions state) = Some h"
    and "held env config s" "of_nat (length (aiSessions state)) < rcMaxSessions config"
  shows "instance_ok env config \<lparr>aiNext = n, aiSessions = AList.update h \<lparr>asSession = s, asCurrent = None\<rparr> (aiSessions state)\<rparr>"
proof -
  note h = found_handle [OF assms(2)]
  have u: "AList.update h x (aiSessions state) = aiSessions state @ [(h, x)]" for x
    by (rule update_new [OF h(2)])
  have "unat (rcMaxSessions config) < 2 ^ LENGTH(32)" by (rule unsigned_less)
  then have "length (aiSessions state) < 2 ^ 32" using assms(1) by (simp add: instance_ok_def)
  then have "length (aiSessions state) < unat (rcMaxSessions config)"
    using assms(4) by (simp add: word_less_nat_alt unat_of_nat take_bit_nat_eq_self)
  then show ?thesis using assms(1,3) h by (auto simp: instance_ok_def u map_of_eq_None_iff)
qed

lemma manager_put:
  assumes "manager_ok env m" "instance_ok env (amConfig m) state"
  shows "manager_ok env (putInstance i state m)"
proof -
  have d: "distinct (map fst (AList.update i state (amInstances m)))"
    using assms(1) by (simp add: manager_ok_def distinct_update)
  have "instance_ok env (amConfig m) st" if "(j, st) \<in> set (AList.update i state (amInstances m))" for j st
  proof -
    have "map_of (AList.update i state (amInstances m)) j = Some st" using that d by simp
    then show ?thesis using assms by (auto simp: update_conv' manager_ok_def dest!: map_of_SomeD split: if_splits)
  qed
  then show ?thesis using assms(1) d by (auto simp: manager_ok_def putInstance_def)
qed

lemma caller_ok:
  assumes "manager_ok env m" "abiCaller host m = (m1, r)"
  shows "manager_ok env m1"
  using assms manager_put [OF assms(1) instance_new]
  by (auto simp: abiCaller_def putInstance_def Let_def split: option.splits)

lemma caller_found:
  assumes "abiCaller host m = (m1, Inr (i, state))"
  shows "hostInstance host = Some i" "map_of (amInstances m1) i = Some state" "amConfig m1 = amConfig m"
  using assms by (auto simp: abiCaller_def Let_def update_conv' split: option.splits)

lemma instance_found:
  assumes "manager_ok env m" "map_of (amInstances m) i = Some state"
  shows "instance_ok env (amConfig m) state"
  using assms map_of_SomeD [OF assms(2)] by (auto simp: manager_ok_def)

lemma lookup_found:
  assumes "abiLookup host h m = (m1, Inr a)"
  obtains i state where "abiCaller host m = (m1, Inr (i, state))" "map_of (aiSessions state) h = Some a"
  using assms by (auto simp: abiLookup_def split: prod.splits sum.splits option.splits)

lemma lookup_held:
  assumes "manager_ok env m" "abiLookup host h m = (m1, Inr a)"
  shows "held env (amConfig m) (asSession a)" "session_ok (asSession a)"
proof -
  obtain i state where s: "abiCaller host m = (m1, Inr (i, state))" "map_of (aiSessions state) h = Some a"
    using lookup_found [OF assms(2)] .
  note c = caller_found [OF s(1)]
  have "instance_ok env (amConfig m) state" using instance_found [OF caller_ok [OF assms(1) s(1)] c(2)] c(3) by simp
  then show h: "held env (amConfig m) (asSession a)" using map_of_SomeD [OF s(2)] by (auto simp: instance_ok_def)
  show "session_ok (asSession a)" by (rule held_ok [OF h]) (use assms(1) in \<open>simp add: manager_ok_def\<close>)
qed

subsection \<open>The contract of a guest call\<close>

text \<open>What a call may do to the manager: nothing, create the instance of the caller, change one of the caller's
  sessions by calls of its owner, open a session, or close one.\<close>

inductive abi_step ::
  "('d, 'e) session_env \<Rightarrow> 'i abi_host \<Rightarrow> ('d, 'e, 'i) abi_manager \<Rightarrow> ('d, 'e, 'i) abi_manager \<Rightarrow> bool"
  for env :: "('d, 'e) session_env" and host :: "'i abi_host" where
  unchanged: "abi_step env host m m"
| calls: "abiCaller host m = (m1, r) \<Longrightarrow> abi_step env host m m1"
| changes: "abiLookup host h m = (m1, Inr a) \<Longrightarrow> sessionCalls env cs (asSession a) = Some s \<Longrightarrow>
    abi_step env host m (storeSession host h \<lparr>asSession = s, asCurrent = cur\<rparr> m1)"
| opens: "abiCaller host m = (m1, Inr (i, state)) \<Longrightarrow> of_nat (length (aiSessions state)) < rcMaxSessions (amConfig m) \<Longrightarrow>
    NewSession env role (rcSession (amConfig m)) = Inr s \<Longrightarrow>
    findHandle (aiNext state) (aiNext state) (aiSessions state) = Some h \<Longrightarrow>
    abi_step env host m (putInstance i \<lparr>aiNext = n,
      aiSessions = AList.update h \<lparr>asSession = s, asCurrent = None\<rparr> (aiSessions state)\<rparr> m1)"
| closes: "abiCaller host m = (m1, Inr (i, state)) \<Longrightarrow>
    abi_step env host m (putInstance i (state\<lparr>aiSessions := AList.delete h (aiSessions state)\<rparr>) m1)"

text \<open>What a call may do to the memory: store in the given ranges.\<close>

definition stores :: "(u32 \<times> u32) list \<Rightarrow> bytes \<Rightarrow> bytes \<Rightarrow> bool" where
  "stores ranges memory memory' \<longleftrightarrow>
     length memory' = length memory \<and>
     (\<forall>k. (\<forall>(p, l) \<in> set ranges. k < unat p \<or> unat p + unat l \<le> k) \<longrightarrow> memory' ! k = memory ! k)"

text \<open>A call fulfils its contract when it changes the manager and the memory as it may, keeps the number of
  results, and does not panic unless the memory has 4 GiB.\<close>

definition fulfils ::
  "('d, 'e) session_env \<Rightarrow> 'i abi_host \<Rightarrow> (u32 \<times> u32) list \<Rightarrow> u64 list \<Rightarrow> ('d, 'e, 'i) abi_manager \<Rightarrow>
     ('d, 'e, 'i) abi_outcome \<Rightarrow> bool" where
  "fulfils env host ranges results m out \<longleftrightarrow>
     (case out of
        None \<Rightarrow> manager_ok env m \<longrightarrow> 2 ^ 32 \<le> length (hostMemory host)
      | Some (m', memory', results') \<Rightarrow>
          abi_step env host m m' \<and> stores ranges (hostMemory host) memory' \<and> length results' = length results)"

locale guest_import =
  fixes env :: "('d, 'e) session_env"
    and call :: "'i abi_host \<Rightarrow> u64 list \<Rightarrow> u64 list \<Rightarrow> ('d, 'e, 'i) abi_manager \<Rightarrow> ('d, 'e, 'i) abi_outcome"
    and ranges :: "u64 list \<Rightarrow> (u32 \<times> u32) list"
  assumes contract: "fulfils env host (ranges params) results m (call host params results m)"
begin

lemma returns:
  assumes "manager_ok env m" "length (hostMemory host) < 2 ^ 32"
  shows "\<exists>m' memory' results'. call host params results m = Some (m', memory', results') \<and> length results' = length results"
  using contract [of host params results m] assms by (auto simp: fulfils_def split: option.splits)

lemma confined:
  assumes "call host params results m = Some (m', memory', results')"
  shows "stores (ranges params) (hostMemory host) memory'"
  using contract [of host params results m] assms by (simp add: fulfils_def)

lemma steps:
  assumes "call host params results m = Some (m', memory', results')"
  shows "abi_step env host m m'"
  using contract [of host params results m] assms by (simp add: fulfils_def)

end

subsection \<open>Steps of the manager\<close>

lemma stored:
  assumes "abiLookup host h m = (m1, Inr a)"
  obtains i state where "abiCaller host m = (m1, Inr (i, state))" "map_of (aiSessions state) h = Some a"
    "storeSession host h b m1 = putInstance i (state\<lparr>aiSessions := AList.update h b (aiSessions state)\<rparr>) m1"
proof -
  obtain i state where s: "abiCaller host m = (m1, Inr (i, state))" "map_of (aiSessions state) h = Some a"
    using lookup_found [OF assms] .
  have "storeSession host h b m1 = putInstance i (state\<lparr>aiSessions := AList.update h b (aiSessions state)\<rparr>) m1"
    using caller_found [OF s(1)] by (simp add: storeSession_def)
  then show thesis using that [OF s] by simp
qed

lemma step_config: "abi_step env host m m' \<Longrightarrow> amConfig m' = amConfig m"
proof (induction rule: abi_step.induct)
  case (calls m m1 r)
  then show ?case by (auto simp: abiCaller_def Let_def split: option.splits)
next
  case (changes h m m1 a cs s cur)
  obtain i state where st: "abiCaller host m = (m1, Inr (i, state))"
    "storeSession host h \<lparr>asSession = s, asCurrent = cur\<rparr> m1 =
       putInstance i (state\<lparr>aiSessions := AList.update h \<lparr>asSession = s, asCurrent = cur\<rparr> (aiSessions state)\<rparr>) m1"
    by (rule stored [OF changes(1), where b = "\<lparr>asSession = s, asCurrent = cur\<rparr>"]) blast
  show ?case using caller_found(3) [OF st(1)] by (simp add: st(2) putInstance_def)
next
  case (opens m m1 i state role s h n)
  then show ?case using caller_found(3) [OF opens(1)] by (simp add: putInstance_def)
next
  case (closes m m1 i state h)
  then show ?case using caller_found(3) [OF closes(1)] by (simp add: putInstance_def)
qed simp

lemma step_ok: "abi_step env host m m' \<Longrightarrow> manager_ok env m \<Longrightarrow> manager_ok env m'"
proof (induction rule: abi_step.induct)
  case (calls m m1 r)
  then show ?case using caller_ok by blast
next
  case (changes h m m1 a cs s cur)
  obtain i state where st: "abiCaller host m = (m1, Inr (i, state))" "map_of (aiSessions state) h = Some a"
    "storeSession host h \<lparr>asSession = s, asCurrent = cur\<rparr> m1 =
       putInstance i (state\<lparr>aiSessions := AList.update h \<lparr>asSession = s, asCurrent = cur\<rparr> (aiSessions state)\<rparr>) m1"
    by (rule stored [OF changes(1), where b = "\<lparr>asSession = s, asCurrent = cur\<rparr>"]) blast
  note c = caller_found [OF st(1)]
  have m1: "manager_ok env m1" by (rule caller_ok [OF changes(3) st(1)])
  have "held env (amConfig m1) s" using held_calls [OF lookup_held(1) [OF changes(3,1)] changes(2)] c(3) by simp
  then show ?case
    unfolding st(3) by (rule manager_put [OF m1 instance_store [OF instance_found [OF m1 c(2)] st(2)]])
next
  case (opens m m1 i state role s h n)
  note c = caller_found [OF opens(1)]
  have m1: "manager_ok env m1" by (rule caller_ok [OF opens(5,1)])
  have "sessionCalls env [] s = Some s" by simp
  then have "held env (amConfig m1) s" using opens(3) c(3) unfolding held_def by metis
  then show ?case
    by (intro manager_put [OF m1] instance_open [OF instance_found [OF m1 c(2)] opens(4)]) (use opens(2) c(3) in simp_all)
next
  case (closes m m1 i state h)
  have m1: "manager_ok env m1" by (rule caller_ok [OF closes(2,1)])
  show ?case by (rule manager_put [OF m1 instance_close [OF instance_found [OF m1 caller_found(2) [OF closes(1)]]]])
qed simp

lemma caller_others:
  assumes "abiCaller host m = (m1, r)" "hostInstance host \<noteq> Some j"
  shows "map_of (amInstances m1) j = map_of (amInstances m) j"
  using assms by (auto simp: abiCaller_def Let_def update_conv' split: option.splits)

lemma step_others:
  "abi_step env host m m' \<Longrightarrow> hostInstance host \<noteq> Some j \<Longrightarrow> map_of (amInstances m') j = map_of (amInstances m) j"
proof (induction rule: abi_step.induct)
  case (calls m m1 r)
  then show ?case by (rule caller_others)
next
  case (changes h m m1 a cs s cur)
  obtain i state where st: "abiCaller host m = (m1, Inr (i, state))"
    "storeSession host h \<lparr>asSession = s, asCurrent = cur\<rparr> m1 =
       putInstance i (state\<lparr>aiSessions := AList.update h \<lparr>asSession = s, asCurrent = cur\<rparr> (aiSessions state)\<rparr>) m1"
    by (rule stored [OF changes(1), where b = "\<lparr>asSession = s, asCurrent = cur\<rparr>"]) blast
  show ?case using caller_found(1) [OF st(1)] caller_others [OF st(1) changes(3)] changes(3)
    by (simp add: st(2) putInstance_def update_conv')
next
  case (opens m m1 i state role s h n)
  then show ?case using caller_found(1) [OF opens(1)] caller_others [OF opens(1,5)] by (simp add: putInstance_def update_conv')
next
  case (closes m m1 i state h)
  then show ?case using caller_found(1) [OF closes(1)] caller_others [OF closes(1,2)] by (simp add: putInstance_def update_conv')
qed simp

subsection \<open>Rules for the contract\<close>

lemma stores_refl [simp]: "stores ranges memory memory"
  by (simp add: stores_def)

lemma stores_copy:
  assumes "abiMemory memory p l = Range a b" "(p, l) \<in> set ranges" "length bs \<le> b - a" "stores ranges memory memory'"
  shows "stores ranges memory (copy_at memory' a bs)"
proof -
  note r = range_bounds [OF assms(1)]
  have len: "length memory' = length memory" using assms(4) by (simp add: stores_def)
  have in_bounds: "a + length bs \<le> length memory'" using r assms(3) len by simp
  have "copy_at memory' a bs ! k = memory ! k" if "\<forall>(p, l) \<in> set ranges. k < unat p \<or> unat p + unat l \<le> k" for k
  proof -
    have "k < a \<or> a + length bs \<le> k" using that assms(2,3) r by auto
    then have "copy_at memory' a bs ! k = memory' ! k" by (rule copy_at_outside [OF in_bounds])
    then show ?thesis using assms(4) that by (simp add: stores_def)
  qed
  then show ?thesis using len by (simp add: stores_def)
qed

lemma stores_bytes:
  assumes "abiMemory memory p l = Range a b" "(p, l) \<in> set ranges" "stores ranges memory memory'"
  shows "stores ranges memory (storeBytes memory' a b src)"
  unfolding storeBytes_def by (rule stores_copy [OF assms(1,2) _ assms(3)]) simp

lemma stores_word:
  assumes "abiMemory memory p 4 = Range a b" "(p, 4) \<in> set ranges" "stores ranges memory memory'"
  shows "stores ranges memory (storeU32 memory' a v)"
  by (rule stores_copy [OF assms(1,2) _ assms(3)]) (simp add: range_bounds(4) [OF assms(1)])

lemma fulfils_some:
  "abi_step env host m m' \<Longrightarrow> stores ranges (hostMemory host) memory' \<Longrightarrow> length results = 1 \<Longrightarrow>
     fulfils env host ranges results m (Some (m', memory', [v]))"
  by (simp add: fulfils_def)

lemma fulfils_panic: "abiMemory (hostMemory host) p l = RangePanic \<Longrightarrow> fulfils env host ranges results m None"
  using range_panic by (simp add: fulfils_def)

lemma lookup_step: "abiLookup host h m = (m1, r) \<Longrightarrow> abi_step env host m m1"
  by (cases "abiCaller host m") (auto simp: abiLookup_def intro: abi_step.calls split: sum.splits option.splits)

lemma fulfils_lookup:
  assumes "\<And>m1 a. abiLookup host h m = (m1, Inr a) \<Longrightarrow> length results = 1 \<Longrightarrow> abi_step env host m m1 \<Longrightarrow>
      (manager_ok env m \<Longrightarrow> session_ok (asSession a)) \<Longrightarrow> fulfils env host ranges results m (body m1 a)"
  shows "fulfils env host ranges results m
    (if length params \<noteq> n \<or> length results \<noteq> 1 then Some (m, hostMemory host, results)
     else (case abiLookup host h m of
       (m, Inl status) \<Rightarrow> Some (m, hostMemory host, [num status]) | (m, Inr a) \<Rightarrow> body m a))"
proof (cases "length params \<noteq> n \<or> length results \<noteq> 1")
  case True
  then show ?thesis by (auto simp: fulfils_def abi_step.unchanged)
next
  case False
  obtain m1 r where l: "abiLookup host h m = (m1, r)" by (cases "abiLookup host h m")
  show ?thesis
  proof (cases r)
    case (Inl status)
    then show ?thesis using False l lookup_step [OF l] by (simp add: fulfils_def)
  next
    case (Inr a)
    then show ?thesis using False l assms [of m1 a] lookup_step [OF l] lookup_held(2) [of env m host h m1 a] by simp
  qed
qed

lemma fulfils_change:
  assumes "abiLookup host h m = (m1, Inr a)" "sessionCall env c (asSession a) = Some s"
    and "stores ranges (hostMemory host) memory'" "length results = 1"
  shows "fulfils env host ranges results m (Some (storeSession host h (a\<lparr>asSession := s\<rparr>) m1, memory', [v]))"
proof -
  have "sessionCalls env [c] (asSession a) = Some s" using assms(2) by simp
  from abi_step.changes [OF assms(1) this, of "asCurrent a"]
  have "abi_step env host m (storeSession host h (a\<lparr>asSession := s\<rparr>) m1)"
    by (cases a) simp
  then show ?thesis using assms(3,4) by (rule fulfils_some)
qed

subsection \<open>The calls\<close>

lemma sessionFeed_contract:
  "fulfils env host [(arg params 3, 4)] results m (sessionFeed env num host params results m)"
  unfolding sessionFeed_def Let_def
proof (rule fulfils_lookup, goal_cases)
  case (1 m1 a)
  let ?mem = "hostMemory host"
  have feed: "fulfils env host [(arg params 3, 4)] results m
     (case Feed env src (asSession a) of None \<Rightarrow> None
      | Some (s, n, err) \<Rightarrow> Some (storeSession host (arg params 0) (a\<lparr>asSession := s\<rparr>) m1,
          storeU32 ?mem c (of_nat n), [num (statusForError err)]))"
    if "abiMemory ?mem (arg params 3) 4 = Range c d" for src c d
  proof (cases "Feed env src (asSession a)")
    case None
    then have "\<not> manager_ok env m" using 1(4) Feed_ok [of "asSession a" env src] by auto
    then show ?thesis using None by (simp add: fulfils_def)
  next
    case (Some r)
    obtain s n err where r: "r = (s, n, err)" by (rule prod_cases3)
    have "sessionCall env (SFeed src) (asSession a) = Some s" using Some r by simp
    from fulfils_change [OF 1(1) this stores_word [OF that] 1(2)] show ?thesis using Some r by simp
  qed
  show ?case using fulfils_panic fulfils_some [OF 1(3) _ 1(2)] feed
    by (cases "abiMemory ?mem (arg params 1) (arg params 2)"; cases "abiMemory ?mem (arg params 3) 4") simp_all
qed

lemma sessionOutput_contract:
  "fulfils env host [(arg params 1, arg params 2), (arg params 3, 4)] results m (sessionOutput num host params results m)"
  unfolding sessionOutput_def Let_def
proof (rule fulfils_lookup, goal_cases)
  case (1 m1 a)
  let ?mem = "hostMemory host" and ?rs = "[(arg params 1, arg params 2), (arg params 3, 4)]"
  have out: "fulfils env host ?rs results m
     (if sOutput (asSession a) = [] then Some (m1, storeU32 ?mem w 0, [num StatusAgain])
      else Some (storeSession host (arg params 0) (a\<lparr>asSession := fst (ConsumeOutput n (asSession a))\<rparr>) m1,
        storeU32 (storeBytes ?mem d d_end src) w v, [num StatusOK]))"
    if d: "abiMemory ?mem (arg params 1) (arg params 2) = Range d d_end" and w: "abiMemory ?mem (arg params 3) 4 = Range w w_end"
    for d d_end w w_end n src v
  proof -
    have "stores ?rs ?mem (storeBytes ?mem d d_end src)" by (rule stores_bytes [OF d]) simp_all
    then have "stores ?rs ?mem (storeU32 (storeBytes ?mem d d_end src) w v)" by (intro stores_word [OF w]) simp_all
    moreover have "stores ?rs ?mem (storeU32 ?mem w 0)" by (rule stores_word [OF w]) simp_all
    moreover have call: "sessionCall env (SConsumeOutput n) (asSession a) = Some (fst (ConsumeOutput n (asSession a)))" by simp
    ultimately show ?thesis using fulfils_change [OF 1(1) call _ 1(2)] fulfils_some [OF 1(3) _ 1(2)] by simp
  qed
  show ?case using fulfils_panic fulfils_some [OF 1(3) _ 1(2)] out
    by (cases "abiMemory ?mem (arg params 1) (arg params 2)"; cases "abiMemory ?mem (arg params 3) 4") simp_all
qed

lemma streamData_contract:
  "fulfils env host [(arg params 5, 4)] results m (streamData num host params results m)"
  unfolding streamData_def Let_def
proof (rule fulfils_lookup, goal_cases)
  case (1 m1 a)
  let ?mem = "hostMemory host"
  have data: "fulfils env host [(arg params 5, 4)] results m
     (case SendData i src fin (asSession a) of
        (s, n, err) \<Rightarrow> Some (storeSession host (arg params 0) (a\<lparr>asSession := s\<rparr>) m1,
          storeU32 ?mem c (of_nat n), [num (statusForError err)]))"
    if "abiMemory ?mem (arg params 5) 4 = Range c d" for i src fin c d
  proof -
    have "sessionCall env (SSendData i src fin) (asSession a) = Some (fst (SendData i src fin (asSession a)))" by simp
    from fulfils_change [OF 1(1) this stores_word [OF that] 1(2)] show ?thesis by (simp add: case_prod_beta)
  qed
  show ?case using fulfils_panic fulfils_some [OF 1(3) _ 1(2)] data
    by (cases "abiMemory ?mem (arg params 2) (arg params 3)"; cases "abiMemory ?mem (arg params 5) 4") simp_all
qed

lemma sessionOpen_contract:
  "fulfils env host [(arg params 1, 4)] results m (sessionOpen env num host params results m)"
proof (cases "length params \<noteq> 2 \<or> length results \<noteq> 1")
  case True
  then show ?thesis by (auto simp: sessionOpen_def Let_def fulfils_def abi_step.unchanged)
next
  case False
  then have one: "length results = 1" by simp
  obtain m1 r where c: "abiCaller host m = (m1, r)" by (cases "abiCaller host m")
  note st = abi_step.calls [OF c]
  let ?mem = "hostMemory host"
  show ?thesis
  proof (cases "\<exists>i state out out_end. r = Inr (i, state) \<and> abiMemory ?mem (arg params 1) 4 = Range out out_end")
    case False
    then show ?thesis using \<open>\<not> (length params \<noteq> 2 \<or> length results \<noteq> 1)\<close> c fulfils_panic fulfils_some [OF st _ one]
      by (cases r; cases "abiMemory ?mem (arg params 1) 4") (auto simp: sessionOpen_def Let_def)
  next
    case True
    then obtain i state out out_end where r: "r = Inr (i, state)" "abiMemory ?mem (arg params 1) 4 = Range out out_end" by blast
    have cfg: "amConfig m1 = amConfig m" by (rule caller_found(3) [OF c [unfolded r(1)]])
    have "stores [(arg params 1, 4)] ?mem (storeU32 ?mem out h)" for h by (rule stores_word [OF r(2)]) simp_all
    moreover note opens = abi_step.opens [OF c [unfolded r(1)]]
    ultimately show ?thesis using False c r fulfils_some [OF st _ one] fulfils_some [OF opens _ one]
      by (simp add: sessionOpen_def Let_def cfg split: sum.split option.split)
  qed
qed

lemma sessionClose_contract: "fulfils env host [] results m (sessionClose num host params results m)"
proof (cases "length params \<noteq> 1 \<or> length results \<noteq> 1")
  case True
  then show ?thesis by (auto simp: sessionClose_def Let_def fulfils_def abi_step.unchanged)
next
  case False
  then have one: "length results = 1" by simp
  obtain m1 r where c: "abiCaller host m = (m1, r)" by (cases "abiCaller host m")
  show ?thesis
  proof (cases r)
    case (Inl status)
    then show ?thesis using False c fulfils_some [OF abi_step.calls [OF c] _ one] by (simp add: sessionClose_def Let_def)
  next
    case (Inr q)
    obtain i state where q: "q = (i, state)" by (cases q)
    show ?thesis using False c Inr q fulfils_some [OF abi_step.closes [OF c [unfolded Inr q]] _ one]
      by (simp add: sessionClose_def Let_def)
  qed
qed

lemma readEntries_panic:
  "readEntries count encoded memory limits n = None \<Longrightarrow> \<exists>p l. abiMemory memory p l = RangePanic"
  by (induction count arbitrary: encoded n) (auto simp: Let_def split: mem_range.splits if_splits option.splits sum.splits)

lemma readABIHeaders_panic:
  "readABIHeaders memory pointer count limits = None \<Longrightarrow> \<exists>p l. abiMemory memory p l = RangePanic"
  by (auto simp: readABIHeaders_def Let_def dest: readEntries_panic split: if_splits mem_range.splits)

lemma headers_panic:
  "readABIHeaders (hostMemory host) pointer count limits = None \<Longrightarrow> fulfils env host ranges results m None"
  using readABIHeaders_panic fulfils_panic by blast

lemma fulfils_result:
  assumes "abiLookup host h m = (m1, Inr a)" "sessionCall env c (asSession a) = Some (fst r)" "length results = 1"
    and out: "abiMemory (hostMemory host) p 4 = Range out out_end" "(p, 4) \<in> set ranges"
  shows "fulfils env host ranges results m
    (case r of
       (s, Inl err) \<Rightarrow> Some (storeSession host h (a\<lparr>asSession := s\<rparr>) m1, hostMemory host, [num (statusForError (Some err))])
     | (s, Inr i) \<Rightarrow> Some (storeSession host h (a\<lparr>asSession := s\<rparr>) m1, storeU32 (hostMemory host) out i, [num StatusOK]))"
proof -
  obtain s q where r: "r = (s, q)" by (cases r)
  have "stores ranges (hostMemory host) (storeU32 (hostMemory host) out i)" for i by (rule stores_word [OF out]) simp
  then show ?thesis using fulfils_change [OF assms(1) assms(2) _ assms(3)] r by (cases q) simp_all
qed

lemma fulfils_headers:
  assumes "abiLookup host h m = (m1, Inr a)" "length results = 1" "abi_step env host m m1" "(p, 4) \<in> set ranges"
    and "\<And>hs. sessionCall env (c hs) (asSession a) = Some (fst (f hs))"
  shows "fulfils env host ranges results m
    (case (readABIHeaders (hostMemory host) q n l, abiMemory (hostMemory host) p 4) of
       (None, _) \<Rightarrow> None
     | (_, RangePanic) \<Rightarrow> None
     | (_, RangeBad) \<Rightarrow> Some (m1, hostMemory host, [num StatusInvalidArgument])
     | (Some (Inl status), _) \<Rightarrow> Some (m1, hostMemory host, [num status])
     | (Some (Inr headers), Range out out_end) \<Rightarrow>
         (case f headers of
            (s, Inl err) \<Rightarrow> Some (storeSession host h (a\<lparr>asSession := s\<rparr>) m1, hostMemory host, [num (statusForError (Some err))])
          | (s, Inr i) \<Rightarrow> Some (storeSession host h (a\<lparr>asSession := s\<rparr>) m1, storeU32 (hostMemory host) out i, [num StatusOK])))"
proof (cases "readABIHeaders (hostMemory host) q n l")
  case None
  then show ?thesis using headers_panic [OF None] by simp
next
  case (Some r)
  note some = fulfils_some [OF assms(3) stores_refl assms(2)]
  show ?thesis
  proof (cases "abiMemory (hostMemory host) p 4")
    case RangePanic
    then show ?thesis using Some fulfils_panic [OF RangePanic] by (cases r) simp_all
  next
    case RangeBad
    then show ?thesis using Some some by (cases r) simp_all
  next
    case (Range out out_end)
    then show ?thesis using Some some fulfils_result [OF assms(1,5,2) Range assms(4)] by (cases r) simp_all
  qed
qed

lemma streamOpen_contract:
  "fulfils env host [(arg params 4, 4)] results m (streamOpen env num host params results m)"
  unfolding streamOpen_def Let_def
proof (rule fulfils_lookup, goal_cases)
  case (1 m1 a)
  have call: "sessionCall env (SOpenStream hs fin) (asSession a) = Some (fst (OpenStream env hs fin (asSession a)))" for hs fin by simp
  show ?case by (rule fulfils_headers [OF 1(1,2,3) _ call]) simp
qed

lemma streamPush_contract:
  "fulfils env host [(arg params 4, 4)] results m (streamPush env num host params results m)"
  unfolding streamPush_def Let_def
proof (rule fulfils_lookup, goal_cases)
  case (1 m1 a)
  have call: "sessionCall env (SPushPromise i hs) (asSession a) = Some (fst (PushPromise env i hs (asSession a)))" for i hs by simp
  show ?case by (rule fulfils_headers [OF 1(1,2,3) _ call]) simp
qed

lemma fulfils_quiet:
  assumes "abiLookup host h m = (m1, Inr a)" "sessionCall env c (asSession a) = Some (fst r)" "length results = 1"
  shows "fulfils env host ranges results m
    (case r of (s, err) \<Rightarrow> Some (storeSession host h (a\<lparr>asSession := s\<rparr>) m1, hostMemory host, [num (statusForError err)]))"
  using fulfils_change [OF assms(1) assms(2) stores_refl assms(3)] by (simp add: case_prod_beta)

lemma streamHeaders_contract: "fulfils env host [] results m (streamHeaders env num host params results m)"
  unfolding streamHeaders_def Let_def
proof (rule fulfils_lookup, goal_cases)
  case (1 m1 a)
  let ?r = "readABIHeaders (hostMemory host) (arg params 2) (arg params 3) (slHeader (sLimits (asSession a)))"
  have call: "sessionCall env (SSendHeaders i hs fin) (asSession a) = Some (fst (SendHeaders env i hs fin (asSession a)))" for i hs fin
    by simp
  show ?case
  proof (cases ?r)
    case None
    then show ?thesis using headers_panic [OF None] by simp
  next
    case (Some q)
    then show ?thesis using fulfils_some [OF 1(3) stores_refl 1(2)] fulfils_quiet [OF 1(1) call 1(2)] by (cases q) simp_all
  qed
qed

lemma streamReset_contract: "fulfils env host [] results m (streamReset num host params results m)"
  unfolding streamReset_def Let_def
proof (rule fulfils_lookup, goal_cases)
  case (1 m1 a)
  have "sessionCall env (SResetStream i c) (asSession a) = Some (fst (ResetStream i c (asSession a)))" for i c by simp
  from fulfils_quiet [OF 1(1) this 1(2)] show ?case .
qed

text \<open>The calls that read one range and pass it to the session.\<close>

lemma fulfils_input:
  assumes "abiLookup host h m = (m1, Inr a)" "length results = 1" "abi_step env host m m1"
    and "\<And>b e. sessionCall env (c b e) (asSession a) = Some (fst (f b e))"
  shows "fulfils env host ranges results m
    (case abiMemory (hostMemory host) p l of
       RangePanic \<Rightarrow> None
     | RangeBad \<Rightarrow> Some (m1, hostMemory host, [num StatusInvalidArgument])
     | Range b e \<Rightarrow>
         (case f b e of (s, err) \<Rightarrow>
            Some (storeSession host h (a\<lparr>asSession := s\<rparr>) m1, hostMemory host, [num (statusForError err)])))"
  using fulfils_panic [of host p l env ranges results m] fulfils_some [OF assms(3) stores_refl assms(2)] fulfils_quiet [OF assms(1,4,2)]
  by (cases "abiMemory (hostMemory host) p l") simp_all

lemma streamPriorityUpdate_contract: "fulfils env host [] results m (streamPriorityUpdate num host params results m)"
  unfolding streamPriorityUpdate_def Let_def
proof (rule fulfils_lookup, goal_cases)
  case (1 m1 a)
  have "sessionCall env (SPriorityUpdate (arg params 1) (slice (hostMemory host) b e)) (asSession a) =
      Some (fst (PriorityUpdate (arg params 1) (slice (hostMemory host) b e) (asSession a)))" for b e by simp
  from fulfils_input [OF 1(1,2,3) this] show ?case .
qed

lemma sessionPing_contract: "fulfils env host [] results m (sessionPing num host params results m)"
  unfolding sessionPing_def Let_def
proof (rule fulfils_lookup, goal_cases)
  case (1 m1 a)
  have "sessionCall env (SPing (slice (hostMemory host) b e)) (asSession a) =
      Some (fst (PingSession (slice (hostMemory host) b e) (asSession a)))" for b e by simp
  from fulfils_input [OF 1(1,2,3) this] show ?case .
qed

lemma sessionGoAway_contract: "fulfils env host [] results m (sessionGoAway num host params results m)"
  unfolding sessionGoAway_def Let_def
proof (rule fulfils_lookup, goal_cases)
  case (1 m1 a)
  have "sessionCall env (SGoAway (arg params 1) (slice (hostMemory host) b e)) (asSession a) =
      Some (fst (GoAway (arg params 1) (slice (hostMemory host) b e) (asSession a)))" for b e by simp
  from fulfils_input [OF 1(1,2,3) this] show ?case .
qed

lemma sessionSettings_contract: "fulfils env host [] results m (sessionSettings env num host params results m)"
  unfolding sessionSettings_def Let_def
proof (rule fulfils_lookup, goal_cases)
  case (1 m1 a)
  have call: "sessionCall env (SUpdateSettings (readSettingEntries (unat (arg params 2)) (slice (hostMemory host) b e))) (asSession a) =
      Some (fst (UpdateSettings env (readSettingEntries (unat (arg params 2)) (slice (hostMemory host) b e)) (asSession a)))" for b e
    by simp
  show ?case
  proof (cases "64 < arg params 2")
    case True
    then show ?thesis using fulfils_some [OF 1(3) stores_refl 1(2)] by simp
  next
    case False
    show ?thesis unfolding if_not_P [OF False] by (rule fulfils_input [OF 1(1,2,3) call])
  qed
qed

lemma eventNext_contract: "fulfils env host [(arg params 1, 32)] results m (eventNext num host params results m)"
  unfolding eventNext_def Let_def
proof (rule fulfils_lookup, goal_cases)
  case (1 m1 a)
  let ?mem = "hostMemory host"
  obtain s ev where nx: "NextEvent (asSession a) = (s, ev)" by (cases "NextEvent (asSession a)")
  have "sessionCalls env [SNextEvent] (asSession a) = Some s" using nx by simp
  from abi_step.changes [OF 1(1) this]
  have step: "abi_step env host m (storeSession host (arg params 0) (a\<lparr>asSession := s, asCurrent := cur\<rparr>) m1)" for cur
    by (cases a) simp
  have "stores [(arg params 1, 32)] ?mem (copy_at ?mem d (encodeEvent e))"
    if "abiMemory ?mem (arg params 1) 32 = Range d d_end" for d d_end e
    by (rule stores_copy [OF that]) (use range_bounds(4) [OF that] in \<open>simp_all add: encodeEvent_def\<close>)
  then show ?case using fulfils_panic fulfils_some [OF 1(3) stores_refl 1(2)] fulfils_some [OF step _ 1(2)] nx
    by (cases "abiMemory ?mem (arg params 1) 32"; cases ev) simp_all
qed

lemma eventData_contract:
  "fulfils env host [(arg params 1, arg params 2), (arg params 3, 4)] results m (eventData num host params results m)"
  unfolding eventData_def Let_def
proof (rule fulfils_lookup, goal_cases)
  case (1 m1 a)
  let ?mem = "hostMemory host" and ?rs = "[(arg params 1, arg params 2), (arg params 3, 4)]"
  have "stores ?rs ?mem (storeU32 (storeBytes ?mem d d_end src) w v)"
    if d: "abiMemory ?mem (arg params 1) (arg params 2) = Range d d_end" and w: "abiMemory ?mem (arg params 3) 4 = Range w w_end"
    for d d_end w w_end src v
    by (rule stores_word [OF w _ stores_bytes [OF d]]) simp_all
  then show ?case using fulfils_panic fulfils_some [OF 1(3) _ 1(2)]
    by (cases "asCurrent a"; cases "abiMemory ?mem (arg params 1) (arg params 2)"; cases "abiMemory ?mem (arg params 3) 4") simp_all
qed

lemma eventSetting_contract: "fulfils env host [(arg params 2, 8)] results m (eventSetting num host params results m)"
  unfolding eventSetting_def Let_def
proof (rule fulfils_lookup, goal_cases)
  case (1 m1 a)
  let ?mem = "hostMemory host"
  have "stores [(arg params 2, 8)] ?mem (copy_at ?mem d (LEPutUint32 x @ LEPutUint32 y))"
    if "abiMemory ?mem (arg params 2) 8 = Range d d_end" for d d_end x y
    by (rule stores_copy [OF that]) (use range_bounds(4) [OF that] in simp_all)
  then show ?case using fulfils_panic [of host "arg params 2" 8 env "[(arg params 2, 8)]" results m] fulfils_some [OF 1(3) _ 1(2)]
    by (cases "abiMemory ?mem (arg params 2) 8") simp_all
qed

lemma eventHeader_contract:
  "fulfils env host [(arg params 2, arg params 3), (arg params 4, 4), (arg params 5, arg params 6), (arg params 7, 4)] results m
     (eventHeader num host params results m)"
  unfolding eventHeader_def Let_def
proof (rule fulfils_lookup, goal_cases)
  case (1 m1 a)
  let ?mem = "hostMemory host"
  let ?rs = "[(arg params 2, arg params 3), (arg params 4, 4), (arg params 5, arg params 6), (arg params 7, 4)]"
  have "stores ?rs ?mem (storeU32 (storeU32 (storeBytes (storeBytes ?mem n n_end x) v v_end y) nl w) vl z)"
    if r: "abiMemory ?mem (arg params 2) (arg params 3) = Range n n_end" "abiMemory ?mem (arg params 4) 4 = Range nl nl_end"
      "abiMemory ?mem (arg params 5) (arg params 6) = Range v v_end" "abiMemory ?mem (arg params 7) 4 = Range vl vl_end"
    for n n_end nl nl_end v v_end vl vl_end x y w z
    by (rule stores_word [OF r(4) _ stores_word [OF r(2) _ stores_bytes [OF r(3) _ stores_bytes [OF r(1)]]]]) simp_all
  moreover have "fulfils env host ?rs results m None" if "RangePanic \<in> set [abiMemory ?mem (arg params 2) (arg params 3),
      abiMemory ?mem (arg params 4) 4, abiMemory ?mem (arg params 5) (arg params 6), abiMemory ?mem (arg params 7) 4]"
    using that by (auto intro: fulfils_panic [OF sym])
  ultimately show ?case
    using fulfils_some [OF 1(3) _ 1(2)]
    by (cases "abiMemory ?mem (arg params 2) (arg params 3)"; cases "abiMemory ?mem (arg params 4) 4";
        cases "abiMemory ?mem (arg params 5) (arg params 6)"; cases "abiMemory ?mem (arg params 7) 4") simp_all
qed

subsection \<open>The imports\<close>

text \<open>The ranges that an import may store to.\<close>

fun abiRanges :: "abi_import \<Rightarrow> u64 list \<Rightarrow> (u32 \<times> u32) list" where
  "abiRanges imp_session_open params = [(arg params 1, 4)]"
| "abiRanges imp_session_feed params = [(arg params 3, 4)]"
| "abiRanges imp_session_output params = [(arg params 1, arg params 2), (arg params 3, 4)]"
| "abiRanges imp_stream_open params = [(arg params 4, 4)]"
| "abiRanges imp_stream_data params = [(arg params 5, 4)]"
| "abiRanges imp_stream_push params = [(arg params 4, 4)]"
| "abiRanges imp_event_next params = [(arg params 1, 32)]"
| "abiRanges imp_event_data params = [(arg params 1, arg params 2), (arg params 3, 4)]"
| "abiRanges imp_event_header params =
     [(arg params 2, arg params 3), (arg params 4, 4), (arg params 5, arg params 6), (arg params 7, 4)]"
| "abiRanges imp_event_setting params = [(arg params 2, 8)]"
| "abiRanges _ params = []"

lemma abiCall_contract: "fulfils env host (abiRanges f params) results m (abiCall env num f host params results m)"
proof (cases f)
  case imp_abi_version
  then show ?thesis by (auto simp: fulfils_def abi_step.unchanged h2AbiVersion_def)
next
  case imp_feature_flags
  then show ?thesis by (auto simp: fulfils_def abi_step.unchanged abiFeatureFlags_def)
qed (simp_all only: abiCall.simps abiRanges.simps sessionOpen_contract sessionClose_contract sessionFeed_contract
    sessionOutput_contract streamOpen_contract streamHeaders_contract streamData_contract streamPush_contract
    streamReset_contract streamPriorityUpdate_contract sessionSettings_contract sessionPing_contract
    sessionGoAway_contract eventNext_contract eventData_contract eventHeader_contract eventSetting_contract)

interpretation guest: guest_import env "abiCall env num f" "abiRanges f"
  for env :: "('d, 'e) session_env" and num :: "abi_status \<Rightarrow> u64" and f :: abi_import
  by unfold_locales (rule abiCall_contract)

end
