(* ===== verification/H2_Abi_Props.thy ===== *)
theory H2_Abi_Props
  imports H2_Abi_Contract
begin

text \<open>
  What a WebAssembly guest can rely on, and what the runtime can rely on whatever the guest does (src/http2/abi.go): calls
  return, store only where their parameters say and touch only the sessions of their instance; handles are fresh; header
  tables are read exactly; and the output of a session reaches the memory in order.
\<close>

subsection \<open>The life of a manager\<close>

datatype 'i abi_op = GuestCall abi_import "'i abi_host" "u64 list" "u64 list" | InstanceClosed "'i option" | RuntimeClosed

fun abiOp ::
  "('d, 'e) session_env \<Rightarrow> (abi_status \<Rightarrow> u64) \<Rightarrow> 'i abi_op \<Rightarrow> ('d, 'e, 'i) abi_manager \<Rightarrow> ('d, 'e, 'i) abi_manager option" where
  "abiOp env num (GuestCall f host params results) m = map_option fst (abiCall env num f host params results m)"
| "abiOp env num (InstanceClosed i) m = Some (fst (closeInstance i m))"
| "abiOp env num RuntimeClosed m = Some (fst (closeAll m))"

fun abiRun ::
  "('d, 'e) session_env \<Rightarrow> (abi_status \<Rightarrow> u64) \<Rightarrow> 'i abi_op list \<Rightarrow> ('d, 'e, 'i) abi_manager \<Rightarrow> ('d, 'e, 'i) abi_manager option" where
  "abiRun env num [] m = Some m"
| "abiRun env num (x # xs) m = (case abiOp env num x m of None \<Rightarrow> None | Some m' \<Rightarrow> abiRun env num xs m')"

fun op_memory :: "'i abi_op \<Rightarrow> bool" where
  "op_memory (GuestCall f host params results) \<longleftrightarrow> length (hostMemory host) < 2 ^ 32"
| "op_memory _ \<longleftrightarrow> True"

definition limits_settled :: "session_limits \<Rightarrow> bool" where
  "limits_settled l \<longleftrightarrow> slMaxConcurrentStreams l \<noteq> 0 \<and> slMaxStreams l \<noteq> 0 \<and> slMaxConcurrentStreams l \<le> slMaxStreams l \<and>
     slMaxClosedStreams l \<noteq> 0 \<and> slMaxClosedStreams l \<le> slMaxStreams l"

lemma normalized_settled: "limits_settled (sessionNormalized l)"
  unfolding sessionNormalized_def
proof (rule let_intro [where P = limits_settled])+
  fix l1 l2 l3 l4 l5 l6 l7 l8 l9 l10 l11 :: session_limits
  assume l2: "l2 = (if slMaxConcurrentStreams l1 = 0
      then l1\<lparr>slMaxConcurrentStreams := defaultSessionConcurrentStreams\<rparr> else l1)"
    and l3: "l3 = (if slMaxStreams l2 = 0 then l2\<lparr>slMaxStreams := defaultSessionMaxStreams\<rparr> else l2)"
    and l4: "l4 = (if slMaxStreams l3 < slMaxConcurrentStreams l3
      then l3\<lparr>slMaxStreams := slMaxConcurrentStreams l3\<rparr> else l3)"
    and l5: "l5 = (if slMaxClosedStreams l4 = 0
      then l4\<lparr>slMaxClosedStreams := defaultSessionClosedStreams\<rparr> else l4)"
    and l6: "l6 = (if slMaxStreams l5 < slMaxClosedStreams l5
      then l5\<lparr>slMaxClosedStreams := slMaxStreams l5\<rparr> else l5)"
    and l7: "l7 = (if slMaxQueuedOutputBytes l6 = 0
      then l6\<lparr>slMaxQueuedOutputBytes := defaultSessionOutputBytes\<rparr> else l6)"
    and l8: "l8 = (if slMaxQueuedEventBytes l7 = 0
      then l7\<lparr>slMaxQueuedEventBytes := defaultSessionEventBytes\<rparr> else l7)"
    and l9: "l9 = (if slMaxQueuedEvents l8 = 0 then l8\<lparr>slMaxQueuedEvents := defaultSessionEvents\<rparr> else l8)"
    and l10: "l10 = (if slInitialWindowSize l9 = 0
      then l9\<lparr>slInitialWindowSize := defaultInitialWindowSize\<rparr> else l9)"
    and l11: "l11 = (if maxInt32 < uint (slInitialWindowSize l10)
      then l10\<lparr>slInitialWindowSize := of_int maxInt32\<rparr> else l10)"
  have "slMaxConcurrentStreams l3 \<noteq> 0" "slMaxStreams l3 \<noteq> 0"
    by (simp_all add: l2 l3 defaultSessionConcurrentStreams_def defaultSessionMaxStreams_def)
  then have "slMaxConcurrentStreams l4 \<noteq> 0" "slMaxStreams l4 \<noteq> 0" "slMaxConcurrentStreams l4 \<le> slMaxStreams l4"
    unfolding l4 by (cases "slMaxStreams l3 < slMaxConcurrentStreams l3"; simp)+
  then have "slMaxConcurrentStreams l5 \<noteq> 0" "slMaxStreams l5 \<noteq> 0" "slMaxConcurrentStreams l5 \<le> slMaxStreams l5" "slMaxClosedStreams l5 \<noteq> 0"
    by (simp_all add: l5 defaultSessionClosedStreams_def)
  then have "limits_settled l6"
    unfolding l6 by (cases "slMaxStreams l5 < slMaxClosedStreams l5") (simp_all add: limits_settled_def)
  then have "limits_settled l9" by (simp add: l7 l8 l9 limits_settled_def)
  then have "limits_settled l11" by (simp add: l10 l11 limits_settled_def)
  then show "limits_settled (if slMaxControlFrames l11 = 0
        then l11\<lparr>slMaxControlFrames := defaultMaxControlFrames\<rparr> else l11)"
    by (simp add: limits_settled_def)
qed

lemma settled_closed:
  assumes "limits_settled l"
  shows "slMaxClosedStreams (sessionNormalized l) = slMaxClosedStreams l"
  unfolding sessionNormalized_def
proof (rule let_intro [where P = "\<lambda>k. slMaxClosedStreams k = slMaxClosedStreams l"])+
  fix l1 l2 l3 l4 l5 l6 l7 l8 l9 l10 l11 :: session_limits
  assume l1: "l1 = l\<lparr>slFrame := frameNormalized (slFrame l), slHeader := headerNormalized (slHeader l)\<rparr>"
    and l2: "l2 = (if slMaxConcurrentStreams l1 = 0
      then l1\<lparr>slMaxConcurrentStreams := defaultSessionConcurrentStreams\<rparr> else l1)"
    and l3: "l3 = (if slMaxStreams l2 = 0 then l2\<lparr>slMaxStreams := defaultSessionMaxStreams\<rparr> else l2)"
    and l4: "l4 = (if slMaxStreams l3 < slMaxConcurrentStreams l3
      then l3\<lparr>slMaxStreams := slMaxConcurrentStreams l3\<rparr> else l3)"
    and l5: "l5 = (if slMaxClosedStreams l4 = 0
      then l4\<lparr>slMaxClosedStreams := defaultSessionClosedStreams\<rparr> else l4)"
    and l6: "l6 = (if slMaxStreams l5 < slMaxClosedStreams l5
      then l5\<lparr>slMaxClosedStreams := slMaxStreams l5\<rparr> else l5)"
    and l7: "l7 = (if slMaxQueuedOutputBytes l6 = 0
      then l6\<lparr>slMaxQueuedOutputBytes := defaultSessionOutputBytes\<rparr> else l6)"
    and l8: "l8 = (if slMaxQueuedEventBytes l7 = 0
      then l7\<lparr>slMaxQueuedEventBytes := defaultSessionEventBytes\<rparr> else l7)"
    and l9: "l9 = (if slMaxQueuedEvents l8 = 0 then l8\<lparr>slMaxQueuedEvents := defaultSessionEvents\<rparr> else l8)"
    and l10: "l10 = (if slInitialWindowSize l9 = 0
      then l9\<lparr>slInitialWindowSize := defaultInitialWindowSize\<rparr> else l9)"
    and l11: "l11 = (if maxInt32 < uint (slInitialWindowSize l10)
      then l10\<lparr>slInitialWindowSize := of_int maxInt32\<rparr> else l10)"
  have same: "l2 = l1" "l3 = l1" using assms by (simp_all add: l1 l2 l3 limits_settled_def)
  moreover have "\<not> slMaxStreams l < slMaxConcurrentStreams l" "\<not> slMaxStreams l < slMaxClosedStreams l" "slMaxClosedStreams l \<noteq> 0"
    using assms by (auto simp: limits_settled_def)
  ultimately have same4: "l4 = l1" "l5 = l1" "l6 = l1" by (simp_all add: l1 l4 l5 l6 del: not_less)
  have "slMaxClosedStreams l9 = slMaxClosedStreams l" unfolding l9 l8 l7 same4 by (simp add: l1)
  then show "slMaxClosedStreams (if slMaxControlFrames l11 = 0
        then l11\<lparr>slMaxControlFrames := defaultMaxControlFrames\<rparr> else l11) = slMaxClosedStreams l"
    by (simp add: l10 l11)
qed

lemma new_manager_ok:
  assumes "unat (slMaxClosedStreams (sessionNormalized (rcSession config))) < 2 ^ 32 - 1"
  shows "manager_ok env (newABIManager config)"
  using assms settled_closed [OF normalized_settled, of "rcSession config"]
  by (simp add: manager_ok_def newABIManager_def Let_def)

lemma close_ok:
  assumes "manager_ok env m"
  shows "manager_ok env (fst (closeInstance i m))" "manager_ok env (fst (closeAll m))"
proof -
  have "set (AList.delete j (amInstances m)) \<subseteq> set (amInstances m)" for j by (auto simp: AList.delete_eq)
  then show "manager_ok env (fst (closeInstance i m))"
    using assms by (cases i) (fastforce simp: closeInstance_def manager_ok_def distinct_delete)+
  show "manager_ok env (fst (closeAll m))" using assms by (simp add: closeAll_def manager_ok_def)
qed

lemma op_ok:
  assumes "manager_ok env m" "op_memory x"
  shows "\<exists>m'. abiOp env num x m = Some m' \<and> manager_ok env m'"
proof (cases x)
  case (GuestCall f host params results)
  then obtain m' mem' res' where "abiCall env num f host params results m = Some (m', mem', res')"
    using guest.returns [of env m host num f params results] assms by auto
  then show ?thesis using GuestCall step_ok [OF guest.steps assms(1)] by auto
qed (use close_ok [OF assms(1)] in simp_all)

lemma run_ok: "manager_ok env m \<Longrightarrow> list_all op_memory xs \<Longrightarrow> \<exists>m'. abiRun env num xs m = Some m' \<and> manager_ok env m'"
proof (induction xs arbitrary: m)
  case (Cons x xs)
  obtain m' where "abiOp env num x m = Some m'" "manager_ok env m'" using op_ok [OF Cons.prems(1), of x num] Cons.prems(2) by auto
  then show ?case using Cons.IH [of m'] Cons.prems(2) by simp
qed simp

text \<open>C17: Guest calls do not panic and do not hang. From a new manager, every sequence of guest calls with any
  parameters, of closed instances and of a closed runtime, returns, as long as the memories have less than 4 GiB and the
  limit on closed streams is below 2^32 - 1. Then every instance holds at most the configured number of sessions, under
  distinct handles that are not zero, and each of them is a state that session calls reach from a new session with
  the configured limits.\<close>

theorem abi_calls_return:
  assumes "unat (slMaxClosedStreams (sessionNormalized (rcSession config))) < 2 ^ 32 - 1" "list_all op_memory xs"
  shows "\<exists>m. abiRun env num xs (newABIManager config) = Some m \<and> manager_ok env m"
  using run_ok [OF new_manager_ok [OF assms(1)] assms(2)] .

text \<open>C18: A guest call stores only where its parameters say. An octet of the memory that is in none of the ranges
  that the call names for its results is the same after the call, and the memory does not grow or shrink.\<close>

theorem abi_memory_confined:
  assumes "abiCall env num f host params results m = Some (m', memory', results')"
  shows "length memory' = length (hostMemory host) \<and>
     (\<forall>k. (\<forall>(p, l) \<in> set (abiRanges f params). k < unat p \<or> unat p + unat l \<le> k) \<longrightarrow> memory' ! k = hostMemory host ! k)"
  using guest.confined [OF assms] by (simp add: stores_def)

text \<open>C19: Instances are isolated. A call of one instance leaves the sessions of every other instance as they were,
  and the configuration of the manager.\<close>

theorem abi_instances_isolated:
  assumes "abiCall env num f host params results m = Some (m', memory', results')" "hostInstance host \<noteq> Some j"
  shows "map_of (amInstances m') j = map_of (amInstances m) j \<and> amConfig m' = amConfig m"
  using step_others [OF guest.steps [OF assms(1)] assms(2)] step_config [OF guest.steps [OF assms(1)]] by simp

subsection \<open>Handles\<close>

lemma no_handle:
  "findHandle h nxt sessions = None \<Longrightarrow> j \<le> unat (nxt - h - 1) \<Longrightarrow>
     h + of_nat j = 0 \<or> map_of sessions (h + of_nat j) \<noteq> None"
proof (induction h nxt sessions arbitrary: j rule: findHandle.induct)
  case (1 h nxt sessions)
  have taken: "h = 0 \<or> map_of sessions h \<noteq> None"
    using "1.prems"(1) by (auto simp: findHandle.simps [of h nxt sessions] split: if_splits)
  show ?case
  proof (cases "j = 0")
    case True
    then show ?thesis using taken by simp
  next
    case False
    then have "nxt - h - 1 \<noteq> 0" using "1.prems"(2) by auto
    then have nx: "h + 1 \<noteq> nxt" by auto
    have "unat (nxt - h - 1 - 1) = unat (nxt - h - 1) - 1" using \<open>nxt - h - 1 \<noteq> 0\<close> by (rule unat_minus_one)
    moreover have "nxt - h - 1 - 1 = nxt - (h + 1) - 1" by (simp add: algebra_simps)
    ultimately have j: "j - 1 \<le> unat (nxt - (h + 1) - 1)" using "1.prems"(2) by simp
    have r: "findHandle (h + 1) nxt sessions = None"
      using "1.prems"(1) taken nx by (simp add: findHandle.simps [of h nxt sessions] split: if_splits)
    have eq: "h + 1 + of_nat (j - 1) = h + of_nat j" using False by (cases j) simp_all
    show ?thesis using "1.IH" [OF taken nx r j] unfolding eq .
  qed
qed

lemma handle_free:
  assumes "length sessions < 2 ^ 32 - 1"
  shows "findHandle nxt nxt sessions \<noteq> None"
proof
  assume none: "findHandle nxt nxt sessions = None"
  have "k \<in> fst ` set sessions" if "k \<noteq> 0" for k
  proof -
    have "unat (k - nxt) \<le> unat (nxt - nxt - 1 :: u32)" by (simp add: word_le_nat_alt [symmetric])
    from no_handle [OF none this] that show ?thesis by (simp add: map_of_eq_None_iff)
  qed
  then have "UNIV - {0} \<subseteq> fst ` set sessions" by blast
  then have "card (UNIV - {0 :: u32}) \<le> card (fst ` set sessions)" by (rule card_mono [rotated]) simp
  also have "\<dots> \<le> length sessions" using card_image_le [of "set sessions" fst] card_length [of sessions] by simp
  finally show False using assms by (simp add: card_word)
qed

definition sessionsOf :: "'i \<Rightarrow> ('d, 'e, 'i) abi_manager \<Rightarrow> (u32 \<times> ('d, 'e) abi_session) list" where
  "sessionsOf i m = (case map_of (amInstances m) i of None \<Rightarrow> [] | Some state \<Rightarrow> aiSessions state)"

lemma caller_sessions:
  assumes "hostInstance host = Some i"
  obtains m1 state where "abiCaller host m = (m1, Inr (i, state))" "aiSessions state = sessionsOf i m" "amConfig m1 = amConfig m"
proof (cases "map_of (amInstances m) i")
  case None
  then show thesis using that assms by (simp add: abiCaller_def sessionsOf_def Let_def)
next
  case (Some state)
  then show thesis using that assms by (simp add: abiCaller_def sessionsOf_def)
qed

text \<open>C20: \<open>session_open\<close> succeeds below the limit, with a fresh handle. When the instance holds fewer
  sessions than configured, a session of the role can be made and the pointer is in range, the call stores a handle that is
  not zero and that no session of the instance has, the handle then names the new session, and the other
  handles of the instance name the sessions that they named before.\<close>

theorem session_open_fresh:
  assumes "hostInstance host = Some i" "length (sessionsOf i m) < unat (rcMaxSessions (amConfig m))"
    and "abiMemory (hostMemory host) (ucast p) 4 = Range a b"
    and "NewSession env (abiRole (ucast r)) (rcSession (amConfig m)) = Inr s"
  shows "\<exists>m' h. sessionOpen env num host [r, p] [x] m = Some (m', storeU32 (hostMemory host) a h, [num StatusOK]) \<and>
     h \<noteq> 0 \<and> map_of (sessionsOf i m) h = None \<and>
     map_of (sessionsOf i m') = (map_of (sessionsOf i m))(h \<mapsto> \<lparr>asSession = s, asCurrent = None\<rparr>)"
proof -
  obtain m1 state where c: "abiCaller host m = (m1, Inr (i, state))" "aiSessions state = sessionsOf i m" "amConfig m1 = amConfig m"
    using caller_sessions [OF assms(1)] .
  have max: "unat (rcMaxSessions (amConfig m)) < 2 ^ LENGTH(32)" by (rule unsigned_less)
  then have len: "length (sessionsOf i m) < 2 ^ 32 - 1" using assms(2) by simp
  obtain h where h: "findHandle (aiNext state) (aiNext state) (sessionsOf i m) = Some h" using handle_free [OF len] by blast
  have "\<not> rcMaxSessions (amConfig m) \<le> of_nat (length (sessionsOf i m))"
    using assms(2) len by (simp add: word_le_nat_alt unat_of_nat take_bit_nat_eq_self)
  then have opened: "sessionOpen env num host [r, p] [x] m =
      Some (putInstance i \<lparr>aiNext = h + 1, aiSessions = AList.update h \<lparr>asSession = s, asCurrent = None\<rparr> (sessionsOf i m)\<rparr> m1,
        storeU32 (hostMemory host) a h, [num StatusOK])"
    using c h assms(3,4) by (simp add: sessionOpen_def Let_def)
  have "map_of (sessionsOf i (putInstance i \<lparr>aiNext = h + 1, aiSessions = AList.update h \<lparr>asSession = s, asCurrent = None\<rparr> (sessionsOf i m)\<rparr> m1)) =
      (map_of (sessionsOf i m))(h \<mapsto> \<lparr>asSession = s, asCurrent = None\<rparr>)"
    by (simp add: sessionsOf_def putInstance_def update_conv' fun_eq_iff)
  then show ?thesis using opened found_handle [OF h] by blast
qed

text \<open>The last octets of a memory of 4 GiB cannot be named. In a memory of that size, the largest that WebAssembly
  permits without memory64, every range that ends with the memory passes the bounds check, but its end, cast to 32
  bits, is zero and the slice expression panics; \<open>session_open\<close> with a pointer to the last four
  octets is an example.\<close>

lemma abi_range_panics:
  assumes "length memory = 2 ^ 32" "unat p + unat l = 2 ^ 32"
  shows "abiMemory memory p l = RangePanic \<and>
     sessionOpen env num \<lparr>hostInstance = Some i, hostMemory = memory\<rparr> [r, 0xfffffffc] [x] m = None"
proof -
  have panic: "abiMemory memory q k = RangePanic" if "unat q + unat k = 2 ^ 32" for q k :: u32
  proof -
    have "unat (ucast q + ucast k :: u64) = 2 ^ 32" using that by (simp add: unat_stop)
    then have stop: "ucast q + ucast k = (2 ^ 32 :: u64)" by (simp add: word_unat_eq_iff)
    have "0 < q" using that unsigned_less [of k, where 'a = nat] by (cases "q = 0") (auto simp: word_gt_0)
    moreover have wrap: "(4294967296 :: u32) = 0" by (simp add: word_unat_eq_iff)
    ultimately show ?thesis using assms(1) by (simp add: abiMemory_def Let_def stop wrap)
  qed
  have "unat (0xfffffffc :: u32) + unat (4 :: u32) = 2 ^ 32" by simp
  from panic [OF this] have "abiMemory memory 0xfffffffc 4 = RangePanic" .
  moreover obtain m1 q where "abiCaller \<lparr>hostInstance = Some i, hostMemory = memory\<rparr> m = (m1, Inr q)"
    by (cases "map_of (amInstances m) i") (simp_all add: abiCaller_def Let_def)
  ultimately show ?thesis using panic [OF assms(2)] by (cases q) (simp add: sessionOpen_def Let_def)
qed

subsection \<open>Examples\<close>

definition demo_config :: register_config where
  "demo_config = \<lparr>rcSession = demo_session_limits, rcMaxSessions = 2\<rparr>"

definition demo_status :: "abi_status \<Rightarrow> u64" where
  "demo_status s = (if s = StatusOK then 0 else 1)"

definition demo_host :: "nat abi_host" where
  "demo_host = \<lparr>hostInstance = Some 7, hostMemory = replicate 64 0\<rparr>"

lemma demo_closed: "unat (slMaxClosedStreams (sessionNormalized (rcSession demo_config))) < 2 ^ 32 - 1"
  using demo_facts by (simp add: demo_config_def)

lemma demo_open:
  "isl (NewSession demo_env RoleClient (sessionNormalized demo_session_limits)) = False"
  by code_simp

theorem abi_calls_return_witness:
  "\<exists>m. abiRun demo_env demo_status
      [GuestCall imp_session_open demo_host [1, 8] [0], GuestCall imp_event_next demo_host [1, 16] [0], InstanceClosed (Some 7)]
      (newABIManager demo_config) = Some m \<and> manager_ok demo_env m"
  by (rule abi_calls_return [OF demo_closed]) (simp add: demo_host_def)

lemma demo_returns:
  obtains m memory results where "abiCall demo_env demo_status imp_session_open demo_host [1, 8] [0] (newABIManager demo_config) =
    Some (m, memory, results)"
  using guest.returns [OF new_manager_ok [OF demo_closed], of demo_host demo_env demo_status imp_session_open "[1, 8]" "[0]"]
  by (auto simp: demo_host_def)

theorem abi_memory_confined_witness:
  "\<exists>m memory results. abiCall demo_env demo_status imp_session_open demo_host [1, 8] [0] (newABIManager demo_config) =
     Some (m, memory, results) \<and> length memory = 64 \<and> memory ! 12 = 0"
proof -
  obtain m memory results where r: "abiCall demo_env demo_status imp_session_open demo_host [1, 8] [0] (newABIManager demo_config) =
      Some (m, memory, results)" by (rule demo_returns)
  then show ?thesis using abi_memory_confined [OF r] by (auto simp: demo_host_def)
qed

theorem abi_instances_isolated_witness:
  "\<exists>m memory results. abiCall demo_env demo_status imp_session_open demo_host [1, 8] [0] (newABIManager demo_config) =
     Some (m, memory, results) \<and> map_of (amInstances m) 9 = None"
proof -
  obtain m memory results where r: "abiCall demo_env demo_status imp_session_open demo_host [1, 8] [0] (newABIManager demo_config) =
      Some (m, memory, results)" by (rule demo_returns)
  have "map_of (amInstances (newABIManager demo_config :: (unit, unit, nat) abi_manager)) 9 = None"
    by (simp add: newABIManager_def Let_def)
  then show ?thesis using abi_instances_isolated [OF r, of 9] r by (simp add: demo_host_def)
qed

theorem session_open_fresh_witness:
  "\<exists>m h. sessionOpen demo_env demo_status demo_host [1, 8] [0] (newABIManager demo_config) =
     Some (m, storeU32 (replicate 64 0) 8 h, [0]) \<and> h \<noteq> 0"
proof -
  have role: "abiRole 1 = RoleClient" by (simp add: abiRole_def Let_def)
  have cfg: "amConfig (newABIManager demo_config :: (unit, unit, nat) abi_manager) =
      \<lparr>rcSession = sessionNormalized demo_session_limits, rcMaxSessions = 2\<rparr>" by (simp add: newABIManager_def demo_config_def)
  obtain s where s: "NewSession demo_env (abiRole (ucast (1 :: u64)))
      (rcSession (amConfig (newABIManager demo_config :: (unit, unit, nat) abi_manager))) = Inr s"
    using demo_open by (cases "NewSession demo_env RoleClient (sessionNormalized demo_session_limits)") (simp_all add: role cfg)
  have i: "hostInstance demo_host = Some 7" by (simp add: demo_host_def)
  have mem: "abiMemory (hostMemory demo_host) (ucast (8 :: u64)) 4 = Range 8 12" by (simp add: demo_host_def abiMemory_def)
  have len: "length (sessionsOf 7 (newABIManager demo_config :: (unit, unit, nat) abi_manager)) <
      unat (rcMaxSessions (amConfig (newABIManager demo_config :: (unit, unit, nat) abi_manager)))"
    by (simp add: cfg sessionsOf_def) (simp add: newABIManager_def Let_def)
  show ?thesis using session_open_fresh [OF i len mem s, of demo_status 0] by (auto simp: demo_host_def demo_status_def)
qed

subsection \<open>Header tables\<close>

text \<open>The field that an entry of 24 octets describes.\<close>

definition entryField :: "bytes \<Rightarrow> bytes \<Rightarrow> header_field" where
  "entryField memory entry =
     (let n = LEUint32 (take 4 entry); nl = LEUint32 (take 4 (drop 4 entry));
          v = LEUint32 (take 4 (drop 8 entry)); vl = LEUint32 (take 4 (drop 12 entry))
      in \<lparr>hfName = slice memory (unat n) (unat n + unat nl), hfValue = slice memory (unat v) (unat v + unat vl),
          hfSensitive = LEUint32 (take 4 (drop 16 entry)) AND 1 \<noteq> 0\<rparr>)"

definition fieldSize :: "header_field \<Rightarrow> nat" where
  "fieldSize f = length (hfName f) + length (hfValue f) + 32"

lemma readEntries_Suc:
  assumes "readEntries (Suc count) encoded memory limits n = Some (Inr fs)"
  obtains rest where "fs = entryField memory (take 24 encoded) # rest"
    "readEntries count (drop 24 encoded) memory limits (n + of_nat (fieldSize (entryField memory (take 24 encoded)))) = Some (Inr rest)"
    "length (hfName (entryField memory (take 24 encoded))) \<le> unat (MaxFieldBytes limits)"
    "length (hfValue (entryField memory (take 24 encoded))) \<le> unat (MaxFieldBytes limits)"
    "n + of_nat (fieldSize (entryField memory (take 24 encoded))) \<le> MaxHeaderListBytes limits"
proof -
  define e where "e = take 24 encoded"
  have eq: "(case (abiMemory memory (LEUint32 (take 4 e)) (LEUint32 (take 4 (drop 4 e))),
            abiMemory memory (LEUint32 (take 4 (drop 8 e))) (LEUint32 (take 4 (drop 12 e)))) of
        (RangePanic, _) \<Rightarrow> None
      | (_, RangePanic) \<Rightarrow> None
      | (Range a b, Range c d) \<Rightarrow>
          if unat (MaxFieldBytes limits) < b - a \<or> unat (MaxFieldBytes limits) < d - c
          then Some (Inl StatusInvalidArgument)
          else if MaxHeaderListBytes limits < n + (of_nat (b - a) + of_nat (d - c) + 32) then Some (Inl StatusResourceLimit)
          else
            (case readEntries count (drop 24 encoded) memory limits (n + (of_nat (b - a) + of_nat (d - c) + 32)) of
               Some (Inr rest) \<Rightarrow>
                 Some (Inr (\<lparr>hfName = slice memory a b, hfValue = slice memory c d,
                   hfSensitive = LEUint32 (take 4 (drop 16 e)) AND ABIFlagSensitive \<noteq> 0\<rparr> # rest))
             | r \<Rightarrow> r)
      | _ \<Rightarrow> Some (Inl StatusInvalidArgument)) = Some (Inr fs)"
    using assms unfolding readEntries.simps Let_def e_def .
  obtain a b where n: "abiMemory memory (LEUint32 (take 4 e)) (LEUint32 (take 4 (drop 4 e))) = Range a b"
    using eq by (cases "abiMemory memory (LEUint32 (take 4 e)) (LEUint32 (take 4 (drop 4 e)))") (auto split: mem_range.splits)
  obtain c d where v: "abiMemory memory (LEUint32 (take 4 (drop 8 e))) (LEUint32 (take 4 (drop 12 e))) = Range c d"
    using eq n by (cases "abiMemory memory (LEUint32 (take 4 (drop 8 e))) (LEUint32 (take 4 (drop 12 e)))") auto
  note rn = range_bounds [OF n] and rv = range_bounds [OF v]
  have f: "entryField memory e = \<lparr>hfName = slice memory a b, hfValue = slice memory c d,
      hfSensitive = LEUint32 (take 4 (drop 16 e)) AND 1 \<noteq> 0\<rparr>" using rn rv by (simp add: entryField_def Let_def)
  have len: "length (slice memory a b) = b - a" "length (slice memory c d) = d - c" using rn rv by simp_all
  have size: "fieldSize (entryField memory e) = (b - a) + (d - c) + 32" using len by (simp add: fieldSize_def f)
  obtain rest where r: "readEntries count (drop 24 encoded) memory limits (n + (of_nat (b - a) + of_nat (d - c) + 32)) = Some (Inr rest)"
      "fs = entryField memory e # rest" "\<not> (unat (MaxFieldBytes limits) < b - a \<or> unat (MaxFieldBytes limits) < d - c)"
      "\<not> MaxHeaderListBytes limits < n + (of_nat (b - a) + of_nat (d - c) + 32)"
    using eq by (auto simp: n v f split: if_splits option.splits sum.splits)
  have sum: "n + of_nat (fieldSize (entryField memory e)) = n + (of_nat (b - a) + of_nat (d - c) + 32)" by (simp only: size of_nat_add of_nat_numeral)
  have "length (hfName (entryField memory e)) \<le> unat (MaxFieldBytes limits)" "length (hfValue (entryField memory e)) \<le> unat (MaxFieldBytes limits)"
    using r(3) len by (simp_all add: f)
  then show thesis using that [unfolded e_def [symmetric], OF r(2)] r(1,4) by (simp add: sum not_less)
qed

lemma readEntries_sound:
  assumes "readEntries count encoded memory limits n = Some (Inr fs)" "unat n + count * (2 ^ 33 + 32) < 2 ^ 64"
    and "unat n \<le> unat (MaxHeaderListBytes limits)"
  shows "fs = map (\<lambda>k. entryField memory (take 24 (drop (24 * k) encoded))) [0..<count] \<and>
     (\<forall>f \<in> set fs. length (hfName f) \<le> unat (MaxFieldBytes limits) \<and> length (hfValue f) \<le> unat (MaxFieldBytes limits)) \<and>
     unat n + sum_list (map fieldSize fs) \<le> unat (MaxHeaderListBytes limits)"
  using assms
proof (induction count arbitrary: encoded n fs)
  case (Suc count)
  let ?f = "entryField memory (take 24 encoded)"
  obtain rest where r: "fs = ?f # rest" "readEntries count (drop 24 encoded) memory limits (n + of_nat (fieldSize ?f)) = Some (Inr rest)"
    "length (hfName ?f) \<le> unat (MaxFieldBytes limits)" "length (hfValue ?f) \<le> unat (MaxFieldBytes limits)"
    "n + of_nat (fieldSize ?f) \<le> MaxHeaderListBytes limits"
    using readEntries_Suc [OF Suc.prems(1)] .
  have "unat (MaxFieldBytes limits) < 2 ^ LENGTH(32)" by (rule unsigned_less)
  then have "fieldSize ?f \<le> 2 ^ 33 + 32" using r(3,4) by (simp add: fieldSize_def)
  moreover from this have n: "unat (n + of_nat (fieldSize ?f)) = unat n + fieldSize ?f"
    using Suc.prems(2) by (intro unat_plus_of_nat) simp
  ultimately have small: "unat (n + of_nat (fieldSize ?f)) + count * (2 ^ 33 + 32) < 2 ^ 64" using Suc.prems(2) by simp
  have "unat (n + of_nat (fieldSize ?f)) \<le> unat (MaxHeaderListBytes limits)" using r(5) by (simp add: word_le_nat_alt)
  note ih = Suc.IH [OF r(2) small this]
  have shift: "map g [0..<Suc count] = g 0 # map (\<lambda>k. g (Suc k)) [0..<count]" for g :: "nat \<Rightarrow> header_field"
    by (simp add: upt_conv_Cons map_Suc_upt [symmetric] del: upt_Suc)
  have "rest = map (\<lambda>k. entryField memory (take 24 (drop (24 * Suc k) encoded))) [0..<count]"
    using ih by (simp add: add.commute)
  then have "fs = map (\<lambda>k. entryField memory (take 24 (drop (24 * k) encoded))) [0..<Suc count]"
    by (simp add: r(1) shift del: upt_Suc)
  moreover have "unat n + sum_list (map fieldSize fs) \<le> unat (MaxHeaderListBytes limits)"
    using conjunct2 [OF conjunct2 [OF ih]] n by (simp add: r(1))
  moreover have "\<forall>f \<in> set fs. length (hfName f) \<le> unat (MaxFieldBytes limits) \<and> length (hfValue f) \<le> unat (MaxFieldBytes limits)"
    using conjunct1 [OF conjunct2 [OF ih]] r(3,4) by (simp add: r(1))
  ultimately show ?case by blast
qed simp

text \<open>C21: A header table is read as the guest laid it out. When the table is accepted, it lies within the memory, the
  fields are those that its entries describe, in order, and they are within the limits of the session: their
  number, the length of each name and value, and the size of the list, which does not wrap.\<close>

theorem abi_headers_exact:
  assumes "readABIHeaders memory pointer count limits = Some (Inr fs)"
  shows "unat pointer + 24 * unat count \<le> length memory \<and>
     fs = map (\<lambda>k. entryField memory (slice memory (unat pointer + 24 * k) (unat pointer + 24 * k + 24))) [0..<unat count] \<and>
     unat count \<le> unat (hlMaxHeaders (headerNormalized limits)) \<and>
     (\<forall>f \<in> set fs. length (hfName f) \<le> unat (MaxFieldBytes (headerNormalized limits)) \<and>
        length (hfValue f) \<le> unat (MaxFieldBytes (headerNormalized limits))) \<and>
     sum_list (map fieldSize fs) \<le> unat (MaxHeaderListBytes (headerNormalized limits))"
proof -
  define l where "l = headerNormalized limits"
  obtain a b where r: "abiMemory memory pointer (count * 24) = Range a b" "\<not> hlMaxHeaders l < count"
      "\<not> (0xffffffff :: u64) < ucast count * 24" "readEntries (unat count) (slice memory a b) memory l 0 = Some (Inr fs)"
    using assms by (auto simp: readABIHeaders_def Let_def l_def split: if_splits mem_range.splits)
  have c: "unat count < 2 ^ LENGTH(32)" by (rule unsigned_less)
  then have "unat (ucast count * 24 :: u64) = unat count * 24"
    by (simp add: unat_word_ariths unsigned_ucast_eq take_bit_nat_eq_self)
  then have small: "unat count * 24 < 2 ^ 32" using r(3) by (simp add: word_less_nat_alt not_less)
  then have mul: "unat (count * 24) = 24 * unat count" by (simp add: unat_word_ariths mult.commute)
  note b = range_bounds [OF r(1), unfolded mul]
  have z: "unat (0 :: u64) + unat count * (2 ^ 33 + 32) < 2 ^ 64" "unat (0 :: u64) \<le> unat (MaxHeaderListBytes l)" using small by simp_all
  note rs = readEntries_sound [OF r(4) z]
  have s: "fs = map (\<lambda>k. entryField memory (take 24 (drop (24 * k) (slice memory a b)))) [0..<unat count]"
    "\<forall>f \<in> set fs. length (hfName f) \<le> unat (MaxFieldBytes l) \<and> length (hfValue f) \<le> unat (MaxFieldBytes l)"
    by (rule conjunct1 [OF rs], rule conjunct1 [OF conjunct2 [OF rs]])
  have size: "sum_list (map fieldSize fs) \<le> unat (MaxHeaderListBytes l)" using conjunct2 [OF conjunct2 [OF rs]] by simp
  have "take 24 (drop (24 * k) (slice memory a b)) = slice memory (unat pointer + 24 * k) (unat pointer + 24 * k + 24)"
    if "k < unat count" for k
  proof -
    have "24 * Suc k \<le> 24 * unat count" using that by (intro mult_le_mono2) simp
    then have "24 \<le> 24 * unat count - 24 * k" by simp
    then show ?thesis using b by (simp add: drop_take min_absorb1 add.commute)
  qed
  then have "fs = map (\<lambda>k. entryField memory (slice memory (unat pointer + 24 * k) (unat pointer + 24 * k + 24))) [0..<unat count]"
    unfolding s(1) by (intro map_cong) simp_all
  then show ?thesis using b s(2) size r(2) unfolding l_def by (simp add: word_le_nat_alt not_less)
qed

definition demo_table :: bytes where
  "demo_table = LEPutUint32 24 @ LEPutUint32 1 @ LEPutUint32 25 @ LEPutUint32 2 @ LEPutUint32 1 @ LEPutUint32 0 @ lit ''abc''"

lemma demo_table_read:
  "readABIHeaders demo_table 0 1 demo_header_limits = Some (Inr [\<lparr>hfName = lit ''a'', hfValue = lit ''bc'', hfSensitive = True\<rparr>])"
  by code_simp

theorem abi_headers_exact_witness:
  "[\<lparr>hfName = lit ''a'', hfValue = lit ''bc'', hfSensitive = True\<rparr>] =
     map (\<lambda>k. entryField demo_table (slice demo_table (24 * k) (24 * k + 24))) [0..<1]"
  using abi_headers_exact [OF demo_table_read] by simp

subsection \<open>Results in the memory\<close>

lemma lookup_again:
  assumes "abiLookup host h m = (m1, Inr a)"
  shows "\<exists>m2. abiLookup host h (storeSession host h b m1) = (m2, Inr b)"
proof -
  obtain i state where s: "abiCaller host m = (m1, Inr (i, state))" "map_of (aiSessions state) h = Some a"
    "storeSession host h b m1 = putInstance i (state\<lparr>aiSessions := AList.update h b (aiSessions state)\<rparr>) m1"
    by (rule stored [OF assms])
  have "map_of (amInstances (storeSession host h b m1)) i = Some (state\<lparr>aiSessions := AList.update h b (aiSessions state)\<rparr>)"
    by (simp add: s(3) putInstance_def update_conv')
  then show ?thesis using caller_found(1) [OF s(1)] by (simp add: abiLookup_def abiCaller_def update_conv')
qed

lemma slice_outside:
  assumes "a + length bs \<le> length memory" "y \<le> a \<or> a + length bs \<le> x"
  shows "slice (copy_at memory a bs) x y = slice memory x y"
proof (rule nth_equalityI)
  fix k
  assume "k < length (slice (copy_at memory a bs) x y)"
  then have k: "x + k < length memory" "x + k < y" by (simp_all add: less_diff_conv add.commute)
  have "copy_at memory a bs ! (x + k) = memory ! (x + k)" by (rule copy_at_outside [OF assms(1)]) (use assms(2) k in auto)
  then show "slice (copy_at memory a bs) x y ! k = slice memory x y ! k" using k by simp
qed simp

lemma slice_stored:
  assumes "abiMemory memory p l = Range x y" "length memory' = length memory"
  shows "slice (storeBytes memory' x y src) x (x + min (y - x) (length src)) = take (min (y - x) (length src)) src"
  using slice_copy_at [of x "take (y - x) src" memory'] range_bounds(2,3,4) [OF assms(1)] range_bounds(1) [OF assms(1)] assms(2)
  by (simp add: storeBytes_def min.commute [of "unat l"]) (simp add: min_def)

lemma length_store [simp]: "length (storeBytes memory a b src) = length memory"
  by (simp add: storeBytes_def)

text \<open>C22: \<open>session_output\<close> hands the output to the guest. When the handle names a session with output and the two ranges
  are in the memory and apart, the call copies as much of the output as the range holds, stores how much that is, and
  removes exactly that from the session.\<close>

theorem session_output_drains:
  assumes "abiLookup host (ucast h) m = (m1, Inr a)" "sOutput (asSession a) \<noteq> []"
    and "abiMemory (hostMemory host) (ucast d) (ucast l) = Range x y" "abiMemory (hostMemory host) (ucast w) 4 = Range u v"
    and "y \<le> u \<or> v \<le> x" "n = min (y - x) (length (sOutput (asSession a)))"
  shows "\<exists>m' memory' m2 a'. sessionOutput num host [h, d, l, w] [r] m = Some (m', memory', [num StatusOK]) \<and>
     slice memory' x (x + n) = take n (sOutput (asSession a)) \<and> slice memory' u v = LEPutUint32 (of_nat n) \<and>
     abiLookup host (ucast h) m' = (m2, Inr a') \<and> sOutput (asSession a') = drop n (sOutput (asSession a))"
proof -
  define a' where "a' = a\<lparr>asSession := fst (ConsumeOutput (int n) (asSession a))\<rparr>"
  define mem where "mem = storeBytes (hostMemory host) x y (sOutput (asSession a))"
  have call: "sessionOutput num host [h, d, l, w] [r] m =
      Some (storeSession host (ucast h) a' m1, storeU32 mem u (of_nat n), [num StatusOK])"
    using assms(1-4,6) by (simp add: sessionOutput_def Let_def a'_def mem_def numeral_2_eq_2 numeral_3_eq_3)
  have len: "length mem = length (hostMemory host)" by (simp add: mem_def)
  note rx = range_bounds [OF assms(3)] and ru = range_bounds [OF assms(4)]
  have u: "v = u + 4" "u + length (LEPutUint32 (of_nat n)) \<le> length mem" using ru len by simp_all
  have "x + n \<le> u \<or> u + length (LEPutUint32 (of_nat n)) \<le> x" using assms(5,6) u(1) rx by auto
  then have "slice (storeU32 mem u (of_nat n)) x (x + n) = slice mem x (x + n)" using u(2) by (intro slice_outside)
  also have "\<dots> = take n (sOutput (asSession a))" using slice_stored [OF assms(3) refl] by (simp add: mem_def assms(6))
  finally have out: "slice (storeU32 mem u (of_nat n)) x (x + n) = take n (sOutput (asSession a))" .
  have word: "slice (storeU32 mem u (of_nat n)) u v = LEPutUint32 (of_nat n)" using slice_copy_at [OF u(2)] u(1) by simp
  have "sOutput (asSession a') = drop n (sOutput (asSession a))" using assms(6) by (simp add: a'_def ConsumeOutput_def)
  moreover obtain m2 where "abiLookup host (ucast h) (storeSession host (ucast h) a' m1) = (m2, Inr a')"
    using lookup_again [OF assms(1)] by blast
  ultimately show ?thesis using call out word by blast
qed

definition demo_manager :: "(unit, unit, nat) abi_manager" where
  "demo_manager = (newABIManager demo_config)\<lparr>amInstances :=
     [(7, \<lparr>aiNext = 2, aiSessions = [(1, \<lparr>asSession = demo_client, asCurrent = None\<rparr>)]\<rparr>)]\<rparr>"

lemma demo_output: "24 \<le> length (sOutput demo_client) \<and> take 4 (sOutput demo_client) = lit ''PRI ''"
  by code_simp

theorem session_output_drains_witness:
  "\<exists>m memory. sessionOutput demo_status demo_host [1, 16, 4, 8] [0] demo_manager = Some (m, memory, [0]) \<and>
     slice memory 16 20 = lit ''PRI '' \<and> slice memory 8 12 = LEPutUint32 4"
proof -
  have l: "abiLookup demo_host (ucast (1 :: u64)) demo_manager = (demo_manager, Inr \<lparr>asSession = demo_client, asCurrent = None\<rparr>)"
    by (simp add: abiLookup_def abiCaller_def demo_host_def demo_manager_def)
  have x: "abiMemory (hostMemory demo_host) (ucast (16 :: u64)) (ucast (4 :: u64)) = Range 16 20"
    "abiMemory (hostMemory demo_host) (ucast (8 :: u64)) 4 = Range 8 12" by (simp_all add: demo_host_def abiMemory_def)
  have o: "sOutput (asSession \<lparr>asSession = demo_client, asCurrent = None\<rparr>) \<noteq> []"
    "4 = min (20 - 16) (length (sOutput (asSession \<lparr>asSession = demo_client, asCurrent = None\<rparr>)))" using demo_output by auto
  show ?thesis using session_output_drains [OF l o(1) x _ o(2), of demo_status 0] demo_output by (auto simp: demo_status_def)
qed

end
