(* ===== verification/Spec2Isabelle.thy ===== *)
theory Spec2Isabelle
  imports Http1_Fragments Http1_Writer H2_Abi_Props
begin

text \<open>
  A verification development of wago-http: strict, bounded HTTP/1 and HTTP/2 engines for the wago WebAssembly
  runtime (the Go module under src/).

  \<^bold>\<open>The program.\<close> The package \<open>http\<close> has an incremental HTTP/1 parser (src/http/parser.go), which calls the functions of
  a callback table, and a request writer and synchronous client over it (src/http/request/request.go). The package
  \<open>http2\<close> has an incremental frame parser and a frame writer (src/http2/frame.go), a bounded wrapper around the HPACK
  codec of golang.org/x/net (src/http2/hpack.go), the connection engine, or session, which installs its handlers in the frame
  parser and queues output and events (src/http2/session.go), and the functions that a WebAssembly guest imports
  (src/http2/abi.go, bound in src/http2/http2.go), which hold the guest's sessions by handle and work on the guest's memory.

  \<^bold>\<open>How the code is modelled.\<close> A Go structure is a record with one field per field of the structure, integers are words of
  their width, and an enumeration is a datatype. A method is a function on the record that returns the new record and the
  results. A slice that a loop reads is the list that remains to be read, so that \<open>n\<close> of the source is the length that is gone;
  a map is an association list with distinct keys, and the order in which Go ranges over a map is a parameter. A loop that is
  not structural has fuel, and \<open>None\<close>, or an error of its own, stands for a loop that does not end or for a panic; the
  theorems show that neither happens, except where a finding says otherwise. Code of the caller is a parameter: callbacks
  are functions of the history of calls (HTTP/1) or of the client's state (HTTP/2) that also say whether they call the parser
  again; a writer or a stream is a function on its own state. So are the HPACK codec (\<open>codec\<close>), the numbers of the status
  codes of wago-net, and the host module of a guest call.

  \<^bold>\<open>HTTP/1 parser, src/http/parser.go.\<close> \<open>Http1_Types\<close> has the data, \<open>Http1_Lexical\<close> the octet classes and IP literals,
  \<open>Http1_Core\<close> failures, callbacks, budgets and message boundaries, \<open>Http1_Match\<close> the candidate masks of method and field names,
  \<open>Http1_Fields\<close> the automata of the field values, \<open>Http1_Target\<close> those of the target and of chunk extensions, and
  \<open>Http1_Parser\<close> one definition per state of the main loop (\<open>stepStart\<close> to \<open>stepChunkBodyLF\<close>, dispatched by \<open>step\<close>), the loop
  and the public operations. \<open>Http1_Invariant\<close>, \<open>Http1_Steps\<close> and \<open>Http1_Iteration\<close> show that every iteration keeps the invariant
  and makes progress; the inner loops share the locale \<open>span_loop\<close>. \<open>Http1_Config\<close> shows what a parse never changes and
  \<open>Http1_Pause\<close> where \<open>ParseOne\<close> stops. \<open>Http1_Names\<close> shows that the masks compute an exact comparison with the tables of names
  (locale \<open>mask_matcher\<close>, for methods and for fields). \<open>Http1_Safety\<close> concludes for every parser that a client can reach:
  the invariant, that every call returns, and that a failure is final. The fuel of the loop is two iterations per octet and
  one; it is enough because four states change without reading and are followed by one that reads. \<open>Http1_Quiet\<close>,
  \<open>Http1_Resume\<close> and \<open>Http1_Fragments\<close> show that the result does not depend on how the input is cut, for callbacks that keep
  their contract.

  \<^bold>\<open>Request writer and client, src/http/request/request.go.\<close> \<open>Http1_Request\<close> models validation, the encoders, \<open>Write\<close> over any
  writer, and the synchronous exchange over any stream. \<open>Http1_Writer\<close> shows that validation is parsing, that the encoders
  agree, that the decimal loops are exact, and what reaches the wire; a last lemma shows a request whose target makes
  its encoding two requests.

  \<^bold>\<open>Frames, src/http2/frame.go.\<close> \<open>H2_Frame\<close> models the parser and \<open>AppendFrame\<close>. \<open>H2_Frame_Inv\<close> and \<open>H2_Frame_Safety\<close> show the
  invariant inside a payload, that the loop ends within one iteration per octet, that every sequence of calls
  returns, and that a failure is final. \<open>H2_Frame_Spec\<close> has the declarative reading of whole frames, \<open>readFrames\<close>, and the
  refinement (locale \<open>quiet_callbacks\<close>). \<open>H2_Frame_Client\<close> is the contract of a client: what every callback keeps, every
  call of the parser keeps (locale \<open>frame_client\<close>). The callback table, which does not change after \<open>Init\<close>, is an argument
  of the operations; the initial table that \<open>Init\<close> stores is therefore not a part of the parser.

  \<^bold>\<open>Sessions, src/http2/hpack.go and src/http2/session.go.\<close> \<open>H2_Hpack\<close> models the header decoder and bounds what a block
  yields. \<open>H2_Headers\<close> has the inspection and validation of field sections, \<open>H2_Session\<close> the session's state, its queues, the
  ends of streams and the encoding of header blocks, \<open>H2_Inbound\<close> the handlers of frames, and \<open>H2_Api\<close> the operations of the owner.
  \<open>H2_Session_Inv\<close>, \<open>H2_Session_Frames\<close> and \<open>H2_Session_Calls\<close> show that every handler and every operation keeps the invariant of
  the session and returns; the handlers are covered by an interpretation of \<open>frame_client\<close>. \<open>H2_Session_Streams\<close> shows that the
  states of streams change only along the transitions of RFC 9113 (inductive relation \<open>stream_step\<close>), again with \<open>frame_client\<close>.
  \<open>H2_Session_Wire\<close> shows that header blocks are put on the wire as a whole and are read back by a frame parser, and
  \<open>H2_Session_Props\<close> collects what the owner relies on. \<open>Feed\<close> has no fuel of its own: each of its iterations consumes an octet.
  The loop that cuts a block into frames has the length of the block and two as its fuel, one for the first frame and one
  for the test that ends the loop. The hypothesis that the limit on remembered closed streams is below 2^32 - 1 excludes the one
  value for which the length of the list of closed streams, for a moment one more than the limit, wraps around when the source
  converts it to 32 bits; every other limit is arbitrary. \<open>PingSession\<close> takes any octets; the source has eight.

  \<^bold>\<open>Guest functions, src/http2/abi.go and src/http2/http2.go.\<close> \<open>H2_Abi\<close> has one definition per import and the dispatch \<open>abiCall\<close>;
  a call is one step, and the locks, which only order calls, are left out. \<open>H2_Abi_Contract\<close> states what a call may do to the
  manager (inductive relation \<open>abi_step\<close>) and to the memory, shows it for every import, and interprets the locale
  \<open>guest_import\<close> on the dispatch. \<open>H2_Abi_Props\<close> shows that calls return, store only in the ranges they name, and touch only
  their own instance, that handles are fresh, that header tables are read exactly and that output is handed over in order. A
  lemma shows the panic of a range that ends with a memory of 4 GiB, which is why the memories are smaller elsewhere.

  \<^bold>\<open>What is not modelled.\<close> The HTTP/2 client, its transport and its pool (src/http2/request) and the server
  (src/http2/server, src/cmd/h2spec-server) run sessions over network connections with goroutines, channels, contexts and
  deadlines; the registration of the modules with the host (src/internal, src/register and the packages that only
  register) is glue to the wago runtime, which is not part of the sources. Calls on a nil session, the locks of the guest
  functions and the contents of the HPACK tables are not modelled either. The texts of
  the result codes and frame codes are modelled for the codes that the sources declare; other numbers are not values of the
  datatypes.
\<close>

end
